(* ===== verification/Prelude.thy ===== *)
theory Prelude
  imports Main
begin

text \<open>
  Shared vocabulary of the development: the types every component names, the
  part of Go's strings package the service uses (on ASCII strings, one char per
  byte), results with an error value, and the few generic list lemmas that the
  component proofs rest on.  Tables of the database are lists of records; the
  operations on them (first matching row, update where, delete where, upsert)
  are here with the lemmas that say what they keep.
\<close>

named_theorems str_simps \<open>string functions of the Go standard library\<close>
named_theorems sql_simps \<open>facts about tables\<close>

section \<open>Types\<close>

type_synonym time = int          \<comment> \<open>nanoseconds\<close>
type_synonym uuid = nat          \<comment> \<open>0 is uuid.Nil\<close>
type_synonym product = string

definition uuid_nil :: uuid where "uuid_nil = 0"

definition second :: time where "second = 1000000000"
definition minute :: time where "minute = 60 * second"
definition hour :: time where "hour = 60 * minute"

section \<open>Results\<close>

text \<open>A Go call returning (value, error) is a sum: Inl the error, Inr the value.\<close>

fun rbind :: "'e + 'a \<Rightarrow> ('a \<Rightarrow> 'e + 'b) \<Rightarrow> 'e + 'b" where
  "rbind (Inl e) f = Inl e"
| "rbind (Inr a) f = f a"

fun is_ok :: "'e + 'a \<Rightarrow> bool" where
  "is_ok (Inl e) = False"
| "is_ok (Inr a) = True"

lemma rbind_Inr_iff [simp]: "rbind r f = Inr b \<longleftrightarrow> (\<exists>a. r = Inr a \<and> f a = Inr b)"
  by (cases r) auto

lemma rbind_Inl_iff: "rbind r f = Inl e \<longleftrightarrow> r = Inl e \<or> (\<exists>a. r = Inr a \<and> f a = Inl e)"
  by (cases r) auto

lemma is_ok_iff: "is_ok r \<longleftrightarrow> (\<exists>a. r = Inr a)"
  by (cases r) auto

section \<open>Strings\<close>

definition in_range :: "nat \<Rightarrow> nat \<Rightarrow> char \<Rightarrow> bool" where
  "in_range lo hi c = (lo \<le> of_char c \<and> of_char c \<le> (hi :: nat))"

definition is_upper :: "char \<Rightarrow> bool" where "is_upper c = in_range 65 90 c"
definition is_lower :: "char \<Rightarrow> bool" where "is_lower c = in_range 97 122 c"
definition is_digit :: "char \<Rightarrow> bool" where "is_digit c = in_range 48 57 c"
definition is_alnum :: "char \<Rightarrow> bool" where
  "is_alnum c = (is_upper c \<or> is_lower c \<or> is_digit c)"
definition is_space :: "char \<Rightarrow> bool" where
  "is_space c = (in_range 9 13 c \<or> of_char c = (32 :: nat))"

definition upper_char :: "char \<Rightarrow> char" where
  "upper_char c = (if is_lower c then char_of (of_char c - (32 :: nat)) else c)"
definition lower_char :: "char \<Rightarrow> char" where
  "lower_char c = (if is_upper c then char_of (of_char c + (32 :: nat)) else c)"

definition to_upper :: "string \<Rightarrow> string" where "to_upper = map upper_char"
definition to_lower :: "string \<Rightarrow> string" where "to_lower = map lower_char"

definition trim_space :: "string \<Rightarrow> string" where
  "trim_space s = rev (dropWhile is_space (rev (dropWhile is_space s)))"

fun has_prefix :: "string \<Rightarrow> string \<Rightarrow> bool" where
  "has_prefix s [] = True"
| "has_prefix [] (c # cs) = False"
| "has_prefix (x # xs) (c # cs) = (x = c \<and> has_prefix xs cs)"

definition has_suffix :: "string \<Rightarrow> string \<Rightarrow> bool" where
  "has_suffix s suf = has_prefix (rev s) (rev suf)"

text \<open>strings.CutPrefix and strings.TrimPrefix.\<close>

definition cut_prefix :: "string \<Rightarrow> string \<Rightarrow> string \<times> bool" where
  "cut_prefix s p = (if has_prefix s p then (drop (length p) s, True) else (s, False))"

definition trim_prefix :: "string \<Rightarrow> string \<Rightarrow> string" where
  "trim_prefix s p = fst (cut_prefix s p)"

text \<open>strings.Cut at a one-byte separator: before, after and whether it was found.\<close>

fun cut :: "char \<Rightarrow> string \<Rightarrow> string \<times> string \<times> bool" where
  "cut sep [] = ([], [], False)"
| "cut sep (c # cs) =
     (if c = sep then ([], cs, True)
      else case cut sep cs of (b, a, f) \<Rightarrow> (c # b, a, f))"

text \<open>strings.Split at a one-byte separator, strings.Join and strings.Fields.\<close>

fun split_on :: "char \<Rightarrow> string \<Rightarrow> string list" where
  "split_on sep [] = [[]]"
| "split_on sep (c # cs) =
     (if c = sep then [] # split_on sep cs
      else case split_on sep cs of [] \<Rightarrow> [[c]] | w # ws \<Rightarrow> (c # w) # ws)"

fun join :: "string \<Rightarrow> string list \<Rightarrow> string" where
  "join sep [] = []"
| "join sep [w] = w"
| "join sep (w # v # ws) = w @ sep @ join sep (v # ws)"

fun fields_aux :: "string \<Rightarrow> string \<Rightarrow> string list" where
  "fields_aux acc [] = (if acc = [] then [] else [rev acc])"
| "fields_aux acc (c # cs) =
     (if is_space c then (if acc = [] then fields_aux [] cs else rev acc # fields_aux [] cs)
      else fields_aux (c # acc) cs)"

definition fields :: "string \<Rightarrow> string list" where "fields = fields_aux []"

definition replace_char :: "char \<Rightarrow> char \<Rightarrow> string \<Rightarrow> string" where
  "replace_char a b = map (\<lambda>c. if c = a then b else c)"

lemma has_prefix_append [simp, str_simps]: "has_prefix (p @ s) p"
  by (induction p) auto

lemma has_prefix_iff: "has_prefix s p \<longleftrightarrow> (\<exists>t. s = p @ t)"
  by (induction s p rule: has_prefix.induct) auto

lemma trim_prefix_append [simp, str_simps]: "trim_prefix (p @ s) p = s"
  by (simp add: trim_prefix_def cut_prefix_def)

lemma cut_none [str_simps]: "sep \<notin> set s \<Longrightarrow> cut sep s = (s, [], False)"
  by (induction s) auto

lemma cut_append [str_simps]: "sep \<notin> set b \<Longrightarrow> cut sep (b @ sep # a) = (b, a, True)"
  by (induction b) auto

lemma cut_rebuild: "cut sep s = (b, a, True) \<Longrightarrow> s = b @ sep # a"
  by (induction s arbitrary: b) (auto split: if_splits prod.splits)

lemma cut_before: "cut sep s = (b, a, f) \<Longrightarrow> sep \<notin> set b"
  by (induction s arbitrary: b) (auto split: if_splits prod.splits)

lemma split_on_ne [simp]: "split_on sep s \<noteq> []"
  by (induction s) (auto split: list.splits)

lemma join_Cons: "ws \<noteq> [] \<Longrightarrow> join sep (w # ws) = w @ sep @ join sep ws"
  by (cases ws) auto

lemma split_on_none [str_simps]: "sep \<notin> set s \<Longrightarrow> split_on sep s = [s]"
  by (induction s) auto

lemma split_on_append [str_simps]:
  "sep \<notin> set w \<Longrightarrow> split_on sep (w @ sep # s) = w # split_on sep s"
  by (induction w) auto

lemma split_join [str_simps]:
  "ws \<noteq> [] \<Longrightarrow> \<forall>w \<in> set ws. sep \<notin> set w \<Longrightarrow> split_on sep (join [sep] ws) = ws"
proof (induction ws)
  case (Cons w ws)
  then show ?case
    by (cases "ws = []") (simp_all add: join_Cons split_on_none split_on_append)
qed simp

lemma is_upper_lower_char [simp]: "is_upper (upper_char c) \<longleftrightarrow> is_upper c \<or> is_lower c"
  by (auto simp: upper_char_def is_upper_def is_lower_def in_range_def)

lemma fields_aux_nonempty: "w \<in> set (fields_aux acc s) \<Longrightarrow> w \<noteq> []"
  by (induction acc s rule: fields_aux.induct) (auto split: if_splits)

lemma fields_nonempty: "w \<in> set (fields s) \<Longrightarrow> w \<noteq> []"
  by (simp add: fields_def fields_aux_nonempty)

lemma fields_aux_chars: "w \<in> set (fields_aux acc s) \<Longrightarrow> set w \<subseteq> set acc \<union> (set s \<inter> {c. \<not> is_space c})"
  by (induction acc s rule: fields_aux.induct) (auto split: if_splits; fastforce)+

lemma fields_chars: "w \<in> set (fields s) \<Longrightarrow> set w \<subseteq> set s \<inter> {c. \<not> is_space c}"
  using fields_aux_chars [of w "[]" s] by (auto simp: fields_def)

lemma dropWhile_fixed: "(xs \<noteq> [] \<Longrightarrow> \<not> p (hd xs)) \<Longrightarrow> dropWhile p xs = xs"
  by (cases xs) auto

lemma trim_space_idem [simp, str_simps]: "trim_space (trim_space x) = trim_space x"
proof -
  define y where "y = dropWhile is_space x"
  define z where "z = rev (dropWhile is_space (rev y))"
  have "rev y = takeWhile is_space (rev y) @ rev z" by (simp add: z_def)
  then have y: "y = z @ rev (takeWhile is_space (rev y))"
    by (metis rev_append rev_rev_ident)
  have "dropWhile is_space z = z"
  proof (rule dropWhile_fixed)
    assume "z \<noteq> []"
    then have "hd z = hd y" "y \<noteq> []" using y by (metis hd_append2, metis append_is_Nil_conv)
    then show "\<not> is_space (hd z)" using hd_dropWhile [of is_space x] by (simp add: y_def)
  qed
  moreover have "dropWhile is_space (rev z) = rev z"
    by (rule dropWhile_fixed) (use hd_dropWhile [of is_space "rev y"] in \<open>simp add: z_def\<close>)
  ultimately show ?thesis
    by (simp add: trim_space_def z_def [symmetric] y_def [symmetric])
qed

section \<open>Lists\<close>

text \<open>The first-occurrence deduplication the service's loops with a seen map perform.\<close>

fun dedupe_from :: "'a list \<Rightarrow> 'a list \<Rightarrow> 'a list" where
  "dedupe_from seen [] = []"
| "dedupe_from seen (x # xs) =
     (if x \<in> set seen then dedupe_from seen xs else x # dedupe_from (x # seen) xs)"

lemma set_dedupe_from: "set (dedupe_from seen xs) = set xs - set seen"
  by (induction seen xs rule: dedupe_from.induct) auto

lemma distinct_dedupe_from: "distinct (dedupe_from seen xs)"
  by (induction seen xs rule: dedupe_from.induct) (auto simp: set_dedupe_from)

lemma dedupe_from_distinct:
  "distinct xs \<Longrightarrow> set xs \<inter> set seen = {} \<Longrightarrow> dedupe_from seen xs = xs"
  by (induction seen xs rule: dedupe_from.induct) auto

lemma filter_shorter:
  assumes "x \<in> set t" "P x" "\<not> Q x" "\<And>y. Q y \<Longrightarrow> P y"
  shows "Suc (length (filter Q t)) \<le> length (filter P t)"
proof -
  have "filter Q t = filter Q (filter P t)"
    using assms(4) by (auto simp: conj_absorb intro!: filter_cong) 
  moreover have "x \<in> set (filter P t)" using assms by simp
  ultimately show ?thesis
    using length_filter_less [of x "filter P t" Q] assms(3) by simp
qed

lemma filter_no_longer: "(\<And>y. Q y \<Longrightarrow> P y) \<Longrightarrow> length (filter Q t) \<le> length (filter P t)"
  by (induction t) (auto simp: le_SucI)

section \<open>Tables\<close>

text \<open>
  A table is the list of its rows in insertion order.  UPDATE returns the new
  table together with the number of rows it matched, which is what the
  repositories read as RowsAffected.
\<close>

definition sql_first :: "('r \<Rightarrow> bool) \<Rightarrow> 'r list \<Rightarrow> 'r option" where
  "sql_first p t = List.find p t"

definition sql_count :: "('r \<Rightarrow> bool) \<Rightarrow> 'r list \<Rightarrow> nat" where
  "sql_count p t = length (filter p t)"

definition sql_update :: "('r \<Rightarrow> bool) \<Rightarrow> ('r \<Rightarrow> 'r) \<Rightarrow> 'r list \<Rightarrow> 'r list" where
  "sql_update p f t = map (\<lambda>r. if p r then f r else r) t"

definition sql_delete :: "('r \<Rightarrow> bool) \<Rightarrow> 'r list \<Rightarrow> 'r list" where
  "sql_delete p t = filter (\<lambda>r. \<not> p r) t"

definition sql_upsert :: "('r \<Rightarrow> bool) \<Rightarrow> ('r \<Rightarrow> 'r) \<Rightarrow> 'r \<Rightarrow> 'r list \<Rightarrow> 'r list" where
  "sql_upsert conflict f r t = (if list_ex conflict t then sql_update conflict f t else t @ [r])"

lemma sql_first_Some [sql_simps]: "sql_first p t = Some r \<Longrightarrow> r \<in> set t \<and> p r"
  by (auto simp: sql_first_def find_Some_iff)

lemma sql_first_None [sql_simps]: "sql_first p t = None \<longleftrightarrow> (\<forall>r \<in> set t. \<not> p r)"
  by (auto simp: sql_first_def find_None_iff)

lemma sql_count_0 [sql_simps]: "sql_count p t = 0 \<longleftrightarrow> (\<forall>r \<in> set t. \<not> p r)"
  by (auto simp: sql_count_def filter_empty_conv)

lemma set_sql_update [sql_simps]: "set (sql_update p f t) = (\<lambda>r. if p r then f r else r) ` set t"
  by (simp add: sql_update_def)

lemma set_sql_delete [sql_simps]: "set (sql_delete p t) = {r \<in> set t. \<not> p r}"
  by (auto simp: sql_delete_def)

lemma map_sql_update: "(\<And>r. p r \<Longrightarrow> g (f r) = g r) \<Longrightarrow> map g (sql_update p f t) = map g t"
  by (simp add: sql_update_def)

lemma sql_first_unique:
  assumes "distinct (map k t)" "r \<in> set t"
  shows "sql_first (\<lambda>x. k x = k r) t = Some r"
  using assms by (induction t) (auto simp: sql_first_def rev_image_eqI)

lemma sql_first_update_other:
  "(\<And>r. p r \<Longrightarrow> \<not> q r \<and> \<not> q (f r)) \<Longrightarrow> sql_first q (sql_update p f t) = sql_first q t"
  by (induction t) (auto simp: sql_first_def sql_update_def)

end
