(* ===== verification/Catalog.thy ===== *)
theory Catalog
  imports Prelude "HOL-Library.AList" "HOL-Library.List_Lexorder" "HOL-Library.Char_ord"
begin

text \<open>
  internal/platform/authctx: features.go, product.go, catalog_tms.go and
  catalog_fms.go.  The permission catalogues and the registry of sellable
  features are the literal tables of the source (the dash of one description is
  written as an ASCII hyphen); a Go map is an association list whose keys are
  distinct, built with update where the source assigns by key.  Iteration order
  over a Go map is unspecified, so the lemmas about listings speak of their sets.
\<close>

section \<open>Products, permissions and features\<close>

definition product_tms :: product where "product_tms = ''tms''"
definition product_fms :: product where "product_fms = ''fms''"
definition product_shared :: product where "product_shared = ''shared''"

record permission_spec =
  spec_key :: string
  spec_feature :: string
  spec_group :: string
  spec_label :: string

type_synonym catalog = "(string \<times> permission_spec) list"

record feature =
  feat_name :: string
  feat_owner :: product
  feat_description :: string
  feat_parent :: string
  feat_roadmap :: bool

record fms_def =
  def_key :: string
  def_label :: string
  def_parent :: string
  def_dev :: bool

section \<open>The TMS and FMS catalogues\<close>

definition tms_catalog :: "catalog" where
  "tms_catalog = map (\<lambda>(k, f, g, l). (k, permission_spec.make k f g l)) [
     (''order.read'', ''order'', ''Orders'', ''View orders''),
     (''order.create'', ''order'', ''Orders'', ''Create orders''),
     (''order.update'', ''order'', ''Orders'', ''Edit draft orders''),
     (''order.cancel'', ''order'', ''Orders'', ''Cancel orders''),
     (''order.approve'', ''order'', ''Orders'', ''Approve or reject orders''),
     (''order.assignDriver'', ''order'', ''Orders'', ''Assign a driver and truck''),
     (''order.readyToPlan'', ''order'', ''Orders'', ''Mark ready to plan''),
     (''order.requestDriver'', ''order'', ''Orders'', ''Request a driver (3PL)''),
     (''order.allowance.read'', ''order'', ''Driver allowance'', ''View driver allowance''),
     (''order.allowance.write'', ''order'', ''Driver allowance'', ''Set driver allowance''),
     (''order.allowance.finalise'', ''order'', ''Driver allowance'', ''Finalise driver allowance''),
     (''dispatch.read'', ''dispatch'', ''Dispatch'', ''View candidate trucks and routes''),
     (''dispatch.assign'', ''dispatch'', ''Dispatch'', ''Assign a truck to an order''),
     (''dispatch.reroute'', ''dispatch'', ''Dispatch'', ''Re-plan a route on demand''),
     (''config.fields.read'', ''configuration'', ''Administration'', ''View form configuration''),
     (''config.fields.write'', ''configuration'', ''Administration'', ''Change which fields are required''),
     (''agreement.read'', ''agreement'', ''Agreements'', ''View agreements''),
     (''agreement.create'', ''agreement'', ''Agreements'', ''Create agreements''),
     (''agreement.update'', ''agreement'', ''Agreements'', ''Edit agreements''),
     (''agreement.approve'', ''agreement'', ''Agreements'', ''Approve, reject or verify''),
     (''agreement.cancel'', ''agreement'', ''Agreements'', ''Cancel agreements''),
     (''agreement.revise'', ''agreement'', ''Agreements'', ''Renew or amend an agreement''),
     (''agreement.approveRevision'', ''agreement'', ''Agreements'', ''Approve or reject an amendment''),
     (''agreement.priceHistory'', ''agreement'', ''Agreements'', ''View price history''),
     (''invoice.read'', ''invoice'', ''Invoicing'', ''View invoices''),
     (''invoice.create'', ''invoice'', ''Invoicing'', ''Create invoices''),
     (''invoice.update'', ''invoice'', ''Invoicing'', ''Change invoice status''),
     (''invoice.approve'', ''invoice'', ''Invoicing'', ''Verify and settle''),
     (''invoice.export'', ''invoice'', ''Invoicing'', ''Export invoices''),
     (''shipment.read'', ''shipment'', ''Shipments'', ''View shipments''),
     (''shipment.update'', ''shipment'', ''Shipments'', ''Advance a shipment''),
     (''shipment.verifyLoading'', ''shipment'', ''Shipments'', ''Approve loading''),
     (''shipment.verifyUnloading'', ''shipment'', ''Shipments'', ''Approve unloading''),
     (''truck.read'', ''truck'', ''Fleet'', ''View trucks''),
     (''truck.create'', ''truck'', ''Fleet'', ''Add trucks''),
     (''truck.update'', ''truck'', ''Fleet'', ''Edit trucks''),
     (''truck.delete'', ''truck'', ''Fleet'', ''Remove trucks''),
     (''truck.addDriver'', ''truck'', ''Fleet'', ''Pair a driver''),
     (''truck.deleteDriver'', ''truck'', ''Fleet'', ''Unpair a driver''),
     (''warehouse.read'', ''warehouse'', ''Locations'', ''View warehouses''),
     (''warehouse.create'', ''warehouse'', ''Locations'', ''Add warehouses''),
     (''warehouse.update'', ''warehouse'', ''Locations'', ''Edit warehouses''),
     (''warehouse.delete'', ''warehouse'', ''Locations'', ''Remove warehouses''),
     (''customer.read'', ''customer'', ''Customers'', ''View customers''),
     (''customer.create'', ''customer'', ''Customers'', ''Add customers''),
     (''customer.update'', ''customer'', ''Customers'', ''Edit customers''),
     (''customer.delete'', ''customer'', ''Customers'', ''Remove customers''),
     (''dashboard.read'', ''dashboard'', ''Dashboard'', ''View dashboard''),
     (''dashboard.export'', ''dashboard'', ''Dashboard'', ''Export dashboard data''),
     (''notification.read'', ''notification'', ''Notifications'', ''View notifications''),
     (''notification.update'', ''notification'', ''Notifications'', ''Manage notification settings''),
     (''masterData.read'', ''masterData'', ''Master Data'', ''View reference data''),
     (''masterData.create'', ''masterData'', ''Master Data'', ''Add reference data''),
     (''masterData.update'', ''masterData'', ''Master Data'', ''Edit reference data''),
     (''masterData.delete'', ''masterData'', ''Master Data'', ''Remove reference data''),
     (''collaboration.read'', ''collaboration'', ''Administration'', ''View members''),
     (''collaboration.inviteMember'', ''collaboration'', ''Administration'', ''Invite members''),
     (''collaboration.manageMember'', ''collaboration'', ''Administration'', ''Manage member permissions''),
     (''collaboration.removeMember'', ''collaboration'', ''Administration'', ''Remove members''),
     (''accounting.read'', ''accounting'', ''Accounting'', ''View accounting''),
     (''accounting.create'', ''accounting'', ''Accounting'', ''Create entries''),
     (''accounting.approve'', ''accounting'', ''Accounting'', ''Approve entries''),
     (''accounting.export'', ''accounting'', ''Accounting'', ''Export accounting data''),
     (''telemetry.read'', ''telemetry'', ''Telemetry'', ''View vehicle positions''),
     (''telemetry.export'', ''telemetry'', ''Telemetry'', ''Export telemetry'')]"

definition fms_catalog :: "catalog" where
  "fms_catalog = map (\<lambda>(k, f, g, l). (k, permission_spec.make k f g l)) [
     (''dashboard.view'', ''dashboard'', ''Dashboard'', ''View dashboard''),
     (''dashboard.ai'', ''ai_dashboard'', ''Dashboard'', ''AI dashboard''),
     (''live.view'', ''live'', ''Live Tracking'', ''View live tracking''),
     (''live.history'', ''live'', ''Live Tracking'', ''View trip history''),
     (''fuel.view'', ''live'', ''Fuel'', ''View fuel & cost''),
     (''fuel.price_calc'', ''live'', ''Fuel'', ''Fuel price calculation''),
     (''geofence.view'', ''geofence'', ''Geofence'', ''View geofences''),
     (''geofence.manage'', ''geofence'', ''Geofence'', ''Manage geofences''),
     (''controltower.view'', ''controltower'', ''Control Tower'', ''View control tower''),
     (''notifications.view'', ''notifications'', ''Notifications'', ''View notifications''),
     (''notifications.manage'', ''notifications'', ''Notifications'', ''Manage notification rules''),
     (''reports.view'', ''reports'', ''Reporting'', ''View reports''),
     (''reports.custom'', ''custom_report'', ''Reporting'', ''Custom report builder''),
     (''reports.ai'', ''ai_reporting'', ''Reporting'', ''AI reporting''),
     (''camera.view'', ''camera'', ''Camera'', ''View cameras (TrackVision)''),
     (''share_link.view'', ''share_link'', ''Share Link'', ''View share links''),
     (''share_link.create'', ''generate_link'', ''Share Link'', ''Generate share link''),
     (''maintenance.view'', ''maintenance'', ''Fleet Management'', ''View maintenance''),
     (''maintenance.manage'', ''maintenance'', ''Fleet Management'', ''Manage maintenance''),
     (''hangars.view'', ''hangars'', ''Fleet Management'', ''View workshops''),
     (''hangars.manage'', ''hangars'', ''Fleet Management'', ''Manage workshops''),
     (''license.view'', ''license'', ''Fleet Management'', ''View licenses''),
     (''license.manage'', ''license'', ''Fleet Management'', ''Manage licenses''),
     (''vehicles.view'', ''vehicle'', ''Master Data'', ''View vehicles''),
     (''vehicles.edit'', ''vehicle'', ''Master Data'', ''Add / edit vehicles''),
     (''drivers.view'', ''driver'', ''Master Data'', ''View drivers''),
     (''drivers.edit'', ''driver'', ''Master Data'', ''Add / edit drivers''),
     (''rfid.manage'', ''rfid'', ''Master Data'', ''Manage RFID''),
     (''dashcams.manage'', ''camera'', ''Master Data'', ''Manage dashcams''),
     (''users.manage'', ''administration'', ''Administration'', ''Manage users''),
     (''roles.manage'', ''administration'', ''Administration'', ''Manage roles'')]"

definition default_tms_features :: "string list" where
  "default_tms_features = [
     ''order'', ''agreement'', ''invoice'', ''shipment'', ''truck'', ''warehouse'', ''customer'', ''dashboard'', ''notification'', ''dispatch'', ''configuration'', ''collaboration'', ''masterData'']"

definition catalogs :: "(product \<times> catalog) list" where
  "catalogs = [(product_tms, tms_catalog), (product_fms, fms_catalog)]"

definition catalog_for :: "product \<Rightarrow> catalog" where
  "catalog_for p = (case map_of catalogs p of None \<Rightarrow> [] | Some c \<Rightarrow> c)"

text \<open>FeatureFor returns the gating feature and whether the key is known.\<close>

definition feature_for :: "product \<Rightarrow> string \<Rightarrow> string \<times> bool" where
  "feature_for p key =
     (case map_of (catalog_for p) key of
        None \<Rightarrow> ([], False)
      | Some spec \<Rightarrow> (spec_feature spec, True))"

definition is_known_permission :: "product \<Rightarrow> string \<Rightarrow> bool" where
  "is_known_permission p key = (map_of (catalog_for p) key \<noteq> None)"

fun features_loop :: "string list \<Rightarrow> catalog \<Rightarrow> string list" where
  "features_loop seen [] = []"
| "features_loop seen ((k, spec) # rest) =
     (if spec_feature spec = [] \<or> spec_feature spec \<in> set seen then features_loop seen rest
      else spec_feature spec # features_loop (spec_feature spec # seen) rest)"

definition features_for :: "product \<Rightarrow> string list" where
  "features_for p = features_loop [] (catalog_for p)"

section \<open>The registry of sellable features\<close>

definition tms_features :: "feature list" where
  "tms_features = map (\<lambda>(n, own, d). feature.make n own d [] False) [
     (''order'', product_tms, ''Place, approve and track orders''),
     (''agreement'', product_tms, ''Rate agreements between shipper and transporter''),
     (''invoice'', product_tms, ''Billing and settlement''),
     (''shipment'', product_tms, ''Loading, transit and unloading''),
     (''truck'', product_tms, ''Fleet register and driver pairing''),
     (''warehouse'', product_tms, ''Warehouse register and geofencing''),
     (''customer'', product_tms, ''The company's own customer register''),
     (''dashboard'', product_tms, ''Operational dashboards and summaries''),
     (''notification'', product_tms, ''In-app, email and WhatsApp notifications''),
     (''dispatch'', product_tms, ''Planner assignment: candidate trucks and planned routes''),
     (''routing.advanced'', product_tms, ''Re-plan routes on demand after assignment''),
     (''configuration'', product_tms, ''Configuring which fields the company's own forms require''),
     (''collaboration'', product_tms, ''Managing your own members and roles''),
     (''masterData'', product_tms, ''Shared reference data: truck types, cargo types, regions'')]"

definition shared_features :: "feature list" where
  "shared_features = map (\<lambda>(n, own, d). feature.make n own d [] False) [
     (''vehicle'', product_fms, ''The vehicle register - the core of the fleet system''),
     (''driver'', product_fms, ''The driver register''),
     (''administration'', product_fms, ''Managing your own users and roles''),
     (''accounting'', product_shared, ''The separately sold accounting service''),
     (''telemetry'', product_shared, ''The separately sold telemetry service, by tier'')]"

definition fms_registry_json :: "fms_def list" where
  "fms_registry_json = map (\<lambda>(k, l, p, d). fms_def.make k l p d) [
     (''dashboard'', ''Dashboard'', '''', False),
     (''ai_dashboard'', ''AI Dashboard'', ''dashboard'', False),
     (''live'', ''Live View'', '''', False),
     (''geofence'', ''Geofence'', ''live'', False),
     (''controltower'', ''Control Tower'', '''', False),
     (''notifications'', ''Notifications'', '''', False),
     (''share_link'', ''Share Link'', '''', False),
     (''generate_link'', ''Generate Link'', ''share_link'', False),
     (''reports'', ''Reporting'', '''', False),
     (''custom_report'', ''Custom Report'', ''reports'', False),
     (''ai_reporting'', ''AI Reporting'', ''reports'', False),
     (''camera'', ''Camera (TrackVision)'', '''', False),
     (''fleet_management'', ''Fleet Management'', '''', False),
     (''maintenance'', ''Maintenance'', ''fleet_management'', False),
     (''hangars'', ''Workshops'', ''fleet_management'', False),
     (''license'', ''License'', ''fleet_management'', False),
     (''master_data'', ''Master Data'', '''', False),
     (''dashcams'', ''Dashcam'', ''master_data'', False),
     (''rfid'', ''RFID'', ''master_data'', False),
     (''users'', ''Users'', ''master_data'', False),
     (''scorecard'', ''Driver Performance'', '''', False),
     (''marketplace'', ''Marketplace'', '''', False),
     (''sales'', ''Sales & Orders'', '''', True),
     (''orders'', ''Orders'', ''sales'', True),
     (''invoices'', ''Invoices'', ''sales'', True),
     (''quotations'', ''Quotations'', ''sales'', True),
     (''procurement'', ''Procurement'', '''', True),
     (''purchase-orders'', ''Purchase Orders'', ''procurement'', True),
     (''purchase-invoices'', ''Purchase Invoices'', ''procurement'', True),
     (''purchase-quotes'', ''Purchase Quotes'', ''procurement'', True),
     (''expenses'', ''Expenses'', ''procurement'', True),
     (''inventory'', ''Inventory & Products'', '''', True),
     (''products'', ''Products'', ''inventory'', True),
     (''stock'', ''Inventory'', ''inventory'', True),
     (''warehouses'', ''Warehouses'', ''inventory'', True),
     (''fixed-assets'', ''Fixed Assets'', ''inventory'', True),
     (''finance'', ''Finance'', '''', True),
     (''cash-bank'', ''Cash & Bank'', ''finance'', True),
     (''chart-of-accounts'', ''Chart of Accounts'', ''finance'', True),
     (''cost-centers'', ''Cost Centers'', ''finance'', True),
     (''journal'', ''Journal Entries'', ''finance'', True),
     (''payroll'', ''Payroll'', ''finance'', True),
     (''commerce'', ''Commerce & CRM'', '''', True),
     (''pos'', ''Point of Sale'', ''commerce'', True),
     (''distribution'', ''Distribution'', ''commerce'', True),
     (''crm'', ''CRM'', ''commerce'', True),
     (''contacts'', ''Contacts'', ''commerce'', True)]"

fun decode_fms_registry :: "bool \<Rightarrow> fms_def list \<Rightarrow> feature list" where
  "decode_fms_registry live_only [] = []"
| "decode_fms_registry live_only (d # ds) =
     (if live_only \<and> def_dev d then decode_fms_registry live_only ds
      else feature.make (def_key d) product_fms (def_label d) (def_parent d) (def_dev d)
             # decode_fms_registry live_only ds)"

definition fms_registry :: "feature list" where
  "fms_registry = decode_fms_registry False fms_registry_json"

definition fms_features :: "feature list" where
  "fms_features = decode_fms_registry True fms_registry_json"

definition put_features :: "feature list \<Rightarrow> (string \<times> feature) list \<Rightarrow> (string \<times> feature) list" where
  "put_features fs m = fold (\<lambda>f. AList.update (feat_name f) f) fs m"

definition feature_registry :: "(product \<times> (string \<times> feature) list) list" where
  "feature_registry =
     [(product_tms, put_features shared_features (put_features tms_features [])),
      (product_fms, put_features shared_features (put_features fms_features [])),
      (product_shared, put_features shared_features [])]"

definition registry_of :: "product \<Rightarrow> (string \<times> feature) list" where
  "registry_of p = (case map_of feature_registry p of None \<Rightarrow> [] | Some m \<Rightarrow> m)"

definition is_sellable_feature :: "product \<Rightarrow> string \<Rightarrow> bool" where
  "is_sellable_feature p name = (map_of (registry_of p) name \<noteq> None)"

definition sellable_features :: "product \<Rightarrow> feature list" where
  "sellable_features p = map snd (registry_of p)"

definition is_known_product :: "product \<Rightarrow> bool" where
  "is_known_product p = (map_of feature_registry p \<noteq> None)"

section \<open>Validation of the catalogues at startup\<close>

datatype catalog_problem = Ungated product string | Undeclared product string string

fun problem_prefix :: "catalog_problem \<Rightarrow> string" where
  "problem_prefix (Ungated p k) = p @ ''/'' @ k @ '' ''"
| "problem_prefix (Undeclared p k f) = p @ ''/'' @ k @ '' ''"

definition known_features :: "string list" where
  "known_features = concat (map (\<lambda>p. map feat_name (sellable_features p))
     [product_tms, product_fms, product_shared])"

fun catalog_problems :: "string list \<Rightarrow> product \<Rightarrow> catalog \<Rightarrow> catalog_problem list" where
  "catalog_problems known p [] = []"
| "catalog_problems known p ((k, spec) # rest) =
     (if spec_feature spec = [] then Ungated p k # catalog_problems known p rest
      else if spec_feature spec \<notin> set known
      then Undeclared p k (spec_feature spec) # catalog_problems known p rest
      else catalog_problems known p rest)"

text \<open>Inr () is nil; the error carries the problems in the order they are printed.\<close>

definition validate_catalogs_with ::
  "string list \<Rightarrow> (product \<times> catalog) list \<Rightarrow> catalog_problem list + unit" where
  "validate_catalogs_with known cs =
     (let problems = concat (map (\<lambda>(p, c). catalog_problems known p c) cs) in
      if problems \<noteq> [] then Inl (sort_key problem_prefix problems) else Inr ())"

definition validate_catalogs :: "catalog_problem list + unit" where
  "validate_catalogs = validate_catalogs_with known_features catalogs"

section \<open>Lemmas\<close>

lemma catalog_problems_Nil:
  "catalog_problems known p c = [] \<longleftrightarrow>
     (\<forall>(k, spec) \<in> set c. spec_feature spec \<noteq> [] \<and> spec_feature spec \<in> set known)"
  by (induction known p c rule: catalog_problems.induct) auto

lemma validate_with_ok_iff:
  "validate_catalogs_with known cs = Inr () \<longleftrightarrow>
     (\<forall>(p, c) \<in> set cs. \<forall>(k, spec) \<in> set c.
        spec_feature spec \<noteq> [] \<and> spec_feature spec \<in> set known)"
proof -
  have "concat (map (\<lambda>(p, c). catalog_problems known p c) cs) = [] \<longleftrightarrow>
      (\<forall>(p, c) \<in> set cs. catalog_problems known p c = [])"
    by auto
  then show ?thesis
    unfolding validate_catalogs_with_def Let_def catalog_problems_Nil by simp
qed

lemma set_features_loop:
  "set (features_loop seen c) = (\<lambda>(k, s). spec_feature s) ` set c - {[]} - set seen"
  by (induction seen c rule: features_loop.induct) auto

lemma distinct_features_loop: "distinct (features_loop seen c)"
  by (induction seen c rule: features_loop.induct) (auto simp: set_features_loop)

lemma map_of_put_features:
  "map_of (put_features fs m) n = (case map_of (rev (map (\<lambda>f. (feat_name f, f)) fs)) n of
     Some f \<Rightarrow> Some f | None \<Rightarrow> map_of m n)"
  by (induction fs arbitrary: m)
     (auto simp: put_features_def update_conv' map_add_def split: option.splits)

lemma catalogs_validated: "validate_catalogs = Inr ()"
  by code_simp

lemma catalog_keys_distinct:
  "distinct (map fst tms_catalog) \<and> distinct (map fst fms_catalog)"
  by code_simp

lemma catalog_keys_agree:
  "\<forall>(k, s) \<in> set (tms_catalog @ fms_catalog). spec_key s = k"
  by code_simp

lemma catalog_for_cases:
  "catalog_for p = (if p = product_tms then tms_catalog
     else if p = product_fms then fms_catalog else [])"
  by (simp add: catalog_for_def catalogs_def)

lemma catalog_for_distinct: "distinct (map fst (catalog_for p))"
  using catalog_keys_distinct by (simp add: catalog_for_cases)

lemma catalog_for_keys: "(k, s) \<in> set (catalog_for p) \<Longrightarrow> spec_key s = k"
  using bspec [OF catalog_keys_agree, of "(k, s)"] by (simp add: catalog_for_cases split: if_splits)

lemma catalog_gated: "(k, s) \<in> set (catalog_for p) \<Longrightarrow> spec_feature s \<noteq> []"
  using catalogs_validated
  unfolding validate_catalogs_def validate_with_ok_iff catalogs_def catalog_for_cases
  by (auto split: if_splits)

lemma feature_for_iff:
  "feature_for p key = (f, True) \<longleftrightarrow> (\<exists>s. (key, s) \<in> set (catalog_for p) \<and> spec_feature s = f)"
  using map_of_is_SomeI [OF catalog_for_distinct [of p], of key]
  by (auto simp: feature_for_def split: option.splits dest: map_of_SomeD)

lemma feature_for_known: "snd (feature_for p key) = is_known_permission p key"
  by (simp add: feature_for_def is_known_permission_def split: option.splits)

lemma feature_for_gated: "feature_for p key = (f, True) \<Longrightarrow> f \<noteq> []"
  using catalog_gated by (auto simp: feature_for_iff)

lemma sellable_iff: "is_sellable_feature p name \<longleftrightarrow> name \<in> set (map fst (registry_of p))"
  using map_of_eq_None_iff [of "registry_of p" name] by (auto simp: is_sellable_feature_def)

lemma catalogs_sellable:
  "catalog_problems (map fst (registry_of product_tms)) product_tms (catalog_for product_tms) = [] \<and>
   catalog_problems (map fst (registry_of product_fms)) product_fms (catalog_for product_fms) = []"
  by code_simp

lemma registries_named:
  "list_all (\<lambda>p. list_all (\<lambda>(k, f). feat_name f = k \<and> \<not> feat_roadmap f) (registry_of p))
     [product_tms, product_fms, product_shared]"
  by code_simp

lemma registry_named: "(k, f) \<in> set (registry_of p) \<Longrightarrow> feat_name f = k \<and> \<not> feat_roadmap f"
  using registries_named
  by (fastforce simp: registry_of_def feature_registry_def list_all_iff split: if_splits)

lemma sellable_named:
  "f \<in> set (sellable_features p) \<Longrightarrow> is_sellable_feature p (feat_name f) \<and> \<not> feat_roadmap f"
  using registry_named by (force simp: sellable_features_def sellable_iff)

lemma sellable_feature_exists:
  "is_sellable_feature p m \<longleftrightarrow> (\<exists>f \<in> set (sellable_features p). feat_name f = m)"
  using registry_named by (force simp: sellable_features_def sellable_iff)

section \<open>Properties\<close>

text \<open>
  Startup validation accepts the declared catalogues, and in the sense that
  matters to a grant: every permission of a product names a gating feature that
  a company can be sold in that very product, under the key it is filed under.
\<close>
theorem catalogues_gated_and_sellable:
  "validate_catalogs = Inr () \<and>
   list_all (\<lambda>pd. list_all (\<lambda>(k, s). spec_key s = k \<and> spec_feature s \<noteq> [] \<and>
       is_sellable_feature pd (spec_feature s)) (catalog_for pd))
     [product_tms, product_fms]"
proof -
  have "list_all (\<lambda>(k, s). spec_key s = k \<and> spec_feature s \<noteq> [] \<and>
      is_sellable_feature pd (spec_feature s)) (catalog_for pd)"
    if "catalog_problems (map fst (registry_of pd)) pd (catalog_for pd) = []" for pd
    using that catalog_for_keys [of _ _ pd]
    by (auto simp: list_all_iff catalog_problems_Nil sellable_iff)
  then show ?thesis
    using catalogs_validated catalogs_sellable by simp
qed

end
