(* ===== verification/Principal.thy ===== *)
theory Principal
  imports Catalog
begin

text \<open>
  internal/platform/authctx: claims.go, principal.go, verifier.go, middleware.go
  and grpc.go.  The access map of a principal is a map from products; the JWT
  library is the record \<open>jwt_lib\<close> (what jwt.ParseWithClaims and SignedString
  return), the revocation list and the remote validator are function arguments,
  absent ones being None as the nil interfaces of the source are.
\<close>

section \<open>Principals and permissions\<close>

record product_access =
  pa_role :: string
  pa_permissions :: "string list"
  pa_features :: "string list"
  pa_grants_all :: bool

record principal =
  user_id :: string
  company_id :: string
  fms_tenant_id :: int
  fms_user_id :: int
  is_platform_staff :: bool
  access :: "product \<rightharpoonup> product_access"
  single_device :: bool
  token_id :: string

definition zero_access :: product_access where
  "zero_access = \<lparr>pa_role = [], pa_permissions = [], pa_features = [], pa_grants_all = False\<rparr>"

definition access_at :: "principal \<Rightarrow> product \<Rightarrow> product_access" where
  "access_at p pd = (case access p pd of None \<Rightarrow> zero_access | Some a \<Rightarrow> a)"

definition has_permission :: "principal \<Rightarrow> product \<Rightarrow> string \<Rightarrow> bool" where
  "has_permission p pd key =
     (if is_platform_staff p then True
      else case access p pd of
        None \<Rightarrow> False
      | Some a \<Rightarrow>
          if \<not> pa_grants_all a \<and> key \<notin> set (pa_permissions a) then False
          else case feature_for pd key of (feature, known) \<Rightarrow>
            if \<not> known then False
            else if feature = [] then True
            else feature \<in> set (pa_features a))"

definition has_product :: "principal \<Rightarrow> product \<Rightarrow> bool" where
  "has_product p pd = (if is_platform_staff p then True else access p pd \<noteq> None)"

definition role_in :: "principal \<Rightarrow> product \<Rightarrow> string" where
  "role_in p pd = pa_role (access_at p pd)"

definition company_has_feature :: "principal \<Rightarrow> product \<Rightarrow> string \<Rightarrow> bool" where
  "company_has_feature p pd feature =
     (if is_platform_staff p then True else feature \<in> set (pa_features (access_at p pd)))"

definition grantable_from :: "product \<Rightarrow> string list \<Rightarrow> permission_spec list" where
  "grantable_from pd held =
     filter (\<lambda>spec. spec_feature spec = [] \<or> spec_feature spec \<in> set held)
       (map snd (catalog_for pd))"

text \<open>A nil slice and an empty one are the same list here: no caller tells them apart.\<close>

definition grantable_permissions :: "principal \<Rightarrow> product \<Rightarrow> permission_spec list" where
  "grantable_permissions p pd =
     (if is_platform_staff p then grantable_from pd (features_for pd)
      else case access p pd of
        None \<Rightarrow> []
      | Some a \<Rightarrow> grantable_from pd (pa_features a))"

text \<open>
  The package variable serviceProduct is the argument \<open>svc\<close> of the functions
  that read it.
\<close>

definition has_module :: "product \<Rightarrow> principal \<Rightarrow> string \<Rightarrow> string \<Rightarrow> bool" where
  "has_module svc p module act = has_permission p svc (module @ ''.'' @ act)"

definition has_role :: "product \<Rightarrow> principal \<Rightarrow> string list \<Rightarrow> bool" where
  "has_role svc p roles =
     (if is_platform_staff p then True
      else let role = role_in p svc in
        if role = [] then False else role \<in> set roles)"

section \<open>Tokens\<close>

record registered_claims =
  issuer :: string
  subject :: string
  jti :: string
  issued_at :: "time option"
  not_before :: "time option"
  expires_at :: "time option"

record claims =
  claims_principal :: principal
  registered :: registered_claims

definition token_issuer :: string where
  "token_issuer = ''karlo-authentication-service''"

text \<open>
  The JWT library: parsing under a list of accepted algorithms, a required
  issuer and a required expiry returns the claims and the Valid flag, or fails;
  signing turns claims into a token or fails.
\<close>

record jwt_lib =
  parse_with_claims :: "string list \<Rightarrow> string \<Rightarrow> string \<Rightarrow> (claims \<times> bool) option"
  signed_string :: "claims \<Rightarrow> string option"

datatype auth_error = ErrParse | ErrInvalid | ErrNoSubject | ErrSign

definition parse_claims :: "jwt_lib \<Rightarrow> string \<Rightarrow> auth_error + claims" where
  "parse_claims lib token =
     (case parse_with_claims lib [''RS256''] token_issuer token of
        None \<Rightarrow> Inl ErrParse
      | Some (c, valid) \<Rightarrow> if \<not> valid then Inl ErrInvalid else Inr c)"

definition verify :: "jwt_lib \<Rightarrow> string \<Rightarrow> auth_error + principal" where
  "verify lib token =
     (case parse_claims lib token of
        Inl e \<Rightarrow> Inl e
      | Inr c \<Rightarrow> if user_id (claims_principal c) = [] then Inl ErrNoSubject
                 else Inr (claims_principal c))"

text \<open>The zero time.Time, 1 January of year 1, in nanoseconds since the Unix epoch.\<close>

definition zero_time :: time where "zero_time = - 62135596800 * second"

definition verify_with_issued_at :: "jwt_lib \<Rightarrow> string \<Rightarrow> auth_error + (principal \<times> time)" where
  "verify_with_issued_at lib token =
     (case parse_claims lib token of
        Inl e \<Rightarrow> Inl e
      | Inr c \<Rightarrow>
          if user_id (claims_principal c) = [] then Inl ErrNoSubject
          else Inr (claims_principal c,
                    case issued_at (registered c) of None \<Rightarrow> zero_time | Some t \<Rightarrow> t))"

definition sign :: "jwt_lib \<Rightarrow> principal \<Rightarrow> registered_claims \<Rightarrow> auth_error + string" where
  "sign lib p reg =
     (case signed_string lib \<lparr>claims_principal = p, registered = reg\<lparr>issuer := token_issuer\<rparr>\<rparr> of
        None \<Rightarrow> Inl ErrSign
      | Some t \<Rightarrow> Inr t)"

section \<open>HTTP middleware\<close>

record http_request =
  authorization :: string            \<comment> \<open>the Authorization header, empty when absent\<close>
  query_token :: string              \<comment> \<open>?token=\<close>

text \<open>A guard either lets the request on with a principal bound, or answers.\<close>

datatype guard_result = Next "principal option" | Abort nat string

definition extract_token :: "http_request \<Rightarrow> string" where
  "extract_token r =
     (if authorization r \<noteq> [] then
        (case cut_prefix (authorization r) ''Bearer '' of
           (after, True) \<Rightarrow> trim_space after
         | (_, False) \<Rightarrow> trim_space (authorization r))
      else query_token r)"

type_synonym revocation_checker = "string \<Rightarrow> string \<Rightarrow> string \<Rightarrow> time \<Rightarrow> bool"
type_synonym remote_validator = "string \<Rightarrow> principal option"

definition msg_no_token :: string where "msg_no_token = ''No token provided.''"
definition msg_changed :: string where
  "msg_changed = ''Akses Anda telah berubah. Silakan login ulang. (Your access changed; please sign in again.)''"
definition msg_login :: string where "msg_login = ''Silahkan untuk login ulang''"
definition msg_displaced :: string where
  "msg_displaced = ''Sesi Anda berakhir karena akun ini masuk di perangkat lain. Silakan login ulang. (Signed in on another device.)''"
definition msg_denied :: string where "msg_denied = ''Access Denied''"
definition msg_staff :: string where "msg_staff = ''This action is restricted to Karlo staff.''"

definition require_auth_with_revocations ::
  "jwt_lib \<Rightarrow> remote_validator option \<Rightarrow> revocation_checker option \<Rightarrow> http_request \<Rightarrow> guard_result" where
  "require_auth_with_revocations lib remote revoked req =
     (let token = extract_token req;
          to_remote = (case remote of
             None \<Rightarrow> Abort 401 msg_login
           | Some validate \<Rightarrow>
               (case validate token of
                  None \<Rightarrow> Abort 401 msg_displaced
                | Some p \<Rightarrow> Next (Some p)))
      in if token = [] then Abort 401 msg_no_token
         else case verify_with_issued_at lib token of
           Inr (p, iat) \<Rightarrow>
             if \<not> single_device p then
               (if (case revoked of None \<Rightarrow> False
                    | Some chk \<Rightarrow> chk (token_id p) (user_id p) (company_id p) iat)
                then Abort 401 msg_changed
                else Next (Some p))
             else to_remote
         | Inl _ \<Rightarrow> to_remote)"

definition require_auth :: "jwt_lib \<Rightarrow> remote_validator option \<Rightarrow> http_request \<Rightarrow> guard_result" where
  "require_auth lib remote = require_auth_with_revocations lib remote None"

definition require_role :: "product \<Rightarrow> string list \<Rightarrow> principal option \<Rightarrow> guard_result" where
  "require_role svc roles ctx =
     (case ctx of
        None \<Rightarrow> Abort 401 msg_no_token
      | Some p \<Rightarrow> if \<not> has_role svc p roles then Abort 403 msg_denied else Next ctx)"

definition require_platform_staff :: "principal option \<Rightarrow> guard_result" where
  "require_platform_staff ctx =
     (case ctx of
        None \<Rightarrow> Abort 401 msg_no_token
      | Some p \<Rightarrow> if \<not> is_platform_staff p then Abort 403 msg_staff else Next ctx)"

definition require_module :: "product \<Rightarrow> string \<Rightarrow> principal option \<Rightarrow> guard_result" where
  "require_module svc permission ctx =
     (case cut (CHR ''.'') permission of (module, act, found) \<Rightarrow>
        if \<not> found then Abort 500 ''malformed permission''
        else case ctx of
          None \<Rightarrow> Abort 401 msg_no_token
        | Some p \<Rightarrow> if \<not> has_module svc p module act then Abort 403 msg_denied else Next ctx)"

section \<open>gRPC interceptors\<close>

definition service_token_md :: string where "service_token_md = ''x-karlo-service-token''"
definition service_name_md :: string where "service_name_md = ''x-karlo-service''"
definition authorization_md :: string where "authorization_md = ''authorization''"

type_synonym metadata = "string \<Rightarrow> string list"

definition is_health_check :: "string \<Rightarrow> bool" where
  "is_health_check m =
     (m = ''/grpc.health.v1.Health/Check'' \<or> m = ''/grpc.health.v1.Health/Watch'')"

definition strip_bearer :: "string \<Rightarrow> string" where
  "strip_bearer s =
     (if length s > 7 \<and> (take 7 s = ''Bearer '' \<or> take 7 s = ''bearer '') then drop 7 s else s)"

definition has_accepted :: "string list \<Rightarrow> string list \<Rightarrow> bool" where
  "has_accepted got accepted = list_ex (\<lambda>g. g \<in> set accepted) got"

text \<open>
  Inl is codes.Unauthenticated with its message; Inr the principal the handler
  runs with.  The metadata is None when the context carries none, the verifier
  None when the interceptor was built without one.
\<close>

definition unary_server_interceptor ::
  "jwt_lib option \<Rightarrow> string list \<Rightarrow> string \<Rightarrow> metadata option \<Rightarrow> principal option
     \<Rightarrow> string + principal option" where
  "unary_server_interceptor v accepted_tokens full_method incoming ctx =
     (let accepted = filter (\<lambda>t. t \<noteq> []) accepted_tokens in
      if is_health_check full_method then Inr ctx
      else case incoming of
        None \<Rightarrow> Inl ''missing metadata''
      | Some md \<Rightarrow>
          if length accepted > 0 \<and> \<not> has_accepted (md service_token_md) accepted
          then Inl ''invalid service token''
          else (case (md authorization_md, v) of
                  (t # _, Some lib) \<Rightarrow>
                    (case verify lib (strip_bearer t) of Inr p \<Rightarrow> Inr (Some p) | Inl _ \<Rightarrow> Inr ctx)
                | _ \<Rightarrow> Inr ctx))"

definition unary_client_interceptor ::
  "string \<Rightarrow> string \<Rightarrow> string option \<Rightarrow> metadata \<Rightarrow> metadata" where
  "unary_client_interceptor service_name service_token outgoing md =
     (let md1 = md(service_token_md := md service_token_md @ [service_token]);
          md2 = md1(service_name_md := md1 service_name_md @ [service_name])
      in case outgoing of
           Some raw \<Rightarrow> if raw \<noteq> []
             then md2(authorization_md := md2 authorization_md @ [''Bearer '' @ raw]) else md2
         | None \<Rightarrow> md2)"

section \<open>Lemmas\<close>

lemma has_permission_staff [simp]: "is_platform_staff p \<Longrightarrow> has_permission p pd key"
  by (simp add: has_permission_def)

lemma has_permission_tenant:
  assumes "\<not> is_platform_staff p"
  shows "has_permission p pd key \<longleftrightarrow>
    (\<exists>a f. access p pd = Some a \<and> (pa_grants_all a \<or> key \<in> set (pa_permissions a)) \<and>
       feature_for pd key = (f, True) \<and> f \<in> set (pa_features a))"
  using assms feature_for_gated [of pd key]
  by (auto simp: has_permission_def split: option.splits prod.splits if_splits)

lemma grantable_from_keys:
  "spec_key ` set (grantable_from pd held) =
     {key. \<exists>f. feature_for pd key = (f, True) \<and> f \<in> set held}"
proof -
  have "k \<in> spec_key ` set (grantable_from pd held) \<longleftrightarrow>
      (\<exists>f. feature_for pd k = (f, True) \<and> f \<in> set held)" for k
    unfolding feature_for_iff
    using catalog_gated [of _ _ pd] catalog_for_keys [of _ _ pd]
    by (force simp: grantable_from_def image_iff)
  then show ?thesis by blast
qed

lemma require_auth_cases:
  "require_auth_with_revocations lib remote revoked req = Next ctx \<Longrightarrow>
     \<exists>p. ctx = Some p \<and> extract_token req \<noteq> [] \<and>
       ((\<exists>iat. verify_with_issued_at lib (extract_token req) = Inr (p, iat) \<and> \<not> single_device p \<and>
           (case revoked of None \<Rightarrow> True
            | Some chk \<Rightarrow> \<not> chk (token_id p) (user_id p) (company_id p) iat))
        \<or> (\<exists>val. remote = Some val \<and> val (extract_token req) = Some p))"
  by (auto simp: require_auth_with_revocations_def Let_def
      split: if_splits option.splits sum.splits prod.splits dest!: sym [of "Some x" for x])

lemma verify_with_issued_at_fst:
  "verify lib t = (case verify_with_issued_at lib t of Inl e \<Rightarrow> Inl e | Inr (p, iat) \<Rightarrow> Inr p)"
  by (simp add: verify_def verify_with_issued_at_def split: sum.splits)

lemma strip_bearer_append [simp]: "raw \<noteq> [] \<Longrightarrow> strip_bearer (''Bearer '' @ raw) = raw"
  by (cases raw) (simp_all add: strip_bearer_def)

section \<open>Properties\<close>

text \<open>
  C1. A permission is held exactly by Karlo staff, and by those whose access to
  the product names the key (or whose role grants everything) when the catalogue
  knows the key and their company holds the feature that gates it.  There is no
  ungated way in, because the declared catalogues have none.
\<close>
theorem permission_characterised:
  "has_permission p pd key \<longleftrightarrow>
     is_platform_staff p \<or>
     (\<exists>a f. access p pd = Some a \<and> (pa_grants_all a \<or> key \<in> set (pa_permissions a)) \<and>
        feature_for pd key = (f, True) \<and> f \<in> set (pa_features a))"
proof (cases "is_platform_staff p")
  case False
  then show ?thesis by (simp add: has_permission_tenant)
qed simp

text \<open>
  The editor and the check agree: for a tenant user with access to a product,
  the keys the check allows are the keys of the grantable list the editor is sent,
  restricted to those the user was granted; an administrator role holds exactly
  the whole grantable list.
\<close>
theorem permissions_within_grantable:
  assumes "\<not> is_platform_staff p" "access p pd = Some a"
  shows "{key. has_permission p pd key} =
    {key \<in> spec_key ` set (grantable_permissions p pd).
       pa_grants_all a \<or> key \<in> set (pa_permissions a)}"
  using assms
  by (auto simp: has_permission_tenant grantable_permissions_def grantable_from_keys)

definition clerk :: principal where
  "clerk = \<lparr>user_id = ''u1'', company_id = ''c1'', fms_tenant_id = 0, fms_user_id = 0,
     is_platform_staff = False,
     access = [product_tms \<mapsto> \<lparr>pa_role = ''Clerk'', pa_permissions = [''order.read'', ''invoice.read''],
        pa_features = [''order''], pa_grants_all = False\<rparr>],
     single_device = False, token_id = ''s1''\<rparr>"

theorem permissions_within_grantable_witness:
  "{key. has_permission clerk product_tms key} =
    {key \<in> spec_key ` set (grantable_permissions clerk product_tms).
       key = ''order.read'' \<or> key = ''invoice.read''}"
  by (subst permissions_within_grantable
      [of clerk product_tms "the (access clerk product_tms)"]) (simp_all add: clerk_def)

text \<open>
  The authentication middleware lets a request through exactly when a token
  was presented and either it verifies locally, is not bound to one device and is
  not revoked, or it needs the authentication service (it does not verify locally
  or is bound to one device), one is configured, and that service vouches for the
  principal.
\<close>
theorem require_auth_admits_iff:
  "require_auth_with_revocations lib remote chk req = Next (Some p) \<longleftrightarrow>
     extract_token req \<noteq> [] \<and>
     (case verify_with_issued_at lib (extract_token req) of
        Inr (q, iat) \<Rightarrow>
          (if single_device q then (\<exists>v. remote = Some v \<and> v (extract_token req) = Some p)
           else p = q \<and> (chk = None \<or>
             (\<exists>c. chk = Some c \<and> c (token_id q) (user_id q) (company_id q) iat = False)))
      | Inl _ \<Rightarrow> (\<exists>v. remote = Some v \<and> v (extract_token req) = Some p))"
  by (auto simp: require_auth_with_revocations_def Let_def
      split: option.splits sum.splits prod.splits)

text \<open>
  Two services of the platform talk to each other: what the client interceptor
  attaches is accepted by a server that accepts that service's token, and the
  handler runs as the end user whose token was forwarded.
\<close>
theorem interceptors_compose:
  assumes "service_token \<in> set accepted" "service_token \<noteq> []" "raw \<noteq> []" "\<not> is_health_check full_method"
    "verify lib raw = Inr p" "md authorization_md = []"
  shows "unary_server_interceptor (Some lib) accepted full_method
     (Some (unary_client_interceptor name service_token (Some raw) md)) ctx = Inr (Some p)"
  using assms strip_bearer_append [OF assms(3), simplified]
  by (auto simp: unary_server_interceptor_def unary_client_interceptor_def has_accepted_def Let_def
      service_token_md_def service_name_md_def authorization_md_def)

definition toy_claims :: claims where
  "toy_claims = \<lparr>claims_principal = clerk,
     registered = \<lparr>issuer = token_issuer, subject = ''u1'', jti = ''s1'', issued_at = Some 0,
       not_before = None, expires_at = Some hour\<rparr>\<rparr>"

definition toy_jwt :: jwt_lib where
  "toy_jwt = \<lparr>parse_with_claims = (\<lambda>algs iss t. if t = ''tok'' then Some (toy_claims, True) else None),
     signed_string = (\<lambda>c. Some ''tok'')\<rparr>"

lemma verify_toy: "verify toy_jwt ''tok'' = Inr clerk"
  by (simp add: verify_def parse_claims_def toy_jwt_def toy_claims_def clerk_def)

theorem interceptors_compose_witness:
  "unary_server_interceptor (Some toy_jwt) [''svc''] ''/karlo.auth.v1.Auth/Check''
     (Some (unary_client_interceptor ''business'' ''svc'' (Some ''tok'') (\<lambda>_. []))) None = Inr (Some clerk)"
  using interceptors_compose [of "''svc''" "[''svc'']" "''tok''" "''/karlo.auth.v1.Auth/Check''"
      toy_jwt clerk "\<lambda>_. []" "''business''" None]
  by (simp add: verify_toy is_health_check_def)

end
