(* ===== verification/Revocation.thy ===== *)
theory Revocation
  imports Principal
begin

text \<open>
  internal/platform/revocation: the in-memory list every service keeps
  (revocation.go) and the Redis store that publishes, resyncs and watches
  (redis.go).  The mutex is not modelled: every method is one atomic step.  The
  watch loop and the publishers it listens to are the step relation
  \<open>watch_step\<close>; an entry of Redis is a key with its payload and expiry.
\<close>

section \<open>Events and the list\<close>

definition kind_session :: string where "kind_session = ''session''"
definition kind_user :: string where "kind_user = ''user''"
definition kind_company :: string where "kind_company = ''company''"

lemma kind_distinct [simp]:
  "kind_session \<noteq> kind_user" "kind_session \<noteq> kind_company" "kind_user \<noteq> kind_company"
  "kind_user \<noteq> kind_session" "kind_company \<noteq> kind_session" "kind_company \<noteq> kind_user"
  by (simp_all add: kind_session_def kind_user_def kind_company_def)

record event =
  ev_kind :: string
  ev_id :: string
  ev_at :: time

record rev_list =
  rl_sessions :: "string \<rightharpoonup> time"
  rl_users :: "string \<rightharpoonup> time"
  rl_companies :: "string \<rightharpoonup> time"
  rl_degraded :: bool

definition new_list :: rev_list where
  "new_list = \<lparr>rl_sessions = Map.empty, rl_users = Map.empty, rl_companies = Map.empty,
               rl_degraded = False\<rparr>"

definition before_cutoff :: "(string \<rightharpoonup> time) \<Rightarrow> string \<Rightarrow> time \<Rightarrow> bool" where
  "before_cutoff m i iat = (case m i of None \<Rightarrow> False | Some cutoff \<Rightarrow> iat < cutoff)"

definition revoked :: "rev_list \<Rightarrow> revocation_checker" where
  "revoked l session_id uid cid iat =
     (if session_id \<noteq> [] \<and> rl_sessions l session_id \<noteq> None then True
      else if uid \<noteq> [] \<and> before_cutoff (rl_users l) uid iat then True
      else if cid \<noteq> [] \<and> before_cutoff (rl_companies l) cid iat then True
      else False)"

text \<open>The later of two cutoffs is kept.\<close>

definition keep_later :: "string \<Rightarrow> time \<Rightarrow> (string \<rightharpoonup> time) \<Rightarrow> (string \<rightharpoonup> time)" where
  "keep_later i t m = (case m i of
      None \<Rightarrow> m(i \<mapsto> t)
    | Some cur \<Rightarrow> if t > cur then m(i \<mapsto> t) else m)"

definition apply_event :: "event \<Rightarrow> rev_list \<Rightarrow> rev_list" where
  "apply_event e l =
     (if ev_kind e = kind_session then l\<lparr>rl_sessions := (rl_sessions l)(ev_id e \<mapsto> ev_at e)\<rparr>
      else if ev_kind e = kind_user then l\<lparr>rl_users := keep_later (ev_id e) (ev_at e) (rl_users l)\<rparr>
      else if ev_kind e = kind_company
      then l\<lparr>rl_companies := keep_later (ev_id e) (ev_at e) (rl_companies l)\<rparr>
      else l)"

definition replace_list :: "event list \<Rightarrow> rev_list \<Rightarrow> rev_list" where
  "replace_list evs l =
     (let fresh = fold apply_event evs new_list in
      l\<lparr>rl_sessions := rl_sessions fresh, rl_users := rl_users fresh,
        rl_companies := rl_companies fresh, rl_degraded := False\<rparr>)"

definition drop_before :: "time \<Rightarrow> (string \<rightharpoonup> time) \<Rightarrow> (string \<rightharpoonup> time)" where
  "drop_before cutoff m = (\<lambda>i. case m i of None \<Rightarrow> None
     | Some t \<Rightarrow> if t < cutoff then None else Some t)"

definition prune :: "time \<Rightarrow> time \<Rightarrow> rev_list \<Rightarrow> rev_list" where
  "prune now max_token_life l =
     (let cutoff = now - max_token_life in
      l\<lparr>rl_sessions := drop_before cutoff (rl_sessions l),
        rl_users := drop_before cutoff (rl_users l),
        rl_companies := drop_before cutoff (rl_companies l)\<rparr>)"

definition mark_degraded :: "rev_list \<Rightarrow> rev_list" where
  "mark_degraded l = l\<lparr>rl_degraded := True\<rparr>"

definition noop_checker :: revocation_checker where
  "noop_checker session_id uid cid iat = False"

section \<open>What an event covers\<close>

text \<open>The abstract contract: the tokens one announcement ends.\<close>

definition covers :: "event \<Rightarrow> revocation_checker" where
  "covers e session_id uid cid iat =
     ((ev_kind e = kind_session \<and> ev_id e = session_id \<and> session_id \<noteq> []) \<or>
      (ev_kind e = kind_user \<and> ev_id e = uid \<and> uid \<noteq> [] \<and> iat < ev_at e) \<or>
      (ev_kind e = kind_company \<and> ev_id e = cid \<and> cid \<noteq> [] \<and> iat < ev_at e))"

locale revocation_contract =
  fixes empty :: 'l
    and announce :: "event \<Rightarrow> 'l \<Rightarrow> 'l"
    and refused :: "'l \<Rightarrow> revocation_checker"
  assumes refused_empty: "\<not> refused empty s u c t"
    and refused_announce: "refused (announce e l) s u c t \<longleftrightarrow> covers e s u c t \<or> refused l s u c t"
begin

lemma refused_fold:
  "refused (fold announce evs l) s u c t \<longleftrightarrow> (\<exists>e \<in> set evs. covers e s u c t) \<or> refused l s u c t"
  by (induction evs arbitrary: l) (auto simp: refused_announce)

lemma refused_all: "refused (fold announce evs empty) s u c t \<longleftrightarrow> (\<exists>e \<in> set evs. covers e s u c t)"
  by (simp add: refused_fold refused_empty)

lemma refused_set_only:
  "set evs = set evs' \<Longrightarrow> refused (fold announce evs empty) = refused (fold announce evs' empty)"
  by (intro ext) (simp add: refused_all)

lemma refused_mono: "refused l s u c t \<Longrightarrow> refused (fold announce evs l) s u c t"
  by (simp add: refused_fold)

end

lemma revoked_iff:
  "revoked l s u c t \<longleftrightarrow> (s \<noteq> [] \<and> rl_sessions l s \<noteq> None) \<or>
     (u \<noteq> [] \<and> before_cutoff (rl_users l) u t) \<or> (c \<noteq> [] \<and> before_cutoff (rl_companies l) c t)"
  by (simp add: revoked_def)

lemma before_cutoff_empty [simp]: "\<not> before_cutoff Map.empty i t"
  by (simp add: before_cutoff_def)

lemma before_cutoff_keep_later:
  "before_cutoff (keep_later i t m) j iat \<longleftrightarrow> (i = j \<and> iat < t) \<or> before_cutoff m j iat"
  by (auto simp: keep_later_def before_cutoff_def split: option.splits if_splits)

interpretation rl: revocation_contract new_list apply_event revoked
proof
  show "\<not> revoked new_list s u c t" for s u c t
    by (simp add: revoked_iff new_list_def)
  show "revoked (apply_event e l) s u c t \<longleftrightarrow> covers e s u c t \<or> revoked l s u c t" for e l s u c t
    by (auto simp: revoked_iff apply_event_def covers_def before_cutoff_keep_later)
qed

lemma revoked_replace:
  "revoked (replace_list evs l) s u c t \<longleftrightarrow> (\<exists>e \<in> set evs. covers e s u c t)"
proof -
  have "revoked (replace_list evs l) = revoked (fold apply_event evs new_list)"
    by (intro ext) (simp add: replace_list_def revoked_def Let_def)
  then show ?thesis by (simp add: rl.refused_all)
qed

lemma revoked_mark_degraded [simp]: "revoked (mark_degraded l) = revoked l"
  by (intro ext) (simp add: revoked_def mark_degraded_def)

lemma before_cutoff_drop:
  "before_cutoff (drop_before b m) i iat \<longleftrightarrow> before_cutoff m i iat \<and> b \<le> the (m i)"
  by (auto simp: drop_before_def before_cutoff_def split: option.splits)

lemma drop_before_Some: "drop_before b m i = Some t \<longleftrightarrow> m i = Some t \<and> b \<le> t"
  by (auto simp: drop_before_def split: option.splits if_splits)

lemma revoked_prune_iff:
  "revoked (prune now life l) s u c t \<longleftrightarrow>
     (s \<noteq> [] \<and> (\<exists>a. rl_sessions l s = Some a \<and> now - life \<le> a)) \<or>
     (u \<noteq> [] \<and> before_cutoff (rl_users l) u t \<and> now - life \<le> the (rl_users l u)) \<or>
     (c \<noteq> [] \<and> before_cutoff (rl_companies l) c t \<and> now - life \<le> the (rl_companies l c))"
  by (simp add: revoked_iff prune_def Let_def before_cutoff_drop drop_before_Some)

lemma revoked_prune_sub: "revoked (prune now life l) s u c t \<Longrightarrow> revoked l s u c t"
  unfolding revoked_prune_iff unfolding revoked_iff by auto

lemma before_cutoff_the: "before_cutoff m i iat \<Longrightarrow> iat < the (m i)"
  by (auto simp: before_cutoff_def split: option.splits)

lemma revoked_prune_live:
  assumes "now - life \<le> t" "\<And>a. rl_sessions l s = Some a \<Longrightarrow> t \<le> a"
  shows "revoked (prune now life l) s u c t = revoked l s u c t"
proof -
  have ses: "(\<exists>a. rl_sessions l s = Some a \<and> now - life \<le> a) \<longleftrightarrow> rl_sessions l s \<noteq> None"
    using assms by fastforce
  have "now - life \<le> the (m i)" if "before_cutoff m i t" for m i
    using before_cutoff_the [OF that] assms(1) by linarith
  then show ?thesis
    unfolding revoked_prune_iff ses unfolding revoked_iff by auto
qed

section \<open>The Redis store\<close>

text \<open>
  A payload is what json.Unmarshal makes of the bytes: the event, or nothing when
  they do not parse.  json.Marshal refuses a time whose year is outside 0..9999.
\<close>

datatype payload = Json event | Garbled

datatype rev_error = ErrEncode | ErrDecode | ErrIncomplete | ErrRecord | ErrScan

definition year_0 :: time where "year_0 = - 62167219200 * second"
definition year_10000 :: time where "year_10000 = 253402300800 * second"

definition encode :: "event \<Rightarrow> rev_error + payload" where
  "encode e = (if ev_at e < year_0 \<or> ev_at e \<ge> year_10000 then Inl ErrEncode else Inr (Json e))"

definition decode :: "time \<Rightarrow> payload \<Rightarrow> rev_error + event" where
  "decode now b = (case b of
      Garbled \<Rightarrow> Inl ErrDecode
    | Json e \<Rightarrow>
        if ev_kind e = [] \<or> ev_id e = [] then Inl ErrIncomplete
        else if ev_at e = zero_time then Inr (e\<lparr>ev_at := now\<rparr>)
        else Inr e)"

definition store_key :: "event \<Rightarrow> string" where
  "store_key e = ''revoked:'' @ ev_kind e @ '':'' @ ev_id e"

type_synonym redis_entry = "payload \<times> time"

record rev_store =
  rs_keys :: "(string \<times> redis_entry) list"
  rs_life :: time

definition new_store :: "time \<Rightarrow> rev_store" where
  "new_store life = \<lparr>rs_keys = [], rs_life = (if life \<le> 0 then 2 * hour else life)\<rparr>"

text \<open>
  Publish: \<open>set_ok\<close> and \<open>announce_ok\<close> say whether the two Redis commands
  succeed; the result is the store and, when it was announced, the message.
\<close>

definition publish ::
  "time \<Rightarrow> bool \<Rightarrow> bool \<Rightarrow> event \<Rightarrow> rev_store \<Rightarrow> rev_error + (rev_store \<times> payload option)" where
  "publish now set_ok announce_ok e0 s =
     (let e = (if ev_at e0 = zero_time then e0\<lparr>ev_at := now\<rparr> else e0) in
      case encode e of
        Inl err \<Rightarrow> Inl err
      | Inr pl \<Rightarrow>
          if \<not> set_ok then Inl ErrRecord
          else Inr (s\<lparr>rs_keys := AList.update (store_key e) (pl, now + rs_life s) (rs_keys s)\<rparr>,
                    if announce_ok then Some pl else None))"

text \<open>All: the events of the keys that have not expired; unreadable ones are skipped.\<close>

definition live_payloads :: "time \<Rightarrow> rev_store \<Rightarrow> payload list" where
  "live_payloads now s = map (fst \<circ> snd) (filter (\<lambda>(k, pl, ex). now < ex) (rs_keys s))"

fun readable :: "time \<Rightarrow> payload list \<Rightarrow> event list" where
  "readable now [] = []"
| "readable now (b # bs) =
     (case decode now b of Inl _ \<Rightarrow> readable now bs | Inr e \<Rightarrow> e # readable now bs)"

definition all_events :: "time \<Rightarrow> bool \<Rightarrow> rev_store \<Rightarrow> rev_error + event list" where
  "all_events now scan_ok s =
     (if \<not> scan_ok then Inl ErrScan else Inr (readable now (live_payloads now s)))"

definition resync :: "time \<Rightarrow> bool \<Rightarrow> rev_store \<Rightarrow> rev_list \<Rightarrow> rev_list" where
  "resync now scan_ok s l = (case all_events now scan_ok s of
      Inl _ \<Rightarrow> mark_degraded l
    | Inr evs \<Rightarrow> replace_list evs l)"

section \<open>Watch\<close>

text \<open>
  The authentication service publishing, one watching service, and the clock.
  \<open>w_queue\<close> is the subscription's channel; \<open>w_past\<close> records what was durably
  published, so that the theorems can speak of it.  Each message the loop
  selects on is one step; a publisher stamps the event with the current time, as
  every caller in the services does.
\<close>

record watch_state =
  w_now :: time
  w_store :: rev_store
  w_queue :: "payload list"
  w_list :: rev_list
  w_past :: "event list"

definition handle_message :: "time \<Rightarrow> payload \<Rightarrow> rev_list \<Rightarrow> rev_list" where
  "handle_message now b l = (case decode now b of Inl _ \<Rightarrow> l | Inr e \<Rightarrow> apply_event e l)"

definition watch_init :: "time \<Rightarrow> time \<Rightarrow> watch_state" where
  "watch_init now life = \<lparr>w_now = now, w_store = new_store life, w_queue = [],
     w_list = new_list, w_past = []\<rparr>"

inductive watch_step :: "watch_state \<Rightarrow> watch_state \<Rightarrow> bool" where
  Clock: "t \<ge> w_now s \<Longrightarrow> watch_step s (s\<lparr>w_now := t\<rparr>)"
| Publish: "ev_kind e \<in> {kind_session, kind_user, kind_company} \<Longrightarrow> ev_at e = w_now s \<Longrightarrow>
     publish (w_now s) True ann e (w_store s) = Inr (st, msg) \<Longrightarrow>
     watch_step s (s\<lparr>w_store := st, w_past := e # w_past s,
        w_queue := w_queue s @ (case msg of None \<Rightarrow> [] | Some m \<Rightarrow> [m])\<rparr>)"
| Message: "w_queue s = m # ms \<Longrightarrow>
     watch_step s (s\<lparr>w_queue := ms, w_list := handle_message (w_now s) m (w_list s)\<rparr>)"
| Closed: "watch_step s (s\<lparr>w_queue := [],
     w_list := resync (w_now s) ok (w_store s) (mark_degraded (w_list s))\<rparr>)"
| Resync: "watch_step s (s\<lparr>w_list := resync (w_now s) ok (w_store s) (w_list s)\<rparr>)"
| Prune: "watch_step s (s\<lparr>w_list := prune (w_now s) (rs_life (w_store s)) (w_list s)\<rparr>)"

inductive watch_reachable :: "time \<Rightarrow> time \<Rightarrow> watch_state \<Rightarrow> bool" for now life where
  Start: "watch_reachable now life
     ((watch_init now life)\<lparr>w_list := resync now ok (new_store life) new_list\<rparr>)"
| Step: "watch_reachable now life s \<Longrightarrow> watch_step s s' \<Longrightarrow> watch_reachable now life s'"

inductive_cases watch_stepE: "watch_step s s'"

section \<open>Reachable states\<close>

lemma kinds_no_colon:
  "k \<in> {kind_session, kind_user, kind_company} \<Longrightarrow> CHR '':'' \<notin> set k \<and> k \<noteq> []"
  by (auto simp: kind_session_def kind_user_def kind_company_def)

lemma store_key_inj:
  assumes "store_key e = store_key e'" "ev_kind e \<in> {kind_session, kind_user, kind_company}"
    "ev_kind e' \<in> {kind_session, kind_user, kind_company}"
  shows "ev_kind e = ev_kind e' \<and> ev_id e = ev_id e'"
proof -
  have "cut (CHR '':'') (ev_kind e @ CHR '':'' # ev_id e) = cut (CHR '':'') (ev_kind e' @ CHR '':'' # ev_id e')"
    using assms(1) by (simp add: store_key_def)
  then show ?thesis
    using kinds_no_colon [OF assms(2)] kinds_no_colon [OF assms(3)] by (simp add: cut_append)
qed

text \<open>What was published, is stored or is on its way came from a publisher of this model.\<close>

definition watch_ok :: "watch_state \<Rightarrow> bool" where
  "watch_ok s \<longleftrightarrow> zero_time < w_now s \<and> 0 < rs_life (w_store s) \<and>
     distinct (map fst (rs_keys (w_store s))) \<and>
     (\<forall>e \<in> set (w_past s). ev_at e \<le> w_now s \<and> zero_time < ev_at e \<and>
        ev_kind e \<in> {kind_session, kind_user, kind_company}) \<and>
     (\<forall>b \<in> set (w_queue s). \<exists>e \<in> set (w_past s). b = Json e) \<and>
     (\<forall>(k, b, ex) \<in> set (rs_keys (w_store s)). \<exists>e \<in> set (w_past s). b = Json e \<and> k = store_key e)"

definition watch_durable :: "watch_state \<Rightarrow> bool" where
  "watch_durable s \<longleftrightarrow>
     (\<forall>e \<in> set (w_past s).
        \<exists>e' ex. map_of (rs_keys (w_store s)) (store_key e) = Some (Json e', ex) \<and>
           ev_at e' + rs_life (w_store s) \<le> ex \<and>
           ev_kind e' = ev_kind e \<and> ev_id e' = ev_id e \<and> ev_at e \<le> ev_at e')"

definition watch_sound :: "watch_state \<Rightarrow> bool" where
  "watch_sound s \<longleftrightarrow>
     (\<forall>a b c t. revoked (w_list s) a b c t \<longrightarrow> (\<exists>e \<in> set (w_past s). covers e a b c t))"


lemma readable_iff: "e \<in> set (readable now bs) \<longleftrightarrow> (\<exists>b \<in> set bs. decode now b = Inr e)"
  by (induction now bs rule: readable.induct) (auto split: sum.splits)

lemma publish_Inr:
  assumes "publish now True ann e s = Inr (st, msg)" "zero_time < ev_at e"
  shows "st = s\<lparr>rs_keys := AList.update (store_key e) (Json e, now + rs_life s) (rs_keys s)\<rparr> \<and>
    msg = (if ann then Some (Json e) else None)"
  using assms by (auto simp: publish_def encode_def Let_def split: if_splits)

lemma set_update_alist:
  "distinct (map fst al) \<Longrightarrow> x \<in> set (AList.update k v al) \<Longrightarrow> x = (k, v) \<or> (x \<in> set al \<and> fst x \<noteq> k)"
  by (induction al) (auto simp: image_iff split: if_splits)

lemma watch_ok_step:
  assumes "watch_step s s'" "watch_ok s" shows "watch_ok s'"
  using assms
proof (cases rule: watch_step.cases)
  case (Publish e ann st msg)
  have at: "zero_time < ev_at e"
    using Publish assms(2) by (simp add: watch_ok_def)
  have st: "st = (w_store s)\<lparr>rs_keys := AList.update (store_key e)
      (Json e, w_now s + rs_life (w_store s)) (rs_keys (w_store s))\<rparr>"
    "msg = (if ann then Some (Json e) else None)"
    using publish_Inr [OF Publish(4) at] by auto
  have d: "distinct (map fst (rs_keys (w_store s)))"
    using assms(2) by (simp add: watch_ok_def)
  show ?thesis
    using assms(2) Publish(2,3) at unfolding Publish(1) st watch_ok_def
    by (auto simp: distinct_update dest!: set_update_alist [OF d])
qed (auto simp: watch_ok_def)

lemma watch_durable_step:
  assumes "watch_step s s'" "watch_ok s" "watch_durable s" shows "watch_durable s'"
  using assms(1)
proof (cases rule: watch_step.cases)
  case (Publish e ann st msg)
  have at: "zero_time < ev_at e" and life: "0 < rs_life (w_store s)"
    using Publish assms(2) by (auto simp: watch_ok_def)
  have st: "st = (w_store s)\<lparr>rs_keys := AList.update (store_key e)
      (Json e, w_now s + rs_life (w_store s)) (rs_keys (w_store s))\<rparr>"
    using publish_Inr [OF Publish(4) at] by auto
  have past: "ev_at f \<le> w_now s" "ev_kind f \<in> {kind_session, kind_user, kind_company}"
    if "f \<in> set (w_past s)" for f
    using that assms(2) by (auto simp: watch_ok_def)
  have "\<exists>e' ex. map_of (rs_keys st) (store_key f) = Some (Json e', ex) \<and>
      ev_at e' + rs_life (w_store s) \<le> ex \<and> ev_kind e' = ev_kind f \<and> ev_id e' = ev_id f \<and> ev_at f \<le> ev_at e'"
    if f: "f \<in> set (e # w_past s)" for f
  proof (cases "store_key f = store_key e")
    case True
    have "ev_kind f = ev_kind e \<and> ev_id f = ev_id e \<and> ev_at f \<le> ev_at e"
      using f past store_key_inj [OF True] Publish(2,3) by auto
    then show ?thesis using True life by (simp add: st update_conv' Publish(3))
  next
    case False
    then have "f \<in> set (w_past s)" using f by auto
    then show ?thesis using False assms(3) by (auto simp: watch_durable_def st update_conv')
  qed
  then show ?thesis unfolding Publish(1) watch_durable_def by (simp add: st)
qed (use assms(3) in \<open>simp_all add: watch_durable_def\<close>)

lemma resync_sound:
  assumes "watch_ok s" "\<And>a b c t. revoked l a b c t \<Longrightarrow> \<exists>e \<in> set (w_past s). covers e a b c t"
    "revoked (resync (w_now s) ok (w_store s) l) a b c t"
  shows "\<exists>e \<in> set (w_past s). covers e a b c t"
proof (cases ok)
  case True
  then have "\<exists>e \<in> set (readable (w_now s) (live_payloads (w_now s) (w_store s))). covers e a b c t"
    using assms(3) by (simp add: resync_def all_events_def revoked_replace)
  then obtain e k pl ex where e: "covers e a b c t" "decode (w_now s) pl = Inr e"
    "(k, pl, ex) \<in> set (rs_keys (w_store s))"
    by (auto simp: readable_iff live_payloads_def)
  then obtain f where f: "f \<in> set (w_past s)" "pl = Json f"
    using assms(1) by (fastforce simp: watch_ok_def)
  moreover have "zero_time < ev_at f"
    using f(1) assms(1) by (simp add: watch_ok_def)
  ultimately have "e = f" using e(2) by (auto simp: decode_def split: if_splits)
  then show ?thesis using f e by blast
next
  case False
  then show ?thesis using assms(2,3) by (simp add: resync_def all_events_def)
qed

lemma watch_sound_step:
  assumes "watch_step s s'" "watch_ok s" "watch_sound s" shows "watch_sound s'"
  using assms(1)
proof (cases rule: watch_step.cases)
  case (Message m ms)
  obtain e where e: "e \<in> set (w_past s)" "m = Json e"
    using assms(2) Message(2) by (auto simp: watch_ok_def)
  have "zero_time < ev_at e" using e(1) assms(2) by (simp add: watch_ok_def)
  then have "handle_message (w_now s) m (w_list s) \<in> {w_list s, apply_event e (w_list s)}"
    using e(2) by (auto simp: handle_message_def decode_def)
  then show ?thesis
    using assms(3) e(1) unfolding Message(1) watch_sound_def
    by (auto simp: rl.refused_announce)
next
  case (Closed ok)
  show ?thesis
    using assms(3) resync_sound [OF assms(2), of "mark_degraded (w_list s)" ok]
    unfolding Closed watch_sound_def by simp
next
  case (Resync ok)
  show ?thesis
    using assms(3) resync_sound [OF assms(2), of "w_list s" ok]
    unfolding Resync watch_sound_def by simp
next
  case Prune
  then show ?thesis
    using assms(3) by (auto simp: watch_sound_def dest: revoked_prune_sub)
qed (use assms(3) in \<open>auto simp: watch_sound_def\<close>)

lemma watch_reachable_inv:
  assumes "watch_reachable now life s" "zero_time < now"
  shows "watch_ok s \<and> watch_durable s \<and> watch_sound s"
  using assms
proof (induction rule: watch_reachable.induct)
  case (Start ok)
  have "resync now ok (new_store life) new_list = (if ok then replace_list [] new_list else mark_degraded new_list)"
    by (simp add: resync_def all_events_def live_payloads_def new_store_def)
  then show ?case
    using Start
    by (simp add: watch_ok_def watch_durable_def watch_sound_def watch_init_def new_store_def hour_def
        minute_def second_def revoked_replace rl.refused_empty)
next
  case (Step s s')
  then show ?case using watch_ok_step watch_durable_step watch_sound_step by blast
qed

lemma resync_complete:
  assumes "watch_ok s" "watch_durable s" "e \<in> set (w_past s)"
    "w_now s < ev_at e + rs_life (w_store s)" "covers e a b c t"
  shows "revoked (resync (w_now s) True (w_store s) l) a b c t"
proof -
  obtain f ex where f: "map_of (rs_keys (w_store s)) (store_key e) = Some (Json f, ex)"
    "ev_at f + rs_life (w_store s) \<le> ex" "ev_kind f = ev_kind e" "ev_id f = ev_id e" "ev_at e \<le> ev_at f"
    using assms(2,3) by (force simp: watch_durable_def)
  have "zero_time < ev_at f" "ev_kind f \<noteq> []" "ev_id f \<noteq> []"
    using assms(1,3,5) f kinds_no_colon [of "ev_kind e"] by (auto simp: watch_ok_def covers_def)
  then have "decode (w_now s) (Json f) = Inr f" by (simp add: decode_def)
  moreover have "(store_key e, Json f, ex) \<in> set (rs_keys (w_store s))"
    using f(1) by (rule map_of_SomeD)
  ultimately have "f \<in> set (readable (w_now s) (live_payloads (w_now s) (w_store s)))"
    using f(2,5) assms(4) by (force simp: readable_iff live_payloads_def)
  moreover have "covers f a b c t"
    using assms(5) f by (auto simp: covers_def)
  ultimately show ?thesis by (auto simp: resync_def all_events_def revoked_replace)
qed

section \<open>Properties\<close>

text \<open>
  C15. A resync makes the list exactly the set of announcements it was given: a
  token is refused if and only if one of them covers it, whatever the list held
  before, in whatever order (and however often) the store returned the events.
\<close>
theorem replace_refines_announcements:
  "revoked (replace_list evs l) s u c t \<longleftrightarrow> (\<exists>e. e \<in> set evs \<and> covers e s u c t)"
  by (auto simp: revoked_replace)

text \<open>
  Pruning never un-revokes a token that could still be used: for a token
  issued within the longest token lifetime, whose session (if it was ended) was
  ended no earlier than the token was issued, the answer is unchanged.
\<close>
theorem prune_keeps_live_revocations:
  assumes "now - life \<le> t" "\<And>a. rl_sessions l s = Some a \<Longrightarrow> t \<le> a"
  shows "revoked (prune now life l) s u c t = revoked l s u c t"
  using assms by (rule revoked_prune_live)

definition pruned_example :: rev_list where
  "pruned_example = apply_event \<lparr>ev_kind = kind_user, ev_id = ''u1'', ev_at = 50\<rparr>
     (apply_event \<lparr>ev_kind = kind_session, ev_id = ''s9'', ev_at = 10\<rparr> new_list)"

theorem prune_keeps_live_revocations_witness:
  "revoked (prune 100 60 pruned_example) ''s1'' ''u1'' ''c1'' 45 \<and>
   rl_sessions (prune 100 60 pruned_example) ''s9'' = None"
proof -
  have "revoked (prune 100 60 pruned_example) ''s1'' ''u1'' ''c1'' 45 =
      revoked pruned_example ''s1'' ''u1'' ''c1'' 45"
    by (rule prune_keeps_live_revocations) (simp_all add: pruned_example_def apply_event_def new_list_def)
  then show ?thesis
    by (simp add: pruned_example_def apply_event_def new_list_def revoked_iff before_cutoff_def
        keep_later_def prune_def drop_before_def)
qed


definition revoked_world :: watch_state where
  "revoked_world = \<lparr>w_now = 100, w_store = \<lparr>rs_keys = [(store_key \<lparr>ev_kind = kind_user, ev_id = ''u1'', ev_at = 100\<rparr>,
       (Json \<lparr>ev_kind = kind_user, ev_id = ''u1'', ev_at = 100\<rparr>, 700))], rs_life = 600\<rparr>,
     w_queue = [], w_list = new_list, w_past = [\<lparr>ev_kind = kind_user, ev_id = ''u1'', ev_at = 100\<rparr>]\<rparr>"

lemma revoked_world_reachable: "watch_reachable 100 600 revoked_world"
proof -
  have 0: "watch_reachable 100 600 ((watch_init 100 600)\<lparr>w_list := resync 100 True (new_store 600) new_list\<rparr>)"
    by (rule watch_reachable.Start)
  have 1: "(watch_init 100 600)\<lparr>w_list := resync 100 True (new_store 600) new_list\<rparr> = watch_init 100 600"
    by (simp add: watch_init_def resync_def all_events_def live_payloads_def new_store_def replace_list_def new_list_def)
  let ?e = "\<lparr>ev_kind = kind_user, ev_id = ''u1'', ev_at = 100\<rparr>"
  let ?st = "\<lparr>rs_keys = [(store_key ?e, (Json ?e, 700))], rs_life = 600\<rparr>"
  have p: "publish 100 True False ?e (new_store 600) = Inr (?st, None)"
    by (simp add: publish_def Let_def encode_def new_store_def year_0_def year_10000_def second_def zero_time_def)
  have "watch_step (watch_init 100 600) revoked_world"
    using watch_step.Publish [of ?e "watch_init 100 600" False ?st None] p
    by (simp add: watch_init_def revoked_world_def)
  then show ?thesis using 0 unfolding 1 by (rule watch_reachable.Step [rotated])
qed


text \<open>
  C14. Nobody is refused without cause: in every reachable state, whatever was
  delivered, dropped, resynced or pruned, a token the list refuses is covered by a
  revocation that was really published.
\<close>
theorem refusal_has_cause:
  assumes "watch_reachable now life s" "zero_time < now" "revoked (w_list s) sid uid cid iat"
  shows "\<exists>e. e \<in> set (w_past s) \<and> covers e sid uid cid iat"
  using watch_reachable_inv [OF assms(1,2)] assms(3) unfolding watch_sound_def by blast

definition refused_world :: watch_state where
  "refused_world = revoked_world\<lparr>w_list := resync 100 True (w_store revoked_world) new_list\<rparr>"

theorem refusal_has_cause_witness:
  "\<exists>e. e \<in> set (w_past refused_world) \<and> covers e ''s1'' ''u1'' ''c1'' 0"
proof (rule refusal_has_cause [of 100 600])
  have "watch_step revoked_world refused_world"
    using watch_step.Resync [of revoked_world True] by (simp add: refused_world_def revoked_world_def)
  then show "watch_reachable 100 600 refused_world"
    using revoked_world_reachable by (rule watch_reachable.Step [rotated])
  show "revoked (w_list refused_world) ''s1'' ''u1'' ''c1'' 0"
    by (simp add: refused_world_def revoked_world_def resync_def all_events_def live_payloads_def
        decode_def zero_time_def second_def revoked_replace covers_def) (simp add: kind_user_def)
qed (simp add: zero_time_def second_def)

end
