(* ===== verification/Models.thy ===== *)
theory Models
  imports Revocation "HOL-Library.Word"
begin

text \<open>
  internal/models and the outside world of the services.  Rows are records, a
  nullable column is an option, a jsonb map is an association list of strings,
  and \<open>sys\<close> is everything an operation can change: the tables, the published
  revocations and company notices, the rate-limit counters and the count of draws that
  random identifiers and tokens are numbered by.  \<open>env\<close> is what an operation is
  given: the clock, the configuration, the third-party functions (bcrypt,
  SHA-256, uuid and JWT libraries) and which calls to the database fail.
\<close>

section \<open>Errors\<close>

text \<open>The repository call whose query failed, for the errors that wrap one.\<close>

datatype dbop =
    OpFindUser | OpFindIdentifier | OpExists | OpCreateUser | OpUpdateUser | OpDeleteUser
  | OpSetRole | OpCountUsers | OpTouchLogin | OpListUsers
  | OpFindCompany | OpCreateCompany | OpUpdateCompany | OpAllocateFMS | OpLockCompany
  | OpFindRole | OpCreateRole | OpUpdateRole | OpDeleteRole | OpListRoles | OpCountHolders
  | OpEnsureAdmin | OpLoadRole | OpLoadExtras | OpGrantAccess | OpRevokeAccess
  | OpModules | OpModes | OpGrantModule | OpRevokeModule | OpDefaults | OpHistory
  | OpCreateSession | OpFindSession | OpRevokeSession | OpRevokeAll | OpEvict
  | OpFindKey | OpCreateKey | OpRevokeKey | OpTouchKey | OpDevice
  | OpAudit | OpCatalog | OpCountFailures | OpLink | OpUnlink | OpClaim | OpMerge | OpPublish | OpCommit

datatype svc_error =
    ErrInvalidCredentials | ErrAccountSuspended | ErrAccountDeleted | ErrRateLimited
  | ErrSessionRevoked | ErrTokenInvalid | ErrForbidden string | ErrValidation string
  | ErrNotFound | ErrConflict | ErrShipperExists | ErrClaimNotFound | ErrClaimExpired
  | ErrAlreadyClaimed | ErrNPWPRequired | ErrMergeIntoSelf | ErrAlreadyMerged
  | ErrSurvivorHasUsers | ErrDB dbop | ErrHash | ErrRandom | ErrMint | ErrMsg string

section \<open>Rows\<close>

text \<open>
  The settings column without what the company edits itself; percentages are the
  bits of a float64, which the service only carries.
\<close>

record toggles =
  tg_cancel_validate :: bool
  tg_verified_only :: bool
  tg_ppn :: "64 word"
  tg_pph23 :: "64 word"
  tg_strict :: bool
  tg_max_driver :: "64 word"
  tg_tolls :: bool

record company =
  co_id :: uuid
  co_name :: string
  co_role :: string
  co_abbreviation :: "string option"
  co_fms_tenant :: "int option"
  co_npwp :: "string option"
  co_nib :: "string option"
  co_address :: "string option"
  co_city_id :: "string option"
  co_phone :: "string option"
  co_bank_account :: "string option"
  co_profile :: "(string \<times> string) list"
  co_columns :: "(string \<times> string) list"     \<comment> \<open>the other text columns of the profile\<close>
  co_trip_allowance :: "string option"           \<comment> \<open>of the settings column\<close>
  co_geofencing :: bool
  co_toggles :: toggles
  co_recipients :: "string list"
  co_entity_type :: string
  co_is_suspended :: bool
  co_max_users :: int
  co_default_max_devices :: int
  co_merged_into :: "uuid option"
  co_merged_at :: "time option"
  co_created_by :: "uuid option"
  co_claim_hash :: "string option"
  co_claim_expires :: "time option"
  co_claim_issued_by :: "uuid option"
  co_deleted :: "time option"

record user =
  us_id :: uuid
  us_company :: "uuid option"
  us_username :: "string option"
  us_email :: "string option"
  us_phone :: "string option"
  us_password_hash :: string
  us_full_name :: "string option"
  us_platform_staff :: bool
  us_fms_user :: "int option"
  us_role :: "uuid option"
  us_max_devices :: int
  us_email_verified :: bool
  us_phone_verified :: bool
  us_verified :: bool
  us_suspended :: bool
  us_profile :: "(string \<times> string) list"   \<comment> \<open>the other profile columns\<close>
  us_last_login :: "time option"
  us_created :: time
  us_deleted :: "time option"

record role =
  ro_id :: uuid
  ro_company :: uuid
  ro_name :: string
  ro_description :: "string option"
  ro_permissions :: "string list"
  ro_grants_all :: bool
  ro_is_system :: bool
  ro_created_by :: "uuid option"

record session =
  se_user :: uuid
  se_token :: uuid
  se_refresh_hash :: "string option"
  se_single_device :: bool
  se_device :: "string option"
  se_platform :: "string option"
  se_user_agent :: "string option"
  se_ip :: "string option"
  se_expires :: time
  se_revoked :: "time option"

record api_key =
  ak_id :: uuid
  ak_name :: string
  ak_hash :: string
  ak_prefix :: string
  ak_user :: "uuid option"
  ak_company :: "uuid option"
  ak_role :: "uuid option"
  ak_scopes :: "string list"
  ak_active :: bool
  ak_last_used :: "time option"
  ak_expires :: "time option"
  ak_revoked :: "time option"

record device_token =
  dt_user :: uuid
  dt_push :: string
  dt_platform :: "string option"
  dt_device :: "string option"
  dt_active :: bool
  dt_failed :: "time option"

record audit_entry =
  au_user :: "uuid option"
  au_actor :: "uuid option"
  au_event :: string
  au_succeeded :: bool
  au_detail :: "(string \<times> string) list"
  au_created :: time

record company_module =
  cm_company :: uuid
  cm_product :: string
  cm_module :: string
  cm_enabled :: bool
  cm_valid_from :: "time option"
  cm_valid_until :: "time option"
  cm_limits :: "(string \<times> string) list"
  cm_granted_by :: "uuid option"
  cm_note :: "string option"

record module_event =
  me_company :: uuid
  me_product :: string
  me_module :: string
  me_action :: string
  me_actor :: "uuid option"

record product_settings =
  ps_company :: uuid
  ps_product :: string
  ps_mode :: string

record extra_access =
  ea_user :: uuid
  ea_product :: string
  ea_permissions :: "string list"
  ea_enabled :: bool
  ea_granted_by :: "uuid option"
  ea_note :: "string option"

record company_link =
  li_transporter :: uuid
  li_shipper :: uuid
  li_by :: "uuid option"

section \<open>The system and its environment\<close>

text \<open>A row of permission_catalog.\<close>

record catalog_row =
  cr_key :: string
  cr_product :: product
  cr_feature :: string
  cr_group :: string
  cr_label :: string
  cr_override :: "string option"
  cr_sort_order :: nat
  cr_active :: bool
  cr_synced :: "time option"

record sys =
  companies :: "company list"
  users :: "user list"
  roles :: "role list"
  sessions :: "session list"
  api_keys :: "api_key list"
  devices :: "device_token list"
  audit :: "audit_entry list"
  modules :: "company_module list"
  module_events :: "module_event list"
  settings :: "product_settings list"
  extras :: "extra_access list"
  links :: "company_link list"
  published :: "event list"
  notices :: "(uuid \<times> string) list"
  attempts :: "string \<rightharpoonup> nat \<times> time"
  catalog_table :: "catalog_row list"
  draws :: nat

datatype cache_mode = CacheUp | CacheNone | CacheBroken

record env =
  now :: time
  db_down :: "dbop \<Rightarrow> bool"
  cache_mode :: cache_mode
  announcer :: bool
  rand_down :: bool
  gen_uuid :: "nat \<Rightarrow> uuid"
  gen_token :: "nat \<Rightarrow> string"
  uuid_string :: "uuid \<Rightarrow> string"
  uuid_parse :: "string \<Rightarrow> uuid option"
  hash_token :: "string \<Rightarrow> string"
  bcrypt_hash :: "string \<Rightarrow> string option"
  bcrypt_matches :: "string \<Rightarrow> string \<Rightarrow> bool"   \<comment> \<open>hash, password\<close>
  jwt :: jwt_lib
  numeric_date :: "time \<Rightarrow> time"
  fingerprint :: "string \<Rightarrow> string"
  access_ttl :: time
  refresh_ttl :: time
  rate_window :: time
  rate_limit :: nat
  service_product :: product

definition day :: time where "day = 24 * hour"

text \<open>
  A DATE column keeps the day of the timestamp written to it, in UTC.  CURRENT_DATE is
  the day at the zone of the connection: Database.DSN sets TimeZone=Asia/Jakarta, seven
  hours ahead of UTC all year.
\<close>

definition to_date :: "time \<Rightarrow> time" where "to_date t = t - t mod day"

definition jakarta :: time where "jakarta = 7 * hour"

definition current_date :: "env \<Rightarrow> time" where
  "current_date env = to_date (now env + jakarta)"

lemma to_date_le: "to_date t \<le> t"
  by (simp add: to_date_def day_def hour_def minute_def second_def)

lemma to_date_mono: "t \<le> u \<Longrightarrow> to_date t \<le> to_date u"
proof -
  assume "t \<le> u"
  then have "t div day \<le> u div day"
    by (simp add: zdiv_mono1 day_def hour_def minute_def second_def)
  then have "t div day * day \<le> u div day * day"
    by (simp add: mult_right_mono day_def hour_def minute_def second_def)
  then show ?thesis by (simp add: to_date_def minus_mod_eq_div_mult)
qed

section \<open>Methods of the models\<close>

definition session_active :: "env \<Rightarrow> session \<Rightarrow> bool" where
  "session_active env se = (se_revoked se = None \<and> se_expires se > now env)"

definition api_key_usable :: "env \<Rightarrow> api_key \<Rightarrow> bool" where
  "api_key_usable env k =
     (if \<not> ak_active k \<or> ak_revoked k \<noteq> None then False
      else case ak_expires k of None \<Rightarrow> True | Some t \<Rightarrow> t > now env)"

definition module_active :: "company_module \<Rightarrow> time \<Rightarrow> bool" where
  "module_active m t =
     (if \<not> cm_enabled m then False
      else if (case cm_valid_from m of None \<Rightarrow> False | Some f \<Rightarrow> t < f) then False
      else case cm_valid_until m of
        None \<Rightarrow> True
      | Some u \<Rightarrow> \<not> t > u + (day - 1))"

definition nil_if_empty :: "string \<Rightarrow> string option" where
  "nil_if_empty v = (if v = [] then None else Some v)"

definition audit_login_success :: string where "audit_login_success = ''login.success''"
definition audit_login_failure :: string where "audit_login_failure = ''login.failure''"

definition blank_audit :: "env \<Rightarrow> audit_entry" where
  "blank_audit env = \<lparr>au_user = None, au_actor = None, au_event = [], au_succeeded = True,
     au_detail = [], au_created = now env\<rparr>"

text \<open>
  A database transaction: on an error, or when the commit fails, the state is the
  one it began with.
\<close>

definition transaction ::
  "env \<Rightarrow> (sys \<Rightarrow> svc_error + ('a \<times> sys)) \<Rightarrow> sys \<Rightarrow> (svc_error + 'a) \<times> sys" where
  "transaction env f s = (case f s of
      Inl e \<Rightarrow> (Inl e, s)
    | Inr (v, s') \<Rightarrow> if db_down env OpCommit then (Inl (ErrDB OpCommit), s) else (Inr v, s'))"

lemma transaction_Inl: "transaction env f s = (Inl e, s') \<Longrightarrow> s' = s"
  by (auto simp: transaction_def split: sum.splits if_splits)

lemma transaction_Inr: "transaction env f s = (Inr v, s') \<longleftrightarrow> f s = Inr (v, s') \<and> \<not> db_down env OpCommit"
  by (auto simp: transaction_def split: sum.splits if_splits)

section \<open>A concrete environment for the witnesses\<close>

definition demo_env :: env where
  "demo_env = \<lparr>now = 20000 * day + hour, db_down = (\<lambda>_. False), cache_mode = CacheUp,
     announcer = True, rand_down = False, gen_uuid = (\<lambda>n. 10 + n),
     gen_token = (\<lambda>n. ''tok'' @ replicate n (CHR ''x'')),
     uuid_string = (\<lambda>n. ''u-'' @ replicate n (CHR ''i'')),
     uuid_parse = (\<lambda>t. if take 2 t = ''u-'' then Some (length t - 2) else None),
     hash_token = (\<lambda>t. CHR ''h'' # t), bcrypt_hash = (\<lambda>p. Some (CHR ''b'' # p)),
     bcrypt_matches = (\<lambda>h p. h = CHR ''b'' # p), jwt = toy_jwt,
     numeric_date = (\<lambda>t. t - t mod second), fingerprint = (\<lambda>x. x),
     access_ttl = 15 * minute, refresh_ttl = 30 * day, rate_window = 15 * minute, rate_limit = 3,
     service_product = product_tms\<rparr>"

lemma demo_up [simp]: "\<not> db_down demo_env x" "announcer demo_env" "\<not> rand_down demo_env"
  by (simp_all add: demo_env_def)

definition empty_sys :: sys where
  "empty_sys = \<lparr>companies = [], users = [], roles = [], sessions = [], api_keys = [], devices = [],
     audit = [], modules = [], module_events = [], settings = [], extras = [], links = [],
     published = [], notices = [], attempts = Map.empty, catalog_table = [], draws = 0\<rparr>"

definition blank_company :: "uuid \<Rightarrow> string \<Rightarrow> company" where
  "blank_company i n = \<lparr>co_id = i, co_name = n, co_role = ''transporter'', co_abbreviation = None,
     co_fms_tenant = None, co_npwp = None, co_nib = None, co_address = None, co_city_id = None,
     co_phone = None, co_bank_account = None, co_profile = [],
     co_columns = [(''country'', ''ID'')], co_trip_allowance = None, co_geofencing = False,
     co_toggles = \<lparr>tg_cancel_validate = False, tg_verified_only = False, tg_ppn = 0, tg_pph23 = 0,
       tg_strict = False, tg_max_driver = 0, tg_tolls = False\<rparr>, co_recipients = [], co_entity_type = ''company'',
     co_is_suspended = False, co_max_users = 0, co_default_max_devices = 0, co_merged_into = None,
     co_merged_at = None, co_created_by = None, co_claim_hash = None, co_claim_expires = None,
     co_claim_issued_by = None, co_deleted = None\<rparr>"

definition blank_user :: "uuid \<Rightarrow> uuid option \<Rightarrow> user" where
  "blank_user i c = \<lparr>us_id = i, us_company = c, us_username = None, us_email = None, us_phone = None,
     us_password_hash = [], us_full_name = None, us_platform_staff = False, us_fms_user = None,
     us_role = None, us_max_devices = 0, us_email_verified = False, us_phone_verified = False,
     us_verified = False, us_suspended = False, us_profile = [], us_last_login = None, us_created = 0,
     us_deleted = None\<rparr>"

end
