(* ===== verification/TextUtil.thy ===== *)
theory TextUtil
  imports Prelude "HOL-Library.Word"
begin

text \<open>
  The small platform packages: internal/platform/abbrev (company codes),
  internal/platform/safeconv (clamped conversions, on words of their Go width)
  and internal/platform/cache/keys.go.  Strings are bytes: the regular expression
  of FromName replaces exactly the bytes outside [a-zA-Z0-9 ], so FromName is
  exact on every string; Normalise is modelled for ASCII codes, where
  unicode.IsLetter and IsDigit are the ASCII classes.
\<close>

section \<open>abbrev\<close>

definition legal_forms :: "string list" where
  "legal_forms = [''pt'', ''cv'', ''ud'', ''pd'', ''tbk'', ''persero'', ''perseroan'']"

definition max_length :: nat where "max_length = 3"

text \<open>Each run of other bytes becomes one space; a second space makes no difference to Fields.\<close>

fun clean_runs :: "bool \<Rightarrow> string \<Rightarrow> string" where
  "clean_runs in_run [] = []"
| "clean_runs in_run (c # cs) =
     (if is_alnum c \<or> c = CHR '' '' then c # clean_runs False cs
      else if in_run then clean_runs True cs
      else CHR '' '' # clean_runs True cs)"

definition cleaned :: "string \<Rightarrow> string" where "cleaned name = clean_runs False name"

definition keep_alphanumeric :: "string \<Rightarrow> string" where
  "keep_alphanumeric s = filter is_alnum s"

definition clamp_code :: "string \<Rightarrow> string" where
  "clamp_code code0 =
     (let code = to_upper (keep_alphanumeric code0);
          short = (if length code > max_length then take max_length code else code)
      in if short = [] then ''CO'' else short)"

definition from_name :: "string \<Rightarrow> string" where
  "from_name name =
     (let words0 = filter (\<lambda>w. to_lower w \<notin> set legal_forms) (fields (cleaned name));
          words = (if length words0 = 0 then fields (cleaned name) else words0)
      in if length words = 0 then ''CO''
         else let code = (if length words = 1 then hd words else concat (map (take 1) words))
           in clamp_code code)"

definition normalise :: "string \<Rightarrow> string" where "normalise code = clamp_code code"

text \<open>The shape the agreement number format has room for.\<close>

definition code_shape :: "string \<Rightarrow> bool" where
  "code_shape c \<longleftrightarrow> 1 \<le> length c \<and> length c \<le> max_length \<and>
     list_all (\<lambda>x. is_upper x \<or> is_digit x) c"

lemma upper_alnum: "is_alnum c \<Longrightarrow> is_upper (upper_char c) \<or> is_digit (upper_char c)"
  by (auto simp: is_alnum_def upper_char_def is_upper_def is_lower_def is_digit_def in_range_def)

lemma upper_id: "is_upper c \<or> is_digit c \<Longrightarrow> upper_char c = c"
  by (auto simp: upper_char_def is_upper_def is_lower_def is_digit_def in_range_def)

lemma clamp_code_shape: "code_shape (clamp_code s)"
proof (cases "to_upper (keep_alphanumeric s) = []")
  case True
  then show ?thesis
    by (simp add: clamp_code_def Let_def code_shape_def max_length_def is_upper_def in_range_def)
next
  case False
  define w where "w = to_upper (keep_alphanumeric s)"
  have "list_all (\<lambda>x. is_upper x \<or> is_digit x) w"
    using upper_alnum by (auto simp: w_def to_upper_def keep_alphanumeric_def list_all_iff)
  moreover have "w \<noteq> []" using False by (simp add: w_def)
  ultimately have "code_shape (take max_length w)"
    by (auto simp: code_shape_def max_length_def list_all_iff Suc_le_eq dest: in_set_takeD)
  then show ?thesis
    using \<open>w \<noteq> []\<close> by (auto simp: clamp_code_def Let_def w_def [symmetric] max_length_def)
qed

lemma clamp_code_fixed: "code_shape c \<Longrightarrow> clamp_code c = c"
proof -
  assume c: "code_shape c"
  then have "keep_alphanumeric c = c"
    by (auto simp: code_shape_def keep_alphanumeric_def list_all_iff is_alnum_def filter_id_conv)
  moreover have "to_upper c = c"
    using c upper_id by (auto simp: code_shape_def to_upper_def list_all_iff intro: map_idI)
  ultimately show ?thesis
    using c by (auto simp: clamp_code_def Let_def code_shape_def)
qed

text \<open>
  Every code the service derives or normalises fits the agreement number: one
  to three capital letters or digits, whatever the name, and normalising a code
  that already has the shape changes nothing (so normalising twice is once).
\<close>
theorem company_codes_have_shape:
  "code_shape (from_name name) \<and> code_shape (normalise code) \<and>
   normalise (from_name name) = from_name name \<and> normalise (normalise code) = normalise code"
proof -
  have co: "code_shape ''CO''" using clamp_code_shape [of "[]"] by (simp add: clamp_code_def keep_alphanumeric_def to_upper_def)
  then have "code_shape (from_name name)"
    by (simp add: from_name_def Let_def clamp_code_shape)
  then show ?thesis by (simp add: normalise_def clamp_code_shape clamp_code_fixed)
qed

section \<open>safeconv\<close>

type_synonym int32 = "32 word"
type_synonym int64 = "64 word"

definition max_int32 :: int where "max_int32 = 2147483647"
definition min_int32 :: int where "min_int32 = - 2147483648"

text \<open>Go's int is 64 bits wide here; int32(v) keeps the low 32 bits.\<close>

definition to_int32 :: "int64 \<Rightarrow> int32" where
  "to_int32 v =
     (if sint v > max_int32 then word_of_int max_int32
      else if sint v < min_int32 then word_of_int min_int32
      else ucast v)"

definition int32_from64 :: "int64 \<Rightarrow> int32" where
  "int32_from64 v =
     (if sint v > max_int32 then word_of_int max_int32
      else if sint v < min_int32 then word_of_int min_int32
      else ucast v)"

definition non_negative_int32 :: "int64 \<Rightarrow> int32" where
  "non_negative_int32 v = (if sint v < 0 then 0 else to_int32 v)"

definition digit :: "int64 \<Rightarrow> 8 word" where
  "digit v0 =
     (let v1 = (if sint v0 < 0 then 0 else v0);
          v2 = (if sint v1 > 9 then 9 else v1)
      in ucast (48 + v2))"

lemma sint32_of_int: "min_int32 \<le> x \<Longrightarrow> x \<le> max_int32 \<Longrightarrow> sint (word_of_int x :: int32) = x"
  by (simp add: min_int32_def max_int32_def signed_of_int signed_take_bit_int_eq_self)


lemma ucast_32_of_64: "(ucast (v :: int64) :: int32) = word_of_int (sint v)"
  by transfer (simp add: take_bit_signed_take_bit)

lemma sint_small64: "- 9223372036854775808 \<le> x \<Longrightarrow> x \<le> 9223372036854775807 \<Longrightarrow> sint (word_of_int x :: int64) = x"
  by (simp add: signed_of_int signed_take_bit_int_eq_self)

text \<open>
  The conversions saturate and never wrap: read as a signed number, the int32
  is the 64-bit value clamped to the int32 range, a count is never negative, and a
  digit of a one-time password is one of the ten ASCII digits.
\<close>
theorem conversions_saturate:
  "sint (to_int32 v) = max min_int32 (min max_int32 (sint v)) \<and>
   sint (int32_from64 v) = max min_int32 (min max_int32 (sint v)) \<and>
   sint (non_negative_int32 v) = max 0 (min max_int32 (sint v)) \<and>
   uint (digit v) = 48 + max 0 (min 9 (sint v))"
proof -
  have 1: "sint (to_int32 v) = max min_int32 (min max_int32 (sint v))"
  proof -
    have "sint (word_of_int max_int32 :: int32) = max_int32" "sint (word_of_int min_int32 :: int32) = min_int32"
      by (rule sint32_of_int; simp add: max_int32_def min_int32_def)+
    then show ?thesis
      using sint32_of_int [of "sint v"]
      by (auto simp: to_int32_def ucast_32_of_64 max_def min_def) (auto simp: max_int32_def min_int32_def)
  qed
  moreover have "int32_from64 v = to_int32 v"
    by (simp add: int32_from64_def to_int32_def)
  moreover have "sint (non_negative_int32 v) = max 0 (min max_int32 (sint v))"
    using 1 by (auto simp: non_negative_int32_def max_def min_def max_int32_def min_int32_def)
  moreover have "uint (digit v) = 48 + max 0 (min 9 (sint v))"
  proof -
    have w: "uint (ucast (48 + word_of_int x :: int64) :: 8 word) = 48 + x" if "0 \<le> x" "x \<le> 9" for x :: int
    proof -
      have "uint (word_of_int (48 + x) :: int64) = 48 + x"
        using that by (simp only: unsigned_of_int) (simp add: take_bit_int_eq_self)
      then have "uint (48 + word_of_int x :: int64) = 48 + x" by simp
      then show ?thesis using that
        by (simp add: unsigned_ucast_eq take_bit_int_eq_self)
    qed
    have v: "v = word_of_int (sint v)" by simp
    consider "sint v < 0" | "sint v > 9" | "0 \<le> sint v" "sint v \<le> 9" by linarith
    then show ?thesis
    proof cases
      case 1
      then show ?thesis using w [of 0] by (simp add: digit_def Let_def)
    next
      case 2
      then show ?thesis using w [of 9] by (simp add: digit_def Let_def)
    next
      case 3
      then have "digit v = ucast (48 + v)" by (simp add: digit_def Let_def)
      also have "uint (ucast (48 + v) :: 8 word) = 48 + sint v"
        using w [OF 3] v by simp
      finally show ?thesis using 3 by simp
    qed
  qed
  ultimately show ?thesis by simp
qed

section \<open>Cache keys\<close>

definition namespace :: string where "namespace = ''karlo''"
definition schema_version :: string where "schema_version = ''v1''"

definition clean_part :: "string \<Rightarrow> string" where
  "clean_part p = replace_char (CHR '':'') (CHR ''_'') p"

definition cache_key :: "string list \<Rightarrow> string" where
  "cache_key parts = join '':'' (namespace # schema_version # map clean_part parts)"

definition cache_prefix :: "string list \<Rightarrow> string" where
  "cache_prefix parts = cache_key parts @ '':''"

lemma clean_part_no_colon: "CHR '':'' \<notin> set (clean_part p)"
  by (auto simp: clean_part_def replace_char_def)

lemma split_cache_key:
  "split_on (CHR '':'') (cache_key parts) = namespace # schema_version # map clean_part parts"
  unfolding cache_key_def
  by (rule split_join) (auto simp: clean_part_no_colon namespace_def schema_version_def)

lemma join_append:
  "ws \<noteq> [] \<Longrightarrow> vs \<noteq> [] \<Longrightarrow> join sep (ws @ vs) = join sep ws @ sep @ join sep vs"
proof (induction ws)
  case (Cons w ws)
  then show ?case by (cases "ws = []") (simp_all add: join_Cons)
qed simp

lemma split_on_snoc: "split_on sep (s @ [sep] @ t) = split_on sep s @ split_on sep t"
proof (induction s)
  case (Cons c s)
  then show ?case by (cases "split_on sep s") (auto simp: split_on_ne)
qed simp

text \<open>
  Invalidating a family of keys deletes that family and nothing else: a key
  starts with the prefix of some parts exactly when its own parts, cleaned, extend
  those parts by at least one more, so the prefix of one entity never reaches an
  entity whose name merely starts the same.
\<close>
theorem prefix_selects_family:
  "has_prefix (cache_key qs) (cache_prefix ps) \<longleftrightarrow>
     (\<exists>rest. rest \<noteq> [] \<and> map clean_part qs = map clean_part ps @ rest)"
proof
  assume "has_prefix (cache_key qs) (cache_prefix ps)"
  then obtain t where t: "cache_key qs = cache_key ps @ '':'' @ t"
    by (auto simp: has_prefix_iff cache_prefix_def)
  have "split_on (CHR '':'') (cache_key qs) =
      split_on (CHR '':'') (cache_key ps) @ split_on (CHR '':'') t"
    unfolding t by (rule split_on_snoc)
  then show "\<exists>rest. rest \<noteq> [] \<and> map clean_part qs = map clean_part ps @ rest"
    unfolding split_cache_key by (intro exI [of _ "split_on (CHR '':'') t"]) simp
next
  assume "\<exists>rest. rest \<noteq> [] \<and> map clean_part qs = map clean_part ps @ rest"
  then obtain rest where r: "rest \<noteq> []" "map clean_part qs = map clean_part ps @ rest" by blast
  have "cache_key qs = cache_key ps @ '':'' @ join '':'' rest"
    using r join_append [of "namespace # schema_version # map clean_part ps" rest "'':''"]
    by (simp add: cache_key_def)
  then show "has_prefix (cache_key qs) (cache_prefix ps)"
    unfolding has_prefix_iff cache_prefix_def by simp
qed

end
