(* ===== verification/Repository.thy ===== *)
theory Repository
  imports Models TextUtil
begin

text \<open>
  internal/repository: user_repository.go, repositories.go and role_repository.go.
  A read returns an error or its rows, a write an error or the new state; the
  first thing each does is fail when its query fails.  GORM's soft delete (rows
  whose deleted_at is set are invisible, except to Unscoped) and the unique
  indexes of migrations/ are written out where they decide the outcome.
\<close>

section \<open>Users\<close>

definition user_live :: "user \<Rightarrow> bool" where "user_live u = (us_deleted u = None)"
definition company_live :: "company \<Rightarrow> bool" where "company_live c = (co_deleted c = None)"

text \<open>Preload("Company").\<close>

definition company_of :: "sys \<Rightarrow> user \<Rightarrow> company option" where
  "company_of s u = (case us_company u of None \<Rightarrow> None
     | Some i \<Rightarrow> sql_first (\<lambda>c. co_id c = i \<and> company_live c) (companies s))"

definition find_user_by_id :: "env \<Rightarrow> sys \<Rightarrow> uuid \<Rightarrow> svc_error + user" where
  "find_user_by_id env s i =
     (if db_down env OpFindUser then Inl (ErrDB OpFindUser)
      else case sql_first (\<lambda>u. us_id u = i \<and> user_live u) (users s) of
        None \<Rightarrow> Inl ErrNotFound
      | Some u \<Rightarrow> Inr u)"

definition find_user_including_deleted :: "env \<Rightarrow> sys \<Rightarrow> uuid \<Rightarrow> svc_error + user" where
  "find_user_including_deleted env s i =
     (if db_down env OpFindUser then Inl (ErrDB OpFindUser)
      else case sql_first (\<lambda>u. us_id u = i) (users s) of
        None \<Rightarrow> Inl ErrNotFound
      | Some u \<Rightarrow> Inr u)"

text \<open>Columns of type citext compare without regard to case; NULL equals nothing.\<close>

definition ci_eq :: "string option \<Rightarrow> string \<Rightarrow> bool" where
  "ci_eq v x = (case v of None \<Rightarrow> False | Some y \<Rightarrow> to_lower y = to_lower x)"

definition find_by_identifier :: "env \<Rightarrow> sys \<Rightarrow> string \<Rightarrow> svc_error + user" where
  "find_by_identifier env s ident0 =
     (let ident = trim_space ident0 in
      if ident = [] then Inl ErrNotFound
      else if db_down env OpFindIdentifier then Inl (ErrDB OpFindIdentifier)
      else case sql_first (\<lambda>u. user_live u \<and>
                 (ci_eq (us_email u) ident \<or> ci_eq (us_username u) ident \<or> us_phone u = Some ident))
               (sort_key us_id (users s)) of
        None \<Rightarrow> Inl ErrNotFound
      | Some u \<Rightarrow> Inr u)"

definition exists_user :: "env \<Rightarrow> (user \<Rightarrow> bool) \<Rightarrow> sys \<Rightarrow> svc_error + bool" where
  "exists_user env p s =
     (if db_down env OpExists then Inl (ErrDB OpExists)
      else Inr (sql_count (\<lambda>u. user_live u \<and> p u) (users s) > 0))"

definition exists_by_email :: "env \<Rightarrow> string \<Rightarrow> sys \<Rightarrow> svc_error + bool" where
  "exists_by_email env v = exists_user env (\<lambda>u. ci_eq (us_email u) v)"
definition exists_by_username :: "env \<Rightarrow> string \<Rightarrow> sys \<Rightarrow> svc_error + bool" where
  "exists_by_username env v = exists_user env (\<lambda>u. ci_eq (us_username u) v)"
definition exists_by_phone :: "env \<Rightarrow> string \<Rightarrow> sys \<Rightarrow> svc_error + bool" where
  "exists_by_phone env v = exists_user env (\<lambda>u. us_phone u = Some v)"

text \<open>uq_users_email, uq_users_username, uq_users_phone: unique among live accounts.\<close>

definition opt_ci_eq :: "string option \<Rightarrow> string option \<Rightarrow> bool" where
  "opt_ci_eq v w = (case w of None \<Rightarrow> False | Some x \<Rightarrow> ci_eq v x)"

definition users_clash :: "user \<Rightarrow> user \<Rightarrow> bool" where
  "users_clash u v = (user_live u \<and> user_live v \<and>
     (opt_ci_eq (us_email u) (us_email v) \<or> opt_ci_eq (us_username u) (us_username v) \<or>
      (us_phone u \<noteq> None \<and> us_phone u = us_phone v)))"

definition create_user :: "env \<Rightarrow> user \<Rightarrow> sys \<Rightarrow> svc_error + (user \<times> sys)" where
  "create_user env u0 s =
     (if db_down env OpCreateUser then Inl (ErrDB OpCreateUser)
      else if list_ex (users_clash u0) (users s) then Inl ErrConflict
      else let u = u0\<lparr>us_id := gen_uuid env (draws s), us_created := now env\<rparr> in
        Inr (u, s\<lparr>users := users s @ [u], draws := Suc (draws s)\<rparr>))"

text \<open>UpdateFields with the assignments of a Go map given as a function on the row.\<close>

definition update_user_fields ::
  "env \<Rightarrow> uuid \<Rightarrow> (user \<Rightarrow> user) \<Rightarrow> sys \<Rightarrow> svc_error + sys" where
  "update_user_fields env i f s =
     (if db_down env OpUpdateUser then Inl (ErrDB OpUpdateUser)
      else let hit = (\<lambda>u. us_id u = i \<and> user_live u) in
        if list_ex (\<lambda>u. hit u \<and> list_ex (\<lambda>v. us_id v \<noteq> i \<and> users_clash (f u) v) (users s)) (users s)
        then Inl ErrConflict
        else if sql_count hit (users s) = 0 then Inl ErrNotFound
        else Inr (s\<lparr>users := sql_update hit f (users s)\<rparr>))"

definition soft_delete_user :: "env \<Rightarrow> uuid \<Rightarrow> sys \<Rightarrow> svc_error + sys" where
  "soft_delete_user env i s =
     (if db_down env OpDeleteUser then Inl (ErrDB OpDeleteUser)
      else let hit = (\<lambda>u. us_id u = i \<and> user_live u) in
        if sql_count hit (users s) = 0 then Inl ErrNotFound
        else Inr (s\<lparr>users := sql_update hit (\<lambda>u. u\<lparr>us_deleted := Some (now env)\<rparr>) (users s)\<rparr>))"

definition touch_last_login :: "env \<Rightarrow> uuid \<Rightarrow> sys \<Rightarrow> svc_error + sys" where
  "touch_last_login env i s =
     (if db_down env OpTouchLogin then Inl (ErrDB OpTouchLogin)
      else Inr (s\<lparr>users := sql_update (\<lambda>u. us_id u = i \<and> user_live u)
                    (\<lambda>u. u\<lparr>us_last_login := Some (now env)\<rparr>) (users s)\<rparr>))"

definition set_role :: "env \<Rightarrow> uuid \<Rightarrow> uuid \<Rightarrow> sys \<Rightarrow> svc_error + sys" where
  "set_role env i rid s =
     (if db_down env OpSetRole then Inl (ErrDB OpSetRole)
      else let hit = (\<lambda>u. us_id u = i \<and> user_live u) in
        if sql_count hit (users s) = 0 then Inl ErrNotFound
        else Inr (s\<lparr>users := sql_update hit (\<lambda>u. u\<lparr>us_role := Some rid\<rparr>) (users s)\<rparr>))"

definition count_active_users :: "env \<Rightarrow> uuid \<Rightarrow> sys \<Rightarrow> svc_error + nat" where
  "count_active_users env cid s =
     (if db_down env OpCountUsers then Inl (ErrDB OpCountUsers)
      else Inr (sql_count (\<lambda>u. us_company u = Some cid \<and> user_live u) (users s)))"

definition count_platform_staff :: "env \<Rightarrow> sys \<Rightarrow> svc_error + nat" where
  "count_platform_staff env s =
     (if db_down env OpCountUsers then Inl (ErrDB OpCountUsers)
      else Inr (sql_count (\<lambda>u. us_platform_staff u \<and> user_live u) (users s)))"

section \<open>Companies\<close>

definition find_company :: "env \<Rightarrow> sys \<Rightarrow> uuid \<Rightarrow> svc_error + company" where
  "find_company env s i =
     (if db_down env OpFindCompany then Inl (ErrDB OpFindCompany)
      else case sql_first (\<lambda>c. co_id c = i \<and> company_live c) (companies s) of
        None \<Rightarrow> Inl ErrNotFound
      | Some c \<Rightarrow> Inr c)"

text \<open>
  normalise_tax_id(npwp) keeps the digits; idx_companies_npwp and
  idx_companies_nib are unique over live companies.
\<close>

definition normalise_tax_id :: "string \<Rightarrow> string" where
  "normalise_tax_id v = filter is_digit v"

definition tax_ids_clash :: "string option \<Rightarrow> string option \<Rightarrow> bool" where
  "tax_ids_clash a b = (case (a, b) of
      (Some v, Some w) \<Rightarrow> normalise_tax_id v \<noteq> [] \<and> normalise_tax_id v = normalise_tax_id w
    | _ \<Rightarrow> False)"

definition companies_clash :: "company \<Rightarrow> company \<Rightarrow> bool" where
  "companies_clash c d = (company_live c \<and> company_live d \<and>
     (tax_ids_clash (co_npwp c) (co_npwp d) \<or> tax_ids_clash (co_nib c) (co_nib d)))"

definition announce_company_change :: "env \<Rightarrow> uuid \<Rightarrow> string \<Rightarrow> sys \<Rightarrow> sys" where
  "announce_company_change env i op s = s\<lparr>notices := (i, op) # notices s\<rparr>"

text \<open>models.Company.BeforeCreate: the hook that runs on every insert of the model.\<close>

definition before_create :: "company \<Rightarrow> company" where
  "before_create c = c\<lparr>co_abbreviation := Some
     (case co_abbreviation c of
        None \<Rightarrow> from_name (co_name c)
      | Some a \<Rightarrow> if trim_space a = [] then from_name (co_name c) else normalise a)\<rparr>"

text \<open>\<open>notify\<close> is False for the repository WithTx returns, which has no notices.\<close>

definition create_company ::
  "env \<Rightarrow> bool \<Rightarrow> company \<Rightarrow> sys \<Rightarrow> svc_error + (company \<times> sys)" where
  "create_company env notify c0 s =
     (if db_down env OpCreateCompany then Inl (ErrDB OpCreateCompany)
      else if list_ex (companies_clash (before_create c0)) (companies s) then Inl ErrConflict
      else let c = (before_create c0)\<lparr>co_id := gen_uuid env (draws s)\<rparr>;
               s1 = s\<lparr>companies := companies s @ [c], draws := Suc (draws s)\<rparr> in
        Inr (c, if notify then announce_company_change env (co_id c) ''create'' s1 else s1))"

definition allocate_fms_tenant_id :: "env \<Rightarrow> int \<Rightarrow> uuid \<Rightarrow> sys \<Rightarrow> svc_error + sys" where
  "allocate_fms_tenant_id env nextval i s =
     (if db_down env OpAllocateFMS then Inl (ErrDB OpAllocateFMS)
      else Inr (announce_company_change env i ''update''
             (s\<lparr>companies := sql_update (\<lambda>c. co_id c = i \<and> co_fms_tenant c = None)
                 (\<lambda>c. c\<lparr>co_fms_tenant := Some nextval\<rparr>) (companies s)\<rparr>)))"

definition update_company_fields ::
  "env \<Rightarrow> uuid \<Rightarrow> (company \<Rightarrow> company) \<Rightarrow> sys \<Rightarrow> svc_error + sys" where
  "update_company_fields env i f s =
     (if db_down env OpUpdateCompany then Inl (ErrDB OpUpdateCompany)
      else let hit = (\<lambda>c. co_id c = i \<and> company_live c) in
        if list_ex (\<lambda>c. hit c \<and> list_ex (\<lambda>d. co_id d \<noteq> i \<and> companies_clash (f c) d) (companies s))
             (companies s)
        then Inl (ErrDB OpUpdateCompany)
        else if sql_count hit (companies s) = 0 then Inl ErrNotFound
        else Inr (announce_company_change env i ''update''
               (s\<lparr>companies := sql_update hit f (companies s)\<rparr>)))"

section \<open>Roles\<close>

definition administrator_role_name :: string where
  "administrator_role_name = ''Administrator''"

definition administrator_description :: string where
  "administrator_description = ''Full access to everything this company is entitled to. Created automatically and cannot be deleted.''"

definition find_role_by_name :: "env \<Rightarrow> sys \<Rightarrow> uuid \<Rightarrow> string \<Rightarrow> svc_error + role" where
  "find_role_by_name env s cid n =
     (if db_down env OpFindRole then Inl (ErrDB OpFindRole)
      else case sql_first (\<lambda>r. ro_company r = cid \<and> ro_name r = n) (sort_key ro_id (roles s)) of
        None \<Rightarrow> Inl ErrNotFound
      | Some r \<Rightarrow> Inr r)"

definition find_role :: "env \<Rightarrow> sys \<Rightarrow> uuid \<Rightarrow> uuid \<Rightarrow> svc_error + role" where
  "find_role env s cid i =
     (if db_down env OpFindRole then Inl (ErrDB OpFindRole)
      else case sql_first (\<lambda>r. ro_id r = i \<and> ro_company r = cid) (roles s) of
        None \<Rightarrow> Inl ErrNotFound
      | Some r \<Rightarrow> Inr r)"

definition upsert_administrator :: "env \<Rightarrow> uuid \<Rightarrow> sys \<Rightarrow> sys" where
  "upsert_administrator env cid s =
     s\<lparr>roles := sql_upsert (\<lambda>r. ro_company r = cid \<and> ro_name r = administrator_role_name)
         (\<lambda>r. r\<lparr>ro_grants_all := True, ro_is_system := True\<rparr>)
         \<lparr>ro_id = gen_uuid env (draws s), ro_company = cid, ro_name = administrator_role_name,
          ro_description = Some administrator_description, ro_permissions = [],
          ro_grants_all = True, ro_is_system = True, ro_created_by = None\<rparr> (roles s),
       draws := Suc (draws s)\<rparr>"

definition ensure_administrator :: "env \<Rightarrow> uuid \<Rightarrow> sys \<Rightarrow> svc_error + (role \<times> sys)" where
  "ensure_administrator env cid s =
     (if db_down env OpEnsureAdmin then Inl (ErrDB OpEnsureAdmin)
      else let s1 = upsert_administrator env cid s in
        case find_role_by_name env s1 cid administrator_role_name of
          Inl e \<Rightarrow> Inl e
        | Inr r \<Rightarrow> Inr (r, s1))"

definition create_role :: "env \<Rightarrow> role \<Rightarrow> sys \<Rightarrow> svc_error + (role \<times> sys)" where
  "create_role env r0 s =
     (if db_down env OpCreateRole then Inl (ErrDB OpCreateRole)
      else if list_ex (\<lambda>r. ro_company r = ro_company r0 \<and> ro_name r = ro_name r0) (roles s)
      then Inl ErrConflict
      else let r = r0\<lparr>ro_id := gen_uuid env (draws s)\<rparr> in
        Inr (r, s\<lparr>roles := roles s @ [r], draws := Suc (draws s)\<rparr>))"

text \<open>Update maps no error to ErrConflict: a clash on (company_id, name) is a plain error.\<close>

definition update_role ::
  "env \<Rightarrow> uuid \<Rightarrow> uuid \<Rightarrow> (role \<Rightarrow> role) \<Rightarrow> sys \<Rightarrow> svc_error + sys" where
  "update_role env cid i f s =
     (if db_down env OpUpdateRole then Inl (ErrDB OpUpdateRole)
      else let hit = (\<lambda>r. ro_id r = i \<and> ro_company r = cid) in
        if list_ex (\<lambda>r. hit r \<and> list_ex (\<lambda>q. ro_id q \<noteq> i \<and> ro_company q = ro_company (f r) \<and>
               ro_name q = ro_name (f r)) (roles s)) (roles s)
        then Inl (ErrDB OpUpdateRole)
        else if sql_count hit (roles s) = 0 then Inl ErrNotFound
        else Inr (s\<lparr>roles := sql_update hit f (roles s)\<rparr>))"

text \<open>users.role_id references roles ON DELETE RESTRICT, soft-deleted users included.\<close>

definition delete_role :: "env \<Rightarrow> uuid \<Rightarrow> uuid \<Rightarrow> sys \<Rightarrow> svc_error + sys" where
  "delete_role env cid i s =
     (if db_down env OpDeleteRole then Inl (ErrDB OpDeleteRole)
      else let hit = (\<lambda>r. ro_id r = i \<and> ro_company r = cid \<and> \<not> ro_is_system r) in
        if sql_count hit (roles s) > 0 \<and> list_ex (\<lambda>u. us_role u = Some i) (users s)
        then Inl (ErrDB OpDeleteRole)
        else if sql_count hit (roles s) = 0 then Inl ErrNotFound
        else Inr (s\<lparr>roles := sql_delete hit (roles s)\<rparr>))"

definition count_role_holders :: "env \<Rightarrow> uuid \<Rightarrow> sys \<Rightarrow> svc_error + nat" where
  "count_role_holders env i s =
     (if db_down env OpCountHolders then Inl (ErrDB OpCountHolders)
      else Inr (sql_count (\<lambda>u. us_role u = Some i \<and> user_live u) (users s)))"

section \<open>Sessions and revocations\<close>

text \<open>
  SessionRepository.announce: without an announcer nothing is published, and a
  failed publication is only logged.
\<close>

definition announce :: "env \<Rightarrow> event \<Rightarrow> sys \<Rightarrow> sys" where
  "announce env e s =
     (if \<not> announcer env \<or> db_down env OpPublish then s else s\<lparr>published := e # published s\<rparr>)"

text \<open>sessions.token_id and sessions.refresh_token_hash are unique.\<close>

definition create_session :: "env \<Rightarrow> session \<Rightarrow> sys \<Rightarrow> svc_error + sys" where
  "create_session env se s =
     (if db_down env OpCreateSession \<or>
         list_ex (\<lambda>x. se_token x = se_token se \<or>
            (se_refresh_hash se \<noteq> None \<and> se_refresh_hash x = se_refresh_hash se)) (sessions s)
      then Inl (ErrDB OpCreateSession)
      else Inr (s\<lparr>sessions := sessions s @ [se]\<rparr>))"

definition find_session :: "env \<Rightarrow> (session \<Rightarrow> bool) \<Rightarrow> sys \<Rightarrow> svc_error + session" where
  "find_session env p s =
     (if db_down env OpFindSession then Inl (ErrDB OpFindSession)
      else case sql_first p (sessions s) of None \<Rightarrow> Inl ErrNotFound | Some se \<Rightarrow> Inr se)"

definition find_by_token_id :: "env \<Rightarrow> uuid \<Rightarrow> sys \<Rightarrow> svc_error + session" where
  "find_by_token_id env tid = find_session env (\<lambda>se. se_token se = tid)"

definition find_by_refresh_hash :: "env \<Rightarrow> string \<Rightarrow> sys \<Rightarrow> svc_error + session" where
  "find_by_refresh_hash env h = find_session env (\<lambda>se. se_refresh_hash se = Some h)"

definition mark_revoked :: "env \<Rightarrow> (session \<Rightarrow> bool) \<Rightarrow> sys \<Rightarrow> sys" where
  "mark_revoked env p s =
     s\<lparr>sessions := sql_update (\<lambda>se. p se \<and> se_revoked se = None)
         (\<lambda>se. se\<lparr>se_revoked := Some (now env)\<rparr>) (sessions s)\<rparr>"

definition revoke_session :: "env \<Rightarrow> uuid \<Rightarrow> sys \<Rightarrow> svc_error + sys" where
  "revoke_session env tid s =
     (if db_down env OpRevokeSession then Inl (ErrDB OpRevokeSession)
      else Inr (mark_revoked env (\<lambda>se. se_token se = tid) s))"

definition revoke_all_for_user :: "env \<Rightarrow> uuid \<Rightarrow> sys \<Rightarrow> svc_error + (nat \<times> sys)" where
  "revoke_all_for_user env uid s =
     (if db_down env OpRevokeAll then Inl (ErrDB OpRevokeAll)
      else Inr (sql_count (\<lambda>se. se_user se = uid \<and> se_revoked se = None) (sessions s),
             announce env \<lparr>ev_kind = kind_user, ev_id = uuid_string env uid, ev_at = now env\<rparr>
               (mark_revoked env (\<lambda>se. se_user se = uid) s)))"

definition revoke_other_single_device ::
  "env \<Rightarrow> uuid \<Rightarrow> uuid \<Rightarrow> sys \<Rightarrow> svc_error + sys" where
  "revoke_other_single_device env uid keep s =
     (if db_down env OpEvict then Inl (ErrDB OpEvict)
      else let p = (\<lambda>se. se_user se = uid \<and> se_single_device se \<and> se_token se \<noteq> keep);
               evicted = map se_token (filter (\<lambda>se. p se \<and> se_revoked se = None) (sessions s)) in
        Inr (fold (\<lambda>tid. announce env
                 \<lparr>ev_kind = kind_session, ev_id = uuid_string env tid, ev_at = now env\<rparr>)
               evicted (mark_revoked env p s)))"

definition delete_expired_sessions :: "env \<Rightarrow> time \<Rightarrow> sys \<Rightarrow> svc_error + (nat \<times> sys)" where
  "delete_expired_sessions env cutoff s =
     (if db_down env OpRevokeSession then Inl (ErrDB OpRevokeSession)
      else Inr (sql_count (\<lambda>se. se_expires se < cutoff) (sessions s),
             s\<lparr>sessions := sql_delete (\<lambda>se. se_expires se < cutoff) (sessions s)\<rparr>))"

section \<open>API keys, device tokens and the audit log\<close>

definition find_key_by_hash :: "env \<Rightarrow> string \<Rightarrow> sys \<Rightarrow> svc_error + api_key" where
  "find_key_by_hash env h s =
     (if db_down env OpFindKey then Inl (ErrDB OpFindKey)
      else case sql_first (\<lambda>k. ak_hash k = h) (api_keys s) of
        None \<Rightarrow> Inl ErrNotFound | Some k \<Rightarrow> Inr k)"

definition company_of_key :: "env \<Rightarrow> api_key \<Rightarrow> sys \<Rightarrow> svc_error + company option" where
  "company_of_key env k s = (case ak_company k of
      None \<Rightarrow> Inr None
    | Some i \<Rightarrow> (case find_company env s i of Inl e \<Rightarrow> Inl e | Inr c \<Rightarrow> Inr (Some c)))"

definition create_api_key :: "env \<Rightarrow> api_key \<Rightarrow> sys \<Rightarrow> svc_error + (api_key \<times> sys)" where
  "create_api_key env k0 s =
     (if db_down env OpCreateKey \<or> list_ex (\<lambda>k. ak_hash k = ak_hash k0) (api_keys s)
      then Inl (ErrDB OpCreateKey)
      else let k = k0\<lparr>ak_id := gen_uuid env (draws s)\<rparr> in
        Inr (k, s\<lparr>api_keys := api_keys s @ [k], draws := Suc (draws s)\<rparr>))"

definition revoke_api_key :: "env \<Rightarrow> uuid \<Rightarrow> sys \<Rightarrow> svc_error + sys" where
  "revoke_api_key env i s =
     (if db_down env OpRevokeKey then Inl (ErrDB OpRevokeKey)
      else let hit = (\<lambda>k. ak_id k = i \<and> ak_revoked k = None) in
        if sql_count hit (api_keys s) = 0 then Inl ErrNotFound
        else Inr (s\<lparr>api_keys := sql_update hit
               (\<lambda>k. k\<lparr>ak_revoked := Some (now env), ak_active := False\<rparr>) (api_keys s)\<rparr>))"

definition touch_key :: "env \<Rightarrow> uuid \<Rightarrow> sys \<Rightarrow> sys" where
  "touch_key env i s =
     (if db_down env OpTouchKey then s
      else s\<lparr>api_keys := sql_update (\<lambda>k. ak_id k = i)
             (\<lambda>k. k\<lparr>ak_last_used := Some (now env)\<rparr>) (api_keys s)\<rparr>)"

definition upsert_device :: "env \<Rightarrow> device_token \<Rightarrow> sys \<Rightarrow> svc_error + sys" where
  "upsert_device env t s =
     (if db_down env OpDevice then Inl (ErrDB OpDevice)
      else Inr (s\<lparr>devices := sql_upsert (\<lambda>d. dt_user d = dt_user t \<and> dt_push d = dt_push t)
             (\<lambda>d. d\<lparr>dt_active := True, dt_failed := None, dt_platform := dt_platform t,
                    dt_device := dt_device t\<rparr>)
             (t\<lparr>dt_active := True, dt_failed := None\<rparr>) (devices s)\<rparr>))"

definition mark_device_failed :: "env \<Rightarrow> string \<Rightarrow> sys \<Rightarrow> svc_error + sys" where
  "mark_device_failed env push s =
     (if db_down env OpDevice then Inl (ErrDB OpDevice)
      else Inr (s\<lparr>devices := sql_update (\<lambda>d. dt_push d = push)
             (\<lambda>d. d\<lparr>dt_active := False, dt_failed := Some (now env)\<rparr>) (devices s)\<rparr>))"

definition deactivate_for_device :: "env \<Rightarrow> uuid \<Rightarrow> string \<Rightarrow> sys \<Rightarrow> svc_error + sys" where
  "deactivate_for_device env uid dev s =
     (if db_down env OpDevice then Inl (ErrDB OpDevice)
      else Inr (s\<lparr>devices := sql_update (\<lambda>d. dt_user d = uid \<and> dt_device d = Some dev)
             (\<lambda>d. d\<lparr>dt_active := False\<rparr>) (devices s)\<rparr>))"

definition write_audit_row :: "env \<Rightarrow> audit_entry \<Rightarrow> sys \<Rightarrow> svc_error + sys" where
  "write_audit_row env a s =
     (if db_down env OpAudit then Inl (ErrDB OpAudit)
      else Inr (s\<lparr>audit := audit s @ [a\<lparr>au_created := now env\<rparr>]\<rparr>))"

text \<open>writeAudit of the services: a failed audit line is logged and ignored.\<close>

definition write_audit :: "env \<Rightarrow> audit_entry \<Rightarrow> sys \<Rightarrow> sys" where
  "write_audit env a s = (case write_audit_row env a s of Inl _ \<Rightarrow> s | Inr s' \<Rightarrow> s')"

definition count_recent_failures :: "env \<Rightarrow> string \<Rightarrow> time \<Rightarrow> sys \<Rightarrow> svc_error + nat" where
  "count_recent_failures env ident since s =
     (if db_down env OpCountFailures then Inl (ErrDB OpCountFailures)
      else Inr (sql_count (\<lambda>a. au_event a = audit_login_failure \<and> au_created a > since \<and>
             map_of (au_detail a) ''identifier'' = Some ident) (audit s)))"

section \<open>Lemmas\<close>

lemma before_create_simps [simp]:
  "co_id (before_create c) = co_id c" "co_npwp (before_create c) = co_npwp c" "co_nib (before_create c) = co_nib c"
  "co_deleted (before_create c) = co_deleted c" "co_merged_into (before_create c) = co_merged_into c"
  "co_name (before_create c) = co_name c" "co_role (before_create c) = co_role c"
  "co_created_by (before_create c) = co_created_by c" "co_max_users (before_create c) = co_max_users c"
  by (simp_all add: before_create_def)

lemma companies_clash_before_create [simp]: "companies_clash (before_create c) d = companies_clash c d"
  by (simp add: companies_clash_def company_live_def)

lemma update_user_Inr:
  "update_user_fields env i f s = Inr s' \<Longrightarrow>
     s' = s\<lparr>users := sql_update (\<lambda>u. us_id u = i \<and> user_live u) f (users s)\<rparr> \<and>
     (\<exists>u \<in> set (users s). us_id u = i \<and> user_live u) \<and>
     \<not> (\<exists>u \<in> set (users s). us_id u = i \<and> user_live u \<and>
          (\<exists>v \<in> set (users s). us_id v \<noteq> i \<and> users_clash (f u) v))"
  by (auto simp: update_user_fields_def Let_def list_ex_iff sql_count_0 split: if_splits)

lemma find_user_Inr:
  "find_user_by_id env s i = Inr u \<Longrightarrow> u \<in> set (users s) \<and> us_id u = i \<and> user_live u"
  by (auto simp: find_user_by_id_def split: if_splits option.splits dest: sql_first_Some)

lemma find_role_Inr:
  "find_role env s cid i = Inr r \<Longrightarrow> r \<in> set (roles s) \<and> ro_id r = i \<and> ro_company r = cid"
  by (auto simp: find_role_def split: if_splits option.splits dest: sql_first_Some)

lemma find_company_Inr:
  "find_company env s i = Inr c \<Longrightarrow> c \<in> set (companies s) \<and> co_id c = i \<and> company_live c"
  by (auto simp: find_company_def split: if_splits option.splits dest: sql_first_Some)

end
