(* ===== verification/Entitlement.thy ===== *)
theory Entitlement
  imports Repository "HOL-Library.Multiset"
begin

text \<open>
  What a company holds and what a person may do: entitlementFor, BuildAccess and
  assemble (repository/access_repository.go), the module repository
  (repository/module_repository.go) and the entitlement service
  (services/entitlement_service.go).  Go maps whose iteration order is unspecified
  are lists; the statements speak of their sets.
\<close>

section \<open>entitlementFor\<close>

definition entitlement_revoke :: string where "entitlement_revoke = ''revoke''"
definition entitlement_grant :: string where "entitlement_grant = ''grant''"

text \<open>The rows of the company whose validity window contains CURRENT_DATE.\<close>

definition in_window :: "env \<Rightarrow> company_module \<Rightarrow> bool" where
  "in_window env m =
     ((case cm_valid_from m of None \<Rightarrow> True | Some f \<Rightarrow> f \<le> current_date env) \<and>
      (case cm_valid_until m of None \<Rightarrow> True | Some u \<Rightarrow> u \<ge> current_date env))"

definition entitlement_rows :: "env \<Rightarrow> sys \<Rightarrow> uuid \<Rightarrow> company_module list" where
  "entitlement_rows env s cid =
     filter (\<lambda>m. cm_company m = cid \<and> in_window env m) (modules s)"

definition entitlement_modes :: "sys \<Rightarrow> uuid \<Rightarrow> (product \<times> string) list" where
  "entitlement_modes s cid =
     fold (\<lambda>r. AList.update (ps_product r) (ps_mode r)) (filter (\<lambda>r. ps_company r = cid) (settings s)) []"

definition enabled_for :: "company_module list \<Rightarrow> product \<Rightarrow> (string \<times> bool) list" where
  "enabled_for rows p =
     fold (\<lambda>m. AList.update (cm_module m) (cm_enabled m)) (filter (\<lambda>m. cm_product m = p) rows) []"

definition features_in_mode :: "string option \<Rightarrow> product \<Rightarrow> (string \<times> bool) list \<Rightarrow> string list" where
  "features_in_mode mode p enabled =
     (if mode = Some entitlement_revoke
      then map feat_name (filter (\<lambda>f. \<not> feat_roadmap f \<and> map_of enabled (feat_name f) \<noteq> Some False)
             (sellable_features p))
      else map fst (filter snd enabled))"

definition entitlement_for ::
  "env \<Rightarrow> sys \<Rightarrow> uuid \<Rightarrow> svc_error + (product \<times> string list) list" where
  "entitlement_for env s cid =
     (if db_down env OpModules then Inl (ErrDB OpModules)
      else if db_down env OpModes then Inl (ErrDB OpModes)
      else let rows = entitlement_rows env s cid;
               modes = entitlement_modes s cid;
               products = remdups (map fst modes @ map cm_product rows)
        in Inr (filter (\<lambda>(p, fs). fs \<noteq> [])
             (map (\<lambda>p. (p, features_in_mode (map_of modes p) p (enabled_for rows p))) products)))"

definition features_at :: "(product \<times> string list) list \<Rightarrow> product \<Rightarrow> string list" where
  "features_at fm p = (case map_of fm p of None \<Rightarrow> [] | Some fs \<Rightarrow> fs)"

section \<open>The access that goes into a token\<close>

record access_role =
  ar_name :: string
  ar_grants_all :: bool
  ar_permissions :: "string list"

definition zero_role :: access_role where
  "zero_role = \<lparr>ar_name = [], ar_grants_all = False, ar_permissions = []\<rparr>"

definition role_access :: "role \<Rightarrow> access_role" where
  "role_access r = \<lparr>ar_name = ro_name r, ar_grants_all = ro_grants_all r,
     ar_permissions = ro_permissions r\<rparr>"

definition dedupe :: "string list \<Rightarrow> string list" where
  "dedupe xs = (if xs = [] then [] else dedupe_from [] xs)"

text \<open>The role's qualified keys, placed; an unqualified key is skipped.\<close>

fun place_keys :: "string list \<Rightarrow> (product \<times> string) list" where
  "place_keys [] = []"
| "place_keys (key # rest) =
     (case cut (CHR '':'') key of (p, bare, ok) \<Rightarrow>
        if \<not> ok then place_keys rest else (p, bare) # place_keys rest)"

definition keys_for :: "string list \<Rightarrow> extra_access list \<Rightarrow> product \<Rightarrow> string list" where
  "keys_for perms exs p =
     map snd (filter (\<lambda>(q, k). q = p) (place_keys perms)) @
     concat (map ea_permissions (filter (\<lambda>e. ea_product e = p) exs))"

definition assemble ::
  "env \<Rightarrow> sys \<Rightarrow> access_role \<Rightarrow> extra_access list \<Rightarrow> uuid option
     \<Rightarrow> svc_error + (product \<rightharpoonup> product_access)" where
  "assemble env s role exs cid =
     (case (case cid of None \<Rightarrow> Inr [] | Some c \<Rightarrow> entitlement_for env s c) of
        Inl e \<Rightarrow> Inl e
      | Inr fm \<Rightarrow>
          let products = filter (\<lambda>p. p \<noteq> product_shared) (map fst fm) @
                map fst (place_keys (ar_permissions role)) @ map ea_product exs
          in Inr (\<lambda>p. if p \<in> set products
               then Some \<lparr>pa_role = ar_name role,
                          pa_permissions = dedupe (keys_for (ar_permissions role) exs p),
                          pa_features = features_at fm p @ features_at fm product_shared,
                          pa_grants_all = ar_grants_all role\<rparr>
               else None))"

definition staff_access :: "string \<Rightarrow> (product \<rightharpoonup> product_access)" where
  "staff_access role_name =
     (let nm = (if role_name = [] then ''Platform Staff'' else role_name) in
      (\<lambda>p. if p = product_tms \<or> p = product_fms
          then Some \<lparr>pa_role = nm, pa_permissions = [],
             pa_features = sort (map feat_name (filter (\<lambda>f. \<not> feat_roadmap f) (sellable_features p))),
             pa_grants_all = True\<rparr>
          else None))"

text \<open>users u JOIN roles r ON r.id = u.role_id: no row leaves the zero struct.\<close>

definition load_role :: "sys \<Rightarrow> uuid \<Rightarrow> access_role \<times> bool" where
  "load_role s uid =
     (case sql_first (\<lambda>u. us_id u = uid) (users s) of
        None \<Rightarrow> (zero_role, False)
      | Some u \<Rightarrow>
          (case us_role u of
             None \<Rightarrow> (zero_role, False)
           | Some rid \<Rightarrow>
               (case sql_first (\<lambda>r. ro_id r = rid) (roles s) of
                  None \<Rightarrow> (zero_role, False)
                | Some r \<Rightarrow> (role_access r, us_platform_staff u))))"

definition build_access ::
  "env \<Rightarrow> sys \<Rightarrow> uuid \<Rightarrow> uuid option \<Rightarrow> svc_error + (product \<rightharpoonup> product_access)" where
  "build_access env s uid cid =
     (if db_down env OpLoadRole then Inl (ErrDB OpLoadRole)
      else case load_role s uid of (role, staff) \<Rightarrow>
        if staff then Inr (staff_access (ar_name role))
        else if db_down env OpLoadExtras then Inl (ErrDB OpLoadExtras)
        else assemble env s role (filter (\<lambda>e. ea_user e = uid \<and> ea_enabled e) (extras s)) cid)"

definition build_access_for_role ::
  "env \<Rightarrow> sys \<Rightarrow> uuid \<Rightarrow> uuid option \<Rightarrow> svc_error + (product \<rightharpoonup> product_access)" where
  "build_access_for_role env s rid cid =
     (if db_down env OpLoadRole then Inl (ErrDB OpLoadRole)
      else assemble env s
        (case sql_first (\<lambda>r. ro_id r = rid) (roles s) of None \<Rightarrow> zero_role | Some r \<Rightarrow> role_access r)
        [] cid)"

section \<open>Extra access\<close>

definition grant_product_access :: "env \<Rightarrow> extra_access \<Rightarrow> sys \<Rightarrow> svc_error + sys" where
  "grant_product_access env a s =
     (if db_down env OpGrantAccess then Inl (ErrDB OpGrantAccess)
      else Inr (s\<lparr>extras := sql_upsert (\<lambda>e. ea_user e = ea_user a \<and> ea_product e = ea_product a)
             (\<lambda>e. e\<lparr>ea_permissions := ea_permissions a, ea_enabled := ea_enabled a,
                    ea_granted_by := ea_granted_by a, ea_note := ea_note a\<rparr>) a (extras s)\<rparr>))"

definition revoke_product_access :: "env \<Rightarrow> uuid \<Rightarrow> product \<Rightarrow> sys \<Rightarrow> svc_error + sys" where
  "revoke_product_access env uid p s =
     (if db_down env OpRevokeAccess then Inl (ErrDB OpRevokeAccess)
      else let hit = (\<lambda>e. ea_user e = uid \<and> ea_product e = p) in
        if sql_count hit (extras s) = 0 then Inl ErrNotFound
        else Inr (s\<lparr>extras := sql_update hit (\<lambda>e. e\<lparr>ea_enabled := False\<rparr>) (extras s)\<rparr>))"

section \<open>The module repository\<close>

definition active_for_company :: "env \<Rightarrow> sys \<Rightarrow> uuid \<Rightarrow> product \<Rightarrow> svc_error + string list" where
  "active_for_company env s cid p =
     (case entitlement_for env s cid of
        Inl e \<Rightarrow> Inl e
      | Inr fm \<Rightarrow> Inr (sort (features_at fm p @ features_at fm product_shared)))"

definition mode_row :: "sys \<Rightarrow> uuid \<Rightarrow> product \<Rightarrow> string" where
  "mode_row s cid p =
     (case sql_first (\<lambda>r. ps_company r = cid \<and> ps_product r = p) (settings s) of
        None \<Rightarrow> [] | Some r \<Rightarrow> ps_mode r)"

definition mode_for :: "env \<Rightarrow> sys \<Rightarrow> uuid \<Rightarrow> product \<Rightarrow> svc_error + string" where
  "mode_for env s cid p =
     (if db_down env OpModes then Inl (ErrDB OpModes)
      else let mode = mode_row s cid p in
        Inr (if mode = [] then entitlement_grant else mode))"

definition module_key :: "uuid \<Rightarrow> product \<Rightarrow> string \<Rightarrow> company_module \<Rightarrow> bool" where
  "module_key cid p m r = (cm_company r = cid \<and> cm_product r = p \<and> cm_module r = m)"

text \<open>valid_from and valid_until are DATE columns.\<close>

definition stored_module :: "company_module \<Rightarrow> company_module" where
  "stored_module m = m\<lparr>cm_valid_from := map_option to_date (cm_valid_from m),
     cm_valid_until := map_option to_date (cm_valid_until m)\<rparr>"

definition grant_module :: "env \<Rightarrow> company_module \<Rightarrow> uuid option \<Rightarrow> sys \<Rightarrow> (svc_error + unit) \<times> sys" where
  "grant_module env m0 actor =
     transaction env (\<lambda>s.
       if db_down env OpGrantModule then Inl (ErrDB OpGrantModule)
       else let m = stored_module m0;
                s1 = s\<lparr>modules := sql_upsert (module_key (cm_company m) (cm_product m) (cm_module m))
                  (\<lambda>r. r\<lparr>cm_enabled := cm_enabled m, cm_valid_from := cm_valid_from m,
                        cm_valid_until := cm_valid_until m, cm_limits := cm_limits m,
                        cm_granted_by := cm_granted_by m, cm_note := cm_note m\<rparr>) m (modules s)\<rparr>
         in if db_down env OpHistory then Inl (ErrDB OpHistory)
            else Inr ((), s1\<lparr>module_events := module_events s1 @
              [\<lparr>me_company = cm_company m, me_product = cm_product m, me_module = cm_module m,
                me_action = (if cm_enabled m then ''granted'' else ''revoked''), me_actor = actor\<rparr>]\<rparr>))"

definition revoke_module ::
  "env \<Rightarrow> uuid \<Rightarrow> product \<Rightarrow> string \<Rightarrow> uuid option \<Rightarrow> sys \<Rightarrow> (svc_error + unit) \<times> sys" where
  "revoke_module env cid p m actor =
     transaction env (\<lambda>s.
       if db_down env OpRevokeModule then Inl (ErrDB OpRevokeModule)
       else let hit = module_key cid p m;
                withdrawn =
                  (if sql_count hit (modules s) > 0
                   then Inr (s\<lparr>modules := sql_update hit (\<lambda>r. r\<lparr>cm_enabled := False\<rparr>) (modules s)\<rparr>)
                   else if db_down env OpModes then Inl (ErrDB OpModes)
                   else if mode_row s cid p \<noteq> entitlement_revoke then Inl ErrNotFound
                   else if db_down env OpGrantModule then Inl (ErrDB OpGrantModule)
                   else Inr (s\<lparr>modules := modules s @
                     [\<lparr>cm_company = cid, cm_product = p, cm_module = m, cm_enabled = False,
                       cm_valid_from = None, cm_valid_until = None, cm_limits = [],
                       cm_granted_by = actor, cm_note = None\<rparr>]\<rparr>))
         in case withdrawn of
              Inl e \<Rightarrow> Inl e
            | Inr s1 \<Rightarrow>
                if db_down env OpHistory then Inl (ErrDB OpHistory)
                else Inr ((), s1\<lparr>module_events := module_events s1 @
                  [\<lparr>me_company = cid, me_product = p, me_module = m, me_action = ''revoked'',
                    me_actor = actor\<rparr>]\<rparr>))"

text \<open>ON CONFLICT DO NOTHING, row by row.\<close>

fun insert_defaults :: "uuid \<Rightarrow> product \<Rightarrow> string list \<Rightarrow> company_module list \<Rightarrow> company_module list" where
  "insert_defaults cid p [] t = t"
| "insert_defaults cid p (m # ms) t =
     insert_defaults cid p ms (if list_ex (module_key cid p m) t then t
       else t @ [\<lparr>cm_company = cid, cm_product = p, cm_module = m, cm_enabled = True,
         cm_valid_from = None, cm_valid_until = None, cm_limits = [],
         cm_granted_by = None, cm_note = None\<rparr>])"

definition grant_defaults ::
  "env \<Rightarrow> uuid \<Rightarrow> product \<Rightarrow> string list \<Rightarrow> sys \<Rightarrow> svc_error + sys" where
  "grant_defaults env cid p ms s =
     (if ms = [] then Inr s
      else if db_down env OpDefaults then Inl (ErrDB OpDefaults)
      else Inr (s\<lparr>modules := insert_defaults cid p ms (modules s)\<rparr>))"

section \<open>The entitlement service\<close>

definition announce_company :: "env \<Rightarrow> uuid \<Rightarrow> sys \<Rightarrow> sys" where
  "announce_company env cid =
     announce env \<lparr>ev_kind = kind_company, ev_id = uuid_string env cid, ev_at = now env\<rparr>"

definition actor_uuid :: "env \<Rightarrow> principal \<Rightarrow> svc_error + uuid option" where
  "actor_uuid env actor =
     (if user_id actor = [] then Inr None
      else case uuid_parse env (user_id actor) of
        None \<Rightarrow> Inl (ErrValidation ''the caller has no usable identity'')
      | Some i \<Rightarrow> Inr (Some i))"

definition record_entitlement ::
  "env \<Rightarrow> uuid option \<Rightarrow> uuid \<Rightarrow> string \<Rightarrow> product \<Rightarrow> string \<Rightarrow> sys \<Rightarrow> sys" where
  "record_entitlement env actor cid action p m =
     write_audit env ((blank_audit env)\<lparr>au_actor := actor, au_event := action,
       au_detail := [(''companyId'', uuid_string env cid), (''product'', p), (''module'', m)]\<rparr>)"

record grant_input =
  gi_company :: uuid
  gi_product :: product
  gi_module :: string
  gi_valid_from :: "time option"
  gi_valid_until :: "time option"
  gi_limits :: "(string \<times> string) list"
  gi_note :: "string option"

definition expires_before_start :: "grant_input \<Rightarrow> bool" where
  "expires_before_start gi = (case (gi_valid_from gi, gi_valid_until gi) of
      (Some f, Some u) \<Rightarrow> u < f | _ \<Rightarrow> False)"

definition entitlement_grant_op ::
  "env \<Rightarrow> principal \<Rightarrow> int \<Rightarrow> grant_input \<Rightarrow> sys \<Rightarrow> (svc_error + company_module) \<times> sys" where
  "entitlement_grant_op env actor nextval gi s =
     (let p = gi_product gi in
      if \<not> is_known_product p then (Inl (ErrValidation ''is not a product''), s)
      else if \<not> is_sellable_feature p (gi_module gi)
      then (Inl (ErrValidation ''is not a feature that can be sold''), s)
      else if expires_before_start gi
      then (Inl (ErrValidation ''the grant would expire before it starts''), s)
      else case find_company env s (gi_company gi) of
        Inl e \<Rightarrow> (Inl e, s)
      | Inr c \<Rightarrow>
          (case (if p = product_fms \<and> co_fms_tenant c = None
                 then allocate_fms_tenant_id env nextval (gi_company gi) s else Inr s) of
             Inl e \<Rightarrow> (Inl e, s)
           | Inr s1 \<Rightarrow>
               (case actor_uuid env actor of
                  Inl e \<Rightarrow> (Inl e, s1)
                | Inr aid \<Rightarrow>
                    let row = \<lparr>cm_company = gi_company gi, cm_product = p, cm_module = gi_module gi,
                          cm_enabled = True, cm_valid_from = gi_valid_from gi,
                          cm_valid_until = gi_valid_until gi, cm_limits = gi_limits gi,
                          cm_granted_by = aid, cm_note = gi_note gi\<rparr>
                    in case grant_module env row aid s1 of
                      (Inl e, s2) \<Rightarrow> (Inl e, s2)
                    | (Inr _, s2) \<Rightarrow>
                        (Inr row, announce_company env (gi_company gi)
                           (record_entitlement env aid (gi_company gi) ''granted'' p (gi_module gi) s2)))))"

definition entitlement_revoke_op ::
  "env \<Rightarrow> principal \<Rightarrow> uuid \<Rightarrow> product \<Rightarrow> string \<Rightarrow> sys \<Rightarrow> (svc_error + unit) \<times> sys" where
  "entitlement_revoke_op env actor cid p m s =
     (case actor_uuid env actor of
        Inl e \<Rightarrow> (Inl e, s)
      | Inr aid \<Rightarrow>
          (case revoke_module env cid p m aid s of
             (Inl e, s1) \<Rightarrow> (Inl e, s1)
           | (Inr _, s1) \<Rightarrow>
               (Inr (), announce_company env cid (record_entitlement env aid cid ''revoked'' p m s1))))"

record effective_entitlement =
  ee_product :: product
  ee_mode :: string
  ee_modules :: "string list"

definition effective :: "env \<Rightarrow> sys \<Rightarrow> uuid \<Rightarrow> product \<Rightarrow> svc_error + effective_entitlement" where
  "effective env s cid p =
     (if \<not> is_known_product p then Inl (ErrValidation ''is not a product'')
      else case mode_for env s cid p of
        Inl e \<Rightarrow> Inl e
      | Inr mode \<Rightarrow>
          (case active_for_company env s cid p of
             Inl e \<Rightarrow> Inl e
           | Inr ms \<Rightarrow> Inr \<lparr>ee_product = p, ee_mode = mode, ee_modules = ms\<rparr>))"

definition module_history :: "env \<Rightarrow> sys \<Rightarrow> uuid \<Rightarrow> int \<Rightarrow> svc_error + module_event list" where
  "module_history env s cid limit0 =
     (let limit = (if limit0 \<le> 0 \<or> limit0 > 200 then 50 else limit0) in
      if db_down env OpHistory then Inl (ErrDB OpHistory)
      else Inr (take (nat limit) (rev (filter (\<lambda>e. me_company e = cid) (module_events s)))))"

section \<open>What a company holds\<close>

text \<open>The primary keys of company_modules, company_product_settings and user_product_access.\<close>

definition modules_keyed :: "sys \<Rightarrow> bool" where
  "modules_keyed s \<longleftrightarrow> distinct (map (\<lambda>m. (cm_company m, cm_product m, cm_module m)) (modules s)) \<and>
     distinct (map (\<lambda>r. (ps_company r, ps_product r)) (settings s))"

text \<open>
  The contract: in grant mode a module is held when an enabled row is in its
  window, in revoke mode when it is sellable, built, and no disabled row is in its
  window.
\<close>

definition module_held :: "env \<Rightarrow> sys \<Rightarrow> uuid \<Rightarrow> product \<Rightarrow> string \<Rightarrow> bool" where
  "module_held env s cid p m =
     (if mode_row s cid p = entitlement_revoke
      then list_ex (\<lambda>f. feat_name f = m \<and> \<not> feat_roadmap f) (sellable_features p) \<and>
           \<not> list_ex (\<lambda>r. module_key cid p m r \<and> in_window env r \<and> \<not> cm_enabled r) (modules s)
      else list_ex (\<lambda>r. module_key cid p m r \<and> in_window env r \<and> cm_enabled r) (modules s))"

lemma map_of_fold_update:
  "map_of (fold (\<lambda>r. AList.update (k r) (v r)) rs al) =
     map_of al ++ map_of (rev (map (\<lambda>r. (k r, v r)) rs))"
  by (induction rs arbitrary: al) (auto simp: update_conv' map_add_def fun_eq_iff split: option.splits)

lemma distinct_fold_update:
  "distinct (map fst al) \<Longrightarrow> distinct (map fst (fold (\<lambda>r. AList.update (k r) (v r)) rs al))"
  by (induction rs arbitrary: al) (auto simp: distinct_update)

lemma map_of_fold_update_Some:
  assumes "distinct (map k rs)"
  shows "map_of (fold (\<lambda>r. AList.update (k r) (v r)) rs []) x = Some y \<longleftrightarrow>
    (\<exists>r \<in> set rs. k r = x \<and> v r = y)"
proof -
  have d: "distinct (map fst (rev (map (\<lambda>r. (k r, v r)) rs)))"
    using assms by (simp add: rev_map [symmetric] comp_def)
  show ?thesis
    unfolding map_of_fold_update using map_of_eq_Some_iff [OF d, of x y] by auto
qed

lemma set_fold_update:
  assumes "distinct (map k rs)"
  shows "(x, y) \<in> set (fold (\<lambda>r. AList.update (k r) (v r)) rs []) \<longleftrightarrow> (\<exists>r \<in> set rs. k r = x \<and> v r = y)"
  using map_of_eq_Some_iff [OF distinct_fold_update [of "[]" k v rs], of x y]
    map_of_fold_update_Some [OF assms, of v x y] by simp

lemma distinct_map_filter_key:
  "distinct (map (\<lambda>r. (a r, b r)) rs) \<Longrightarrow> distinct (map b (filter (\<lambda>r. a r = x) rs))"
  by (induction rs) (auto simp: rev_image_eqI)

lemma entitlement_rows_key:
  assumes "modules_keyed s"
  shows "distinct (map cm_module (filter (\<lambda>m. cm_product m = p) (entitlement_rows env s cid)))"
proof -
  have "distinct (map (\<lambda>m. (cm_company m, cm_product m, cm_module m)) (modules s))"
    using assms by (simp add: modules_keyed_def)
  then have "distinct (map (\<lambda>m. (cm_product m, cm_module m)) (filter (\<lambda>m. cm_company m = cid) (modules s)))"
    by (rule distinct_map_filter_key)
  then have "distinct (map (\<lambda>m. (cm_product m, cm_module m))
      (filter (in_window env) (filter (\<lambda>m. cm_company m = cid) (modules s))))"
    by (rule distinct_map_filter)
  then show ?thesis
    unfolding entitlement_rows_def
    by (intro distinct_map_filter_key) (simp add: conj_commute)
qed

lemma enabled_for_Some:
  assumes "modules_keyed s"
  shows "map_of (enabled_for (entitlement_rows env s cid) p) m = Some b \<longleftrightarrow>
    (\<exists>r \<in> set (modules s). module_key cid p m r \<and> in_window env r \<and> cm_enabled r = b)"
  unfolding enabled_for_def map_of_fold_update_Some [OF entitlement_rows_key [OF assms]]
  by (auto simp: entitlement_rows_def module_key_def)

lemma enabled_for_set:
  assumes "modules_keyed s"
  shows "(m, b) \<in> set (enabled_for (entitlement_rows env s cid) p) \<longleftrightarrow>
    (\<exists>r \<in> set (modules s). module_key cid p m r \<and> in_window env r \<and> cm_enabled r = b)"
  unfolding enabled_for_def set_fold_update [OF entitlement_rows_key [OF assms]]
  by (auto simp: entitlement_rows_def module_key_def)

lemma modes_revoke:
  assumes "modules_keyed s"
  shows "map_of (entitlement_modes s cid) p = Some entitlement_revoke \<longleftrightarrow>
    mode_row s cid p = entitlement_revoke"
proof -
  have d: "distinct (map (\<lambda>r. (ps_company r, ps_product r)) (settings s))"
    using assms by (simp add: modules_keyed_def)
  have 1: "map_of (entitlement_modes s cid) p = Some x \<longleftrightarrow>
      (\<exists>r \<in> set (settings s). ps_company r = cid \<and> ps_product r = p \<and> ps_mode r = x)" for x
    unfolding entitlement_modes_def map_of_fold_update_Some [OF distinct_map_filter_key [OF d]] by auto
  show ?thesis
  proof (cases "sql_first (\<lambda>r. ps_company r = cid \<and> ps_product r = p) (settings s)")
    case None
    then have "\<forall>r \<in> set (settings s). \<not> (ps_company r = cid \<and> ps_product r = p)"
      by (simp add: sql_first_None)
    then show ?thesis using None by (auto simp: 1 mode_row_def entitlement_revoke_def)
  next
    case (Some r)
    then have r: "r \<in> set (settings s)" "ps_company r = cid" "ps_product r = p"
      using sql_first_Some by fastforce+
    have "q = r" if "q \<in> set (settings s)" "ps_company q = cid" "ps_product q = p" for q
      using d that r by (auto simp: distinct_map inj_on_def)
    moreover have "mode_row s cid p = ps_mode r" using Some by (simp add: mode_row_def)
    ultimately show ?thesis unfolding 1 using r by metis
  qed
qed

lemma features_at_entitlement:
  assumes "entitlement_for env s cid = Inr fm"
  shows "features_at fm p = features_in_mode (map_of (entitlement_modes s cid) p) p
     (enabled_for (entitlement_rows env s cid) p)"
proof -
  define F where "F = (\<lambda>p. features_in_mode (map_of (entitlement_modes s cid) p) p
     (enabled_for (entitlement_rows env s cid) p))"
  define ps where "ps = remdups (map fst (entitlement_modes s cid) @ map cm_product (entitlement_rows env s cid))"
  have fm: "fm = filter (\<lambda>(p, fs). fs \<noteq> []) (map (\<lambda>p. (p, F p)) ps)"
    using assms by (simp add: entitlement_for_def Let_def F_def ps_def split: if_splits)
  have at: "features_at (filter (\<lambda>(p, fs). fs \<noteq> []) (map (\<lambda>p. (p, F p)) qs)) p =
      (if p \<in> set qs then F p else [])" for qs
    by (induction qs) (auto simp: features_at_def split: option.splits)
  have "F p = []" if "p \<notin> set ps"
  proof -
    have "map_of (entitlement_modes s cid) p = None"
      using that by (simp add: ps_def map_of_eq_None_iff)
    moreover have "filter (\<lambda>m. cm_product m = p) (entitlement_rows env s cid) = []"
      using that by (auto simp: ps_def filter_empty_conv)
    ultimately show ?thesis by (simp add: F_def features_in_mode_def enabled_for_def)
  qed
  then show ?thesis using at [of ps] by (auto simp: fm F_def)
qed

lemma features_at_held:
  assumes "modules_keyed s" "entitlement_for env s cid = Inr fm"
  shows "m \<in> set (features_at fm p) \<longleftrightarrow> module_held env s cid p m"
proof -
  note feat = features_at_entitlement [OF assms(2), of p]
  show ?thesis
  proof (cases "mode_row s cid p = entitlement_revoke")
    case True
    then have "map_of (entitlement_modes s cid) p = Some entitlement_revoke"
      using modes_revoke [OF assms(1)] by blast
    then show ?thesis
      using True by (auto simp: feat features_in_mode_def enabled_for_Some [OF assms(1)]
          module_held_def list_ex_iff)
  next
    case False
    then have "map_of (entitlement_modes s cid) p \<noteq> Some entitlement_revoke"
      using modes_revoke [OF assms(1)] by blast
    then show ?thesis
      using False enabled_for_set [OF assms(1), of m True env cid p]
      by (force simp: feat features_in_mode_def module_held_def list_ex_iff)
  qed
qed

section \<open>What a person may do\<close>

lemma dedupe_set [simp]: "set (dedupe xs) = set xs"
  by (simp add: dedupe_def set_dedupe_from)

lemma dedupe_distinct: "distinct (dedupe xs)"
  by (simp add: dedupe_def distinct_dedupe_from)

lemma place_keys_iff: "(p, k) \<in> set (place_keys perms) \<longleftrightarrow> CHR '':'' \<notin> set p \<and> p @ CHR '':'' # k \<in> set perms"
proof (induction perms rule: place_keys.induct)
  case (2 key rest)
  obtain b a f where c: "cut (CHR '':'') key = (b, a, f)" by (cases "cut (CHR '':'') key")
  have "(f \<and> b = p \<and> a = k) \<longleftrightarrow> CHR '':'' \<notin> set p \<and> p @ CHR '':'' # k = key"
  proof (cases "CHR '':'' \<notin> set p \<and> p @ CHR '':'' # k = key")
    case True
    then show ?thesis using c cut_append [of "CHR '':''" p k] by auto
  next
    case False
    then show ?thesis using c cut_before [OF c] by (auto dest: cut_rebuild)
  qed
  then show ?case using 2 c by auto
qed simp

text \<open>The keys a person holds in a product: their role's and their enabled extras'.\<close>

definition key_granted :: "sys \<Rightarrow> uuid \<Rightarrow> product \<Rightarrow> string \<Rightarrow> bool" where
  "key_granted s uid p key =
     ((CHR '':'' \<notin> set p \<and> p @ CHR '':'' # key \<in> set (ar_permissions (fst (load_role s uid)))) \<or>
      list_ex (\<lambda>e. ea_user e = uid \<and> ea_enabled e \<and> ea_product e = p \<and> key \<in> set (ea_permissions e))
        (extras s))"

lemma keys_for_iff:
  "key \<in> set (keys_for perms exs p) \<longleftrightarrow>
     (CHR '':'' \<notin> set p \<and> p @ CHR '':'' # key \<in> set perms) \<or>
     (\<exists>e \<in> set exs. ea_product e = p \<and> key \<in> set (ea_permissions e))"
proof -
  have "key \<in> set (keys_for perms exs p) \<longleftrightarrow> (p, key) \<in> set (place_keys perms) \<or>
     (\<exists>e \<in> set exs. ea_product e = p \<and> key \<in> set (ea_permissions e))"
    by (force simp: keys_for_def)
  then show ?thesis by (simp add: place_keys_iff)
qed

lemma assemble_Some:
  assumes "assemble env s role exs (Some cid) = Inr acc" "acc p = Some a"
  shows "\<exists>fm. entitlement_for env s cid = Inr fm \<and>
    a = \<lparr>pa_role = ar_name role, pa_permissions = dedupe (keys_for (ar_permissions role) exs p),
         pa_features = features_at fm p @ features_at fm product_shared,
         pa_grants_all = ar_grants_all role\<rparr>"
  using assms by (auto simp: assemble_def Let_def split: sum.splits if_splits)

lemma assemble_present:
  assumes "assemble env s role exs (Some cid) = Inr acc" "entitlement_for env s cid = Inr fm"
    "features_at fm p \<noteq> [] \<and> p \<noteq> product_shared \<or> keys_for (ar_permissions role) exs p \<noteq> []"
  shows "acc p \<noteq> None"
proof -
  have "p \<in> set (map fst fm)" if "features_at fm p \<noteq> []"
    using that by (auto simp: features_at_def split: option.splits dest: map_of_SomeD intro: rev_image_eqI)
  moreover have "p \<in> set (map fst (place_keys (ar_permissions role)) @ map ea_product exs)"
    if "keys_for (ar_permissions role) exs p \<noteq> []"
    using that by (force simp: keys_for_def filter_empty_conv)
  ultimately show ?thesis
    using assms by (auto simp: assemble_def Let_def split: if_splits)
qed

lemma build_access_tenant:
  assumes "build_access env s uid (Some cid) = Inr acc" "snd (load_role s uid) = False"
  shows "assemble env s (fst (load_role s uid))
    (filter (\<lambda>e. ea_user e = uid \<and> ea_enabled e) (extras s)) (Some cid) = Inr acc"
  using assms by (auto simp: build_access_def split: prod.splits if_splits)

lemma build_access_tenant_has:
  assumes "modules_keyed s" "build_access env s uid (Some cid) = Inr acc" "snd (load_role s uid) = False"
    "p \<noteq> product_shared"
  shows "(\<exists>a. acc p = Some a \<and> (pa_grants_all a \<or> key \<in> set (pa_permissions a)) \<and> f \<in> set (pa_features a)) \<longleftrightarrow>
    (ar_grants_all (fst (load_role s uid)) \<and> acc p \<noteq> None \<or> key_granted s uid p key) \<and>
    (module_held env s cid p f \<or> module_held env s cid product_shared f)"
proof -
  let ?exs = "filter (\<lambda>e. ea_user e = uid \<and> ea_enabled e) (extras s)"
  let ?role = "fst (load_role s uid)"
  have as: "assemble env s ?role ?exs (Some cid) = Inr acc"
    using build_access_tenant [OF assms(2,3)] .
  obtain fm where fm: "entitlement_for env s cid = Inr fm"
    using as by (auto simp: assemble_def split: sum.splits)
  have key: "key_granted s uid p key \<longleftrightarrow> key \<in> set (keys_for (ar_permissions ?role) ?exs p)"
    by (auto simp: key_granted_def keys_for_iff list_ex_iff)
  have present: "acc p \<noteq> None" if "key_granted s uid p key"
  proof -
    have "keys_for (ar_permissions ?role) ?exs p \<noteq> []"
      using that by (cases "keys_for (ar_permissions ?role) ?exs p") (simp_all add: key)
    then show ?thesis using assemble_present [OF as fm, of p] by simp
  qed
  have feat: "f \<in> set (features_at fm p @ features_at fm product_shared) \<longleftrightarrow>
      module_held env s cid p f \<or> module_held env s cid product_shared f"
    using features_at_held [OF assms(1) fm] by auto
  show ?thesis
  proof (cases "acc p")
    case None
    then show ?thesis using present by auto
  next
    case (Some a)
    then show ?thesis using assemble_Some [OF as Some] fm feat by (auto simp: key)
  qed
qed

section \<open>Granting and withdrawing modules\<close>

lemma sql_upsert_other:
  assumes "\<And>r. hit r \<Longrightarrow> \<not> q r \<and> \<not> q (f r)" "\<not> q k"
  shows "list_ex (\<lambda>r. q r \<and> P r) (sql_upsert hit f k t) \<longleftrightarrow> list_ex (\<lambda>r. q r \<and> P r) t"
  using assms by (auto simp: sql_upsert_def list_ex_iff sql_update_def)

lemma grant_module_Inr:
  "grant_module env m0 actor s = (Inr (), s') \<Longrightarrow> m = stored_module m0 \<Longrightarrow>
     modules s' = sql_upsert (module_key (cm_company m) (cm_product m) (cm_module m))
       (\<lambda>r. r\<lparr>cm_enabled := cm_enabled m, cm_valid_from := cm_valid_from m,
             cm_valid_until := cm_valid_until m, cm_limits := cm_limits m,
             cm_granted_by := cm_granted_by m, cm_note := cm_note m\<rparr>) m (modules s) \<and>
     settings s' = settings s \<and> roles s' = roles s \<and> users s' = users s \<and> published s' = published s"
  unfolding grant_module_def transaction_Inr by (auto simp: Let_def split: if_splits)

lemma grant_module_Inl: "grant_module env m actor s = (Inl e, s') \<Longrightarrow> s' = s"
  unfolding grant_module_def by (rule transaction_Inl)

lemma revoke_module_Inl: "revoke_module env cid p m actor s = (Inl e, s') \<Longrightarrow> s' = s"
  unfolding revoke_module_def by (rule transaction_Inl)

lemma keyed_upsert:
  assumes "distinct (map key t)" "\<And>r. key (f r) = key r"
  shows "distinct (map key (sql_upsert (\<lambda>r. key r = key k) f k t))"
  using assms by (auto simp: sql_upsert_def list_ex_iff map_sql_update image_iff)

lemma write_audit_keeps [simp]:
  "modules (write_audit env a s) = modules s" "settings (write_audit env a s) = settings s"
  "roles (write_audit env a s) = roles s" "users (write_audit env a s) = users s"
  "companies (write_audit env a s) = companies s" "sessions (write_audit env a s) = sessions s"
  "extras (write_audit env a s) = extras s" "published (write_audit env a s) = published s"
  "api_keys (write_audit env a s) = api_keys s" "links (write_audit env a s) = links s"
  "devices (write_audit env a s) = devices s" "attempts (write_audit env a s) = attempts s"
  "draws (write_audit env a s) = draws s" "notices (write_audit env a s) = notices s"
  by (simp_all add: write_audit_def write_audit_row_def)

lemma announce_keeps [simp]:
  "modules (announce env e s) = modules s" "settings (announce env e s) = settings s"
  "roles (announce env e s) = roles s" "users (announce env e s) = users s"
  "companies (announce env e s) = companies s" "sessions (announce env e s) = sessions s"
  "extras (announce env e s) = extras s" "api_keys (announce env e s) = api_keys s"
  "links (announce env e s) = links s" "audit (announce env e s) = audit s"
  "devices (announce env e s) = devices s" "attempts (announce env e s) = attempts s"
  "draws (announce env e s) = draws s" "notices (announce env e s) = notices s"
  by (simp_all add: announce_def)

lemma module_held_cong:
  "modules s' = modules s \<Longrightarrow> settings s' = settings s \<Longrightarrow> module_held env s' = module_held env s"
  by (intro ext) (simp add: module_held_def mode_row_def)

lemma revoke_module_Inr:
  assumes "revoke_module env cid p m actor s = (Inr (), s')"
  shows "settings s' = settings s \<and>
    (if sql_count (module_key cid p m) (modules s) > 0
     then modules s' = sql_update (module_key cid p m) (\<lambda>r. r\<lparr>cm_enabled := False\<rparr>) (modules s)
     else mode_row s cid p = entitlement_revoke \<and>
       modules s' = modules s @ [\<lparr>cm_company = cid, cm_product = p, cm_module = m, cm_enabled = False,
          cm_valid_from = None, cm_valid_until = None, cm_limits = [], cm_granted_by = actor, cm_note = None\<rparr>])"
  using assms unfolding revoke_module_def transaction_Inr
  by (auto simp: Let_def split: if_splits sum.splits)

lemma in_window_cong:
  "cm_valid_from r = cm_valid_from q \<Longrightarrow> cm_valid_until r = cm_valid_until q \<Longrightarrow> in_window env r = in_window env q"
  by (simp add: in_window_def)

lemma sql_count_pos: "0 < sql_count p t \<longleftrightarrow> (\<exists>r \<in> set t. p r)"
  using sql_count_0 [of p t] by (cases "sql_count p t") auto

lemma keyed_unique:
  assumes "modules_keyed s" "r \<in> set (modules s)" "q \<in> set (modules s)"
    "module_key cid p m r" "module_key cid p m q"
  shows "r = q"
  using assms by (auto simp: modules_keyed_def distinct_map inj_on_def module_key_def)

lemma revoke_module_held:
  assumes "modules_keyed s" "revoke_module env cid p m actor s = (Inr (), s')"
    "\<And>r. r \<in> set (modules s) \<Longrightarrow> module_key cid p m r \<Longrightarrow> in_window env r"
  shows "\<not> module_held env s' cid p m"
proof -
  have same: "mode_row s' cid p = mode_row s cid p"
    using revoke_module_Inr [OF assms(2)] by (simp add: mode_row_def)
  show ?thesis
  proof (cases "\<exists>r \<in> set (modules s). module_key cid p m r")
    case True
    then have ms: "modules s' = sql_update (module_key cid p m) (\<lambda>r. r\<lparr>cm_enabled := False\<rparr>) (modules s)"
      using revoke_module_Inr [OF assms(2)] by (auto simp: sql_count_pos)
    obtain r where r: "r \<in> set (modules s)" "module_key cid p m r" using True by blast
    have off: "\<not> cm_enabled q" if "q \<in> set (modules s')" "module_key cid p m q" for q
      using that by (auto simp: ms set_sql_update split: if_splits)
    have "r\<lparr>cm_enabled := False\<rparr> \<in> set (modules s')" "module_key cid p m (r\<lparr>cm_enabled := False\<rparr>)"
      "in_window env (r\<lparr>cm_enabled := False\<rparr>)"
      using r assms(3) [OF r] by (auto simp: ms set_sql_update module_key_def in_window_def image_iff
          intro!: bexI [of _ r])
    then have "list_ex (\<lambda>r. module_key cid p m r \<and> in_window env r \<and> \<not> cm_enabled r) (modules s')"
      unfolding list_ex_iff by (intro bexI) auto
    then show ?thesis using off by (auto simp: module_held_def list_ex_iff)
  next
    case False
    let ?k = "\<lparr>cm_company = cid, cm_product = p, cm_module = m, cm_enabled = False,
      cm_valid_from = None, cm_valid_until = None, cm_limits = [], cm_granted_by = actor, cm_note = None\<rparr>"
    have "mode_row s cid p = entitlement_revoke" "modules s' = modules s @ [?k]"
      using revoke_module_Inr [OF assms(2)] False by (auto simp: sql_count_pos)
    then show ?thesis
      using same by (simp add: module_held_def module_key_def in_window_def)
  qed
qed

lemma grant_module_held:
  assumes "modules_keyed s" "grant_module env k0 actor s = (Inr (), s')" "k = stored_module k0" "cm_enabled k" "in_window env k"
    "is_sellable_feature (cm_product k) (cm_module k)"
  shows "module_held env s' (cm_company k) (cm_product k) (cm_module k)"
proof -
  let ?key = "module_key (cm_company k) (cm_product k) (cm_module k)"
  let ?f = "\<lambda>r. r\<lparr>cm_enabled := cm_enabled k, cm_valid_from := cm_valid_from k,
      cm_valid_until := cm_valid_until k, cm_limits := cm_limits k,
      cm_granted_by := cm_granted_by k, cm_note := cm_note k\<rparr>"
  have ms: "modules s' = sql_upsert ?key ?f k (modules s)"
    using grant_module_Inr [OF assms(2,3)] by blast
  have in_k: "in_window env (?f r)" for r
    using assms(5) by (simp add: in_window_def)
  have on: "cm_enabled r \<and> in_window env r" if "r \<in> set (modules s')" "?key r" for r
    using that assms(4,5) in_k
    by (auto simp: ms sql_upsert_def set_sql_update list_ex_iff split: if_splits)
  have "\<exists>r \<in> set (modules s'). ?key r"
    by (auto simp: ms sql_upsert_def set_sql_update list_ex_iff module_key_def image_iff)
  moreover have "\<exists>f \<in> set (sellable_features (cm_product k)). feat_name f = cm_module k \<and> \<not> feat_roadmap f"
    using assms(6) sellable_named by (auto simp: sellable_feature_exists)
  ultimately show ?thesis using on by (auto simp: module_held_def list_ex_iff)
qed

lemma module_held_other_grant:
  assumes "grant_module env k0 actor s = (Inr (), s')"
    "(cid, p, m) \<noteq> (cm_company k0, cm_product k0, cm_module k0)"
  shows "module_held env s' cid p m = module_held env s cid p m"
proof -
  define k where "k = stored_module k0"
  note g = grant_module_Inr [OF assms(1) k_def]
  have other: "\<not> module_key cid p m r" if "module_key (cm_company k) (cm_product k) (cm_module k) r" for r
    using that assms(2) by (auto simp: module_key_def k_def stored_module_def)
  have mod: "modules s' = sql_upsert (module_key (cm_company k) (cm_product k) (cm_module k))
       (\<lambda>r. r\<lparr>cm_enabled := cm_enabled k, cm_valid_from := cm_valid_from k,
             cm_valid_until := cm_valid_until k, cm_limits := cm_limits k,
             cm_granted_by := cm_granted_by k, cm_note := cm_note k\<rparr>) k (modules s)"
    using g by blast
  have "list_ex (\<lambda>r. module_key cid p m r \<and> P r) (modules s') =
      list_ex (\<lambda>r. module_key cid p m r \<and> P r) (modules s)" for P
    unfolding mod by (rule sql_upsert_other)
      (use other other [of "r\<lparr>cm_enabled := e, cm_valid_from := a, cm_valid_until := b, cm_limits := l,
          cm_granted_by := g, cm_note := n\<rparr>" for r e a b l g n] in \<open>auto simp: module_key_def\<close>)
  then show ?thesis using g by (simp add: module_held_def mode_row_def)
qed

lemma module_held_other_revoke:
  assumes "revoke_module env c q n actor s = (Inr (), s')" "(cid, p, m) \<noteq> (c, q, n)"
  shows "module_held env s' cid p m = module_held env s cid p m"
proof -
  note r = revoke_module_Inr [OF assms(1)]
  have "list_ex (\<lambda>r. module_key cid p m r \<and> P r) (modules s') =
      list_ex (\<lambda>r. module_key cid p m r \<and> P r) (modules s)" for P
    using r assms(2)
    by (auto simp: list_ex_iff set_sql_update module_key_def split: if_splits)
  then show ?thesis using r by (simp add: module_held_def mode_row_def)
qed

lemma held_announced [simp]:
  "module_held env (announce_company env c (record_entitlement env a c' x p m s)) = module_held env s"
  by (intro module_held_cong) (simp_all add: announce_company_def record_entitlement_def)

lemma allocate_keeps:
  "allocate_fms_tenant_id env v i s = Inr s' \<Longrightarrow> modules s' = modules s \<and> settings s' = settings s"
  by (auto simp: allocate_fms_tenant_id_def announce_company_change_def split: if_splits)

lemma entitlement_grant_Inr:
  assumes "entitlement_grant_op env actor v gi s = (Inr row, s')"
  shows "\<exists>s1 s2 aid. modules s1 = modules s \<and> settings s1 = settings s \<and>
     is_sellable_feature (gi_product gi) (gi_module gi) \<and> \<not> expires_before_start gi \<and>
     grant_module env row aid s1 = (Inr (), s2) \<and>
     s' = announce_company env (gi_company gi)
       (record_entitlement env aid (gi_company gi) ''granted'' (gi_product gi) (gi_module gi) s2) \<and>
     cm_company row = gi_company gi \<and> cm_product row = gi_product gi \<and> cm_module row = gi_module gi \<and>
     cm_enabled row \<and> cm_valid_from row = gi_valid_from gi \<and> cm_valid_until row = gi_valid_until gi"
proof -
  have "\<exists>s1 aid. (s1 = s \<or> allocate_fms_tenant_id env v (gi_company gi) s = Inr s1) \<and>
      (\<exists>s2. grant_module env row aid s1 = (Inr (), s2) \<and>
       s' = announce_company env (gi_company gi)
         (record_entitlement env aid (gi_company gi) ''granted'' (gi_product gi) (gi_module gi) s2)) \<and>
      row = \<lparr>cm_company = gi_company gi, cm_product = gi_product gi, cm_module = gi_module gi,
          cm_enabled = True, cm_valid_from = gi_valid_from gi, cm_valid_until = gi_valid_until gi,
          cm_limits = gi_limits gi, cm_granted_by = aid, cm_note = gi_note gi\<rparr> \<and>
      is_sellable_feature (gi_product gi) (gi_module gi) \<and> \<not> expires_before_start gi"
    using assms unfolding entitlement_grant_op_def Let_def
    by (auto split: if_splits sum.splits prod.splits)
  then show ?thesis using allocate_keeps by fastforce
qed

lemma published_announce:
  "announcer env \<Longrightarrow> \<not> db_down env OpPublish \<Longrightarrow> e \<in> set (published (announce env e s))"
  by (simp add: announce_def)

section \<open>Properties\<close>

text \<open>
  C2. What a tenant user's token lets them do, from the tables: the key is known
  and gated by a feature their company holds in the product or as a shared one, and
  either their role or an enabled extra row grants the key, or their role grants
  everything and the product is one of theirs.
\<close>
theorem effective_permission:
  assumes "modules_keyed s" "build_access env s uid (Some cid) = Inr acc" "snd (load_role s uid) = False"
    "\<not> is_platform_staff p" "access p = acc" "pd \<noteq> product_shared"
  shows "has_permission p pd key \<longleftrightarrow>
    (\<exists>f. feature_for pd key = (f, True) \<and>
       (module_held env s cid pd f \<or> module_held env s cid product_shared f) \<and>
       (ar_grants_all (fst (load_role s uid)) \<and> acc pd \<noteq> None \<or> key_granted s uid pd key))"
  unfolding has_permission_tenant [OF assms(4)] assms(5)
  using build_access_tenant_has [OF assms(1,2,3,6), of key] by fastforce

definition demo_role :: role where
  "demo_role = \<lparr>ro_id = 3, ro_company = 5, ro_name = ''Planner'', ro_description = None,
     ro_permissions = [''tms:order.read'', ''order.create''], ro_grants_all = False,
     ro_is_system = False, ro_created_by = None\<rparr>"

definition demo_module :: "product \<Rightarrow> string \<Rightarrow> bool \<Rightarrow> time option \<Rightarrow> company_module" where
  "demo_module p m e until = \<lparr>cm_company = 5, cm_product = p, cm_module = m, cm_enabled = e,
     cm_valid_from = None, cm_valid_until = until, cm_limits = [], cm_granted_by = None, cm_note = None\<rparr>"

definition demo_tenant :: sys where
  "demo_tenant = empty_sys\<lparr>companies := [blank_company 5 ''Jaya''],
     users := [(blank_user 2 (Some 5))\<lparr>us_role := Some 3\<rparr>], roles := [demo_role],
     modules := [demo_module product_tms ''order'' True None]\<rparr>"

definition demo_access :: "product \<rightharpoonup> product_access" where
  "demo_access = [product_tms \<mapsto> \<lparr>pa_role = ''Planner'', pa_permissions = [''order.read''],
     pa_features = [''order''], pa_grants_all = False\<rparr>]"

lemma demo_load: "load_role demo_tenant 2 =
    (\<lparr>ar_name = ''Planner'', ar_grants_all = False, ar_permissions = [''tms:order.read'', ''order.create'']\<rparr>, False)"
  by (simp add: load_role_def demo_tenant_def blank_user_def demo_role_def sql_first_def role_access_def empty_sys_def)

lemma demo_entitlement: "entitlement_for demo_env demo_tenant 5 = Inr [(product_tms, [''order''])]"
  by (simp add: entitlement_for_def demo_env_def demo_tenant_def empty_sys_def entitlement_rows_def
      demo_module_def in_window_def entitlement_modes_def enabled_for_def features_in_mode_def)

lemma demo_build: "build_access demo_env demo_tenant 2 (Some 5) = Inr demo_access"
proof -
  have "extras demo_tenant = []" by (simp add: demo_tenant_def empty_sys_def)
  then show ?thesis
    by (simp add: build_access_def demo_load assemble_def demo_entitlement Let_def demo_access_def
        product_tms_def product_shared_def keys_for_def dedupe_def features_at_def fun_eq_iff)
qed

lemma demo_keyed: "modules_keyed demo_tenant"
  by (simp add: modules_keyed_def demo_tenant_def empty_sys_def)

lemma order_read_gate: "feature_for product_tms ''order.read'' = (''order'', True)"
  by code_simp

theorem effective_permission_witness:
  "has_permission (clerk\<lparr>access := demo_access\<rparr>) product_tms ''order.read''"
proof -
  have "module_held demo_env demo_tenant 5 product_tms ''order''"
    using features_at_held [OF demo_keyed demo_entitlement, of "''order''" product_tms]
    by (simp add: features_at_def)
  moreover have "key_granted demo_tenant 2 product_tms ''order.read''"
    by (simp add: key_granted_def demo_load product_tms_def)
  ultimately show ?thesis
    using effective_permission [OF demo_keyed demo_build, of "clerk\<lparr>access := demo_access\<rparr>" product_tms
        "''order.read''"] order_read_gate
    by (simp add: demo_load clerk_def product_tms_def product_shared_def)
qed

text \<open>
  C16. The screen and the token describe the same company: the modules the
  administration screen lists as active for a product are the features a token of
  any tenant user of that company carries for it.
\<close>
theorem token_matches_screen:
  assumes "build_access env s uid (Some cid) = Inr acc" "snd (load_role s uid) = False"
    "acc p = Some a" "active_for_company env s cid p = Inr ms"
  shows "sorted ms \<and> mset ms = mset (pa_features a)"
proof -
  obtain fm where "entitlement_for env s cid = Inr fm"
    "pa_features a = features_at fm p @ features_at fm product_shared"
    using assemble_Some [OF build_access_tenant [OF assms(1,2)] assms(3)] by auto
  then show ?thesis using assms(4) by (auto simp: active_for_company_def)
qed

theorem token_matches_screen_witness:
  "sorted [''order''] \<and> mset [''order''] = mset (pa_features (the (demo_access product_tms)))"
  by (rule token_matches_screen [OF demo_build, of product_tms])
     (simp_all add: demo_load demo_access_def active_for_company_def demo_entitlement features_at_def
       product_tms_def product_shared_def)

text \<open>
  C17. A grant by Karlo staff takes effect and only where it was made: the module is
  held (in either mode) as soon as the call returns, when its window contains
  today in Jakarta; every other module of every company is held as before; and the sessions
  of the company are announced as ended, so that tokens are rebuilt.
\<close>
theorem grant_takes_effect:
  assumes "modules_keyed s" "entitlement_grant_op env actor v gi s = (Inr row, s')"
    "case gi_valid_from gi of None \<Rightarrow> True | Some f \<Rightarrow> f \<le> now env + jakarta"
    "case gi_valid_until gi of None \<Rightarrow> True | Some u \<Rightarrow> now env + jakarta \<le> u"
    "announcer env" "\<not> db_down env OpPublish"
  shows "module_held env s' (gi_company gi) (gi_product gi) (gi_module gi) \<and>
    ((cid, p, m) \<noteq> (gi_company gi, gi_product gi, gi_module gi) \<longrightarrow>
       module_held env s' cid p m = module_held env s cid p m) \<and>
    \<lparr>ev_kind = kind_company, ev_id = uuid_string env (gi_company gi), ev_at = now env\<rparr> \<in> set (published s')"
proof -
  obtain s1 s2 aid where g: "modules s1 = modules s" "settings s1 = settings s"
      "is_sellable_feature (gi_product gi) (gi_module gi)" "grant_module env row aid s1 = (Inr (), s2)"
      "s' = announce_company env (gi_company gi)
        (record_entitlement env aid (gi_company gi) ''granted'' (gi_product gi) (gi_module gi) s2)"
      "cm_company row = gi_company gi" "cm_product row = gi_product gi" "cm_module row = gi_module gi"
      "cm_enabled row" "cm_valid_from row = gi_valid_from gi" "cm_valid_until row = gi_valid_until gi"
    using entitlement_grant_Inr [OF assms(2)] by blast
  have keyed: "modules_keyed s1" using assms(1) g(1,2) by (simp add: modules_keyed_def)
  have win: "in_window env (stored_module row)"
    using assms(3,4) g(10,11)
    by (auto simp: in_window_def stored_module_def current_date_def to_date_mono split: option.splits)
  have "module_held env s2 (gi_company gi) (gi_product gi) (gi_module gi)"
    using grant_module_held [OF keyed g(4) refl _ win] g(3,6-9) by (simp add: stored_module_def)
  moreover have "module_held env s2 cid p m = module_held env s1 cid p m"
    if "(cid, p, m) \<noteq> (gi_company gi, gi_product gi, gi_module gi)"
    using module_held_other_grant [OF g(4)] that g(6-8) by simp
  moreover have "module_held env s1 = module_held env s"
    using g(1,2) by (rule module_held_cong)
  moreover have "\<lparr>ev_kind = kind_company, ev_id = uuid_string env (gi_company gi), ev_at = now env\<rparr> \<in> set (published s')"
    unfolding g(5) announce_company_def using assms(5,6) by (rule published_announce)
  ultimately show ?thesis by (simp add: g(5))
qed

definition demo_staff :: principal where
  "demo_staff = clerk\<lparr>user_id := ''u-iiii'', is_platform_staff := True\<rparr>"

definition demo_grant :: grant_input where
  "demo_grant = \<lparr>gi_company = 5, gi_product = product_tms, gi_module = ''invoice'',
     gi_valid_from = None, gi_valid_until = Some (now demo_env + jakarta), gi_limits = [], gi_note = None\<rparr>"

lemma demo_sellable:
  "is_sellable_feature product_tms ''invoice'' \<and> is_known_product product_tms"
  by code_simp

lemma demo_grant_runs: "is_ok (fst (entitlement_grant_op demo_env demo_staff 1 demo_grant demo_tenant))"
  by code_simp

theorem grant_takes_effect_witness:
  "module_held demo_env (snd (entitlement_grant_op demo_env demo_staff 1 demo_grant demo_tenant)) 5 product_tms ''invoice''"
proof -
  obtain row where r: "entitlement_grant_op demo_env demo_staff 1 demo_grant demo_tenant =
      (Inr row, snd (entitlement_grant_op demo_env demo_staff 1 demo_grant demo_tenant))"
    using demo_grant_runs by (cases "entitlement_grant_op demo_env demo_staff 1 demo_grant demo_tenant")
      (auto simp: is_ok_iff)
  show ?thesis
    using grant_takes_effect [OF demo_keyed r] by (simp add: demo_grant_def demo_env_def)
qed



section \<open>Where the code and its documentation part\<close>

definition fms_tenant :: sys where
  "fms_tenant = empty_sys\<lparr>companies := [blank_company 5 ''Jaya''],
     settings := [\<lparr>ps_company = 5, ps_product = product_fms, ps_mode = entitlement_revoke\<rparr>],
     modules := [demo_module product_fms ''live'' True (Some 0)]\<rparr>"

text \<open>
  In revoke mode a row outside its window is invisible, so a module whose row has
  expired cannot be withdrawn: Revoke disables the expired row and reports
  success, and the module is still held.
\<close>
theorem expired_row_defeats_revoke:
  "fst (entitlement_revoke_op demo_env demo_staff 5 product_fms ''live'' fms_tenant) = Inr () \<and>
   module_held demo_env (snd (entitlement_revoke_op demo_env demo_staff 5 product_fms ''live'' fms_tenant))
     5 product_fms ''live''"
  by code_simp

text \<open>
  A tenant in revoke mode holds the separately sold shared features, and a
  disabled row for the shared product does not withdraw them.
\<close>
theorem revoke_mode_includes_sold_services:
  "module_held demo_env (fms_tenant\<lparr>modules := [demo_module product_shared ''accounting'' False None]\<rparr>)
     5 product_fms ''accounting''"
  by code_simp

text \<open>The effective entitlement of the product shared lists every module twice.\<close>
theorem shared_modules_listed_twice:
  "map_sum (\<lambda>_. ()) ee_modules (effective demo_env
     (demo_tenant\<lparr>modules := [demo_module product_shared ''telemetry'' True None]\<rparr>) 5 product_shared) =
   Inr [''telemetry'', ''telemetry'']"
  by code_simp

text \<open>
  A user with no role and no row of their own still has an entry for every
  product their company holds, although BuildAccess says it is absent.
\<close>
theorem access_without_any_row:
  "\<exists>acc. build_access demo_env (demo_tenant\<lparr>users := [blank_user 2 (Some 5)]\<rparr>) 2 (Some 5) = Inr acc \<and>
     acc product_tms \<noteq> None"
proof -
  have e: "entitlement_for demo_env (demo_tenant\<lparr>users := [blank_user 2 (Some 5)]\<rparr>) 5 = Inr [(product_tms, [''order''])]"
    using demo_entitlement by (simp add: entitlement_for_def entitlement_rows_def entitlement_modes_def)
  have l: "load_role (demo_tenant\<lparr>users := [blank_user 2 (Some 5)]\<rparr>) 2 = (zero_role, False)"
    by (simp add: load_role_def blank_user_def sql_first_def)
  show ?thesis
    by (simp add: build_access_def l assemble_def e Let_def product_tms_def product_shared_def)
qed

end
