(* ===== verification/Auth.thy ===== *)
theory Auth
  imports Entitlement TextUtil
begin

text \<open>
  internal/services/auth_service.go: login behind the rate limiter, sessions and
  refresh rotation, token minting and validation, API keys, logout and password
  changes; and the counter of internal/platform/cache that the limiter uses
  (Redis, or the Noop cache).  An operation takes the state and returns its result
  with the state after it, on errors too, because failures write audit lines.
\<close>

section \<open>The rate limiter\<close>

text \<open>
  cache.Increment: INCR with EXPIRE NX, so the window is opened by the first
  attempt.  Without a cache it is ErrNoCache, with a broken one an error.
\<close>

datatype cache_error = ErrNoCache | ErrCacheDown

definition increment :: "env \<Rightarrow> string \<Rightarrow> time \<Rightarrow> sys \<Rightarrow> cache_error + (nat \<times> sys)" where
  "increment env key window s =
     (case cache_mode env of
        CacheNone \<Rightarrow> Inl ErrNoCache
      | CacheBroken \<Rightarrow> Inl ErrCacheDown
      | CacheUp \<Rightarrow>
          let entry = (case attempts s key of
                Some (n, ex) \<Rightarrow> if now env < ex then (Suc n, ex) else (1, now env + window)
              | None \<Rightarrow> (1, now env + window))
          in Inr (fst entry, s\<lparr>attempts := (attempts s)(key \<mapsto> entry)\<rparr>))"

definition cache_delete :: "env \<Rightarrow> string \<Rightarrow> sys \<Rightarrow> sys" where
  "cache_delete env key s =
     (if cache_mode env = CacheUp then s\<lparr>attempts := (attempts s)(key := None)\<rparr> else s)"

definition attempts_key :: "env \<Rightarrow> string \<Rightarrow> string" where
  "attempts_key env ident =
     cache_key [''auth'', ''login'', ''attempts'', fingerprint env (to_lower ident)]"

definition is_rate_limited :: "env \<Rightarrow> string \<Rightarrow> sys \<Rightarrow> (svc_error + bool) \<times> sys" where
  "is_rate_limited env ident s =
     (case increment env (attempts_key env ident) (rate_window env) s of
        Inr (n, s1) \<Rightarrow> (Inr (n > rate_limit env), s1)
      | Inl _ \<Rightarrow>
          (case count_recent_failures env ident (now env - rate_window env) s of
             Inl e \<Rightarrow> (Inl e, s)
           | Inr n \<Rightarrow> (Inr (n \<ge> rate_limit env), s)))"

definition clear_rate_limit :: "env \<Rightarrow> string \<Rightarrow> sys \<Rightarrow> sys" where
  "clear_rate_limit env ident s = cache_delete env (attempts_key env ident) s"

section \<open>Tokens\<close>

record login_input =
  in_identifier :: string
  in_password :: string
  in_device :: string
  in_platform :: string
  in_user_agent :: string
  in_ip :: string

record token_pair =
  tp_access :: string
  tp_refresh :: string
  tp_expires :: time
  tp_user :: uuid

text \<open>32 random bytes, base64 for the client and SHA-256 for the table.\<close>

definition generate_refresh_token :: "env \<Rightarrow> sys \<Rightarrow> svc_error + (string \<times> string \<times> sys)" where
  "generate_refresh_token env s =
     (if rand_down env then Inl ErrRandom
      else let t = gen_token env (draws s) in
        Inr (t, hash_token env t, s\<lparr>draws := Suc (draws s)\<rparr>))"

definition token_principal :: "env \<Rightarrow> sys \<Rightarrow> user \<Rightarrow> uuid \<Rightarrow> bool \<Rightarrow> principal" where
  "token_principal env s u tid single =
     \<lparr>user_id = uuid_string env (us_id u),
      company_id = (case us_company u of None \<Rightarrow> [] | Some c \<Rightarrow> uuid_string env c),
      fms_tenant_id = (case company_of s u of None \<Rightarrow> 0
         | Some c \<Rightarrow> (case co_fms_tenant c of None \<Rightarrow> 0 | Some t \<Rightarrow> t)),
      fms_user_id = (case us_fms_user u of None \<Rightarrow> 0 | Some t \<Rightarrow> t),
      is_platform_staff = us_platform_staff u,
      access = (case build_access env s (us_id u) (us_company u) of
         Inl _ \<Rightarrow> Map.empty | Inr acc \<Rightarrow> acc),
      single_device = single, token_id = uuid_string env tid\<rparr>"

definition mint_access_token ::
  "env \<Rightarrow> sys \<Rightarrow> user \<Rightarrow> uuid \<Rightarrow> bool \<Rightarrow> svc_error + (string \<times> time)" where
  "mint_access_token env s u tid single =
     (let expires = now env + access_ttl env in
      case sign (jwt env) (token_principal env s u tid single)
             \<lparr>issuer = [], subject = uuid_string env (us_id u), jti = uuid_string env tid,
              issued_at = Some (numeric_date env (now env)),
              not_before = Some (numeric_date env (now env)),
              expires_at = Some (numeric_date env expires)\<rparr> of
        Inl _ \<Rightarrow> Inl ErrMint
      | Inr t \<Rightarrow> Inr (t, expires))"

definition max_devices_of :: "sys \<Rightarrow> user \<Rightarrow> int" where
  "max_devices_of s u =
     (if us_max_devices u = 0
      then (case company_of s u of None \<Rightarrow> 0 | Some c \<Rightarrow> co_default_max_devices c)
      else us_max_devices u)"

definition issue_session :: "env \<Rightarrow> user \<Rightarrow> login_input \<Rightarrow> sys \<Rightarrow> (svc_error + token_pair) \<times> sys" where
  "issue_session env u inp s0 =
     (let tid = gen_uuid env (draws s0);
          s1 = s0\<lparr>draws := Suc (draws s0)\<rparr>;
          single = (max_devices_of s0 u = 1)
      in case generate_refresh_token env s1 of
        Inl e \<Rightarrow> (Inl e, s1)
      | Inr (refresh, h, s2) \<Rightarrow>
          (case create_session env
                  \<lparr>se_user = us_id u, se_token = tid, se_refresh_hash = Some h,
                   se_single_device = single, se_device = nil_if_empty (in_device inp),
                   se_platform = nil_if_empty (in_platform inp),
                   se_user_agent = nil_if_empty (in_user_agent inp), se_ip = nil_if_empty (in_ip inp),
                   se_expires = now env + refresh_ttl env, se_revoked = None\<rparr> s2 of
             Inl e \<Rightarrow> (Inl e, s2)
           | Inr s3 \<Rightarrow>
               let s4 = (if single
                     then (case revoke_other_single_device env (us_id u) tid s3 of
                             Inl _ \<Rightarrow> s3 | Inr s' \<Rightarrow> s')
                     else s3)
               in case mint_access_token env s4 u tid single of
                    Inl e \<Rightarrow> (Inl e, s4)
                  | Inr (atok, expires) \<Rightarrow>
                      (Inr \<lparr>tp_access = atok, tp_refresh = refresh, tp_expires = expires,
                            tp_user = us_id u\<rparr>, s4)))"

definition record_login_failure ::
  "env \<Rightarrow> uuid option \<Rightarrow> string \<Rightarrow> string \<Rightarrow> sys \<Rightarrow> sys" where
  "record_login_failure env uid ident reason =
     write_audit env ((blank_audit env)\<lparr>au_user := uid, au_event := audit_login_failure,
       au_succeeded := False, au_detail := [(''identifier'', ident), (''reason'', reason)]\<rparr>)"

definition login :: "env \<Rightarrow> login_input \<Rightarrow> sys \<Rightarrow> (svc_error + token_pair) \<times> sys" where
  "login env inp s =
     (let ident = trim_space (in_identifier inp) in
      if ident = [] \<or> in_password inp = [] then (Inl ErrInvalidCredentials, s)
      else case is_rate_limited env ident s of (limited, s1) \<Rightarrow>
        if limited = Inr True then (Inl ErrRateLimited, s1)
        else case find_by_identifier env s1 ident of
          Inl ErrNotFound \<Rightarrow>
            (Inl ErrInvalidCredentials, record_login_failure env None ident ''user not found'' s1)
        | Inl e \<Rightarrow> (Inl e, s1)
        | Inr u \<Rightarrow>
            if \<not> bcrypt_matches env (us_password_hash u) (in_password inp)
            then (Inl ErrInvalidCredentials,
                  record_login_failure env (Some (us_id u)) ident ''bad password'' s1)
            else if us_suspended u
            then (Inl ErrAccountSuspended,
                  record_login_failure env (Some (us_id u)) ident ''suspended'' s1)
            else case issue_session env u inp s1 of
              (Inl e, s2) \<Rightarrow> (Inl e, s2)
            | (Inr pair, s2) \<Rightarrow>
                let s3 = clear_rate_limit env ident s2;
                    s4 = (case touch_last_login env (us_id u) s3 of Inl _ \<Rightarrow> s3 | Inr s' \<Rightarrow> s')
                in (Inr pair,
                    write_audit env ((blank_audit env)\<lparr>au_user := Some (us_id u),
                      au_event := audit_login_success,
                      au_detail := [(''identifier'', ident), (''platform'', in_platform inp)]\<rparr>) s4))"

section \<open>Refresh\<close>

text \<open>
  Refresh reads the session and its user, then rotates.  The two halves are
  separate definitions because two requests can interleave between them.
\<close>

definition refresh_read :: "env \<Rightarrow> string \<Rightarrow> sys \<Rightarrow> svc_error + (session \<times> user)" where
  "refresh_read env token s =
     (case find_by_refresh_hash env (hash_token env token) s of
        Inl ErrNotFound \<Rightarrow> Inl ErrTokenInvalid
      | Inl e \<Rightarrow> Inl e
      | Inr se \<Rightarrow>
          if \<not> session_active env se then Inl ErrSessionRevoked
          else (case find_user_by_id env s (se_user se) of
            Inl _ \<Rightarrow> Inl ErrTokenInvalid
          | Inr u \<Rightarrow> if us_suspended u then Inl ErrAccountSuspended else Inr (se, u)))"

definition refresh_rotate ::
  "env \<Rightarrow> session \<Rightarrow> user \<Rightarrow> sys \<Rightarrow> (svc_error + token_pair) \<times> sys" where
  "refresh_rotate env se u s0 =
     (case generate_refresh_token env s0 of
        Inl e \<Rightarrow> (Inl e, s0)
      | Inr (refresh, h, s1) \<Rightarrow>
          let tid = gen_uuid env (draws s1);
              s2 = s1\<lparr>draws := Suc (draws s1)\<rparr>
          in case revoke_session env (se_token se) s2 of
            Inl e \<Rightarrow> (Inl e, s2)
          | Inr s3 \<Rightarrow>
              (case create_session env
                      \<lparr>se_user = us_id u, se_token = tid, se_refresh_hash = Some h,
                       se_single_device = se_single_device se, se_device = se_device se,
                       se_platform = se_platform se, se_user_agent = None, se_ip = None,
                       se_expires = now env + refresh_ttl env, se_revoked = None\<rparr> s3 of
                 Inl e \<Rightarrow> (Inl e, s3)
               | Inr s4 \<Rightarrow>
                   (case mint_access_token env s4 u tid (se_single_device se) of
                      Inl e \<Rightarrow> (Inl e, s4)
                    | Inr (atok, expires) \<Rightarrow>
                        (Inr \<lparr>tp_access = atok, tp_refresh = refresh, tp_expires = expires,
                              tp_user = us_id u\<rparr>, s4))))"

definition refresh :: "env \<Rightarrow> string \<Rightarrow> sys \<Rightarrow> (svc_error + token_pair) \<times> sys" where
  "refresh env token s =
     (case refresh_read env token s of
        Inl e \<Rightarrow> (Inl e, s)
      | Inr (se, u) \<Rightarrow> refresh_rotate env se u s)"

section \<open>Validation\<close>

definition validate_machine_key ::
  "env \<Rightarrow> api_key \<Rightarrow> sys \<Rightarrow> (svc_error + (principal \<times> user)) \<times> sys" where
  "validate_machine_key env k s =
     (case (ak_role k, ak_company k) of
        (Some rid, Some cid) \<Rightarrow>
          (case company_of_key env k s of
             Inr (Some c) \<Rightarrow>
               if co_is_suspended c then (Inl ErrAccountSuspended, s)
               else (case build_access_for_role env s rid (Some cid) of
                  Inl e \<Rightarrow> (Inl e, s)
                | Inr acc \<Rightarrow>
                    (Inr (\<lparr>user_id = uuid_string env (ak_id k), company_id = uuid_string env cid,
                           fms_tenant_id = (case co_fms_tenant c of None \<Rightarrow> 0 | Some t \<Rightarrow> t),
                           fms_user_id = 0, is_platform_staff = False, access = acc,
                           single_device = False, token_id = []\<rparr>,
                          (blank_user (ak_id k) (Some cid))
                            \<lparr>us_full_name := Some (ak_name k), us_role := Some rid\<rparr>),
                     touch_key env (ak_id k) s))
           | _ \<Rightarrow> (Inl ErrTokenInvalid, s))
      | _ \<Rightarrow> (Inl ErrTokenInvalid, s))"

definition validate_api_key ::
  "env \<Rightarrow> string \<Rightarrow> sys \<Rightarrow> (svc_error + (principal \<times> user)) \<times> sys" where
  "validate_api_key env key s =
     (case find_key_by_hash env (hash_token env key) s of
        Inl _ \<Rightarrow> (Inl ErrTokenInvalid, s)
      | Inr k \<Rightarrow>
          if \<not> api_key_usable env k then (Inl ErrTokenInvalid, s)
          else (case ak_user k of
            None \<Rightarrow> validate_machine_key env k s
          | Some uid \<Rightarrow>
              (case find_user_by_id env s uid of
                 Inl _ \<Rightarrow> (Inl ErrTokenInvalid, s)
               | Inr u \<Rightarrow>
                   if us_suspended u then (Inl ErrAccountSuspended, s)
                   else let s1 = touch_key env (ak_id k) s in
                     (case build_access env s1 (us_id u) (us_company u) of
                        Inl e \<Rightarrow> (Inl e, s1)
                      | Inr acc \<Rightarrow>
                          (Inr (\<lparr>user_id = uuid_string env (us_id u),
                                 company_id = (case us_company u of None \<Rightarrow> [] | Some c \<Rightarrow> uuid_string env c),
                                 fms_tenant_id = 0, fms_user_id = 0,
                                 is_platform_staff = us_platform_staff u, access = acc,
                                 single_device = False, token_id = []\<rparr>, u), s1)))))"

definition validate_token ::
  "env \<Rightarrow> string \<Rightarrow> sys \<Rightarrow> (svc_error + (principal \<times> user)) \<times> sys" where
  "validate_token env token0 s =
     (let token = trim_space token0 in
      if token = [] then (Inl ErrTokenInvalid, s)
      else if length (filter (\<lambda>c. c = CHR ''.'') token) \<noteq> 2 then validate_api_key env token s
      else case verify (jwt env) token of
        Inl _ \<Rightarrow> (Inl ErrTokenInvalid, s)
      | Inr p \<Rightarrow>
          let session_check =
            (if single_device p \<and> token_id p \<noteq> []
             then (case uuid_parse env (token_id p) of
                     None \<Rightarrow> Inl ErrTokenInvalid
                   | Some tid \<Rightarrow>
                       (case find_by_token_id env tid s of
                          Inl _ \<Rightarrow> Inl ErrSessionRevoked
                        | Inr se \<Rightarrow> if \<not> session_active env se then Inl ErrSessionRevoked else Inr ()))
             else Inr ())
          in case session_check of
            Inl e \<Rightarrow> (Inl e, s)
          | Inr _ \<Rightarrow>
              (case uuid_parse env (user_id p) of
                 None \<Rightarrow> (Inl ErrTokenInvalid, s)
               | Some uid \<Rightarrow>
                   (case find_user_by_id env s uid of
                      Inl _ \<Rightarrow> (Inl ErrAccountDeleted, s)
                    | Inr u \<Rightarrow>
                        if us_suspended u then (Inl ErrAccountSuspended, s) else (Inr (p, u), s))))"

section \<open>Logout, passwords and API keys\<close>

definition logout :: "env \<Rightarrow> uuid \<Rightarrow> uuid \<Rightarrow> string \<Rightarrow> sys \<Rightarrow> (svc_error + unit) \<times> sys" where
  "logout env tid uid dev s =
     (case revoke_session env tid s of
        Inl e \<Rightarrow> (Inl e, s)
      | Inr s1 \<Rightarrow>
          let s2 = (if dev \<noteq> [] then (case deactivate_for_device env uid dev s1 of
                        Inl _ \<Rightarrow> s1 | Inr s' \<Rightarrow> s') else s1)
          in (Inr (), write_audit env ((blank_audit env)\<lparr>au_user := Some uid, au_event := ''logout''\<rparr>) s2))"

definition logout_all :: "env \<Rightarrow> uuid \<Rightarrow> sys \<Rightarrow> (svc_error + nat) \<times> sys" where
  "logout_all env uid s =
     (case revoke_all_for_user env uid s of
        Inl e \<Rightarrow> (Inl e, s)
      | Inr (n, s1) \<Rightarrow>
          (Inr n, write_audit env ((blank_audit env)\<lparr>au_user := Some uid,
             au_event := ''session.revoked''\<rparr>) s1))"

definition min_password_length :: nat where "min_password_length = 6"

definition validate_password_strength :: "string \<Rightarrow> svc_error + unit" where
  "validate_password_strength pw =
     (if length pw < min_password_length then Inl (ErrMsg ''password must be at least 6 characters'')
      else if length pw > 72 then Inl (ErrMsg ''password must be at most 72 characters'')
      else Inr ())"

definition hash_password :: "env \<Rightarrow> string \<Rightarrow> svc_error + string" where
  "hash_password env pw = (case bcrypt_hash env pw of None \<Rightarrow> Inl ErrHash | Some h \<Rightarrow> Inr h)"

definition change_password ::
  "env \<Rightarrow> uuid \<Rightarrow> string \<Rightarrow> string \<Rightarrow> sys \<Rightarrow> (svc_error + unit) \<times> sys" where
  "change_password env uid old new s =
     (let line = (blank_audit env)\<lparr>au_user := Some uid, au_event := ''password.changed''\<rparr> in
      case find_user_by_id env s uid of
        Inl e \<Rightarrow> (Inl e, s)
      | Inr u \<Rightarrow>
          if \<not> bcrypt_matches env (us_password_hash u) old
          then (Inl ErrInvalidCredentials, write_audit env (line\<lparr>au_succeeded := False\<rparr>) s)
          else (case validate_password_strength new of
            Inl e \<Rightarrow> (Inl e, s)
          | Inr _ \<Rightarrow>
              (case hash_password env new of
                 Inl e \<Rightarrow> (Inl e, s)
               | Inr h \<Rightarrow>
                   (case update_user_fields env uid (\<lambda>v. v\<lparr>us_password_hash := h\<rparr>) s of
                      Inl e \<Rightarrow> (Inl e, s)
                    | Inr s1 \<Rightarrow>
                        let s2 = (case revoke_all_for_user env uid s1 of
                              Inl _ \<Rightarrow> s1 | Inr (_, s') \<Rightarrow> s')
                        in (Inr (), write_audit env line s2)))))"

definition create_key ::
  "env \<Rightarrow> string \<Rightarrow> uuid option \<Rightarrow> uuid option \<Rightarrow> string list \<Rightarrow> time option \<Rightarrow> sys
     \<Rightarrow> (svc_error + (string \<times> api_key)) \<times> sys" where
  "create_key env nm uid cid scopes expires s =
     (if rand_down env then (Inl ErrRandom, s)
      else let plaintext = gen_token env (draws s);
               s1 = s\<lparr>draws := Suc (draws s)\<rparr>
        in case create_api_key env
             \<lparr>ak_id = 0, ak_name = nm, ak_hash = hash_token env plaintext, ak_prefix = take 8 plaintext,
              ak_user = uid, ak_company = cid, ak_role = None, ak_scopes = scopes, ak_active = True,
              ak_last_used = None, ak_expires = expires, ak_revoked = None\<rparr> s1 of
          Inl e \<Rightarrow> (Inl e, s1)
        | Inr (k, s2) \<Rightarrow>
            (Inr (plaintext, k),
             write_audit env ((blank_audit env)\<lparr>au_user := uid, au_event := ''apikey.created'',
               au_detail := [(''name'', nm), (''prefix'', ak_prefix k)]\<rparr>) s2))"

section \<open>Sessions: what the operations change\<close>

lemma mark_revoked_keeps [simp]:
  "users (mark_revoked env p s) = users s" "companies (mark_revoked env p s) = companies s"
  "roles (mark_revoked env p s) = roles s" "modules (mark_revoked env p s) = modules s"
  "settings (mark_revoked env p s) = settings s" "extras (mark_revoked env p s) = extras s"
  "api_keys (mark_revoked env p s) = api_keys s" "draws (mark_revoked env p s) = draws s"
  "published (mark_revoked env p s) = published s" "attempts (mark_revoked env p s) = attempts s"
  by (simp_all add: mark_revoked_def)

lemma create_session_Inr:
  "create_session env se s = Inr s' \<longleftrightarrow>
     \<not> db_down env OpCreateSession \<and> s' = s\<lparr>sessions := sessions s @ [se]\<rparr> \<and>
     (\<forall>x \<in> set (sessions s). se_token x \<noteq> se_token se \<and>
        (se_refresh_hash se = None \<or> se_refresh_hash x \<noteq> se_refresh_hash se))"
  by (auto simp: create_session_def list_ex_iff)

lemma revoke_session_Inr:
  "revoke_session env tid s = Inr s' \<longleftrightarrow>
     \<not> db_down env OpRevokeSession \<and> s' = mark_revoked env (\<lambda>se. se_token se = tid) s"
  by (auto simp: revoke_session_def)

lemma revoke_all_Inr:
  "revoke_all_for_user env uid s = Inr (n, s') \<longleftrightarrow>
     \<not> db_down env OpRevokeAll \<and> n = sql_count (\<lambda>se. se_user se = uid \<and> se_revoked se = None) (sessions s) \<and>
     s' = announce env \<lparr>ev_kind = kind_user, ev_id = uuid_string env uid, ev_at = now env\<rparr>
       (mark_revoked env (\<lambda>se. se_user se = uid) s)"
  by (auto simp: revoke_all_for_user_def)

lemma sessions_mark_revoked:
  "sessions (mark_revoked env p s) =
     map (\<lambda>se. if p se \<and> se_revoked se = None then se\<lparr>se_revoked := Some (now env)\<rparr> else se) (sessions s)"
  by (simp add: mark_revoked_def sql_update_def)

lemma mark_revoked_image:
  assumes "x \<in> set (sessions s)"
  shows "\<exists>y \<in> set (sessions (mark_revoked env p s)).
    se_token y = se_token x \<and> se_refresh_hash y = se_refresh_hash x \<and> se_user y = se_user x"
proof -
  let ?y = "if p x \<and> se_revoked x = None then x\<lparr>se_revoked := Some (now env)\<rparr> else x"
  have "?y \<in> set (sessions (mark_revoked env p s))"
    using assms by (auto simp: sessions_mark_revoked)
  then show ?thesis by (rule bexI [rotated]) simp
qed

lemma mark_revoked_all:
  "se \<in> set (sessions (mark_revoked env p s)) \<Longrightarrow> (\<And>x r. p (x\<lparr>se_revoked := r\<rparr>) = p x) \<Longrightarrow> p se \<Longrightarrow>
     se_revoked se \<noteq> None"
  by (auto simp: sessions_mark_revoked split: if_splits)

lemma fold_announce_sessions [simp]:
  "sessions (fold (\<lambda>t. announce env (f t)) ts s) = sessions s"
  "users (fold (\<lambda>t. announce env (f t)) ts s) = users s"
  "companies (fold (\<lambda>t. announce env (f t)) ts s) = companies s"
  "roles (fold (\<lambda>t. announce env (f t)) ts s) = roles s"
  "modules (fold (\<lambda>t. announce env (f t)) ts s) = modules s"
  "settings (fold (\<lambda>t. announce env (f t)) ts s) = settings s"
  "extras (fold (\<lambda>t. announce env (f t)) ts s) = extras s"
  "draws (fold (\<lambda>t. announce env (f t)) ts s) = draws s"
  by (induction ts arbitrary: s) simp_all

lemma evict_sessions:
  "revoke_other_single_device env uid keep s = Inr s' \<Longrightarrow>
     sessions s' = sessions (mark_revoked env
        (\<lambda>se. se_user se = uid \<and> se_single_device se \<and> se_token se \<noteq> keep) s) \<and> users s' = users s"
  by (auto simp: revoke_other_single_device_def Let_def split: if_splits)

lemma generate_refresh_Inr:
  "generate_refresh_token env s = Inr (t, h, s') \<longleftrightarrow>
     \<not> rand_down env \<and> t = gen_token env (draws s) \<and> h = hash_token env t \<and> s' = s\<lparr>draws := Suc (draws s)\<rparr>"
  by (auto simp: generate_refresh_token_def Let_def)

lemma increment_keeps:
  "increment env k w s = Inr (n, s') \<Longrightarrow> \<exists>a. s' = s\<lparr>attempts := a\<rparr>"
  by (auto simp: increment_def Let_def split: cache_mode.splits)

lemma is_rate_limited_keeps:
  "is_rate_limited env i s = (r, s') \<Longrightarrow> \<exists>a. s' = s\<lparr>attempts := a\<rparr>"
  using increment_keeps by (fastforce simp: is_rate_limited_def split: sum.splits prod.splits intro: exI [of _ "attempts s"])

text \<open>What a successful login or refresh did, as one fact each.\<close>

lemma issue_session_Inr:
  assumes "issue_session env u inp s = (Inr pair, s')"
  shows "\<exists>se s3. se_user se = us_id u \<and> se_token se = gen_uuid env (draws s) \<and>
     se_refresh_hash se = Some (hash_token env (tp_refresh pair)) \<and>
     se_single_device se = (max_devices_of s u = 1) \<and>
     se_expires se = now env + refresh_ttl env \<and> se_revoked se = None \<and>
     tp_user pair = us_id u \<and> users s3 = users s \<and> users s' = users s \<and>
     sessions s3 = sessions s @ [se] \<and>
     (\<forall>x \<in> set (sessions s). se_token x \<noteq> se_token se \<and> se_refresh_hash x \<noteq> se_refresh_hash se) \<and>
     (if se_single_device se
      then (case revoke_other_single_device env (us_id u) (se_token se) s3 of
              Inl _ \<Rightarrow> s' = s3 | Inr s4 \<Rightarrow> s' = s4)
      else s' = s3) \<and>
     mint_access_token env s' u (se_token se) (se_single_device se) = Inr (tp_access pair, tp_expires pair)"
proof -
  define s2 where "s2 = s\<lparr>draws := Suc (Suc (draws s))\<rparr>"
  define se where "se = \<lparr>se_user = us_id u, se_token = gen_uuid env (draws s),
      se_refresh_hash = Some (hash_token env (gen_token env (Suc (draws s)))),
      se_single_device = (max_devices_of s u = 1), se_device = nil_if_empty (in_device inp),
      se_platform = nil_if_empty (in_platform inp), se_user_agent = nil_if_empty (in_user_agent inp),
      se_ip = nil_if_empty (in_ip inp), se_expires = now env + refresh_ttl env, se_revoked = None\<rparr>"
  obtain s3 where s3: "create_session env se s2 = Inr s3"
    using assms by (auto simp: issue_session_def Let_def generate_refresh_token_def s2_def se_def
        split: if_splits sum.splits prod.splits)
  have "s' = (if max_devices_of s u = 1
       then (case revoke_other_single_device env (us_id u) (gen_uuid env (draws s)) s3 of Inl _ \<Rightarrow> s3 | Inr x \<Rightarrow> x)
       else s3) \<and> tp_refresh pair = gen_token env (Suc (draws s)) \<and> tp_user pair = us_id u \<and>
     mint_access_token env s' u (se_token se) (se_single_device se) = Inr (tp_access pair, tp_expires pair)"
    using assms s3 unfolding s2_def se_def
    by (auto simp: issue_session_def Let_def generate_refresh_token_def split: if_splits sum.splits prod.splits)
  moreover have "sessions s3 = sessions s @ [se]" "users s3 = users s"
    "\<forall>x \<in> set (sessions s). se_token x \<noteq> se_token se \<and> se_refresh_hash x \<noteq> se_refresh_hash se"
    using s3 by (auto simp: create_session_Inr s2_def se_def)
  moreover have "users s' = users s"
    using calculation evict_sessions by (auto split: sum.splits if_splits)
  ultimately show ?thesis
    by (intro exI [of _ se] exI [of _ s3]) (auto simp: se_def split: sum.splits)
qed

lemma login_Inr:
  assumes "login env inp s = (Inr pair, s')"
  shows "\<exists>u s1 s2. find_by_identifier env s1 (trim_space (in_identifier inp)) = Inr u \<and>
     (\<exists>a. s1 = s\<lparr>attempts := a\<rparr>) \<and>
     bcrypt_matches env (us_password_hash u) (in_password inp) \<and> \<not> us_suspended u \<and>
     issue_session env u inp s1 = (Inr pair, s2) \<and> sessions s' = sessions s2 \<and>
     fst (is_rate_limited env (trim_space (in_identifier inp)) s) \<noteq> Inr True"
proof -
  obtain r s1 where l: "is_rate_limited env (trim_space (in_identifier inp)) s = (r, s1)"
    by (cases "is_rate_limited env (trim_space (in_identifier inp)) s")
  obtain u where u: "find_by_identifier env s1 (trim_space (in_identifier inp)) = Inr u"
    "bcrypt_matches env (us_password_hash u) (in_password inp)" "\<not> us_suspended u" "r \<noteq> Inr True"
    using assms l by (auto simp: login_def Let_def split: if_splits sum.splits svc_error.splits prod.splits)
  obtain x s2 where i: "issue_session env u inp s1 = (x, s2)" by (cases "issue_session env u inp s1")
  have "x = Inr pair \<and> sessions s' = sessions s2"
    using assms l u i
    by (auto simp: login_def Let_def clear_rate_limit_def cache_delete_def touch_last_login_def
        split: if_splits sum.splits)
  then show ?thesis using l u i is_rate_limited_keeps [OF l] by fastforce
qed

section \<open>Refresh\<close>

lemma refresh_read_Inr:
  "refresh_read env tok s = Inr (se, u) \<longleftrightarrow>
     \<not> db_down env OpFindSession \<and>
     sql_first (\<lambda>x. se_refresh_hash x = Some (hash_token env tok)) (sessions s) = Some se \<and>
     session_active env se \<and> find_user_by_id env s (se_user se) = Inr u \<and> \<not> us_suspended u"
  by (auto simp: refresh_read_def find_by_refresh_hash_def find_session_def
      split: option.splits sum.splits svc_error.splits if_splits)

lemma refresh_rotate_Inr:
  assumes "refresh_rotate env se u s = (Inr pair, s')"
  shows "\<exists>new. se_user new = us_id u \<and> se_token new = gen_uuid env (Suc (draws s)) \<and>
     se_refresh_hash new = Some (hash_token env (tp_refresh pair)) \<and>
     se_single_device new = se_single_device se \<and> se_revoked new = None \<and>
     se_expires new = now env + refresh_ttl env \<and>
     sessions s' = sessions (mark_revoked env (\<lambda>x. se_token x = se_token se) s) @ [new] \<and>
     (\<forall>x \<in> set (sessions s). se_token x \<noteq> se_token new \<and> se_refresh_hash x \<noteq> se_refresh_hash new) \<and>
     users s' = users s \<and> tp_user pair = us_id u \<and> \<not> db_down env OpRevokeSession \<and>
     mint_access_token env s' u (se_token new) (se_single_device new) = Inr (tp_access pair, tp_expires pair)"
proof -
  define s2 where "s2 = s\<lparr>draws := Suc (Suc (draws s))\<rparr>"
  define new where "new = \<lparr>se_user = us_id u, se_token = gen_uuid env (Suc (draws s)),
      se_refresh_hash = Some (hash_token env (gen_token env (draws s))),
      se_single_device = se_single_device se, se_device = se_device se, se_platform = se_platform se,
      se_user_agent = None, se_ip = None, se_expires = now env + refresh_ttl env, se_revoked = None\<rparr>"
  define s3 where "s3 = mark_revoked env (\<lambda>x. se_token x = se_token se) s2"
  obtain s4 where s4: "create_session env new s3 = Inr s4" and up: "\<not> db_down env OpRevokeSession"
    and m: "mint_access_token env s4 u (se_token new) (se_single_device new) = Inr (tp_access pair, tp_expires pair)"
    and p: "s' = s4" "tp_refresh pair = gen_token env (draws s)" "tp_user pair = us_id u"
    using assms
    by (auto simp: refresh_rotate_def Let_def generate_refresh_token_def revoke_session_def s2_def s3_def
        new_def split: if_splits sum.splits prod.splits)
  have s3: "sessions s3 = sessions (mark_revoked env (\<lambda>x. se_token x = se_token se) s)" "users s3 = users s"
    by (simp_all add: s3_def s2_def sessions_mark_revoked)
  have fresh: "\<forall>y \<in> set (sessions s3). se_token y \<noteq> se_token new \<and> se_refresh_hash y \<noteq> se_refresh_hash new"
    using s4 by (simp add: create_session_Inr new_def)
  have "\<forall>x \<in> set (sessions s). se_token x \<noteq> se_token new \<and> se_refresh_hash x \<noteq> se_refresh_hash new"
  proof
    fix x assume "x \<in> set (sessions s)"
    then obtain y where "y \<in> set (sessions s3)" "se_token y = se_token x" "se_refresh_hash y = se_refresh_hash x"
      unfolding s3(1) using mark_revoked_image by metis
    then show "se_token x \<noteq> se_token new \<and> se_refresh_hash x \<noteq> se_refresh_hash new"
      using fresh by metis
  qed
  moreover note s3
  ultimately show ?thesis
    using s4 up m p by (intro exI [of _ new]) (auto simp: create_session_Inr new_def)
qed

lemma find_user_cong: "users s' = users s \<Longrightarrow> find_user_by_id env s' i = find_user_by_id env s i"
  by (simp add: find_user_by_id_def)

lemma refresh_Inr:
  assumes "refresh env tok s = (Inr pair, s')"
  obtains se u where "refresh_read env tok s = Inr (se, u)" "refresh_rotate env se u s = (Inr pair, s')"
  using assms by (auto simp: refresh_def split: sum.splits prod.splits)

lemma sql_first_append: "sql_first p (t @ r) = (case sql_first p t of Some x \<Rightarrow> Some x | None \<Rightarrow> sql_first p r)"
  by (induction t) (auto simp: sql_first_def)

lemma sql_first_map:
  "(\<And>x. p (f x) = p x) \<Longrightarrow> sql_first p (map f t) = map_option f (sql_first p t)"
  by (induction t) (auto simp: sql_first_def)

lemma sql_first_revoked_hash:
  "sql_first (\<lambda>x. se_refresh_hash x = h) (sessions (mark_revoked env q s)) =
     map_option (\<lambda>se. if q se \<and> se_revoked se = None then se\<lparr>se_revoked := Some (now env)\<rparr> else se)
       (sql_first (\<lambda>x. se_refresh_hash x = h) (sessions s))"
  unfolding sessions_mark_revoked by (rule sql_first_map) simp

section \<open>Properties of login, refresh and tokens\<close>


text \<open>
  C5. A refresh token works once: after a refresh succeeded, presenting the same
  token again, at any later time, is answered with a revoked session and changes
  nothing.
\<close>
theorem refresh_token_single_use:
  assumes "refresh env tok s = (Inr pair, s')" "hash_token env2 = hash_token env"
    "\<not> db_down env2 OpFindSession"
  shows "refresh env2 tok s' = (Inl ErrSessionRevoked, s')"
proof -
  obtain se u where r: "refresh_read env tok s = Inr (se, u)" "refresh_rotate env se u s = (Inr pair, s')"
    using refresh_Inr [OF assms(1)] .
  obtain new where n: "sessions s' = sessions (mark_revoked env (\<lambda>x. se_token x = se_token se) s) @ [new]"
    using refresh_rotate_Inr [OF r(2)] by blast
  have "sql_first (\<lambda>x. se_refresh_hash x = Some (hash_token env tok)) (sessions s) = Some se"
    "se_revoked se = None"
    using r(1) by (auto simp: refresh_read_Inr session_active_def)
  then have "sql_first (\<lambda>x. se_refresh_hash x = Some (hash_token env tok)) (sessions s') =
      Some (se\<lparr>se_revoked := Some (now env)\<rparr>)"
    by (simp add: n sql_first_append sql_first_revoked_hash)
  then show ?thesis
    using assms(2,3)
    by (simp add: refresh_def refresh_read_def find_by_refresh_hash_def find_session_def session_active_def)
qed

text \<open>
  C19. The chain continues: the refresh token a refresh returned finds an active
  session of the same user, bound to a device exactly when the old one was, and
  the session that was presented is no longer active.
\<close>
theorem refresh_chain_continues:
  assumes "refresh env tok s = (Inr pair, s')" "refresh_ttl env > 0"
  shows "\<exists>se u new. refresh_read env tok s = Inr (se, u) \<and>
     refresh_read env (tp_refresh pair) s' = Inr (new, u) \<and>
     se_user new = se_user se \<and> se_single_device new = se_single_device se \<and>
     (\<forall>x \<in> set (sessions s'). se_token x = se_token se \<longrightarrow> \<not> session_active env x)"
proof -
  obtain se u where r: "refresh_read env tok s = Inr (se, u)" "refresh_rotate env se u s = (Inr pair, s')"
    using refresh_Inr [OF assms(1)] .
  obtain new where n: "se_user new = us_id u" "se_refresh_hash new = Some (hash_token env (tp_refresh pair))"
     "se_single_device new = se_single_device se" "se_revoked new = None"
     "se_expires new = now env + refresh_ttl env" "users s' = users s"
     "sessions s' = sessions (mark_revoked env (\<lambda>x. se_token x = se_token se) s) @ [new]"
     "\<forall>x \<in> set (sessions s). se_token x \<noteq> se_token new \<and> se_refresh_hash x \<noteq> se_refresh_hash new"
    using refresh_rotate_Inr [OF r(2)] by blast
  have u: "find_user_by_id env s (se_user se) = Inr u" "\<not> us_suspended u" "\<not> db_down env OpFindSession"
    and se: "se \<in> set (sessions s)"
    using r(1) by (auto simp: refresh_read_Inr dest: sql_first_Some)
  have uid: "us_id u = se_user se"
    using u(1) by (auto simp: find_user_by_id_def split: if_splits option.splits dest: sql_first_Some)
  have "sql_first (\<lambda>x. se_refresh_hash x = se_refresh_hash new) (sessions s) = None"
    using n(8) by (auto simp: sql_first_None)
  then have "sql_first (\<lambda>x. se_refresh_hash x = Some (hash_token env (tp_refresh pair))) (sessions s') = Some new"
    using n(2) by (simp add: n(7) sql_first_append sql_first_revoked_hash) (simp add: sql_first_def)
  then have "refresh_read env (tp_refresh pair) s' = Inr (new, u)"
    using u n uid assms(2) find_user_cong [of s' s] by (simp add: refresh_read_Inr session_active_def)
  moreover have "\<forall>x \<in> set (sessions s'). se_token x = se_token se \<longrightarrow> \<not> session_active env x"
    using n(8) se by (auto simp: n(7) session_active_def sessions_mark_revoked)
  ultimately show ?thesis using r(1) n uid by auto
qed

definition budi :: user where
  "budi = (blank_user 2 (Some 5))\<lparr>us_username := Some ''Budi'', us_password_hash := ''bsecret1'',
     us_role := Some 3, us_max_devices := 1\<rparr>"

definition demo_world :: sys where
  "demo_world = demo_tenant\<lparr>users := [budi]\<rparr>"

definition demo_login :: login_input where
  "demo_login = \<lparr>in_identifier = '' budi '', in_password = ''secret1'', in_device = [],
     in_platform = ''web'', in_user_agent = [], in_ip = []\<rparr>"

definition demo_pair :: token_pair where
  "demo_pair = \<lparr>tp_access = ''tok'', tp_refresh = ''tokx'', tp_expires = now demo_env + access_ttl demo_env,
     tp_user = 2\<rparr>"

definition demo_logged_in :: sys where
  "demo_logged_in = snd (login demo_env demo_login demo_world)"

lemma demo_login_runs: "login demo_env demo_login demo_world = (Inr demo_pair, demo_logged_in)"
proof -
  have "fst (login demo_env demo_login demo_world) = Inr demo_pair"
    by code_simp
  then show ?thesis unfolding demo_logged_in_def by (metis prod.collapse)
qed

lemma demo_past: "0 < now demo_env"
  by (simp add: demo_env_def day_def hour_def minute_def second_def)

lemma demo_ttl: "refresh_ttl demo_env > 0"
  by (simp add: demo_env_def day_def hour_def minute_def second_def)


definition demo_refreshed :: sys where
  "demo_refreshed = snd (refresh demo_env ''tokx'' demo_logged_in)"

lemma demo_refresh_runs:
  "\<exists>pair. refresh demo_env ''tokx'' demo_logged_in = (Inr pair, demo_refreshed)"
proof -
  have "is_ok (fst (refresh demo_env ''tokx'' demo_logged_in))" by code_simp
  then show ?thesis unfolding demo_refreshed_def is_ok_iff by (metis prod.collapse)
qed

theorem refresh_token_single_use_witness:
  "refresh (demo_env\<lparr>now := now demo_env + hour\<rparr>) ''tokx'' demo_refreshed = (Inl ErrSessionRevoked, demo_refreshed)"
proof -
  obtain pair where p: "refresh demo_env ''tokx'' demo_logged_in = (Inr pair, demo_refreshed)"
    using demo_refresh_runs by blast
  show ?thesis
    by (rule refresh_token_single_use [OF p]) (simp_all add: demo_env_def)
qed

theorem refresh_chain_continues_witness:
  "\<exists>pair se u new. refresh demo_env ''tokx'' demo_logged_in = (Inr pair, demo_refreshed) \<and>
     refresh_read demo_env ''tokx'' demo_logged_in = Inr (se, u) \<and>
     refresh_read demo_env (tp_refresh pair) demo_refreshed = Inr (new, u)"
proof -
  obtain pair where run: "refresh demo_env ''tokx'' demo_logged_in = (Inr pair, demo_refreshed)"
    using demo_refresh_runs by blast
  from refresh_chain_continues [OF run demo_ttl] run show ?thesis by blast
qed

section \<open>The rate limiter over a window\<close>

fun limited_at :: "env \<Rightarrow> string \<Rightarrow> time list \<Rightarrow> sys \<Rightarrow> (svc_error + bool) list" where
  "limited_at env ident [] s = []"
| "limited_at env ident (t # ts) s =
     (case is_rate_limited (env\<lparr>now := t\<rparr>) ident s of (r, s1) \<Rightarrow> r # limited_at env ident ts s1)"

lemma attempts_key_now [simp]: "attempts_key (env\<lparr>now := t\<rparr>) ident = attempts_key env ident"
  by (simp add: attempts_key_def)

lemma limited_step:
  assumes "cache_mode env = CacheUp" "attempts s (attempts_key env ident) = Some (n, ex)" "t < ex"
  shows "is_rate_limited (env\<lparr>now := t\<rparr>) ident s =
    (Inr (Suc n > rate_limit env),
     s\<lparr>attempts := (attempts s)(attempts_key env ident \<mapsto> (Suc n, ex))\<rparr>)"
  using assms by (simp add: is_rate_limited_def increment_def)

lemma limited_first:
  assumes "cache_mode env = CacheUp"
    "case attempts s (attempts_key env ident) of None \<Rightarrow> True | Some (n, ex) \<Rightarrow> ex \<le> t"
  shows "is_rate_limited (env\<lparr>now := t\<rparr>) ident s =
    (Inr (1 > rate_limit env),
     s\<lparr>attempts := (attempts s)(attempts_key env ident \<mapsto> (1, t + rate_window env))\<rparr>)"
proof (cases "attempts s (attempts_key env ident)")
  case None
  then show ?thesis using assms(1) by (simp add: is_rate_limited_def increment_def)
next
  case (Some x)
  then show ?thesis using assms by (cases x) (simp add: is_rate_limited_def increment_def)
qed

lemma limited_run:
  assumes "cache_mode env = CacheUp" "attempts s (attempts_key env ident) = Some (n, ex)"
    "\<forall>t \<in> set ts. t < ex"
  shows "limited_at env ident ts s = map (\<lambda>i. Inr (n + Suc i > rate_limit env)) [0..<length ts]"
  using assms
proof (induction ts arbitrary: s n)
  case (Cons t ts)
  let ?s1 = "s\<lparr>attempts := (attempts s)(attempts_key env ident \<mapsto> (Suc n, ex))\<rparr>"
  have "limited_at env ident ts ?s1 = map (\<lambda>i. Inr (Suc n + Suc i > rate_limit env)) [0..<length ts]"
    using Cons.prems by (intro Cons.IH) auto
  moreover have "[0..<length (t # ts)] = 0 # map Suc [0..<length ts]"
    by (simp add: upt_conv_Cons map_Suc_upt del: upt_Suc)
  ultimately show ?case
    using limited_step [OF Cons.prems(1,2), of t] Cons.prems(3) by (simp add: comp_def)
qed simp



section \<open>One device\<close>

text \<open>The unrevoked single-device sessions of an account, by token.\<close>

definition devices_in :: "session list \<Rightarrow> uuid \<Rightarrow> uuid list" where
  "devices_in t uid = map se_token
     (filter (\<lambda>x. (se_user x = uid \<and> se_single_device x) \<and> se_revoked x = None) t)"

definition device_sessions :: "sys \<Rightarrow> uuid \<Rightarrow> uuid list" where
  "device_sessions s uid = devices_in (sessions s) uid"

lemma devices_in_append: "devices_in (t @ [x]) uid = devices_in t uid @
    (if se_user x = uid \<and> se_single_device x \<and> se_revoked x = None then [se_token x] else [])"
  by (simp add: devices_in_def)

lemma filter_mark_revoked:
  assumes "\<And>x r. q (x\<lparr>se_revoked := r\<rparr>) = q x"
  shows "filter (\<lambda>x. q x \<and> se_revoked x = None) (sessions (mark_revoked env p s)) =
     filter (\<lambda>x. q x \<and> \<not> p x \<and> se_revoked x = None) (sessions s)"
proof -
  have "filter (\<lambda>x. q x \<and> se_revoked x = None)
      (map (\<lambda>se. if p se \<and> se_revoked se = None then se\<lparr>se_revoked := Some (now env)\<rparr> else se) t) =
    filter (\<lambda>x. q x \<and> \<not> p x \<and> se_revoked x = None) t" for t
    using assms by (induction t) auto
  then show ?thesis by (simp add: sessions_mark_revoked)
qed

lemma devices_mark_revoked:
  "devices_in (sessions (mark_revoked env p s)) uid = map se_token
     (filter (\<lambda>x. (se_user x = uid \<and> se_single_device x) \<and> \<not> p x \<and> se_revoked x = None) (sessions s))"
  unfolding devices_in_def by (subst filter_mark_revoked) simp_all

lemma max_devices_attempts [simp]: "max_devices_of (s\<lparr>attempts := a\<rparr>) u = max_devices_of s u"
  by (simp add: max_devices_of_def company_of_def cong: option.case_cong)

lemma login_leaves_one_device:
  assumes "login env inp s = (Inr pair, s')" "\<not> db_down env OpEvict"
    "\<forall>u \<in> set (users s). us_id u = tp_user pair \<longrightarrow> max_devices_of s u = 1"
  shows "device_sessions s' (tp_user pair) = [gen_uuid env (draws s)]"
proof -
  obtain u s1 s2 a where u: "find_by_identifier env s1 (trim_space (in_identifier inp)) = Inr u"
     "s1 = s\<lparr>attempts := a\<rparr>" "issue_session env u inp s1 = (Inr pair, s2)" "sessions s' = sessions s2"
    using login_Inr [OF assms(1)] by blast
  obtain se s3 where se: "se_user se = us_id u" "se_revoked se = None" "se_token se = gen_uuid env (draws s1)"
     "se_single_device se = (max_devices_of s1 u = 1)" "tp_user pair = us_id u" "sessions s3 = sessions s1 @ [se]"
     "\<forall>x \<in> set (sessions s1). se_token x \<noteq> se_token se"
     "if se_single_device se
      then (case revoke_other_single_device env (us_id u) (se_token se) s3 of
              Inl _ \<Rightarrow> s2 = s3 | Inr s4 \<Rightarrow> s2 = s4)
      else s2 = s3"
    using issue_session_Inr [OF u(3)] by blast
  have "u \<in> set (users s)"
    using u(1,2) by (auto simp: find_by_identifier_def Let_def split: if_splits option.splits dest!: sql_first_Some)
  then have "max_devices_of s u = 1" using assms(3) se(5) by simp
  then have single: "se_single_device se"
    using se(4) u(2) by simp
  obtain s4 where "revoke_other_single_device env (us_id u) (se_token se) s3 = Inr s4"
    using assms(2) by (simp add: revoke_other_single_device_def Let_def)
  then have "sessions s2 = sessions (mark_revoked env
      (\<lambda>x. se_user x = us_id u \<and> se_single_device x \<and> se_token x \<noteq> se_token se) s3)"
    using se(8) single evict_sessions by simp
  then have "device_sessions s' (us_id u) = map se_token (filter (\<lambda>x. (se_user x = us_id u \<and> se_single_device x) \<and>
      \<not> (se_user x = us_id u \<and> se_single_device x \<and> se_token x \<noteq> se_token se) \<and> se_revoked x = None)
      (sessions s1 @ [se]))"
    unfolding device_sessions_def u(4) by (simp only: devices_mark_revoked se(6))
  also have "\<dots> = [se_token se]"
    using se(1,2,7) single by (auto simp: filter_empty_conv)
  finally show ?thesis
    using se(3,5) u(2) by simp
qed

lemma refresh_adds_no_device:
  assumes "refresh env tok t = (Inr pair2, t')"
  shows "length (device_sessions t' uid) \<le> length (device_sessions t uid)"
proof -
  obtain se u where ru: "refresh_read env tok t = Inr (se, u)" "refresh_rotate env se u t = (Inr pair2, t')"
    using refresh_Inr [OF assms] .
  obtain new where n: "se_user new = us_id u" "se_single_device new = se_single_device se" "se_revoked new = None"
     "sessions t' = sessions (mark_revoked env (\<lambda>x. se_token x = se_token se) t) @ [new]"
    using refresh_rotate_Inr [OF ru(2)] by blast
  have se: "se \<in> set (sessions t)" "se_revoked se = None" "us_id u = se_user se"
    using ru(1) by (auto simp: refresh_read_Inr session_active_def find_user_by_id_def
        split: if_splits option.splits dest: sql_first_Some)
  let ?q = "\<lambda>x. se_user x = uid \<and> se_single_device x"
  have "device_sessions t' uid = map se_token (filter (\<lambda>x. ?q x \<and> \<not> se_token x = se_token se \<and> se_revoked x = None) (sessions t))
      @ (if ?q new then [se_token new] else [])"
    unfolding device_sessions_def n(4) devices_in_append devices_mark_revoked using n(3) by simp
  moreover have "Suc (length (filter (\<lambda>x. ?q x \<and> \<not> se_token x = se_token se \<and> se_revoked x = None) (sessions t)))
      \<le> length (filter (\<lambda>x. ?q x \<and> se_revoked x = None) (sessions t))" if "?q new"
  proof -
    have "?q se \<and> se_revoked se = None" using that n(1,2) se by simp
    then show ?thesis using se(1) by (intro filter_shorter [of se]) auto
  qed
  moreover have "length (filter (\<lambda>x. ?q x \<and> \<not> se_token x = se_token se \<and> se_revoked x = None) (sessions t))
      \<le> length (filter (\<lambda>x. ?q x \<and> se_revoked x = None) (sessions t))"
    by (rule filter_no_longer) auto
  ultimately show ?thesis
    by (simp add: device_sessions_def devices_in_def)
qed

text \<open>
  One device at a time: when an account limited to one device logs in (and the
  eviction query does not fail), its new session is its only unrevoked
  single-device session; and a refresh never adds one, it replaces the session it
  was given.
\<close>
theorem single_device_kept:
  "(login env inp s = (Inr pair, s') \<longrightarrow> \<not> db_down env OpEvict \<longrightarrow>
      (\<forall>u \<in> set (users s). us_id u = tp_user pair \<longrightarrow> max_devices_of s u = 1) \<longrightarrow>
      device_sessions s' (tp_user pair) = [gen_uuid env (draws s)]) \<and>
   (refresh env tok t = (Inr pair2, t') \<longrightarrow>
      length (device_sessions t' uid) \<le> length (device_sessions t uid))"
  using login_leaves_one_device refresh_adds_no_device by blast

lemma demo_one_device: "max_devices_of demo_world budi = 1"
  by (simp add: max_devices_of_def budi_def)

theorem single_device_kept_witness:
  "device_sessions demo_logged_in 2 = [gen_uuid demo_env 0] \<and>
   length (device_sessions demo_refreshed 2) \<le> 1"
proof -
  obtain pair where r: "refresh demo_env ''tokx'' demo_logged_in = (Inr pair, demo_refreshed)"
    using demo_refresh_runs by blast
  note kept = single_device_kept [of demo_env demo_login demo_world demo_pair demo_logged_in "''tokx''"
      demo_logged_in pair demo_refreshed 2]
  have "\<forall>u \<in> set (users demo_world). us_id u = tp_user demo_pair \<longrightarrow> max_devices_of demo_world u = 1"
    using demo_one_device by (simp add: demo_world_def)
  then have 1: "device_sessions demo_logged_in (tp_user demo_pair) = [gen_uuid demo_env (draws demo_world)]"
    using kept demo_login_runs demo_up(1) by blast
  moreover have "tp_user demo_pair = 2" "draws demo_world = 0"
    by (simp_all add: demo_pair_def demo_world_def demo_tenant_def empty_sys_def)
  moreover have "length (device_sessions demo_refreshed 2) \<le> length (device_sessions demo_logged_in 2)"
    using kept r by blast
  ultimately show ?thesis by simp
qed

section \<open>Minting and validating\<close>

text \<open>
  Minting fails closed: when the access of a tenant user cannot be loaded, the
  principal that is signed holds no permission at all, in any product.
\<close>
theorem mint_fails_closed:
  assumes "build_access env s (us_id u) (us_company u) = Inl e" "\<not> us_platform_staff u"
  shows "\<not> has_permission (token_principal env s u tid single) pd key \<and>
    \<not> has_product (token_principal env s u tid single) pd"
  using assms by (simp add: token_principal_def has_permission_def has_product_def)

theorem mint_fails_closed_witness:
  "\<not> has_permission (token_principal (demo_env\<lparr>db_down := (\<lambda>x. x = OpModules)\<rparr>) demo_world budi 11 True)
     product_tms ''order.read'' \<and> has_permission (token_principal demo_env demo_world budi 11 True) product_tms ''order.read''"
proof
  have "load_role demo_world 2 = (fst (load_role demo_tenant 2), False)"
    by (simp add: demo_load) (simp add: load_role_def demo_world_def demo_tenant_def budi_def blank_user_def
        demo_role_def sql_first_def role_access_def)
  then have "build_access (demo_env\<lparr>db_down := (\<lambda>x. x = OpModules)\<rparr>) demo_world (us_id budi) (us_company budi) =
      Inl (ErrDB OpModules)"
    by (simp add: budi_def blank_user_def build_access_def assemble_def entitlement_for_def)
  then show "\<not> has_permission (token_principal (demo_env\<lparr>db_down := (\<lambda>x. x = OpModules)\<rparr>) demo_world budi 11 True)
     product_tms ''order.read''"
    using mint_fails_closed [of "demo_env\<lparr>db_down := (\<lambda>x. x = OpModules)\<rparr>" demo_world budi]
    by (simp add: budi_def blank_user_def)
  show "has_permission (token_principal demo_env demo_world budi 11 True) product_tms ''order.read''"
    by code_simp
qed

text \<open>
  The contract of the JWT library that minting relies on: a token it signed parses,
  under the accepted algorithm and the issuer of its claims, to those claims.
\<close>

definition jwt_roundtrips :: "jwt_lib \<Rightarrow> string \<Rightarrow> bool" where
  "jwt_roundtrips lib t \<longleftrightarrow> (\<forall>c. signed_string lib c = Some t \<longrightarrow>
     parse_with_claims lib [''RS256''] (issuer (registered c)) t = Some (c, True))"

lemma mint_Inr:
  assumes "mint_access_token env s u tid single = Inr (t, ex)"
  shows "signed_string (jwt env) \<lparr>claims_principal = token_principal env s u tid single,
     registered = \<lparr>issuer = token_issuer, subject = uuid_string env (us_id u), jti = uuid_string env tid,
        issued_at = Some (numeric_date env (now env)), not_before = Some (numeric_date env (now env)),
        expires_at = Some (numeric_date env (now env + access_ttl env))\<rparr>\<rparr> = Some t"
  using assms by (auto simp: mint_access_token_def sign_def Let_def split: sum.splits option.splits)

text \<open>
  What is minted is what verifies: under the JWT library's contract, the token
  of a user verifies to the principal that was built for them, issued now, so the
  middleware of every service sees exactly the access computed at login.
\<close>
theorem minted_token_verifies:
  assumes "mint_access_token env s u tid single = Inr (t, ex)" "jwt_roundtrips (jwt env) t"
    "uuid_string env (us_id u) \<noteq> []"
  shows "verify_with_issued_at (jwt env) t =
     Inr (token_principal env s u tid single, numeric_date env (now env))"
proof -
  have "parse_with_claims (jwt env) [''RS256''] token_issuer t =
     Some (\<lparr>claims_principal = token_principal env s u tid single,
     registered = \<lparr>issuer = token_issuer, subject = uuid_string env (us_id u), jti = uuid_string env tid,
        issued_at = Some (numeric_date env (now env)), not_before = Some (numeric_date env (now env)),
        expires_at = Some (numeric_date env (now env + access_ttl env))\<rparr>\<rparr>, True)"
    using mint_Inr [OF assms(1)] assms(2) unfolding jwt_roundtrips_def by fastforce
  then show ?thesis
    using assms(3) by (simp add: verify_with_issued_at_def parse_claims_def token_principal_def)
qed

definition budi_claims :: claims where
  "budi_claims = \<lparr>claims_principal = token_principal demo_env demo_world budi 11 True,
     registered = \<lparr>issuer = token_issuer, subject = ''u-ii'', jti = uuid_string demo_env 11,
        issued_at = Some (now demo_env), not_before = Some (now demo_env),
        expires_at = Some (now demo_env + access_ttl demo_env)\<rparr>\<rparr>"

definition budi_jwt :: jwt_lib where
  "budi_jwt = \<lparr>parse_with_claims = (\<lambda>algs iss t. if t = ''a.b.c'' then Some (budi_claims, True) else None),
     signed_string = (\<lambda>c. if c = budi_claims then Some ''a.b.c'' else None)\<rparr>"

definition jwt_env :: env where
  "jwt_env = demo_env\<lparr>jwt := budi_jwt, numeric_date := (\<lambda>t. t)\<rparr>"

lemma jwt_env_principal:
  "token_principal jwt_env demo_world budi 11 True = token_principal demo_env demo_world budi 11 True"
proof -
  have up: "\<not> db_down jwt_env x" for x by (simp add: jwt_env_def)
  have n: "now jwt_env = now demo_env" by (simp add: jwt_env_def)
  have "in_window jwt_env = in_window demo_env"
    unfolding in_window_def current_date_def n ..
  then have "entitlement_for jwt_env s i = entitlement_for demo_env s i" for s i
    by (simp add: entitlement_for_def entitlement_rows_def up)
  then have "assemble jwt_env s r x c = assemble demo_env s r x c" for s r x c
    unfolding assemble_def by (cases c) simp_all
  then have "build_access jwt_env s i c = build_access demo_env s i c" for s i c
    by (simp add: build_access_def up split: prod.splits)
  moreover have "uuid_string jwt_env = uuid_string demo_env" by (simp add: jwt_env_def)
  ultimately show ?thesis by (simp add: token_principal_def budi_def blank_user_def)
qed

theorem minted_token_verifies_witness:
  "verify_with_issued_at budi_jwt ''a.b.c'' =
     Inr (token_principal demo_env demo_world budi 11 True, now demo_env)"
proof -
  have "mint_access_token jwt_env demo_world budi 11 True = Inr (''a.b.c'', now demo_env + access_ttl demo_env)"
    by (simp add: mint_access_token_def sign_def jwt_env_principal)
       (simp add: jwt_env_def budi_jwt_def budi_claims_def demo_env_def budi_def blank_user_def numeral_2_eq_2)
  moreover have "jwt_roundtrips (jwt jwt_env) ''a.b.c''"
    by (simp add: jwt_roundtrips_def jwt_env_def budi_jwt_def)
  ultimately show ?thesis
    using minted_token_verifies [of jwt_env demo_world budi 11 True "''a.b.c''"] jwt_env_principal
    by (simp add: jwt_env_def) (simp add: demo_env_def)
qed

text \<open>
  C20. Whoever validates is still allowed in: a token accepted by ValidateToken
  belongs to an account that is live and not suspended, or is a machine key of a
  company that is not suspended; a single-device token has an active session; an
  API key is active, unrevoked and unexpired.
\<close>
theorem validated_is_live:
  assumes "validate_token env tok s = (Inr (p, u), s')"
  shows "(u \<in> set (users s) \<and> user_live u \<and> \<not> us_suspended u \<and>
      ((verify (jwt env) (trim_space tok) = Inr p \<and> uuid_parse env (user_id p) = Some (us_id u) \<and>
        (single_device p \<and> token_id p \<noteq> [] \<longrightarrow>
           (\<exists>se \<in> set (sessions s). uuid_parse env (token_id p) = Some (se_token se) \<and> session_active env se)))
       \<or> (\<exists>k \<in> set (api_keys s). ak_user k = Some (us_id u) \<and> api_key_usable env k \<and>
            ak_hash k = hash_token env (trim_space tok) \<and>
            build_access env (touch_key env (ak_id k) s) (us_id u) (us_company u) = Inr (access p))))
    \<or> (\<exists>k \<in> set (api_keys s). \<exists>c \<in> set (companies s). ak_user k = None \<and> api_key_usable env k \<and>
         ak_hash k = hash_token env (trim_space tok) \<and> ak_company k = Some (co_id c) \<and>
         company_live c \<and> \<not> co_is_suspended c \<and> \<not> is_platform_staff p)"
proof (cases "length (filter (\<lambda>c. c = CHR ''.'') (trim_space tok)) = 2")
  case True
  have "verify (jwt env) (trim_space tok) = Inr p \<and> uuid_parse env (user_id p) = Some (us_id u) \<and>
     u \<in> set (users s) \<and> user_live u \<and> \<not> us_suspended u"
    using assms True
    by (auto simp: validate_token_def Let_def find_user_by_id_def
        split: if_splits sum.splits option.splits dest!: sql_first_Some)
  moreover have "\<exists>se \<in> set (sessions s). uuid_parse env (token_id p) = Some (se_token se) \<and> session_active env se"
    if "single_device p \<and> token_id p \<noteq> []"
    using assms True that
    by (auto simp: validate_token_def Let_def find_by_token_id_def find_session_def
        split: if_splits sum.splits option.splits dest!: sql_first_Some)
  ultimately show ?thesis by blast
next
  case False
  then have v: "validate_api_key env (trim_space tok) s = (Inr (p, u), s')"
    using assms by (auto simp: validate_token_def Let_def split: if_splits)
  then obtain k where k: "k \<in> set (api_keys s)" "ak_hash k = hash_token env (trim_space tok)"
    "api_key_usable env k" "find_key_by_hash env (hash_token env (trim_space tok)) s = Inr k"
    by (auto simp: validate_api_key_def find_key_by_hash_def split: if_splits sum.splits option.splits
        dest: sql_first_Some)
  show ?thesis
  proof (cases "ak_user k")
    case None
    then have "validate_machine_key env k s = (Inr (p, u), s')"
      using v k by (simp add: validate_api_key_def)
    then have "\<exists>c \<in> set (companies s). ak_company k = Some (co_id c) \<and> company_live c \<and>
        \<not> co_is_suspended c \<and> \<not> is_platform_staff p"
      by (auto simp: validate_machine_key_def company_of_key_def find_company_def
          split: option.splits sum.splits if_splits dest!: sql_first_Some)
    then show ?thesis using k(1-3) None by blast
  next
    case (Some i)
    then have "u \<in> set (users s) \<and> user_live u \<and> \<not> us_suspended u \<and> us_id u = i \<and>
        build_access env (touch_key env (ak_id k) s) (us_id u) (us_company u) = Inr (access p)"
      using v k by (auto simp: validate_api_key_def find_user_by_id_def Let_def
          split: sum.splits if_splits option.splits dest!: sql_first_Some)
    then show ?thesis using k Some by blast
  qed
qed

definition integration_key :: api_key where
  "integration_key = \<lparr>ak_id = 40, ak_name = ''erp'', ak_hash = ''hkey'', ak_prefix = ''key'', ak_user = None,
     ak_company = Some 5, ak_role = Some 3, ak_scopes = [], ak_active = True, ak_last_used = None,
     ak_expires = None, ak_revoked = None\<rparr>"

theorem validated_is_live_witness:
  "\<exists>k \<in> set [integration_key]. api_key_usable demo_env k \<and> ak_hash k = ''hkey''"
proof -
  let ?s = "demo_world\<lparr>api_keys := [integration_key]\<rparr>"
  have "is_ok (fst (validate_token demo_env '' key '' ?s))" by code_simp
  then obtain p u s' where v: "validate_token demo_env '' key '' ?s = (Inr (p, u), s')"
    by (cases "validate_token demo_env '' key '' ?s") (auto simp: is_ok_iff)
  have t: "trim_space '' key '' = ''key''" by code_simp
  have n: "verify (jwt demo_env) ''key'' \<noteq> Inr p"
    by (simp add: demo_env_def verify_def parse_claims_def toy_jwt_def)
  have h: "hash_token demo_env ''key'' = ''hkey''" by (simp add: demo_env_def)
  show ?thesis
    using validated_is_live [OF v] n unfolding t h by auto
qed



section \<open>What the code does not promise\<close>

text \<open>
  Two refreshes with one token whose reads both come before either rotation both
  succeed: the revocation in the rotation is an UPDATE that nobody asks how many rows
  it matched.  The account ends with two live sessions, although the account is
  limited to one device.
\<close>

lemma refresh_race_forks:
  "case refresh_read demo_env ''tokx'' demo_logged_in of
     Inl _ \<Rightarrow> False
   | Inr (se, u) \<Rightarrow> se_single_device se \<and>
       (case refresh_rotate demo_env se u demo_logged_in of (r1, s1) \<Rightarrow>
          case refresh_rotate demo_env se u s1 of (r2, s2) \<Rightarrow>
            is_ok r1 \<and> is_ok r2 \<and> length (filter (session_active demo_env) (sessions s2)) = 2)"
  by code_simp

text \<open>
  A token's issue time is cut to whole seconds while a cutoff is kept exactly, so a
  token minted after a revocation in the same second is refused.
\<close>

lemma fresh_token_in_same_second_refused:
  assumes "numeric_date env t = t - t mod second" "t mod second > ev_at e mod second"
    "t div second = ev_at e div second" "ev_at e mod second > 0"
    "ev_kind e = kind_user" "ev_id e \<noteq> []"
  shows "t > ev_at e \<and> covers e sid (ev_id e) cid (numeric_date env t)"
proof -
  have "t = second * (t div second) + t mod second"
    by (rule mult_div_mod_eq [symmetric])
  moreover have "ev_at e = second * (t div second) + ev_at e mod second"
    unfolding assms(3) by (rule mult_div_mod_eq [symmetric])
  ultimately have "t > ev_at e" "t - t mod second < ev_at e"
    using assms(2,4) by linarith+
  then show ?thesis using assms by (simp add: covers_def)
qed

text \<open>
  Suspension is told apart from a wrong password, by whoever knows the password.
\<close>

lemma suspended_login_told_apart:
  "fst (login demo_env demo_login (demo_world\<lparr>users := [budi\<lparr>us_suspended := True\<rparr>]\<rparr>)) = Inl ErrAccountSuspended"
  by code_simp

text \<open>Logout ends the session row and announces nothing.\<close>

lemma logout_announces_nothing:
  "published (snd (logout env tid uid dev s)) = published s"
  by (auto simp: logout_def revoke_session_def deactivate_for_device_def Let_def split: sum.splits if_splits)

text \<open>The principal of a person's API key carries no FMS ids, the one of a token does.\<close>

lemma api_key_principal_without_fms:
  assumes "validate_api_key env key s = (Inr (p, u), s')" "find_key_by_hash env (hash_token env key) s = Inr k"
    "ak_user k = Some uid"
  shows "fms_user_id p = 0 \<and> fms_tenant_id p = 0"
  using assms by (auto simp: validate_api_key_def Let_def split: sum.splits if_splits)

text \<open>
  Without a working cache the counter falls back to the audit table, which a
  successful login does not clear: a user who mistyped often stays limited.
\<close>

lemma clear_is_nothing_in_fallback:
  "cache_mode env \<noteq> CacheUp \<Longrightarrow> clear_rate_limit env ident s = s"
  by (simp add: clear_rate_limit_def cache_delete_def)

end
