(* ===== verification/Users.thy ===== *)
theory Users
  imports Auth
begin

text \<open>
  internal/services/user_service.go: accounts and their permissions.  Registration
  is one transaction; the other writes are separate statements in the order the code
  has them, so an operation that fails half way returns the state it left.
\<close>

section \<open>Registration\<close>

record register_input =
  ri_username :: string
  ri_email :: string
  ri_phone :: string
  ri_password :: string
  ri_full_name :: string
  ri_role :: string
  ri_parent :: "uuid option"
  ri_company :: "uuid option"
  ri_role_id :: "uuid option"
  ri_company_name :: string
  ri_company_abbreviation :: string
  ri_permissions :: "string list"
  ri_unaffiliated :: bool

fun first_non_empty :: "string list \<Rightarrow> string" where
  "first_non_empty [] = ''Unnamed Company''"
| "first_non_empty (v # vs) = (if trim_space v \<noteq> [] then v else first_non_empty vs)"

definition abbreviation_or_nil :: "string \<Rightarrow> string option" where
  "abbreviation_or_nil v = nil_if_empty (to_upper (trim_space v))"

text \<open>The loop over the three checks, in order; an empty value is skipped.\<close>

fun assert_all_free ::
  "sys \<Rightarrow> (string \<times> (string \<Rightarrow> sys \<Rightarrow> svc_error + bool) \<times> string) list \<Rightarrow> svc_error + unit" where
  "assert_all_free s [] = Inr ()"
| "assert_all_free s ((v, f, label) # cs) =
     (if v = [] then assert_all_free s cs
      else case f v s of
        Inl e \<Rightarrow> Inl e
      | Inr taken \<Rightarrow>
          if taken then Inl (ErrMsg (label @ '' is already registered'')) else assert_all_free s cs)"

definition assert_identifiers_free :: "env \<Rightarrow> register_input \<Rightarrow> sys \<Rightarrow> svc_error + unit" where
  "assert_identifiers_free env inp s =
     assert_all_free s
       [(to_lower (trim_space (ri_email inp)), exists_by_email env, ''email''),
        (trim_space (ri_username inp), exists_by_username env, ''username''),
        (trim_space (ri_phone inp), exists_by_phone env, ''phone'')]"

definition new_tenant :: "register_input \<Rightarrow> bool" where
  "new_tenant inp = (ri_parent inp = None \<and> ri_company inp = None \<and> \<not> ri_unaffiliated inp)"

definition founded_company :: "register_input \<Rightarrow> company" where
  "founded_company inp =
     (blank_company 0 (first_non_empty [ri_company_name inp, ri_full_name inp, ri_email inp]))
       \<lparr>co_role := ri_role inp, co_abbreviation := abbreviation_or_nil (ri_company_abbreviation inp)\<rparr>"

text \<open>SELECT max_users ... FOR UPDATE: no row leaves the limit at 0.\<close>

definition seat_limit :: "sys \<Rightarrow> uuid \<Rightarrow> int" where
  "seat_limit s cid = (case sql_first (\<lambda>c. co_id c = cid) (companies s) of
      None \<Rightarrow> 0 | Some c \<Rightarrow> co_max_users c)"

definition check_seats :: "env \<Rightarrow> uuid \<Rightarrow> sys \<Rightarrow> svc_error + unit" where
  "check_seats env cid s =
     (if db_down env OpLockCompany then Inl (ErrDB OpLockCompany)
      else if seat_limit s cid > 0
      then (case count_active_users env cid s of
         Inl e \<Rightarrow> Inl e
       | Inr used \<Rightarrow>
           if int used \<ge> seat_limit s cid
           then Inl (ErrValidation ''this company has no seat left'') else Inr ())
      else Inr ())"

definition registered_user :: "register_input \<Rightarrow> uuid option \<Rightarrow> string \<Rightarrow> user" where
  "registered_user inp cid h =
     (blank_user 0 cid)\<lparr>us_username := nil_if_empty (trim_space (ri_username inp)),
       us_email := nil_if_empty (to_lower (trim_space (ri_email inp))),
       us_phone := nil_if_empty (trim_space (ri_phone inp)),
       us_password_hash := h, us_full_name := nil_if_empty (ri_full_name inp),
       us_profile := [(''language'', ''id'')]\<rparr>"

definition create_account :: "env \<Rightarrow> user \<Rightarrow> sys \<Rightarrow> svc_error + (user \<times> sys)" where
  "create_account env u s =
     (case create_user env u s of
        Inl e \<Rightarrow> Inl (if e = ErrConflict
           then ErrMsg ''an account with these details already exists'' else e)
      | Inr r \<Rightarrow> Inr r)"

text \<open>The role of the new account, in the order of the code; the state changes only for a founder.\<close>

definition choose_role ::
  "env \<Rightarrow> register_input \<Rightarrow> uuid \<Rightarrow> sys \<Rightarrow> svc_error + (uuid \<times> sys)" where
  "choose_role env inp cid s =
     (case ri_role_id inp of
        None \<Rightarrow>
          if \<not> new_tenant inp
          then Inl (ErrValidation ''a role is required when inviting a member'')
          else (case ensure_administrator env cid s of
            Inl e \<Rightarrow> Inl e
          | Inr (r, s1) \<Rightarrow> Inr (ro_id r, s1))
      | Some rid \<Rightarrow>
          (case find_role env s cid rid of
             Inl _ \<Rightarrow> Inl (ErrForbidden ''that role does not belong to this company'')
           | Inr _ \<Rightarrow> Inr (rid, s)))"

definition give_role ::
  "env \<Rightarrow> register_input \<Rightarrow> uuid option \<Rightarrow> user \<Rightarrow> sys \<Rightarrow> svc_error + (user \<times> sys)" where
  "give_role env inp cid u s =
     (case cid of
        None \<Rightarrow> Inr (u, s)
      | Some c \<Rightarrow> rbind (choose_role env inp c s) (\<lambda>(rid, s1).
          rbind (set_role env (us_id u) rid s1) (\<lambda>s2. Inr (u\<lparr>us_role := Some rid\<rparr>, s2))))"

definition give_extras :: "env \<Rightarrow> register_input \<Rightarrow> user \<Rightarrow> sys \<Rightarrow> svc_error + sys" where
  "give_extras env inp u s =
     (if ri_permissions inp = [] then Inr s
      else grant_product_access env
        \<lparr>ea_user = us_id u, ea_product = product_tms, ea_permissions = ri_permissions inp,
         ea_enabled = True, ea_granted_by = None, ea_note = None\<rparr> s)"

definition found_company ::
  "env \<Rightarrow> register_input \<Rightarrow> sys \<Rightarrow> svc_error + (uuid option \<times> sys)" where
  "found_company env inp s =
     (if new_tenant inp
      then rbind (create_company env False (founded_company inp) s) (\<lambda>(c, s1). Inr (Some (co_id c), s1))
      else Inr (ri_company inp, s))"

definition register_tx ::
  "env \<Rightarrow> register_input \<Rightarrow> string \<Rightarrow> sys \<Rightarrow> svc_error + (user \<times> sys)" where
  "register_tx env inp h s0 =
     (case found_company env inp s0 of
        Inl e \<Rightarrow> Inl e
      | Inr (cid, s1) \<Rightarrow>
     (case (case cid of Some c \<Rightarrow> if new_tenant inp then Inr () else check_seats env c s1
            | None \<Rightarrow> Inr ()) of
        Inl e \<Rightarrow> Inl e
      | Inr _ \<Rightarrow>
     (case create_account env (registered_user inp cid h) s1 of
        Inl e \<Rightarrow> Inl e
      | Inr (u, s2) \<Rightarrow>
     (case (case cid of Some c \<Rightarrow> if new_tenant inp
              then grant_defaults env c product_tms default_tms_features s2 else Inr s2
            | None \<Rightarrow> Inr s2) of
        Inl e \<Rightarrow> Inl e
      | Inr s3 \<Rightarrow>
     (case give_role env inp cid u s3 of
        Inl e \<Rightarrow> Inl e
      | Inr (v, s4) \<Rightarrow>
     (case give_extras env inp v s4 of
        Inl e \<Rightarrow> Inl e
      | Inr s5 \<Rightarrow> Inr (v, s5)))))))"

definition register :: "env \<Rightarrow> register_input \<Rightarrow> sys \<Rightarrow> (svc_error + user) \<times> sys" where
  "register env inp s =
     (case validate_password_strength (ri_password inp) of
        Inl e \<Rightarrow> (Inl e, s)
      | Inr _ \<Rightarrow>
          if ri_email inp = [] \<and> ri_phone inp = [] \<and> ri_username inp = []
          then (Inl (ErrMsg ''one of email, phone or username is required''), s)
          else if ri_unaffiliated inp \<and> (ri_parent inp \<noteq> None \<or> ri_company inp \<noteq> None)
          then (Inl (ErrValidation ''an unaffiliated registration cannot name a company''), s)
          else if new_tenant inp \<and> ri_role inp = []
          then (Inl (ErrMsg ''role is required when registering a new company''), s)
          else case assert_identifiers_free env inp s of
            Inl e \<Rightarrow> (Inl e, s)
          | Inr _ \<Rightarrow>
              (case hash_password env (ri_password inp) of
                 Inl e \<Rightarrow> (Inl e, s)
               | Inr h \<Rightarrow> transaction env (register_tx env inp h) s))"

section \<open>Changing accounts\<close>

text \<open>
  A request body is a list of named JSON values; which SQL value the driver binds for
  one in a column is the driver's, given as \<open>bind\<close> (None: the statement fails).
  A column that is not in the table fails the statement too.
\<close>

datatype jvalue = JNull | JBool bool | JNumber int | JString string

datatype column_value = SqlText "string option" | SqlBool bool

type_synonym column_binder = "string \<Rightarrow> jvalue \<Rightarrow> column_value option"

definition profile_columns :: "string list" where
  "profile_columns = [''address'', ''city_id'', ''photo_url'', ''language'', ''birth_date'',
     ''emergency_contact_name'', ''emergency_contact_phone'']"

definition set_profile :: "string \<Rightarrow> string option \<Rightarrow> (string \<times> string) list \<Rightarrow> (string \<times> string) list" where
  "set_profile col v pr = filter (\<lambda>x. fst x \<noteq> col) pr @ (case v of None \<Rightarrow> [] | Some t \<Rightarrow> [(col, t)])"

fun set_column :: "string \<Rightarrow> column_value \<Rightarrow> (user \<Rightarrow> user) option" where
  "set_column col (SqlText v) =
     (if col = ''full_name'' then Some (\<lambda>u. u\<lparr>us_full_name := v\<rparr>)
      else if col = ''phone'' then Some (\<lambda>u. u\<lparr>us_phone := v\<rparr>)
      else if col = ''email'' then Some (\<lambda>u. u\<lparr>us_email := v\<rparr>)
      else if col = ''username'' then Some (\<lambda>u. u\<lparr>us_username := v\<rparr>)
      else if col \<in> set profile_columns
      then Some (\<lambda>u. u\<lparr>us_profile := set_profile col v (us_profile u)\<rparr>)
      else None)"
| "set_column col (SqlBool b) =
     (if col = ''is_verified'' then Some (\<lambda>u. u\<lparr>us_verified := b\<rparr>)
      else if col = ''is_email_verified'' then Some (\<lambda>u. u\<lparr>us_email_verified := b\<rparr>)
      else if col = ''is_phone_verified'' then Some (\<lambda>u. u\<lparr>us_phone_verified := b\<rparr>)
      else None)"

fun set_columns :: "column_binder \<Rightarrow> (string \<times> jvalue) list \<Rightarrow> (user \<Rightarrow> user) option" where
  "set_columns bind [] = Some id"
| "set_columns bind ((col, v) # fs) =
     (case bind col v of
        None \<Rightarrow> None
      | Some cv \<Rightarrow>
          (case (set_column col cv, set_columns bind fs) of
             (Some f, Some g) \<Rightarrow> Some (\<lambda>u. g (f u))
           | _ \<Rightarrow> None))"

definition update_user_columns ::
  "env \<Rightarrow> column_binder \<Rightarrow> uuid \<Rightarrow> (string \<times> jvalue) list \<Rightarrow> sys \<Rightarrow> svc_error + sys" where
  "update_user_columns env bind i fs s =
     (case set_columns bind fs of
        None \<Rightarrow> Inl (ErrDB OpUpdateUser)
      | Some f \<Rightarrow> update_user_fields env i f s)"

definition profile_updatable :: "(string \<times> string) list" where
  "profile_updatable =
     [(''fullName'', ''full_name''), (''phone'', ''phone''), (''address'', ''address''),
      (''cityId'', ''city_id''), (''photoUrl'', ''photo_url''), (''language'', ''language''),
      (''birthDate'', ''birth_date''), (''emergencyContactName'', ''emergency_contact_name''),
      (''emergencyContactPhone'', ''emergency_contact_phone'')]"

definition merge_maps :: "(string \<times> string) list \<Rightarrow> (string \<times> string) list \<Rightarrow> (string \<times> string) list" where
  "merge_maps a b = filter (\<lambda>x. map_of b (fst x) = None) a @ b"

definition admin_updatable :: "(string \<times> string) list" where
  "admin_updatable = merge_maps profile_updatable
     [(''role'', ''role''), (''isVerified'', ''is_verified''), (''isEmailVerified'', ''is_email_verified''),
      (''isPhoneVerified'', ''is_phone_verified''), (''email'', ''email''), (''username'', ''username'')]"

fun project_allowed :: "(string \<times> jvalue) list \<Rightarrow> (string \<times> string) list \<Rightarrow> (string \<times> jvalue) list" where
  "project_allowed [] allowed = []"
| "project_allowed ((k, v) # body) allowed =
     (case map_of allowed k of
        None \<Rightarrow> project_allowed body allowed
      | Some col \<Rightarrow> (col, v) # project_allowed body allowed)"

definition update_profile ::
  "env \<Rightarrow> column_binder \<Rightarrow> uuid \<Rightarrow> (string \<times> jvalue) list \<Rightarrow> sys \<Rightarrow> svc_error + sys" where
  "update_profile env bind uid body s =
     (let fs = project_allowed body profile_updatable in
      if fs = [] then Inl (ErrMsg ''no updatable fields supplied'')
      else update_user_columns env bind uid fs s)"

definition user_audit :: "env \<Rightarrow> uuid \<Rightarrow> uuid \<Rightarrow> string \<Rightarrow> (string \<times> string) list \<Rightarrow> sys \<Rightarrow> sys" where
  "user_audit env actor target ev detail =
     write_audit env ((blank_audit env)\<lparr>au_user := Some target, au_actor := Some actor,
       au_event := ev, au_detail := detail\<rparr>)"

definition admin_update ::
  "env \<Rightarrow> column_binder \<Rightarrow> uuid \<Rightarrow> uuid \<Rightarrow> (string \<times> jvalue) list \<Rightarrow> sys \<Rightarrow> svc_error + sys" where
  "admin_update env bind actor target body s =
     (let fs = project_allowed body admin_updatable in
      if fs = [] then Inl (ErrMsg ''no updatable fields supplied'')
      else case update_user_columns env bind target fs s of
        Inl e \<Rightarrow> Inl e
      | Inr s1 \<Rightarrow> Inr (user_audit env actor target ''user.updated'' (map (\<lambda>f. (''field'', fst f)) fs) s1))"

definition role_of :: "env \<Rightarrow> sys \<Rightarrow> user \<Rightarrow> svc_error + role option" where
  "role_of env s u =
     (case (us_role u, us_company u) of
        (Some rid, Some cid) \<Rightarrow>
          (case find_role env s cid rid of Inl e \<Rightarrow> Inl e | Inr r \<Rightarrow> Inr (Some r))
      | _ \<Rightarrow> Inr None)"

fun assert_keys :: "product \<Rightarrow> string list \<Rightarrow> string list \<Rightarrow> svc_error + unit" where
  "assert_keys p held [] = Inr ()"
| "assert_keys p held (key # keys) =
     (case feature_for p key of (feature, known) \<Rightarrow>
        if \<not> known then Inl (ErrValidation (key @ '' is not a permission''))
        else if feature = [] then assert_keys p held keys
        else if feature \<notin> set held
        then Inl (ErrForbidden (''your company is not entitled to '' @ feature))
        else assert_keys p held keys)"

definition assert_grantable ::
  "env \<Rightarrow> sys \<Rightarrow> uuid \<Rightarrow> product \<Rightarrow> string list \<Rightarrow> svc_error + unit" where
  "assert_grantable env s cid p keys =
     (case active_for_company env s cid p of
        Inl e \<Rightarrow> Inl e
      | Inr held \<Rightarrow> assert_keys p held keys)"

definition company_grantable ::
  "env \<Rightarrow> sys \<Rightarrow> uuid \<Rightarrow> product \<Rightarrow> svc_error + permission_spec list" where
  "company_grantable env s cid p =
     (case active_for_company env s cid p of
        Inl e \<Rightarrow> Inl e
      | Inr held \<Rightarrow> Inr (grantable_from p held))"

definition same_company :: "user \<Rightarrow> user \<Rightarrow> bool" where
  "same_company a t = (us_company a \<noteq> None \<and> us_company t \<noteq> None \<and> us_company a = us_company t)"

text \<open>The revocation after a change, and the audit line after that.\<close>

definition end_sessions ::
  "env \<Rightarrow> uuid \<Rightarrow> uuid \<Rightarrow> string \<Rightarrow> (string \<times> string) list \<Rightarrow> sys \<Rightarrow> (svc_error + unit) \<times> sys" where
  "end_sessions env actor target ev detail s =
     (case revoke_all_for_user env target s of
        Inl e \<Rightarrow> (Inl e, s)
      | Inr (_, s1) \<Rightarrow> (Inr (), user_audit env actor target ev detail s1))"

definition permission_change :: string where "permission_change = ''permission.changed''"

definition holds_admin_role :: "env \<Rightarrow> sys \<Rightarrow> user \<Rightarrow> bool" where
  "holds_admin_role env s t =
     (case role_of env s t of Inr (Some r) \<Rightarrow> ro_grants_all r | _ \<Rightarrow> False)"

definition set_permission ::
  "env \<Rightarrow> uuid \<Rightarrow> uuid \<Rightarrow> product \<Rightarrow> string list \<Rightarrow> sys \<Rightarrow> (svc_error + unit) \<times> sys" where
  "set_permission env actor target p keys s =
     (case find_user_by_id env s actor of
        Inl e \<Rightarrow> (Inl e, s)
      | Inr a \<Rightarrow>
          (case find_user_by_id env s target of
             Inl e \<Rightarrow> (Inl e, s)
           | Inr t \<Rightarrow>
               if \<not> same_company a t then (Inl (ErrForbidden []), s)
               else if holds_admin_role env s t
               then (Inl (ErrMsg ''an administrator role already grants everything''), s)
               else case assert_grantable env s (the (us_company t)) p keys of
                 Inl e \<Rightarrow> (Inl e, s)
               | Inr _ \<Rightarrow>
                   (case grant_product_access env
                        \<lparr>ea_user = target, ea_product = p, ea_permissions = keys, ea_enabled = True,
                         ea_granted_by = Some actor, ea_note = None\<rparr> s of
                      Inl e \<Rightarrow> (Inl e, s)
                    | Inr s1 \<Rightarrow> end_sessions env actor target permission_change [] s1)))"

definition set_suspended :: "env \<Rightarrow> uuid \<Rightarrow> uuid \<Rightarrow> bool \<Rightarrow> sys \<Rightarrow> (svc_error + unit) \<times> sys" where
  "set_suspended env actor target b s =
     (case update_user_fields env target (\<lambda>u. u\<lparr>us_suspended := b\<rparr>) s of
        Inl e \<Rightarrow> (Inl e, s)
      | Inr s1 \<Rightarrow>
          if b then end_sessions env actor target ''user.suspended'' [] s1
          else (Inr (), user_audit env actor target ''user.unsuspended'' [] s1))"

definition delete_user :: "env \<Rightarrow> uuid \<Rightarrow> uuid \<Rightarrow> sys \<Rightarrow> (svc_error + unit) \<times> sys" where
  "delete_user env actor target s =
     (case revoke_all_for_user env target s of
        Inl e \<Rightarrow> (Inl e, s)
      | Inr (_, s1) \<Rightarrow>
          (case soft_delete_user env target s1 of
             Inl e \<Rightarrow> (Inl e, s1)
           | Inr s2 \<Rightarrow> (Inr (), user_audit env actor target ''user.deleted'' [] s2)))"

definition check_permission ::
  "env \<Rightarrow> sys \<Rightarrow> uuid \<Rightarrow> string \<Rightarrow> string \<Rightarrow> svc_error + bool" where
  "check_permission env s uid m action =
     (case find_user_by_id env s uid of
        Inl e \<Rightarrow> Inl e
      | Inr u \<Rightarrow>
          if us_suspended u then Inr False
          else if us_platform_staff u then Inr True
          else case build_access env s uid (us_company u) of
            Inl e \<Rightarrow> Inl e
          | Inr acc \<Rightarrow>
              Inr (has_permission
                \<lparr>user_id = uuid_string env uid,
                 company_id = (case us_company u of None \<Rightarrow> [] | Some c \<Rightarrow> uuid_string env c),
                 fms_tenant_id = 0, fms_user_id = 0, is_platform_staff = us_platform_staff u,
                 access = acc, single_device = False, token_id = []\<rparr>
                (service_product env) (m @ ''.'' @ action)))"

definition identifier_available :: "env \<Rightarrow> sys \<Rightarrow> string \<Rightarrow> string \<Rightarrow> svc_error + bool" where
  "identifier_available env s kind value0 =
     (let v = trim_space value0 in
      if v = [] then Inl (ErrMsg ''value is required'')
      else case (if kind = ''email'' then exists_by_email env (to_lower v) s
                 else if kind = ''username'' then exists_by_username env v s
                 else if kind = ''phone'' then exists_by_phone env v s
                 else Inl (ErrMsg ''unknown identifier kind'')) of
        Inl e \<Rightarrow> Inl e
      | Inr taken \<Rightarrow> Inr (\<not> taken))"

section \<open>Product access and roles\<close>

definition may_act_on :: "user \<Rightarrow> user \<Rightarrow> bool" where
  "may_act_on a t = (us_platform_staff a \<or> same_company a t)"

text \<open>The two accounts and the tenant check that the three access operations start with.\<close>

definition actor_and_target :: "env \<Rightarrow> uuid \<Rightarrow> uuid \<Rightarrow> sys \<Rightarrow> svc_error + (user \<times> user)" where
  "actor_and_target env actor target s =
     rbind (find_user_by_id env s actor) (\<lambda>a.
     rbind (find_user_by_id env s target) (\<lambda>t.
       if may_act_on a t then Inr (a, t) else Inl (ErrForbidden [])))"

definition access_detail :: "product \<Rightarrow> bool \<Rightarrow> (string \<times> string) list" where
  "access_detail p b = [(''product'', p), (''enabled'', if b then ''true'' else ''false'')]"

definition check_entitled ::
  "env \<Rightarrow> sys \<Rightarrow> user \<Rightarrow> product \<Rightarrow> string list \<Rightarrow> svc_error + unit" where
  "check_entitled env s t p keys =
     (case us_company t of
        None \<Rightarrow> Inr ()
      | Some cid \<Rightarrow> rbind (active_for_company env s cid p) (\<lambda>held.
          if held = [] then Inl (ErrForbidden ''your company holds no modules of this product'')
          else assert_grantable env s cid p keys))"

definition set_product_access ::
  "env \<Rightarrow> uuid \<Rightarrow> uuid \<Rightarrow> product \<Rightarrow> string list \<Rightarrow> bool \<Rightarrow> sys \<Rightarrow> (svc_error + unit) \<times> sys" where
  "set_product_access env actor target p keys enabled s =
     (if \<not> is_known_product p then (Inl (ErrValidation (p @ '' is not a product'')), s)
      else case actor_and_target env actor target s of
        Inl e \<Rightarrow> (Inl e, s)
      | Inr (a, t) \<Rightarrow>
          (case check_entitled env s t p keys of
             Inl e \<Rightarrow> (Inl e, s)
           | Inr _ \<Rightarrow>
               (case grant_product_access env
                    \<lparr>ea_user = target, ea_product = p, ea_permissions = keys, ea_enabled = enabled,
                     ea_granted_by = Some actor, ea_note = None\<rparr> s of
                  Inl e \<Rightarrow> (Inl e, s)
                | Inr s1 \<Rightarrow> end_sessions env actor target permission_change (access_detail p enabled) s1)))"

definition withdraw_product_access ::
  "env \<Rightarrow> uuid \<Rightarrow> uuid \<Rightarrow> product \<Rightarrow> sys \<Rightarrow> (svc_error + unit) \<times> sys" where
  "withdraw_product_access env actor target p s =
     (case actor_and_target env actor target s of
        Inl e \<Rightarrow> (Inl e, s)
      | Inr _ \<Rightarrow>
          (case revoke_product_access env target p s of
             Inl e \<Rightarrow> (Inl e, s)
           | Inr s1 \<Rightarrow> end_sessions env actor target permission_change (access_detail p False) s1))"

definition list_product_access ::
  "env \<Rightarrow> uuid \<Rightarrow> uuid \<Rightarrow> sys \<Rightarrow> svc_error + extra_access list" where
  "list_product_access env actor target s =
     rbind (actor_and_target env actor target s) (\<lambda>_.
       if db_down env OpLoadExtras then Inl (ErrDB OpLoadExtras)
       else Inr (sort_key ea_product (filter (\<lambda>e. ea_user e = target) (extras s))))"

definition assign_role :: "env \<Rightarrow> uuid \<Rightarrow> uuid \<Rightarrow> uuid \<Rightarrow> sys \<Rightarrow> (svc_error + unit) \<times> sys" where
  "assign_role env actor target rid s =
     (case find_user_by_id env s actor of
        Inl e \<Rightarrow> (Inl e, s)
      | Inr a \<Rightarrow>
          (case us_company a of
             None \<Rightarrow> (Inl (ErrMsg ''only a company may assign roles''), s)
           | Some ac \<Rightarrow>
               (case find_user_by_id env s target of
                  Inl e \<Rightarrow> (Inl e, s)
                | Inr t \<Rightarrow>
                    if \<not> us_platform_staff a \<and> us_company t \<noteq> Some ac then (Inl (ErrForbidden []), s)
                    else let owner = (case us_company t of None \<Rightarrow> ac | Some tc \<Rightarrow> tc) in
                      (case find_role env s owner rid of
                         Inl _ \<Rightarrow> (Inl (ErrMsg ''that role does not belong to this company''), s)
                       | Inr _ \<Rightarrow>
                           (case update_user_fields env target (\<lambda>u. u\<lparr>us_role := Some rid\<rparr>) s of
                              Inl e \<Rightarrow> (Inl e, s)
                            | Inr s1 \<Rightarrow> end_sessions env actor target permission_change
                                [(''roleId'', uuid_string env rid)] s1)))))"

definition grant_platform_staff :: "env \<Rightarrow> uuid \<Rightarrow> uuid \<Rightarrow> sys \<Rightarrow> svc_error + sys" where
  "grant_platform_staff env actor uid s =
     (case update_user_fields env uid (\<lambda>u. u\<lparr>us_platform_staff := True\<rparr>) s of
        Inl e \<Rightarrow> Inl e
      | Inr s1 \<Rightarrow> Inr (user_audit env actor uid ''platform_staff.granted''
          [(''reason'', ''created into the platform company by platform staff'')] s1))"

section \<open>Operations that end a person's access\<close>

text \<open>
  Access is embedded in tokens, so an operation that changes it owes two things: every
  session of the target is revoked, and a cutoff for the target is published.
  \<open>lockout\<close> adds that the account itself is gone or suspended.  What a refresh, a
  login or a validation does afterwards follows from these laws alone.
\<close>

locale access_change =
  fixes run :: "env \<Rightarrow> sys \<Rightarrow> (svc_error + 'r) \<times> sys" and target :: uuid
  assumes ended: "run env s = (Inr r, s') \<Longrightarrow> se \<in> set (sessions s') \<Longrightarrow> se_user se = target \<Longrightarrow> se_revoked se \<noteq> None"
    and announced: "run env s = (Inr r, s') \<Longrightarrow> announcer env \<Longrightarrow> \<not> db_down env OpPublish \<Longrightarrow>
      \<lparr>ev_kind = kind_user, ev_id = uuid_string env target, ev_at = now env\<rparr> \<in> set (published s')"
begin

lemma refresh_refused:
  assumes "run env s = (Inr r, s')"
  shows "fst (refresh env2 tok s') \<noteq> Inr pair \<or> tp_user pair \<noteq> target"
proof (rule ccontr)
  assume n: "\<not> ?thesis"
  then obtain s2 where "refresh env2 tok s' = (Inr pair, s2)" by (metis prod.collapse)
  then obtain se u where ru: "refresh_read env2 tok s' = Inr (se, u)" "refresh_rotate env2 se u s' = (Inr pair, s2)"
    by (rule refresh_Inr)
  have "se_user se = us_id u" "se \<in> set (sessions s')" "se_revoked se = None"
    using ru(1) by (auto simp: refresh_read_Inr session_active_def dest: sql_first_Some find_user_Inr)
  moreover have "us_id u = target" using refresh_rotate_Inr [OF ru(2)] n by auto
  ultimately show False using ended [OF assms] by auto
qed

lemma tokens_covered:
  assumes "run env s = (Inr r, s')" "announcer env" "\<not> db_down env OpPublish" "uuid_string env target \<noteq> []"
  shows "\<exists>e \<in> set (published s'). \<forall>sid cid iat. iat < now env \<longrightarrow> covers e sid (uuid_string env target) cid iat"
  using announced [OF assms(1-3)] assms(4) by (intro bexI) (auto simp: covers_def)

lemma nobody_active:
  assumes "run env s = (Inr r, s')" "se \<in> set (sessions s')" "se_user se = target"
  shows "\<not> session_active env2 se"
  using ended [OF assms] by (simp add: session_active_def)

end

locale lockout = access_change +
  assumes gone: "run env s = (Inr r, s') \<Longrightarrow> u \<in> set (users s') \<Longrightarrow> us_id u = target \<Longrightarrow> user_live u \<Longrightarrow> us_suspended u"
begin

lemma login_refused:
  assumes "run env s = (Inr r, s')"
  shows "fst (login env2 inp s') \<noteq> Inr pair \<or> tp_user pair \<noteq> target"
proof (rule ccontr)
  assume n: "\<not> ?thesis"
  then obtain s2 where "login env2 inp s' = (Inr pair, s2)" by (metis prod.collapse)
  from login_Inr [OF this] obtain u s1 s3 a where l:
    "find_by_identifier env2 s1 (trim_space (in_identifier inp)) = Inr u" "s1 = s'\<lparr>attempts := a\<rparr>"
    "\<not> us_suspended u" "issue_session env2 u inp s1 = (Inr pair, s3)" by blast
  have "u \<in> set (users s')" "user_live u"
    using l(1,2) by (auto simp: find_by_identifier_def Let_def split: if_splits option.splits dest!: sql_first_Some)
  moreover have "us_id u = target" using issue_session_Inr [OF l(4)] n by auto
  ultimately show False using gone [OF assms] l(3) by blast
qed

lemma validate_refused:
  assumes "run env s = (Inr r, s')" "validate_token env2 tok s' = (Inr (p, u), s2)" "u \<in> set (users s')"
  shows "us_id u \<noteq> target"
proof
  assume t: "us_id u = target"
  have "user_live u \<and> \<not> us_suspended u"
    using assms(2)
    by (auto simp: validate_token_def validate_api_key_def validate_machine_key_def Let_def blank_user_def
        user_live_def find_user_by_id_def split: if_splits sum.splits option.splits dest!: sql_first_Some)
  then show False using gone [OF assms(1,3) t] by blast
qed

end

lemma sql_update_row:
  assumes "v \<in> set (sql_update hit f t)"
  obtains w where "w \<in> set t" "v = (if hit w then f w else w)"
  using assms unfolding set_sql_update by blast

lemma end_sessions_Inr:
  assumes "end_sessions env actor target ev d s = (Inr r, s')"
  shows "\<not> db_down env OpRevokeAll \<and>
     s' = user_audit env actor target ev d
       (announce env \<lparr>ev_kind = kind_user, ev_id = uuid_string env target, ev_at = now env\<rparr>
         (mark_revoked env (\<lambda>se. se_user se = target) s))"
  using assms by (auto simp: end_sessions_def revoke_all_Inr split: sum.splits)

lemma user_audit_keeps [simp]:
  "users (user_audit env a t e d s) = users s" "sessions (user_audit env a t e d s) = sessions s"
  "roles (user_audit env a t e d s) = roles s" "companies (user_audit env a t e d s) = companies s"
  "extras (user_audit env a t e d s) = extras s" "published (user_audit env a t e d s) = published s"
  "modules (user_audit env a t e d s) = modules s" "settings (user_audit env a t e d s) = settings s"
  by (simp_all add: user_audit_def)

lemma end_sessions_keeps:
  assumes "end_sessions env actor target ev d s = (Inr r, s')"
  shows "users s' = users s" "roles s' = roles s" "companies s' = companies s" "extras s' = extras s"
    "modules s' = modules s" "settings s' = settings s"
  using end_sessions_Inr [OF assms] by simp_all

lemma end_sessions_ends:
  assumes "end_sessions env actor target ev d s = (Inr r, s')"
  shows "se \<in> set (sessions s') \<Longrightarrow> se_user se = target \<Longrightarrow> se_revoked se \<noteq> None"
    and "announcer env \<Longrightarrow> \<not> db_down env OpPublish \<Longrightarrow>
      \<lparr>ev_kind = kind_user, ev_id = uuid_string env target, ev_at = now env\<rparr> \<in> set (published s')"
  using end_sessions_Inr [OF assms] mark_revoked_all [of se env "\<lambda>se. se_user se = target"]
  by (auto simp: published_announce)

lemma set_suspended_Inr:
  assumes "set_suspended env actor target True s = (Inr r, s')"
  obtains s1 where "update_user_fields env target (\<lambda>u. u\<lparr>us_suspended := True\<rparr>) s = Inr s1"
    "end_sessions env actor target ''user.suspended'' [] s1 = (Inr r, s')"
  using assms by (auto simp: set_suspended_def split: sum.splits)

lemma delete_user_Inr:
  assumes "delete_user env actor target s = (Inr r, s')"
  obtains s2 where "soft_delete_user env target
      (announce env \<lparr>ev_kind = kind_user, ev_id = uuid_string env target, ev_at = now env\<rparr>
         (mark_revoked env (\<lambda>se. se_user se = target) s)) = Inr s2"
    "s' = user_audit env actor target ''user.deleted'' [] s2"
  using assms by (auto simp: delete_user_def revoke_all_for_user_def split: sum.splits if_splits)

lemma soft_delete_Inr:
  "soft_delete_user env i s = Inr s' \<Longrightarrow>
     s' = s\<lparr>users := sql_update (\<lambda>u. us_id u = i \<and> user_live u) (\<lambda>u. u\<lparr>us_deleted := Some (now env)\<rparr>) (users s)\<rparr>"
  by (auto simp: soft_delete_user_def Let_def split: if_splits)

interpretation suspension: lockout "\<lambda>env. set_suspended env actor target True" target for actor target
proof
  fix env s r s' se u
  assume run: "set_suspended env actor target True s = (Inr r, s')"
  then obtain s1 where c: "update_user_fields env target (\<lambda>u. u\<lparr>us_suspended := True\<rparr>) s = Inr s1"
    "end_sessions env actor target ''user.suspended'' [] s1 = (Inr r, s')" by (rule set_suspended_Inr)
  show "se \<in> set (sessions s') \<Longrightarrow> se_user se = target \<Longrightarrow> se_revoked se \<noteq> None"
    using end_sessions_ends(1) [OF c(2)] .
  show "announcer env \<Longrightarrow> \<not> db_down env OpPublish \<Longrightarrow>
      \<lparr>ev_kind = kind_user, ev_id = uuid_string env target, ev_at = now env\<rparr> \<in> set (published s')"
    using end_sessions_ends(2) [OF c(2)] .
  show "u \<in> set (users s') \<Longrightarrow> us_id u = target \<Longrightarrow> user_live u \<Longrightarrow> us_suspended u"
  proof -
    assume u: "u \<in> set (users s')" "us_id u = target" "user_live u"
    have "u \<in> set (sql_update (\<lambda>u. us_id u = target \<and> user_live u) (\<lambda>u. u\<lparr>us_suspended := True\<rparr>) (users s))"
      using u(1) end_sessions_keeps(1) [OF c(2)] update_user_Inr [OF c(1)] by simp
    then obtain w where "u = (if us_id w = target \<and> user_live w then w\<lparr>us_suspended := True\<rparr> else w)"
      by (rule sql_update_row)
    then show "us_suspended u" using u(2,3) by (simp split: if_splits)
  qed
qed

interpretation deletion: lockout "\<lambda>env. delete_user env actor target" target for actor target
proof
  fix env s r s' se u
  assume run: "delete_user env actor target s = (Inr r, s')"
  then obtain s2 where c: "soft_delete_user env target
      (announce env \<lparr>ev_kind = kind_user, ev_id = uuid_string env target, ev_at = now env\<rparr>
         (mark_revoked env (\<lambda>se. se_user se = target) s)) = Inr s2"
    "s' = user_audit env actor target ''user.deleted'' [] s2" by (rule delete_user_Inr)
  show "se \<in> set (sessions s') \<Longrightarrow> se_user se = target \<Longrightarrow> se_revoked se \<noteq> None"
    using mark_revoked_all [of se env "\<lambda>se. se_user se = target"] by (simp add: c(2) soft_delete_Inr [OF c(1)])
  show "announcer env \<Longrightarrow> \<not> db_down env OpPublish \<Longrightarrow>
      \<lparr>ev_kind = kind_user, ev_id = uuid_string env target, ev_at = now env\<rparr> \<in> set (published s')"
    by (simp add: c(2) soft_delete_Inr [OF c(1)] published_announce)
  show "u \<in> set (users s') \<Longrightarrow> us_id u = target \<Longrightarrow> user_live u \<Longrightarrow> us_suspended u"
  proof -
    assume u: "u \<in> set (users s')" "us_id u = target" "user_live u"
    have "u \<in> set (sql_update (\<lambda>u. us_id u = target \<and> user_live u) (\<lambda>u. u\<lparr>us_deleted := Some (now env)\<rparr>) (users s))"
      using u(1) by (simp add: c(2) soft_delete_Inr [OF c(1)])
    then obtain w where "u = (if us_id w = target \<and> user_live w then w\<lparr>us_deleted := Some (now env)\<rparr> else w)"
      by (rule sql_update_row)
    then show "us_suspended u" using u(2,3) by (simp add: user_live_def split: if_splits)
  qed
qed

text \<open>Every operation that changes what a person may do, on the same contract.\<close>

lemma set_permission_Inr:
  assumes "set_permission env actor target p keys s = (Inr r, s')"
  obtains a t s1 where "find_user_by_id env s actor = Inr a" "find_user_by_id env s target = Inr t"
    "same_company a t" "\<not> holds_admin_role env s t"
    "assert_grantable env s (the (us_company t)) p keys = Inr ()"
    "grant_product_access env \<lparr>ea_user = target, ea_product = p, ea_permissions = keys, ea_enabled = True,
         ea_granted_by = Some actor, ea_note = None\<rparr> s = Inr s1"
    "end_sessions env actor target permission_change [] s1 = (Inr r, s')"
  using assms unfolding set_permission_def
  by (auto split: sum.splits if_splits)

lemma set_product_access_Inr:
  assumes "set_product_access env actor target p keys b s = (Inr r, s')"
  obtains a t s1 where "actor_and_target env actor target s = Inr (a, t)" "is_known_product p"
    "check_entitled env s t p keys = Inr ()"
    "grant_product_access env \<lparr>ea_user = target, ea_product = p, ea_permissions = keys, ea_enabled = b,
         ea_granted_by = Some actor, ea_note = None\<rparr> s = Inr s1"
    "end_sessions env actor target permission_change (access_detail p b) s1 = (Inr r, s')"
  using assms unfolding set_product_access_def by (auto split: sum.splits if_splits prod.splits)

lemma withdraw_Inr:
  assumes "withdraw_product_access env actor target p s = (Inr r, s')"
  obtains a t s1 where "actor_and_target env actor target s = Inr (a, t)"
    "revoke_product_access env target p s = Inr s1"
    "end_sessions env actor target permission_change (access_detail p False) s1 = (Inr r, s')"
  using assms unfolding withdraw_product_access_def by (auto split: sum.splits prod.splits)

lemma assign_role_Inr:
  assumes "assign_role env actor target rid s = (Inr r, s')"
  obtains a t ac ro s1 where "find_user_by_id env s actor = Inr a" "find_user_by_id env s target = Inr t"
    "us_company a = Some ac" "us_platform_staff a \<or> us_company t = Some ac"
    "find_role env s (case us_company t of None \<Rightarrow> ac | Some tc \<Rightarrow> tc) rid = Inr ro"
    "update_user_fields env target (\<lambda>u. u\<lparr>us_role := Some rid\<rparr>) s = Inr s1"
    "end_sessions env actor target permission_change [(''roleId'', uuid_string env rid)] s1 = (Inr r, s')"
  using assms unfolding assign_role_def Let_def by (auto split: sum.splits if_splits option.splits)

interpretation permission_edit: access_change "\<lambda>env. set_permission env actor target p keys" target
  for actor target p keys
  by unfold_locales (metis set_permission_Inr end_sessions_ends(1), metis set_permission_Inr end_sessions_ends(2))

interpretation access_edit: access_change "\<lambda>env. set_product_access env actor target p keys b" target
  for actor target p keys b
  by unfold_locales (metis set_product_access_Inr end_sessions_ends(1), metis set_product_access_Inr end_sessions_ends(2))

interpretation access_withdrawal: access_change "\<lambda>env. withdraw_product_access env actor target p" target
  for actor target p
  by unfold_locales (metis withdraw_Inr end_sessions_ends(1), metis withdraw_Inr end_sessions_ends(2))

interpretation role_change: access_change "\<lambda>env. assign_role env actor target rid" target
  for actor target rid
  by unfold_locales (metis assign_role_Inr end_sessions_ends(1), metis assign_role_Inr end_sessions_ends(2))

interpretation logout_everywhere: access_change "\<lambda>env. logout_all env target" target for target
proof
  fix env s r s' se
  assume run: "logout_all env target s = (Inr r, s')"
  then have s': "sessions s' = sessions (mark_revoked env (\<lambda>se. se_user se = target) s)"
    "published s' = published (announce env \<lparr>ev_kind = kind_user, ev_id = uuid_string env target, ev_at = now env\<rparr>
       (mark_revoked env (\<lambda>se. se_user se = target) s))"
    by (auto simp: logout_all_def revoke_all_Inr split: sum.splits)
  show "se \<in> set (sessions s') \<Longrightarrow> se_user se = target \<Longrightarrow> se_revoked se \<noteq> None"
    using mark_revoked_all [of se env "\<lambda>se. se_user se = target"] by (simp add: s')
  show "announcer env \<Longrightarrow> \<not> db_down env OpPublish \<Longrightarrow>
      \<lparr>ev_kind = kind_user, ev_id = uuid_string env target, ev_at = now env\<rparr> \<in> set (published s')"
    by (simp add: s'(2) published_announce)
qed

section \<open>Properties: access that ends, access that changes\<close>

text \<open>
  C6. A suspension takes hold at once and everywhere: when it returns, no login and no
  refresh, with whatever clock and configuration, yields tokens of the account, no token
  or key validates to it, and a cutoff was published that covers every access token it
  was issued before.
\<close>
theorem suspension_locks_out:
  assumes "set_suspended env actor target True s = (Inr (), s')" "announcer env"
    "\<not> db_down env OpPublish" "uuid_string env target \<noteq> []"
  shows "(\<forall>env2 inp pair s2. login env2 inp s' = (Inr pair, s2) \<longrightarrow> tp_user pair \<noteq> target) \<and>
     (\<forall>env2 tok pair s2. refresh env2 tok s' = (Inr pair, s2) \<longrightarrow> tp_user pair \<noteq> target) \<and>
     (\<forall>env2 tok p u s2. validate_token env2 tok s' = (Inr (p, u), s2) \<and> u \<in> set (users s') \<longrightarrow> us_id u \<noteq> target) \<and>
     (\<exists>e \<in> set (published s'). \<forall>sid cid iat. iat < now env \<longrightarrow> covers e sid (uuid_string env target) cid iat)"
  using suspension.login_refused [OF assms(1)] suspension.refresh_refused [OF assms(1)]
    suspension.validate_refused [OF assms(1)] suspension.tokens_covered [OF assms]
  by (metis fst_conv)

theorem suspension_locks_out_witness:
  "\<exists>e \<in> set (published (snd (set_suspended demo_env 7 2 True demo_logged_in))).
     covers e [] (uuid_string demo_env 2) [] 0"
proof -
  have "fst (set_suspended demo_env 7 2 True demo_logged_in) = Inr ()" by code_simp
  then have run: "set_suspended demo_env 7 2 True demo_logged_in = (Inr (), snd (set_suspended demo_env 7 2 True demo_logged_in))"
    by (metis prod.collapse)
  have "uuid_string demo_env 2 \<noteq> []" by (simp add: demo_env_def)
  from suspension_locks_out [OF run demo_up(2,1) this] demo_past show ?thesis by blast
qed

text \<open>
  A deleted account is gone for every door: login, refresh, validation, and the
  tokens it still holds are covered by a published cutoff.
\<close>
theorem deletion_locks_out:
  assumes "delete_user env actor target s = (Inr (), s')" "announcer env"
    "\<not> db_down env OpPublish" "uuid_string env target \<noteq> []"
  shows "(\<forall>env2 inp pair s2. login env2 inp s' = (Inr pair, s2) \<longrightarrow> tp_user pair \<noteq> target) \<and>
     (\<forall>env2 tok pair s2. refresh env2 tok s' = (Inr pair, s2) \<longrightarrow> tp_user pair \<noteq> target) \<and>
     (\<forall>env2 tok p u s2. validate_token env2 tok s' = (Inr (p, u), s2) \<and> u \<in> set (users s') \<longrightarrow> us_id u \<noteq> target) \<and>
     (\<exists>e \<in> set (published s'). \<forall>sid cid iat. iat < now env \<longrightarrow> covers e sid (uuid_string env target) cid iat)"
  using deletion.login_refused [OF assms(1)] deletion.refresh_refused [OF assms(1)]
    deletion.validate_refused [OF assms(1)] deletion.tokens_covered [OF assms]
  by (metis fst_conv)

theorem deletion_locks_out_witness:
  "\<exists>e \<in> set (published (snd (delete_user demo_env 7 2 demo_logged_in))).
     covers e [] (uuid_string demo_env 2) [] 0"
proof -
  have "fst (delete_user demo_env 7 2 demo_logged_in) = Inr ()" by code_simp
  then have run: "delete_user demo_env 7 2 demo_logged_in = (Inr (), snd (delete_user demo_env 7 2 demo_logged_in))"
    by (metis prod.collapse)
  have "uuid_string demo_env 2 \<noteq> []" by (simp add: demo_env_def)
  from deletion_locks_out [OF run demo_up(2,1) this] demo_past show ?thesis by blast
qed

text \<open>
  The gRPC permission check answers what the token would: for an account in good
  standing it equals the permission check on the principal a token minted now carries.
\<close>
theorem check_permission_matches_token:
  assumes "find_user_by_id env s uid = Inr u" "\<not> us_suspended u"
    "build_access env s uid (us_company u) = Inr acc"
  shows "check_permission env s uid m a =
    Inr (has_permission (token_principal env s u tid single) (service_product env) (m @ ''.'' @ a))"
proof -
  have "us_id u = uid" using find_user_Inr [OF assms(1)] by simp
  then show ?thesis
    using assms
    by (cases "us_platform_staff u") (simp_all add: check_permission_def token_principal_def has_permission_def)
qed

theorem check_permission_matches_token_witness:
  "check_permission demo_env demo_tenant 2 ''order'' ''read'' =
     Inr (has_permission (token_principal demo_env demo_tenant ((blank_user 2 (Some 5))\<lparr>us_role := Some 3\<rparr>) 11 False)
        product_tms ''order.read'')"
proof -
  have u: "find_user_by_id demo_env demo_tenant 2 = Inr ((blank_user 2 (Some 5))\<lparr>us_role := Some 3\<rparr>)"
    by (simp add: find_user_by_id_def demo_tenant_def sql_first_def user_live_def blank_user_def)
  have b: "build_access demo_env demo_tenant 2 (us_company ((blank_user 2 (Some 5))\<lparr>us_role := Some 3\<rparr>)) = Inr demo_access"
    using demo_build by (simp add: blank_user_def)
  have "\<not> us_suspended ((blank_user 2 (Some 5))\<lparr>us_role := Some 3\<rparr>)" by (simp add: blank_user_def)
  from check_permission_matches_token [OF u this b, of "''order''" "''read''" 11 False] show ?thesis
    by (simp add: demo_env_def)
qed

lemma assert_keys_Inr:
  "assert_keys p held keys = Inr () \<longleftrightarrow>
     (\<forall>key \<in> set keys. \<exists>f. feature_for p key = (f, True) \<and> f \<in> set held)"
proof (induction keys)
  case (Cons key keys)
  then show ?case
    using feature_for_gated [of p key] by (auto split: prod.splits)
qed simp

lemma grant_access_Inr:
  "grant_product_access env a s = Inr s' \<Longrightarrow>
     s' = s\<lparr>extras := sql_upsert (\<lambda>e. ea_user e = ea_user a \<and> ea_product e = ea_product a)
             (\<lambda>e. e\<lparr>ea_permissions := ea_permissions a, ea_enabled := ea_enabled a,
                    ea_granted_by := ea_granted_by a, ea_note := ea_note a\<rparr>) a (extras s)\<rparr>"
  by (auto simp: grant_product_access_def split: if_splits)

lemma upsert_elsewhere:
  assumes "\<And>r. conflict r \<Longrightarrow> \<not> q r \<and> \<not> q (f r)" "\<not> q k"
  shows "filter q (sql_upsert conflict f k t) = filter q t"
proof -
  have "filter q (sql_update conflict f t) = filter q t"
    using assms(1) by (induction t) (auto simp: sql_update_def)
  then show ?thesis using assms(2) by (simp add: sql_upsert_def)
qed

lemma upsert_hits:
  assumes "\<And>r. conflict r \<Longrightarrow> P (f r)" "P k"
  shows "list_ex P (sql_upsert conflict f k t)"
proof (cases "list_ex conflict t")
  case True
  then obtain r where "r \<in> set t" "conflict r" by (auto simp: list_ex_iff)
  then have "f r \<in> set (sql_update conflict f t)" unfolding set_sql_update by (intro image_eqI [of _ _ r]) simp_all
  then show ?thesis using True assms(1) [OF \<open>conflict r\<close>] by (auto simp: sql_upsert_def list_ex_iff)
qed (use assms(2) in \<open>simp add: sql_upsert_def\<close>)

text \<open>
  C23. Permissions are edited inside one company and inside what it bought: a change that
  goes through was made by a colleague, on a person without an administrator role, every
  key exists and is gated by a module the company holds, and nothing changes but that
  person's row for that product.
\<close>
theorem permission_edit_stays_inside:
  assumes "set_permission env actor target p keys s = (Inr (), s')"
  shows "(\<exists>a \<in> set (users s). \<exists>t \<in> set (users s). \<exists>c held. us_id a = actor \<and> us_id t = target \<and>
       us_company a = Some c \<and> us_company t = Some c \<and> \<not> holds_admin_role env s t \<and>
       active_for_company env s c p = Inr held \<and>
       (\<forall>key \<in> set keys. \<exists>f. feature_for p key = (f, True) \<and> f \<in> set held)) \<and>
     filter (\<lambda>e. \<not> (ea_user e = target \<and> ea_product e = p)) (extras s') =
     filter (\<lambda>e. \<not> (ea_user e = target \<and> ea_product e = p)) (extras s) \<and>
     users s' = users s \<and> roles s' = roles s \<and> companies s' = companies s \<and>
     modules s' = modules s \<and> settings s' = settings s"
proof -
  obtain a t s1 where c: "find_user_by_id env s actor = Inr a" "find_user_by_id env s target = Inr t"
    "same_company a t" "\<not> holds_admin_role env s t"
    "assert_grantable env s (the (us_company t)) p keys = Inr ()"
    "grant_product_access env \<lparr>ea_user = target, ea_product = p, ea_permissions = keys, ea_enabled = True,
         ea_granted_by = Some actor, ea_note = None\<rparr> s = Inr s1"
    "end_sessions env actor target permission_change [] s1 = (Inr (), s')"
    using set_permission_Inr [OF assms] .
  obtain co where co: "us_company a = Some co" "us_company t = Some co"
    using c(3) by (auto simp: same_company_def)
  obtain held where "active_for_company env s co p = Inr held" "assert_keys p held keys = Inr ()"
    using c(5) by (auto simp: assert_grantable_def co split: sum.splits)
  then have "\<exists>a \<in> set (users s). \<exists>t \<in> set (users s). \<exists>c held. us_id a = actor \<and> us_id t = target \<and>
       us_company a = Some c \<and> us_company t = Some c \<and> \<not> holds_admin_role env s t \<and>
       active_for_company env s c p = Inr held \<and>
       (\<forall>key \<in> set keys. \<exists>f. feature_for p key = (f, True) \<and> f \<in> set held)"
    using find_user_Inr [OF c(1)] find_user_Inr [OF c(2)] c(4) co unfolding assert_keys_Inr by blast
  moreover have "filter (\<lambda>e. \<not> (ea_user e = target \<and> ea_product e = p)) (extras s') =
     filter (\<lambda>e. \<not> (ea_user e = target \<and> ea_product e = p)) (extras s)"
    unfolding end_sessions_keeps(4) [OF c(7)] grant_access_Inr [OF c(6)]
    by (simp, rule upsert_elsewhere) auto
  ultimately show ?thesis
    using end_sessions_keeps [OF c(7)] by (simp add: grant_access_Inr [OF c(6)])
qed

definition demo_colleague :: user where
  "demo_colleague = (blank_user 7 (Some 5))\<lparr>us_username := Some ''sari'', us_role := Some 3\<rparr>"

definition demo_office :: sys where
  "demo_office = demo_tenant\<lparr>users := [budi, demo_colleague]\<rparr>"

lemma demo_edit: "set_permission demo_env 7 2 product_tms [''order.create''] demo_office =
    (Inr (), snd (set_permission demo_env 7 2 product_tms [''order.create''] demo_office))"
proof -
  have "fst (set_permission demo_env 7 2 product_tms [''order.create''] demo_office) = Inr ()" by code_simp
  then show ?thesis by (metis prod.collapse)
qed

theorem permission_edit_stays_inside_witness:
  "users (snd (set_permission demo_env 7 2 product_tms [''order.create''] demo_office)) = users demo_office"
  using permission_edit_stays_inside [OF demo_edit] by simp

text \<open>
  C8. What the permission editor grants, the next token carries: after a change that went
  through, the access built for the person permits every key that was granted.
\<close>
theorem granted_permissions_work:
  assumes "set_permission env actor target p keys s = (Inr (), s')" "modules_keyed s"
    "find_user_by_id env s target = Inr t" "build_access env s' target (us_company t) = Inr acc"
    "snd (load_role s target) = False" "p \<noteq> product_shared" "key \<in> set keys" "access pr = acc"
  shows "has_permission pr p key"
proof -
  obtain a t' s1 where c: "find_user_by_id env s target = Inr t'" "same_company a t'"
    "assert_grantable env s (the (us_company t')) p keys = Inr ()"
    "grant_product_access env \<lparr>ea_user = target, ea_product = p, ea_permissions = keys, ea_enabled = True,
         ea_granted_by = Some actor, ea_note = None\<rparr> s = Inr s1"
    "end_sessions env actor target permission_change [] s1 = (Inr (), s')"
    using set_permission_Inr [OF assms(1)] .
  have t: "t' = t" using c(1) assms(3) by simp
  obtain cid where cid: "us_company t = Some cid" using c(2) by (auto simp: same_company_def t)
  note keep = end_sessions_keeps [OF c(5)]
  have same: "modules s' = modules s" "settings s' = settings s" "users s' = users s" "roles s' = roles s"
    using keep by (simp_all add: grant_access_Inr [OF c(4)])
  have keyed: "modules_keyed s'" using assms(2) same by (simp add: modules_keyed_def)
  have role: "load_role s' target = load_role s target" unfolding load_role_def same ..
  obtain held fm f where f: "entitlement_for env s cid = Inr fm"
      "held = sort (features_at fm p @ features_at fm product_shared)"
      "feature_for p key = (f, True)" "f \<in> set held"
    using c(3) assms(7) unfolding assert_grantable_def t cid
    by (auto simp: assert_keys_Inr active_for_company_def split: sum.splits)
  have held: "module_held env s' cid p f \<or> module_held env s' cid product_shared f"
    using f(4) features_at_held [OF assms(2) f(1)] module_held_cong [OF same(1,2)] by (auto simp: f(2))
  have "list_ex (\<lambda>e. ea_user e = target \<and> ea_enabled e \<and> ea_product e = p \<and> key \<in> set (ea_permissions e)) (extras s')"
    unfolding keep(4) grant_access_Inr [OF c(4)] using assms(7)
    by simp (rule upsert_hits; simp)
  then have "key_granted s' target p key" by (simp add: key_granted_def)
  then obtain b where "acc p = Some b" "pa_grants_all b \<or> key \<in> set (pa_permissions b)" "f \<in> set (pa_features b)"
    using build_access_tenant_has [OF keyed assms(4) [unfolded cid] _ assms(6), of key f] held role assms(5)
    by auto
  then show ?thesis
    using f(3) assms(8) by (cases "is_platform_staff pr") (auto simp: has_permission_tenant)
qed

theorem granted_permissions_work_witness:
  "\<exists>acc. build_access demo_env (snd (set_permission demo_env 7 2 product_tms [''order.create''] demo_office)) 2 (Some 5) = Inr acc \<and>
     has_permission (clerk\<lparr>access := acc\<rparr>) product_tms ''order.create''"
proof -
  let ?s = "snd (set_permission demo_env 7 2 product_tms [''order.create''] demo_office)"
  have "is_ok (build_access demo_env ?s 2 (Some 5))" by code_simp
  then obtain acc where acc: "build_access demo_env ?s 2 (Some 5) = Inr acc" by (auto simp: is_ok_iff)
  have k: "modules_keyed demo_office" using demo_keyed by (simp add: demo_office_def modules_keyed_def)
  have u: "find_user_by_id demo_env demo_office 2 = Inr budi"
    by (simp add: find_user_by_id_def demo_office_def sql_first_def user_live_def budi_def blank_user_def)
  have c: "us_company budi = Some 5" by (simp add: budi_def blank_user_def)
  have r: "snd (load_role demo_office 2) = False" by code_simp
  have n: "product_tms \<noteq> product_shared" by (simp add: product_tms_def product_shared_def)
  show ?thesis
    using granted_permissions_work [OF demo_edit k u, unfolded c, OF acc r n, of "''order.create''" "clerk\<lparr>access := acc\<rparr>"] acc
    by (simp add: clerk_def)
qed

section \<open>Properties: registration\<close>

text \<open>
  Version-4 UUIDs are taken as fresh: the identifiers still to be drawn are distinct and
  name no row yet.
\<close>

definition fresh_ids :: "env \<Rightarrow> sys \<Rightarrow> bool" where
  "fresh_ids env s \<longleftrightarrow> inj (gen_uuid env) \<and>
     (\<forall>n \<ge> draws s. gen_uuid env n \<notin> us_id ` set (users s) \<union> co_id ` set (companies s) \<union>
        cm_company ` set (modules s) \<union> ps_company ` set (settings s) \<union> ro_company ` set (roles s))"

lemma fresh_ids_not:
  assumes "fresh_ids env s" "n \<ge> draws s"
  shows "w \<in> set (users s) \<Longrightarrow> us_id w \<noteq> gen_uuid env n"
    "c \<in> set (companies s) \<Longrightarrow> co_id c \<noteq> gen_uuid env n"
    "m \<in> set (modules s) \<Longrightarrow> cm_company m \<noteq> gen_uuid env n"
    "p \<in> set (settings s) \<Longrightarrow> ps_company p \<noteq> gen_uuid env n"
proof -
  have n: "gen_uuid env n \<notin> us_id ` set (users s) \<union> co_id ` set (companies s) \<union>
        cm_company ` set (modules s) \<union> ps_company ` set (settings s) \<union> ro_company ` set (roles s)"
    using assms unfolding fresh_ids_def by blast
  show "w \<in> set (users s) \<Longrightarrow> us_id w \<noteq> gen_uuid env n"
    "c \<in> set (companies s) \<Longrightarrow> co_id c \<noteq> gen_uuid env n"
    "m \<in> set (modules s) \<Longrightarrow> cm_company m \<noteq> gen_uuid env n"
    "p \<in> set (settings s) \<Longrightarrow> ps_company p \<noteq> gen_uuid env n"
    using n by (auto simp: image_iff)
qed

text \<open>Every account's role is one of its own company's.\<close>

definition roles_at_home :: "sys \<Rightarrow> bool" where
  "roles_at_home s \<longleftrightarrow> (\<forall>u \<in> set (users s). \<forall>c rid. us_company u = Some c \<and> us_role u = Some rid \<longrightarrow>
     (\<exists>r \<in> set (roles s). ro_id r = rid \<and> ro_company r = c))"

definition seats_used :: "sys \<Rightarrow> uuid \<Rightarrow> nat" where
  "seats_used s c = sql_count (\<lambda>u. us_company u = Some c \<and> user_live u) (users s)"

definition within_seats :: "sys \<Rightarrow> bool" where
  "within_seats s \<longleftrightarrow> (\<forall>c. seat_limit s c > 0 \<longrightarrow> int (seats_used s c) \<le> seat_limit s c)"

lemma register_tx_Inr:
  assumes "register_tx env inp h s = Inr (v, s')"
  obtains cid s1 u s2 s3 s4 where "found_company env inp s = Inr (cid, s1)"
    "(case cid of Some c \<Rightarrow> if new_tenant inp then Inr () else check_seats env c s1 | None \<Rightarrow> Inr ()) = Inr ()"
    "create_account env (registered_user inp cid h) s1 = Inr (u, s2)"
    "(case cid of Some c \<Rightarrow> if new_tenant inp
        then grant_defaults env c product_tms default_tms_features s2 else Inr s2 | None \<Rightarrow> Inr s2) = Inr s3"
    "give_role env inp cid u s3 = Inr (v, s4)" "give_extras env inp v s4 = Inr s'"
  using assms unfolding register_tx_def
  by (auto split: sum.splits prod.splits)

lemma register_cases:
  assumes "register env inp s = (r, s')"
  obtains (refused) e where "r = Inl e" "s' = s"
  | (ok) h v where "r = Inr v" "bcrypt_hash env (ri_password inp) = Some h" "register_tx env inp h s = Inr (v, s')"
    "assert_identifiers_free env inp s = Inr ()"
proof (cases r)
  case (Inl e)
  then show ?thesis
    using assms refused by (auto simp: register_def transaction_def split: sum.splits if_splits)
next
  case (Inr v)
  then show ?thesis
    using assms ok by (auto simp: register_def hash_password_def transaction_def split: sum.splits if_splits option.splits)
qed

lemma create_company_Inr:
  "create_company env False c0 s = Inr (c, s') \<Longrightarrow> c = (before_create c0)\<lparr>co_id := gen_uuid env (draws s)\<rparr> \<and>
     s' = s\<lparr>companies := companies s @ [c], draws := Suc (draws s)\<rparr>"
  by (auto simp: create_company_def Let_def split: if_splits)

lemma create_account_Inr:
  "create_account env u0 s = Inr (u, s') \<Longrightarrow>
     u = u0\<lparr>us_id := gen_uuid env (draws s), us_created := now env\<rparr> \<and>
     s' = s\<lparr>users := users s @ [u], draws := Suc (draws s)\<rparr> \<and> \<not> list_ex (users_clash u0) (users s)"
  by (auto simp: create_account_def create_user_def Let_def split: if_splits sum.splits)

lemma found_company_Inr:
  assumes "found_company env inp s = Inr (cid, s1)"
  shows "if new_tenant inp
    then cid = Some (gen_uuid env (draws s)) \<and> draws s1 = Suc (draws s) \<and>
         s1 = s\<lparr>companies := companies s @ [(before_create (founded_company inp))\<lparr>co_id := gen_uuid env (draws s)\<rparr>],
                draws := Suc (draws s)\<rparr>
    else cid = ri_company inp \<and> s1 = s"
  using assms by (auto simp: found_company_def dest!: create_company_Inr)

lemma set_role_Inr:
  "set_role env i rid s = Inr s' \<Longrightarrow>
     s' = s\<lparr>users := sql_update (\<lambda>u. us_id u = i \<and> user_live u) (\<lambda>u. u\<lparr>us_role := Some rid\<rparr>) (users s)\<rparr>"
  by (auto simp: set_role_def Let_def split: if_splits)

lemma upsert_keeps:
  assumes "q \<in> set t" "\<And>r. g (f r) = g r"
  shows "\<exists>q' \<in> set (sql_upsert conflict f k t). g q' = g q"
  using assms by (cases "conflict q") (auto simp: sql_upsert_def sql_update_def intro: bexI [of _ q])

lemma upsert_administrator_roles:
  assumes "ensure_administrator env c s = Inr (r, s')"
  shows "s' = upsert_administrator env c s \<and> r \<in> set (roles s') \<and> ro_company r = c \<and>
    ro_name r = administrator_role_name \<and>
    (\<forall>q \<in> set (roles s). \<exists>q' \<in> set (roles s'). ro_id q' = ro_id q \<and> ro_company q' = ro_company q)"
proof -
  have s': "s' = upsert_administrator env c s" and r: "find_role_by_name env s' c administrator_role_name = Inr r"
    using assms by (auto simp: ensure_administrator_def Let_def split: if_splits sum.splits)
  have "\<exists>q' \<in> set (roles s'). ro_id q' = ro_id q \<and> ro_company q' = ro_company q" if "q \<in> set (roles s)" for q
    using upsert_keeps [OF that, of "\<lambda>r. (ro_id r, ro_company r)"] unfolding s' upsert_administrator_def
    by simp
  moreover have "r \<in> set (roles s') \<and> ro_company r = c \<and> ro_name r = administrator_role_name"
    using r by (auto simp: find_role_by_name_def split: if_splits option.splits dest!: sql_first_Some)
  ultimately show ?thesis using s' by blast
qed

lemma choose_role_Inr:
  assumes "choose_role env inp c s = Inr (rid, s')"
  shows "users s' = users s \<and> companies s' = companies s \<and> modules s' = modules s \<and> settings s' = settings s \<and>
    extras s' = extras s \<and>
    (\<exists>r \<in> set (roles s'). ro_id r = rid \<and> ro_company r = c) \<and>
    (\<forall>q \<in> set (roles s). \<exists>q' \<in> set (roles s'). ro_id q' = ro_id q \<and> ro_company q' = ro_company q)"
proof (cases "ri_role_id inp")
  case None
  then obtain r where "ensure_administrator env c s = Inr (r, s')" "rid = ro_id r"
    using assms by (auto simp: choose_role_def split: if_splits sum.splits)
  then show ?thesis
    using upsert_administrator_roles [of env c s r s'] by (auto simp: upsert_administrator_def)
next
  case (Some x)
  then show ?thesis
    using assms by (auto simp: choose_role_def split: sum.splits dest!: find_role_Inr)
qed

lemma give_extras_Inr:
  "give_extras env inp v s = Inr s' \<Longrightarrow> users s' = users s \<and> companies s' = companies s \<and> roles s' = roles s \<and>
     modules s' = modules s \<and> settings s' = settings s"
  by (auto simp: give_extras_def dest!: grant_access_Inr split: if_splits)

lemma give_role_Inr:
  assumes "give_role env inp cid u s = Inr (v, s')"
  shows "(cid = None \<longrightarrow> v = u \<and> s' = s) \<and>
    (\<forall>c. cid = Some c \<longrightarrow> (\<exists>rid s1. choose_role env inp c s = Inr (rid, s1) \<and> v = u\<lparr>us_role := Some rid\<rparr> \<and>
       s' = s1\<lparr>users := sql_update (\<lambda>w. us_id w = us_id u \<and> user_live w) (\<lambda>w. w\<lparr>us_role := Some rid\<rparr>) (users s1)\<rparr>))"
  using assms by (auto simp: give_role_def split: option.splits prod.splits dest!: set_role_Inr)

lemma update_last:
  assumes "\<forall>w \<in> set t. us_id w \<noteq> us_id u" "user_live u"
  shows "sql_update (\<lambda>w. us_id w = us_id u \<and> user_live w) f (t @ [u]) = t @ [f u]"
proof -
  have "map (\<lambda>w. if us_id w = us_id u \<and> user_live w then f w else w) t = t"
    using assms(1) by (intro map_idI) auto
  then show ?thesis using assms(2) by (simp add: sql_update_def)
qed

lemma insert_defaults_keys:
  "m \<in> set ms \<or> list_ex (module_key c p m) t \<Longrightarrow> list_ex (module_key c p m) (insert_defaults c p ms t)"
proof (induction ms arbitrary: t)
  case (Cons x ms)
  show ?case
    unfolding insert_defaults.simps by (rule Cons.IH) (use Cons.prems in \<open>auto simp: module_key_def [abs_def]\<close>)
qed simp

lemma insert_defaults_new:
  "r \<in> set (insert_defaults c p ms t) \<Longrightarrow> r \<in> set t \<or> (cm_enabled r \<and> cm_valid_from r = None \<and> cm_valid_until r = None)"
proof (induction ms arbitrary: t)
  case (Cons x ms)
  from Cons.IH [OF Cons.prems [simplified]] show ?case by (auto split: if_splits)
qed simp

lemma grant_defaults_Inr:
  "grant_defaults env c p ms s = Inr s' \<Longrightarrow> s' = s\<lparr>modules := insert_defaults c p ms (modules s)\<rparr>"
  by (cases "ms = []") (auto simp: grant_defaults_def split: if_splits)

lemma defaults_held:
  assumes "modules s' = insert_defaults c p ms t" "\<forall>r \<in> set t. cm_company r \<noteq> c" "m \<in> set ms"
    "mode_row s' c p \<noteq> entitlement_revoke"
  shows "module_held env s' c p m"
proof -
  obtain r where r: "r \<in> set (modules s')" "module_key c p m r"
    using insert_defaults_keys [of m ms c p t] assms(1,3) by (auto simp: list_ex_iff)
  then have "cm_enabled r \<and> cm_valid_from r = None \<and> cm_valid_until r = None"
    using insert_defaults_new [of r c p ms t] assms(1,2) by (auto simp: module_key_def)
  then show ?thesis
    using r assms(4) by (auto simp: module_held_def list_ex_iff in_window_def)
qed

lemma registered_company [simp]: "us_company (registered_user inp c h) = c"
  by (simp add: registered_user_def blank_user_def)

lemma register_result:
  assumes "register_tx env inp h s = Inr (v, s')" "fresh_ids env s"
  shows "\<exists>cid. us_company v = cid \<and> users s' = users s @ [v] \<and>
     v = (registered_user inp cid h)\<lparr>us_id := us_id v, us_created := now env, us_role := us_role v\<rparr> \<and>
     (new_tenant inp \<longrightarrow> cid = Some (gen_uuid env (draws s)) \<and>
        companies s' = companies s @ [(before_create (founded_company inp))\<lparr>co_id := gen_uuid env (draws s)\<rparr>] \<and>
        modules s' = insert_defaults (gen_uuid env (draws s)) product_tms default_tms_features (modules s)) \<and>
     (\<not> new_tenant inp \<longrightarrow> cid = ri_company inp \<and> companies s' = companies s \<and>
        (\<forall>c. cid = Some c \<longrightarrow> check_seats env c s = Inr ())) \<and>
     (cid = None \<longrightarrow> us_role v = None) \<and>
     (\<forall>c. cid = Some c \<longrightarrow> (\<exists>r \<in> set (roles s'). us_role v = Some (ro_id r) \<and> ro_company r = c)) \<and>
     (\<forall>q \<in> set (roles s). \<exists>q' \<in> set (roles s'). ro_id q' = ro_id q \<and> ro_company q' = ro_company q) \<and>
     settings s' = settings s \<and> us_id v = gen_uuid env (if new_tenant inp then Suc (draws s) else draws s)"
proof -
  obtain cid s1 u s2 s3 s4 where c: "found_company env inp s = Inr (cid, s1)"
    "(case cid of Some c \<Rightarrow> if new_tenant inp then Inr () else check_seats env c s1 | None \<Rightarrow> Inr ()) = Inr ()"
    "create_account env (registered_user inp cid h) s1 = Inr (u, s2)"
    "(case cid of Some c \<Rightarrow> if new_tenant inp
        then grant_defaults env c product_tms default_tms_features s2 else Inr s2 | None \<Rightarrow> Inr s2) = Inr s3"
    "give_role env inp cid u s3 = Inr (v, s4)" "give_extras env inp v s4 = Inr s'"
    using register_tx_Inr [OF assms(1)] .
  note f = found_company_Inr [OF c(1)] and a = create_account_Inr [OF c(3)] and x = give_extras_Inr [OF c(6)]
  have s1: "users s1 = users s" "roles s1 = roles s" "settings s1 = settings s" "modules s1 = modules s"
    using f by (auto split: if_splits)
  have u: "us_company u = cid" "us_role u = None" "user_live u" "us_id u = gen_uuid env (draws s1)"
    using a by (simp_all add: registered_user_def blank_user_def user_live_def)
  have d: "draws s1 = (if new_tenant inp then Suc (draws s) else draws s)" using f by (auto split: if_splits)
  have other: "\<forall>w \<in> set (users s). us_id w \<noteq> us_id u"
    using fresh_ids_not [OF assms(2)] unfolding u(4) by (simp add: d)
  have s3: "users s3 = users s @ [u]" "roles s3 = roles s" "settings s3 = settings s" "companies s3 = companies s1"
    and m3: "modules s3 = (case cid of Some c \<Rightarrow> if new_tenant inp
        then insert_defaults c product_tms default_tms_features (modules s) else modules s | None \<Rightarrow> modules s)"
    using c(4) a s1 by (auto split: option.splits if_splits dest!: grant_defaults_Inr)
  show ?thesis
  proof (cases cid)
    case None
    then have g: "v = u" "s4 = s3" using give_role_Inr [OF c(5)] by simp_all
    then show ?thesis using None f a x s3 u d by (auto split: if_splits)
  next
    case (Some co)
    then obtain rid s5 where g: "choose_role env inp co s3 = Inr (rid, s5)" "v = u\<lparr>us_role := Some rid\<rparr>"
      "s4 = s5\<lparr>users := sql_update (\<lambda>w. us_id w = us_id u \<and> user_live w) (\<lambda>w. w\<lparr>us_role := Some rid\<rparr>) (users s5)\<rparr>"
      using give_role_Inr [OF c(5)] by blast
    note r = choose_role_Inr [OF g(1)]
    have "users s4 = users s @ [v]"
      using update_last [OF other u(3)] r s3(1) by (simp add: g(2,3))
    moreover have "modules s' = modules s3" "companies s' = companies s1" "settings s' = settings s" "roles s' = roles s5"
      "users s' = users s4"
      using x r s3 g(3) by simp_all
    moreover have "v = (registered_user inp cid h)\<lparr>us_id := us_id v, us_created := now env, us_role := us_role v\<rparr>"
      using a g(2) by (simp add: registered_user_def)
    ultimately show ?thesis
      using Some f c(2) r s3 u d g(2) m3 by (auto split: if_splits)
  qed
qed

lemma founded_modules_held:
  assumes "fresh_ids env s" "settings s' = settings s" "m \<in> set default_tms_features"
    "modules s' = insert_defaults (gen_uuid env (draws s)) product_tms default_tms_features (modules s)"
  shows "module_held env s' (gen_uuid env (draws s)) product_tms m"
proof (rule defaults_held [OF assms(4)])
  show "\<forall>r \<in> set (modules s). cm_company r \<noteq> gen_uuid env (draws s)"
    using fresh_ids_not(3) [OF assms(1) order_refl] by blast
  have "\<forall>r \<in> set (settings s'). ps_company r \<noteq> gen_uuid env (draws s)"
    using fresh_ids_not(4) [OF assms(1) order_refl] assms(2) by simp
  then have "sql_first (\<lambda>r. ps_company r = gen_uuid env (draws s) \<and> ps_product r = product_tms) (settings s') = None"
    by (simp add: sql_first_None)
  then show "mode_row s' (gen_uuid env (draws s)) product_tms \<noteq> entitlement_revoke"
    by (simp add: mode_row_def entitlement_revoke_def)
qed (rule assms(3))

text \<open>
  C7. Registration is all or nothing, and what it leaves is usable: a refusal changes no
  table; a success adds exactly the one account it returns, with the given password, whose role is
  a role of its own company; a founder's company is new, and holds every default module;
  an unaffiliated account has neither company nor role.
\<close>
theorem registration_complete:
  assumes "fresh_ids env s" "register env inp s = (r, s')"
  shows "case r of Inl _ \<Rightarrow> s' = s
    | Inr v \<Rightarrow> users s' = users s @ [v] \<and> bcrypt_hash env (ri_password inp) = Some (us_password_hash v) \<and>
       \<not> us_platform_staff v \<and> \<not> us_suspended v \<and>
       (\<forall>c. us_company v = Some c \<longrightarrow> (\<exists>q \<in> set (roles s'). us_role v = Some (ro_id q) \<and> ro_company q = c)) \<and>
       (if new_tenant inp
        then (\<exists>co. companies s' = companies s @ [co] \<and> us_company v = Some (co_id co) \<and>
            (\<forall>c \<in> set (companies s). co_id c \<noteq> co_id co) \<and>
            (\<forall>m \<in> set default_tms_features. module_held env s' (co_id co) product_tms m))
        else companies s' = companies s \<and> us_company v = ri_company inp \<and>
            (ri_company inp = None \<longrightarrow> us_role v = None))"
  using assms(2)
proof (cases rule: register_cases)
  case (ok h v)
  from register_result [OF ok(3) assms(1)] obtain cid where c: "us_company v = cid" "users s' = users s @ [v]"
     "v = (registered_user inp cid h)\<lparr>us_id := us_id v, us_created := now env, us_role := us_role v\<rparr>"
     "new_tenant inp \<longrightarrow> cid = Some (gen_uuid env (draws s)) \<and>
        companies s' = companies s @ [(before_create (founded_company inp))\<lparr>co_id := gen_uuid env (draws s)\<rparr>] \<and>
        modules s' = insert_defaults (gen_uuid env (draws s)) product_tms default_tms_features (modules s)"
     "\<not> new_tenant inp \<longrightarrow> cid = ri_company inp \<and> companies s' = companies s \<and>
        (\<forall>c. cid = Some c \<longrightarrow> check_seats env c s = Inr ())"
     "cid = None \<longrightarrow> us_role v = None"
     "\<forall>c. cid = Some c \<longrightarrow> (\<exists>r \<in> set (roles s'). us_role v = Some (ro_id r) \<and> ro_company r = c)"
     "settings s' = settings s" by (elim exE conjE) (rule that)
  have fields: "us_password_hash v = h" "\<not> us_platform_staff v" "\<not> us_suspended v"
  proof -
    show "us_password_hash v = h"
      using arg_cong [OF c(3), of us_password_hash] by (simp add: registered_user_def)
    show "\<not> us_platform_staff v"
      using arg_cong [OF c(3), of us_platform_staff] by (simp add: registered_user_def blank_user_def)
    show "\<not> us_suspended v"
      using arg_cong [OF c(3), of us_suspended] by (simp add: registered_user_def blank_user_def)
  qed
  have held: "module_held env s' (gen_uuid env (draws s)) product_tms m"
    if "new_tenant inp" "m \<in> set default_tms_features" for m
    using founded_modules_held [OF assms(1) c(8) that(2)] c(4) that(1) by blast
  have new: "\<forall>x \<in> set (companies s). co_id x \<noteq> gen_uuid env (draws s)"
    using fresh_ids_not(2) [OF assms(1) order_refl] by blast
  have "\<exists>co. companies s' = companies s @ [co] \<and> us_company v = Some (co_id co) \<and>
      (\<forall>c \<in> set (companies s). co_id c \<noteq> co_id co) \<and>
      (\<forall>m \<in> set default_tms_features. module_held env s' (co_id co) product_tms m)" if "new_tenant inp"
    using that c(1,4) held new by (intro exI [of _ "(before_create (founded_company inp))\<lparr>co_id := gen_uuid env (draws s)\<rparr>"]) simp
  then show ?thesis
    using ok(1,2) c(1,2,5,6,7) fields by simp
qed simp

lemma registered_seats:
  assumes "fresh_ids env s" "register_tx env inp h s = Inr (v, s')"
  shows "seats_used s' x = seats_used s x + (if us_company v = Some x \<and> user_live v then 1 else 0)"
    "\<not> new_tenant inp \<or> x \<noteq> gen_uuid env (draws s) \<Longrightarrow> seat_limit s' x = seat_limit s x"
    "new_tenant inp \<Longrightarrow> us_company v = Some (gen_uuid env (draws s)) \<and> seat_limit s' (gen_uuid env (draws s)) = 0"
    "\<not> new_tenant inp \<Longrightarrow> us_company v = Some x \<Longrightarrow> check_seats env x s = Inr ()"
proof -
  from register_result [OF assms(2,1)] obtain cid where c: "us_company v = cid" "users s' = users s @ [v]"
     "new_tenant inp \<longrightarrow> cid = Some (gen_uuid env (draws s)) \<and>
        companies s' = companies s @ [(before_create (founded_company inp))\<lparr>co_id := gen_uuid env (draws s)\<rparr>]"
     "\<not> new_tenant inp \<longrightarrow> companies s' = companies s \<and> (\<forall>c. cid = Some c \<longrightarrow> check_seats env c s = Inr ())"
    by blast
  show "seats_used s' x = seats_used s x + (if us_company v = Some x \<and> user_live v then 1 else 0)"
    by (simp add: seats_used_def c(2) sql_count_def)
  show "seat_limit s' x = seat_limit s x" if "\<not> new_tenant inp \<or> x \<noteq> gen_uuid env (draws s)"
  proof (cases "new_tenant inp")
    case True
    then have "sql_first (\<lambda>c. co_id c = x) (companies s') = sql_first (\<lambda>c. co_id c = x) (companies s)"
      using that c(3) by (simp add: sql_first_append) (simp add: sql_first_def split: option.splits)
    then show ?thesis by (simp add: seat_limit_def)
  qed (use c(4) in \<open>simp add: seat_limit_def\<close>)
  show "us_company v = Some (gen_uuid env (draws s)) \<and> seat_limit s' (gen_uuid env (draws s)) = 0" if "new_tenant inp"
  proof -
    have "sql_first (\<lambda>c. co_id c = gen_uuid env (draws s)) (companies s) = None"
      using fresh_ids_not(2) [OF assms(1) order_refl] by (simp add: sql_first_None)
    then show ?thesis using that c(1,3)
      by (simp add: seat_limit_def sql_first_append) (simp add: sql_first_def founded_company_def blank_company_def)
  qed
  show "check_seats env x s = Inr ()" if "\<not> new_tenant inp" "us_company v = Some x" using that c(1,4) by blast
qed

text \<open>
  C12. The seat limit holds: registration never takes a company over the number of
  accounts it may have.
\<close>
theorem seat_limit_kept:
  assumes "fresh_ids env s" "within_seats s" "register env inp s = (r, s')"
  shows "within_seats s'"
  using assms(3)
proof (cases rule: register_cases)
  case (ok h v)
  note seats = registered_seats [OF assms(1) ok(3)]
  have "int (seats_used s' x) \<le> seat_limit s' x" if l: "seat_limit s' x > 0" for x
  proof (cases "us_company v = Some x \<and> user_live v")
    case True
    then have "\<not> new_tenant inp" using l seats(3) by auto
    then have "check_seats env x s = Inr ()" "seat_limit s' x = seat_limit s x" using seats(2,4) True by auto
    then have "int (seats_used s x) < seat_limit s' x"
      using l by (auto simp: check_seats_def count_active_users_def seats_used_def split: if_splits)
    then show ?thesis using True by (simp add: seats(1))
  next
    case False
    have "\<not> new_tenant inp \<or> x \<noteq> gen_uuid env (draws s)" using l seats(3) by auto
    then have "seat_limit s' x = seat_limit s x" by (rule seats(2))
    then show ?thesis using assms(2) l False by (auto simp: seats(1) within_seats_def)
  qed
  then show ?thesis by (simp add: within_seats_def)
qed (use assms(2) in simp)

lemma register_keeps_roles:
  assumes "fresh_ids env s" "roles_at_home s" "register env inp s = (r, s')"
  shows "roles_at_home s'"
  using assms(3)
proof (cases rule: register_cases)
  case (ok h v)
  from register_result [OF ok(3) assms(1)] have c: "users s' = users s @ [v]"
    "\<forall>c. us_company v = Some c \<longrightarrow> (\<exists>r \<in> set (roles s'). us_role v = Some (ro_id r) \<and> ro_company r = c)"
    "\<forall>q \<in> set (roles s). \<exists>q' \<in> set (roles s'). ro_id q' = ro_id q \<and> ro_company q' = ro_company q"
    by blast+
  show ?thesis
    unfolding roles_at_home_def
  proof (intro ballI allI impI)
    fix u co i assume u: "u \<in> set (users s')" "us_company u = Some co \<and> us_role u = Some i"
    show "\<exists>q \<in> set (roles s'). ro_id q = i \<and> ro_company q = co"
    proof (cases "u = v")
      case True
      then show ?thesis using c(2) u(2) by auto
    next
      case False
      then have "u \<in> set (users s)" using u(1) c(1) by simp
      then obtain q where "q \<in> set (roles s)" "ro_id q = i" "ro_company q = co"
        using assms(2) u(2) unfolding roles_at_home_def by blast
      then show ?thesis using c(3) by metis
    qed
  qed
qed (use assms(2) in simp)

lemma assign_keeps_roles:
  assumes "roles_at_home s" "assign_role env actor target rid s = (Inr r, s')" "inj_on us_id (set (users s))"
  shows "roles_at_home s'"
proof -
  obtain a t ac ro s1 where c: "find_user_by_id env s actor = Inr a" "find_user_by_id env s target = Inr t"
    "us_company a = Some ac" "us_platform_staff a \<or> us_company t = Some ac"
    "find_role env s (case us_company t of None \<Rightarrow> ac | Some tc \<Rightarrow> tc) rid = Inr ro"
    "update_user_fields env target (\<lambda>u. u\<lparr>us_role := Some rid\<rparr>) s = Inr s1"
    "end_sessions env actor target permission_change [(''roleId'', uuid_string env rid)] s1 = (Inr r, s')"
    using assms(2) by (rule assign_role_Inr)
  note keep = end_sessions_keeps [OF c(7)]
  have us: "users s' = sql_update (\<lambda>u. us_id u = target \<and> user_live u) (\<lambda>u. u\<lparr>us_role := Some rid\<rparr>) (users s)"
    and ro: "roles s' = roles s"
    using keep update_user_Inr [OF c(6)] by simp_all
  show ?thesis
    unfolding roles_at_home_def
  proof (intro ballI allI impI)
    fix u co i assume u: "u \<in> set (users s')" "us_company u = Some co \<and> us_role u = Some i"
    obtain w where w: "w \<in> set (users s)"
      "u = (if us_id w = target \<and> user_live w then w\<lparr>us_role := Some rid\<rparr> else w)"
      using u(1) unfolding us by (rule sql_update_row)
    show "\<exists>q \<in> set (roles s'). ro_id q = i \<and> ro_company q = co"
    proof (cases "us_id w = target \<and> user_live w")
      case True
      then have "w = t" using assms(3) w(1) find_user_Inr [OF c(2)] by (auto simp: inj_on_def)
      then have "us_company t = Some co" "i = rid" using u(2) w(2) True by auto
      then show ?thesis using find_role_Inr [OF c(5)] ro by auto
    next
      case False
      then show ?thesis using assms(1) u(2) w ro unfolding roles_at_home_def by auto
    qed
  qed
qed

text \<open>
  C13. Roles stay at home: if every account's role belongs to its own company, that is still
  so after a registration and after a role assignment that goes through.
\<close>
theorem roles_stay_at_home:
  assumes "fresh_ids env s" "roles_at_home s"
    "register env inp s = (r, s') \<or> (\<exists>r. assign_role env actor target rid s = (Inr r, s'))"
    "inj_on us_id (set (users s))"
  shows "roles_at_home s'"
  using assms(3)
proof
  assume "register env inp s = (r, s')"
  then show ?thesis by (rule register_keeps_roles [OF assms(1,2)])
next
  assume "\<exists>r. assign_role env actor target rid s = (Inr r, s')"
  then show ?thesis using assign_keeps_roles [OF assms(2) _ assms(4)] by blast
qed

section \<open>Registrations of the demo tenant\<close>

definition demo_founder :: register_input where
  "demo_founder = \<lparr>ri_username = '' Ani '', ri_email = [], ri_phone = [], ri_password = ''secret9'',
     ri_full_name = ''Ani'', ri_role = ''shipper'', ri_parent = None, ri_company = None, ri_role_id = None,
     ri_company_name = ''Maju'', ri_company_abbreviation = ''mju'', ri_permissions = [], ri_unaffiliated = False\<rparr>"

definition demo_member :: register_input where
  "demo_member = demo_founder\<lparr>ri_company := Some 5, ri_role_id := Some 3, ri_permissions := [''order.create'']\<rparr>"

text \<open>The transaction of the founder, step by step.\<close>

definition founding :: "uuid option \<times> sys" where
  "founding = projr (found_company demo_env demo_founder demo_tenant)"

definition founder_row :: "user \<times> sys" where
  "founder_row = projr (create_account demo_env (registered_user demo_founder (fst founding) ''bsecret9'') (snd founding))"

definition founder_modules :: sys where
  "founder_modules = projr (grant_defaults demo_env 10 product_tms default_tms_features (snd founder_row))"

lemma founder_registers: "is_ok (fst (register demo_env demo_founder demo_tenant))"
proof -
  have "is_ok (found_company demo_env demo_founder demo_tenant)" "fst founding = Some 10" by code_simp+
  then have 1: "found_company demo_env demo_founder demo_tenant = Inr (Some 10, snd founding)"
    by (auto simp: is_ok_iff founding_def)
  have "is_ok (create_account demo_env (registered_user demo_founder (Some 10) ''bsecret9'') (snd founding))"
    by code_simp
  then have 2: "create_account demo_env (registered_user demo_founder (Some 10) ''bsecret9'') (snd founding) = Inr founder_row"
    using \<open>fst founding = Some 10\<close> by (auto simp: is_ok_iff founder_row_def)
  have "is_ok (grant_defaults demo_env 10 product_tms default_tms_features (snd founder_row))" by code_simp
  then have 3: "grant_defaults demo_env 10 product_tms default_tms_features (snd founder_row) = Inr founder_modules"
    by (auto simp: is_ok_iff founder_modules_def)
  have "is_ok (give_role demo_env demo_founder (Some 10) (fst founder_row) founder_modules)" by code_simp
  then obtain v s4 where 4: "give_role demo_env demo_founder (Some 10) (fst founder_row) founder_modules = Inr (v, s4)"
    by (auto simp: is_ok_iff)
  have 5: "give_extras demo_env demo_founder v s4 = Inr s4" by (simp add: give_extras_def demo_founder_def)
  have t: "new_tenant demo_founder" by (simp add: new_tenant_def demo_founder_def)
  have "register_tx demo_env demo_founder ''bsecret9'' demo_tenant = Inr (v, s4)"
    unfolding register_tx_def by (simp add: 1 2 3 4 5 t case_prod_beta)
  moreover have "assert_identifiers_free demo_env demo_founder demo_tenant = Inr ()" by code_simp
  moreover have "hash_password demo_env (ri_password demo_founder) = Inr ''bsecret9''"
    "validate_password_strength (ri_password demo_founder) = Inr ()" by code_simp+
  ultimately show ?thesis
    by (simp add: register_def transaction_def) (simp add: demo_founder_def)
qed

lemma demo_fresh: "fresh_ids demo_env demo_tenant"
  by (auto simp: fresh_ids_def demo_env_def demo_tenant_def empty_sys_def blank_user_def blank_company_def
      demo_module_def demo_role_def inj_def)

definition full_tenant :: sys where
  "full_tenant = demo_tenant\<lparr>companies := [(blank_company 5 ''Jaya'')\<lparr>co_max_users := 2\<rparr>]\<rparr>"

theorem registration_complete_witness:
  "case register demo_env demo_founder demo_tenant of (r, s') \<Rightarrow>
     is_ok r \<and> (\<exists>v co. r = Inr v \<and> us_company v = Some (co_id co) \<and> companies s' = companies demo_tenant @ [co] \<and>
       module_held demo_env s' (co_id co) product_tms ''dispatch'')"
proof -
  obtain r s' where run: "register demo_env demo_founder demo_tenant = (r, s')"
    by (cases "register demo_env demo_founder demo_tenant")
  moreover note founder_registers
  ultimately obtain v where "r = Inr v" by (auto simp: is_ok_iff)
  moreover have "new_tenant demo_founder" by (simp add: new_tenant_def demo_founder_def)
  moreover have "''dispatch'' \<in> set default_tms_features" by code_simp
  ultimately show ?thesis
    using registration_complete [OF demo_fresh run] run by auto
qed

theorem seat_limit_kept_witness:
  "within_seats (snd (register demo_env demo_member full_tenant)) \<and>
   seats_used (snd (register demo_env demo_member full_tenant)) 5 = 2"
proof -
  have f: "fresh_ids demo_env full_tenant"
    using demo_fresh by (simp add: fresh_ids_def full_tenant_def demo_tenant_def blank_company_def)
  have w: "within_seats full_tenant"
    by (simp add: within_seats_def seat_limit_def seats_used_def full_tenant_def demo_tenant_def sql_first_def
        sql_count_def empty_sys_def blank_company_def)
  have "within_seats (snd (register demo_env demo_member full_tenant))"
    by (rule seat_limit_kept [OF f w]) (rule prod.collapse [symmetric])
  moreover have "seats_used (snd (register demo_env demo_member full_tenant)) 5 = 2" by code_simp
  ultimately show ?thesis by blast
qed

theorem roles_stay_at_home_witness:
  "roles_at_home (snd (register demo_env demo_member demo_tenant))"
proof (rule roles_stay_at_home [OF demo_fresh])
  show "roles_at_home demo_tenant"
    by (simp add: roles_at_home_def demo_tenant_def demo_role_def blank_user_def)
  show "register demo_env demo_member demo_tenant = (fst (register demo_env demo_member demo_tenant),
      snd (register demo_env demo_member demo_tenant)) \<or>
    (\<exists>r. assign_role demo_env 7 2 3 demo_tenant = (Inr r, snd (register demo_env demo_member demo_tenant)))"
    by simp
  show "inj_on us_id (set (users demo_tenant))" by (simp add: demo_tenant_def)
qed

section \<open>Properties: what an update can reach\<close>

definition powers :: "user \<Rightarrow> uuid \<times> uuid option \<times> string \<times> bool \<times> uuid option \<times> bool \<times> int \<times> int option \<times> time option" where
  "powers u = (us_id u, us_company u, us_password_hash u, us_platform_staff u, us_role u, us_suspended u,
     us_max_devices u, us_fms_user u, us_deleted u)"

definition credentials :: "user \<Rightarrow> string option \<times> string option \<times> bool \<times> bool \<times> bool" where
  "credentials u = (us_username u, us_email u, us_email_verified u, us_phone_verified u, us_verified u)"

lemma set_column_powers: "set_column col v = Some f \<Longrightarrow> powers (f u) = powers u"
  by (cases v) (auto simp: powers_def split: if_splits)

lemma set_columns_powers: "set_columns bind fs = Some f \<Longrightarrow> powers (f u) = powers u"
proof (induction fs arbitrary: f u)
  case (Cons x fs)
  obtain col v where x: "x = (col, v)" by (cases x)
  then obtain cv g h where "bind col v = Some cv" "set_column col cv = Some g" "set_columns bind fs = Some h"
    "f = (\<lambda>u. h (g u))"
    using Cons.prems by (auto split: option.splits)
  then show ?case using Cons.IH [of h "g u"] set_column_powers [of col cv g u] by simp
qed simp

lemma set_column_credentials:
  "set_column col v = Some f \<Longrightarrow> col \<in> snd ` set profile_updatable \<Longrightarrow> credentials (f u) = credentials u"
proof -
  assume c: "col \<in> snd ` set profile_updatable" "set_column col v = Some f"
  have "col \<notin> set [''email'', ''username'', ''is_verified'', ''is_email_verified'', ''is_phone_verified'']"
    using c(1) by (auto simp: profile_updatable_def)
  then show ?thesis using c(2) by (cases v) (auto simp: credentials_def split: if_splits)
qed

lemma project_allowed_columns: "(col, v) \<in> set (project_allowed body allowed) \<Longrightarrow> col \<in> snd ` set allowed"
  by (induction body allowed rule: project_allowed.induct) (force split: option.splits dest: map_of_SomeD)+

lemma set_columns_credentials:
  "set_columns bind fs = Some f \<Longrightarrow> \<forall>c \<in> set fs. fst c \<in> snd ` set profile_updatable \<Longrightarrow>
     credentials (f u) = credentials u"
proof (induction fs arbitrary: f u)
  case (Cons x fs)
  obtain col v where x: "x = (col, v)" by (cases x)
  then obtain cv g h where "bind col v = Some cv" "set_column col cv = Some g" "set_columns bind fs = Some h"
    "f = (\<lambda>u. h (g u))"
    using Cons.prems by (auto split: option.splits)
  then show ?case
    using Cons.IH [of h "g u"] set_column_credentials [of col cv g u] Cons.prems(2) x by simp
qed simp

lemma update_columns_Inr:
  assumes "update_user_columns env bind i fs s = Inr s'"
  obtains f where "set_columns bind fs = Some f"
    "s' = s\<lparr>users := sql_update (\<lambda>u. us_id u = i \<and> user_live u) f (users s)\<rparr>"
  using assms update_user_Inr by (fastforce simp: update_user_columns_def split: option.splits)

text \<open>
  An account is only what its columns say, and neither a person on themselves nor an
  administrator's update can change what gives power: company, role, staff flag,
  suspension, password, device limit and identity of every account stay as they were,
  whatever the request body; a person cannot even change the login name, the email or
  the verification flags; and no row but the target's changes.
\<close>
theorem updates_confined:
  assumes "update_profile env bind i body s = Inr s' \<or> admin_update env bind actor i body s = Inr s'"
  shows "map powers (users s') = map powers (users s) \<and>
     (update_profile env bind i body s = Inr s' \<longrightarrow> map credentials (users s') = map credentials (users s)) \<and>
     list_all2 (\<lambda>u v. us_id u \<noteq> i \<longrightarrow> v = u) (users s) (users s') \<and>
     roles s' = roles s \<and> companies s' = companies s \<and> extras s' = extras s"
proof -
  obtain allowed s1 where c: "update_user_columns env bind i (project_allowed body allowed) s = Inr s1"
    "users s' = users s1" "roles s' = roles s1" "companies s' = companies s1" "extras s' = extras s1"
    using assms by (auto simp: update_profile_def admin_update_def Let_def split: sum.splits if_splits)
  obtain f where f: "set_columns bind (project_allowed body allowed) = Some f"
    "s1 = s\<lparr>users := sql_update (\<lambda>u. us_id u = i \<and> user_live u) f (users s)\<rparr>"
    using c(1) by (rule update_columns_Inr)
  have "map powers (users s') = map powers (users s)"
    using set_columns_powers [OF f(1)] by (simp add: c(2) f(2) map_sql_update)
  moreover have "map credentials (users s') = map credentials (users s)" if u: "update_profile env bind i body s = Inr s'"
  proof -
    have "update_user_columns env bind i (project_allowed body profile_updatable) s = Inr s'"
      using u by (auto simp: update_profile_def Let_def split: if_splits)
    then obtain g where g: "set_columns bind (project_allowed body profile_updatable) = Some g"
      "s' = s\<lparr>users := sql_update (\<lambda>u. us_id u = i \<and> user_live u) g (users s)\<rparr>" by (rule update_columns_Inr)
    have "\<forall>c \<in> set (project_allowed body profile_updatable). fst c \<in> snd ` set profile_updatable"
      using project_allowed_columns by (metis prod.collapse)
    then show ?thesis using set_columns_credentials [OF g(1)] by (simp add: g(2) map_sql_update)
  qed
  moreover have "list_all2 (\<lambda>u v. us_id u \<noteq> i \<longrightarrow> v = u) (users s) (users s')"
    by (simp add: c(2) f(2) sql_update_def list_all2_map2 list_all2_same)
  ultimately show ?thesis using c(3-5) f(2) by simp
qed

text \<open>A driver that binds strings as text and booleans as flags.\<close>

definition demo_binder :: column_binder where
  "demo_binder col v = (case v of JString t \<Rightarrow> Some (SqlText (Some t)) | JBool b \<Rightarrow> Some (SqlBool b)
     | JNull \<Rightarrow> Some (SqlText None) | JNumber _ \<Rightarrow> None)"

theorem updates_confined_witness:
  "map credentials (users (projr (update_profile demo_env demo_binder 2
      [(''fullName'', JString ''Budi S''), (''role_id'', JString ''admin''), (''email'', JString ''x'')] demo_office))) =
   map credentials (users demo_office)"
proof -
  let ?b = "[(''fullName'', JString ''Budi S''), (''role_id'', JString ''admin''), (''email'', JString ''x'')]"
  have "is_ok (update_profile demo_env demo_binder 2 ?b demo_office)" by code_simp
  then have "update_profile demo_env demo_binder 2 ?b demo_office = Inr (projr (update_profile demo_env demo_binder 2 ?b demo_office))"
    by (auto simp: is_ok_iff)
  then show ?thesis using updates_confined [of demo_env demo_binder 2 ?b demo_office] by blast
qed

section \<open>What the code does not promise\<close>

text \<open>
  routes.go says that the service layer confirms that actor and target share a company.
  For the generic update, suspension and deletion it does not: neither operation looks
  at the actor's row, so the administrator of one company suspends, renames or deletes
  the people of another.
\<close>

definition two_tenants :: sys where
  "two_tenants = demo_office\<lparr>companies := [blank_company 5 ''Jaya'', blank_company 6 ''Maju''],
     users := users demo_office @ [(blank_user 8 (Some 6))\<lparr>us_username := Some ''dewi''\<rparr>]\<rparr>"

lemma suspension_crosses_tenants:
  "fst (set_suspended demo_env 7 8 True two_tenants) = Inr () \<and>
   fst (delete_user demo_env 7 8 two_tenants) = Inr () \<and>
   is_ok (admin_update demo_env demo_binder 7 8 [(''email'', JString ''mine@x'')] two_tenants)"
  by code_simp

lemma suspension_ignores_actor:
  "fst (set_suspended env actor target b s) = fst (set_suspended env actor' target b s)"
  by (auto simp: set_suspended_def end_sessions_def revoke_all_for_user_def split: sum.splits)

text \<open>
  The column users.role was dropped by migration 000010 and is still in the administrators'
  allowlist: an update that names it fails as a whole.
\<close>

lemma role_column_is_gone:
  "bind ''role'' v \<noteq> None \<Longrightarrow> admin_update env bind actor target [(''role'', v)] s = Inl (ErrDB OpUpdateUser)"
  by (cases "bind ''role'' v"; cases "the (bind ''role'' v)")
     (auto simp: admin_update_def update_user_columns_def admin_updatable_def merge_maps_def
       profile_updatable_def profile_columns_def Let_def)

text \<open>
  Identifiers are unique per column, and login looks in all three at once: somebody who
  registers with another's email as username can take that identifier over (the row with
  the smaller id answers), and the other's own password no longer logs in with it.
\<close>

definition mailed_world :: sys where
  "mailed_world = demo_tenant\<lparr>users := [(blank_user 30 (Some 5))\<lparr>us_email := Some ''ani'', us_password_hash := ''bmypass1''\<rparr>]\<rparr>"

definition ani_login :: login_input where
  "ani_login = \<lparr>in_identifier = ''ani'', in_password = ''mypass1'', in_device = [], in_platform = [],
     in_user_agent = [], in_ip = []\<rparr>"

lemma identifier_taken_over:
  "is_ok (fst (login demo_env ani_login mailed_world)) \<and>
   is_ok (fst (register demo_env demo_member mailed_world)) \<and>
   fst (login demo_env ani_login (snd (register demo_env demo_member mailed_world))) = Inl ErrInvalidCredentials"
  by code_simp

end
