(* ===== verification/Companies.thy ===== *)
theory Companies
  imports Users
begin

text \<open>
  internal/services/shipper_service.go and merge_service.go: companies a transporter
  records for its customers, the link by which a customer claims its company, and
  folding a duplicate into a survivor.  Both services run their statements on the
  database directly, so the unique indexes are written out where a statement can meet
  them.
\<close>

section \<open>Recording a shipper\<close>

record create_shipper_input =
  cs_name :: string
  cs_abbreviation :: "string option"
  cs_entity_type :: string
  cs_npwp :: "string option"
  cs_nib :: "string option"
  cs_address :: "string option"
  cs_city_id :: "string option"
  cs_phone :: "string option"
  cs_pic_name :: "string option"
  cs_industry_sector :: "string option"

record create_shipper_result =
  sr_company :: company
  sr_existing :: bool

definition profile_from :: "create_shipper_input \<Rightarrow> (string \<times> string) list" where
  "profile_from inp =
     (case cs_pic_name inp of None \<Rightarrow> []
        | Some v \<Rightarrow> if trim_space v \<noteq> [] then [(''picName'', trim_space v)] else []) @
     (case cs_industry_sector inp of None \<Rightarrow> []
        | Some v \<Rightarrow> if trim_space v \<noteq> [] then [(''industrySector'', trim_space v)] else [])"

text \<open>The pair of companies is the primary key of company_links.\<close>

definition add_link :: "company_link \<Rightarrow> company_link list \<Rightarrow> company_link list" where
  "add_link l t =
     (if list_ex (\<lambda>k. li_transporter k = li_transporter l \<and> li_shipper k = li_shipper l) t then t else t @ [l])"

definition link_shipper :: "env \<Rightarrow> uuid \<Rightarrow> uuid \<Rightarrow> uuid \<Rightarrow> sys \<Rightarrow> svc_error + sys" where
  "link_shipper env tid sid actor s =
     (if db_down env OpLink then Inl (ErrDB OpLink)
      else Inr (s\<lparr>links := add_link \<lparr>li_transporter = tid, li_shipper = sid,
             li_by = (if actor = uuid_nil then None else Some actor)\<rparr> (links s)\<rparr>))"

definition same_tax_id :: "string \<Rightarrow> company \<Rightarrow> bool" where
  "same_tax_id npwp c = (case co_npwp c of None \<Rightarrow> False
     | Some v \<Rightarrow> normalise_tax_id v = normalise_tax_id npwp)"

text \<open>The company already known by the tax number, when one was given.\<close>

definition find_by_tax_id :: "env \<Rightarrow> sys \<Rightarrow> string option \<Rightarrow> svc_error + company option" where
  "find_by_tax_id env s npwp =
     (case npwp of
        None \<Rightarrow> Inr None
      | Some v \<Rightarrow>
          if normalise_tax_id v = [] then Inr None
          else if db_down env OpFindCompany then Inl (ErrDB OpFindCompany)
          else Inr (sql_first (\<lambda>c. same_tax_id v c \<and> company_live c) (sort_key co_id (companies s))))"

definition shipper_company :: "uuid \<Rightarrow> create_shipper_input \<Rightarrow> company" where
  "shipper_company tid inp =
     (blank_company 0 (cs_name inp))\<lparr>co_abbreviation := cs_abbreviation inp, co_role := ''shipper'',
       co_entity_type := cs_entity_type inp, co_npwp := cs_npwp inp, co_nib := cs_nib inp,
       co_address := cs_address inp, co_city_id := cs_city_id inp, co_phone := cs_phone inp,
       co_profile := profile_from inp, co_created_by := Some tid\<rparr>"

definition create_shipper_tx ::
  "env \<Rightarrow> uuid \<Rightarrow> uuid \<Rightarrow> create_shipper_input \<Rightarrow> sys \<Rightarrow> svc_error + (create_shipper_result \<times> sys)" where
  "create_shipper_tx env tid actor inp s =
     (case find_by_tax_id env s (cs_npwp inp) of
        Inl e \<Rightarrow> Inl e
      | Inr (Some c) \<Rightarrow>
          (case link_shipper env tid (co_id c) actor s of
             Inl e \<Rightarrow> Inl e
           | Inr s1 \<Rightarrow> Inr (\<lparr>sr_company = c, sr_existing = True\<rparr>, s1))
      | Inr None \<Rightarrow>
          (case create_company env False (shipper_company tid inp) s of
             Inl e \<Rightarrow> Inl (if e = ErrConflict then ErrShipperExists else e)
           | Inr (c, s1) \<Rightarrow>
               (case link_shipper env tid (co_id c) actor s1 of
                  Inl e \<Rightarrow> Inl e
                | Inr s2 \<Rightarrow> Inr (\<lparr>sr_company = c, sr_existing = False\<rparr>, s2))))"

definition clean_shipper_input :: "create_shipper_input \<Rightarrow> create_shipper_input" where
  "clean_shipper_input inp =
     inp\<lparr>cs_name := trim_space (cs_name inp),
         cs_entity_type := (if cs_entity_type inp = [] then ''company'' else cs_entity_type inp)\<rparr>"

definition create_shipper ::
  "env \<Rightarrow> uuid \<Rightarrow> uuid \<Rightarrow> create_shipper_input \<Rightarrow> sys \<Rightarrow> (svc_error + create_shipper_result) \<times> sys" where
  "create_shipper env tid actor inp0 s =
     (let inp = clean_shipper_input inp0 in
      if cs_name inp = [] then (Inl (ErrValidation ''a name is required''), s)
      else if cs_entity_type inp \<noteq> ''company'' \<and> cs_entity_type inp \<noteq> ''personal''
      then (Inl (ErrValidation ''entityType must be company or personal''), s)
      else if cs_entity_type inp = ''personal'' \<and> cs_nib inp \<noteq> None \<and> cs_nib inp \<noteq> Some []
      then (Inl (ErrValidation ''a personal shipper has no NIB''), s)
      else transaction env (create_shipper_tx env tid actor inp) s)"

definition list_shippers :: "env \<Rightarrow> sys \<Rightarrow> uuid \<Rightarrow> svc_error + company list" where
  "list_shippers env s tid =
     (if db_down env OpFindCompany then Inl (ErrDB OpFindCompany)
      else Inr (sort_key co_name (filter (\<lambda>c. company_live c \<and>
         list_ex (\<lambda>l. li_transporter l = tid \<and> li_shipper l = co_id c) (links s)) (companies s))))"

definition list_transporters :: "env \<Rightarrow> sys \<Rightarrow> uuid \<Rightarrow> svc_error + company list" where
  "list_transporters env s sid =
     (if db_down env OpFindCompany then Inl (ErrDB OpFindCompany)
      else Inr (sort_key co_name (filter (\<lambda>c. company_live c \<and>
         list_ex (\<lambda>l. li_shipper l = sid \<and> li_transporter l = co_id c) (links s)) (companies s))))"

section \<open>The claim link\<close>

definition claim_token_ttl :: time where "claim_token_ttl = 14 * 24 * hour"

definition live_users_of :: "sys \<Rightarrow> uuid \<Rightarrow> nat" where
  "live_users_of s cid = sql_count (\<lambda>u. us_company u = Some cid \<and> user_live u) (users s)"

definition issue_claim_link ::
  "env \<Rightarrow> uuid \<Rightarrow> uuid \<Rightarrow> sys \<Rightarrow> (svc_error + (string \<times> time)) \<times> sys" where
  "issue_claim_link env cid actor s =
     (if rand_down env then (Inl ErrRandom, s)
      else let token = gen_token env (draws s);
               expires = now env + claim_token_ttl;
               s0 = s\<lparr>draws := Suc (draws s)\<rparr>
        in case transaction env (\<lambda>s1.
               if db_down env OpCountUsers then Inl (ErrDB OpCountUsers)
               else if live_users_of s1 cid > 0 then Inl ErrAlreadyClaimed
               else if db_down env OpUpdateCompany then Inl (ErrDB OpUpdateCompany)
               else let hit = (\<lambda>c. co_id c = cid \<and> company_live c) in
                 if sql_count hit (companies s1) = 0 then Inl ErrClaimNotFound
                 else Inr ((), s1\<lparr>companies := sql_update hit
                        (\<lambda>c. c\<lparr>co_claim_hash := Some (hash_token env token), co_claim_expires := Some expires,
                               co_claim_issued_by := Some actor\<rparr>) (companies s1)\<rparr>)) s0 of
             (Inl e, s2) \<Rightarrow> (Inl e, s2)
           | (Inr _, s2) \<Rightarrow>
               (Inr (token, expires), write_audit env ((blank_audit env)\<lparr>au_actor := Some actor,
                  au_event := ''claim.issued'', au_detail := [(''companyId'', uuid_string env cid)]\<rparr>) s2))"

definition holds_link :: "env \<Rightarrow> string \<Rightarrow> company \<Rightarrow> bool" where
  "holds_link env token c = (co_claim_hash c = Some (hash_token env token) \<and> company_live c)"

definition claim_expired :: "env \<Rightarrow> company \<Rightarrow> bool" where
  "claim_expired env c = (case co_claim_expires c of None \<Rightarrow> True | Some t \<Rightarrow> t < now env)"

definition preview_claim :: "env \<Rightarrow> string \<Rightarrow> sys \<Rightarrow> svc_error + string" where
  "preview_claim env token s =
     (if db_down env OpFindCompany then Inl (ErrDB OpFindCompany)
      else case sql_first (holds_link env token) (companies s) of
        None \<Rightarrow> Inl ErrClaimNotFound
      | Some c \<Rightarrow>
          if co_name c = [] then Inl ErrClaimNotFound
          else if claim_expired env c then Inl ErrClaimExpired
          else Inr (co_name c))"

record claim_input =
  cl_token :: string
  cl_email :: string
  cl_phone :: string
  cl_username :: string
  cl_password :: string
  cl_full_name :: string
  cl_npwp :: string

record claim_result =
  cr_company :: uuid
  cr_user :: uuid
  cr_role :: uuid
  cr_duplicate :: "uuid option"

text \<open>INSERT ... SELECT of the loser's links under the survivor's id, then DELETE.\<close>

fun add_links :: "company_link list \<Rightarrow> company_link list \<Rightarrow> company_link list" where
  "add_links [] t = t"
| "add_links (l # ls) t = add_links ls (add_link l t)"

definition move_links :: "uuid \<Rightarrow> uuid \<Rightarrow> company_link list \<Rightarrow> company_link list" where
  "move_links keep loser t =
     sql_delete (\<lambda>l. li_shipper l = loser)
       (add_links (map (\<lambda>l. l\<lparr>li_shipper := keep\<rparr>) (filter (\<lambda>l. li_shipper l = loser) t)) t)"

definition retire :: "env \<Rightarrow> uuid \<Rightarrow> company \<Rightarrow> company" where
  "retire env keep c = c\<lparr>co_npwp := None, co_nib := None, co_merged_into := Some keep,
     co_merged_at := Some (now env), co_deleted := Some (now env)\<rparr>"

definition fold_in :: "env \<Rightarrow> uuid \<Rightarrow> uuid \<Rightarrow> sys \<Rightarrow> svc_error + sys" where
  "fold_in env keep loser s =
     (if db_down env OpCountUsers then Inl (ErrDB OpCountUsers)
      else if live_users_of s loser > 0
      then Inl (ErrValidation ''another company with that tax number already has users'')
      else if db_down env OpLink then Inl (ErrDB OpLink)
      else if db_down env OpUnlink then Inl (ErrDB OpUnlink)
      else if db_down env OpMerge then Inl (ErrDB OpMerge)
      else Inr (s\<lparr>links := move_links keep loser (links s),
                  companies := sql_update (\<lambda>c. co_id c = loser) (retire env keep) (companies s)\<rparr>))"

text \<open>An UPDATE of companies fails when a row it wrote breaks a unique index.\<close>

definition write_companies :: "dbop \<Rightarrow> (company \<Rightarrow> bool) \<Rightarrow> (company \<Rightarrow> company) \<Rightarrow> sys \<Rightarrow> svc_error + sys" where
  "write_companies op hit f s =
     (let t = sql_update hit f (companies s) in
      if list_ex (\<lambda>c. hit c \<and> list_ex (\<lambda>d. co_id d \<noteq> co_id c \<and> companies_clash c d) t) t
      then Inl (ErrDB op) else Inr (s\<lparr>companies := t\<rparr>))"

definition claim_modules :: "string list" where
  "claim_modules = [''order'', ''agreement'', ''invoice'', ''shipment'', ''truck'', ''warehouse'',
     ''customer'', ''dashboard'', ''notification'', ''collaboration'', ''masterData'']"

definition claimant :: "env \<Rightarrow> claim_input \<Rightarrow> uuid \<Rightarrow> uuid \<Rightarrow> string \<Rightarrow> user" where
  "claimant env inp cid rid h =
     (blank_user 0 (Some cid))\<lparr>us_role := Some rid, us_password_hash := h,
       us_email := (if cl_email inp \<noteq> [] then Some (to_lower (trim_space (cl_email inp))) else None),
       us_phone := nil_if_empty (cl_phone inp), us_username := nil_if_empty (cl_username inp),
       us_full_name := nil_if_empty (cl_full_name inp), us_profile := [(''language'', ''id'')]\<rparr>"

definition put_settings :: "uuid \<Rightarrow> sys \<Rightarrow> sys" where
  "put_settings cid s =
     (if list_ex (\<lambda>r. ps_company r = cid \<and> ps_product r = product_tms) (settings s) then s
      else s\<lparr>settings := settings s @ [\<lparr>ps_company = cid, ps_product = product_tms, ps_mode = entitlement_grant\<rparr>]\<rparr>)"

text \<open>The row the link names, with the guards in the order of the code.\<close>

definition claimed_company :: "env \<Rightarrow> string \<Rightarrow> sys \<Rightarrow> svc_error + company" where
  "claimed_company env token s =
     (if db_down env OpLockCompany then Inl (ErrDB OpLockCompany)
      else case sql_first (holds_link env token) (companies s) of
        None \<Rightarrow> Inl ErrClaimNotFound
      | Some c \<Rightarrow>
          if claim_expired env c then Inl ErrClaimExpired
          else if db_down env OpCountUsers then Inl (ErrDB OpCountUsers)
          else if live_users_of s (co_id c) > 0 then Inl ErrAlreadyClaimed
          else Inr c)"

definition absorb_duplicate ::
  "env \<Rightarrow> string \<Rightarrow> uuid \<Rightarrow> sys \<Rightarrow> svc_error + (uuid option \<times> sys)" where
  "absorb_duplicate env npwp cid s =
     (if db_down env OpFindCompany then Inl (ErrDB OpFindCompany)
      else case sql_first (\<lambda>c. same_tax_id npwp c \<and> co_id c \<noteq> cid \<and> company_live c)
                  (sort_key co_id (companies s)) of
        None \<Rightarrow> Inr (None, s)
      | Some d \<Rightarrow>
          (case fold_in env cid (co_id d) s of
             Inl e \<Rightarrow> Inl e
           | Inr s1 \<Rightarrow> Inr (Some (co_id d), s1)))"

text \<open>INSERT INTO roles ... ON CONFLICT DO UPDATE ... RETURNING id.\<close>

definition administrator_of :: "env \<Rightarrow> uuid \<Rightarrow> sys \<Rightarrow> svc_error + (role \<times> sys)" where
  "administrator_of env cid s =
     (let s1 = upsert_administrator env cid s in
      case sql_first (\<lambda>r. ro_company r = cid \<and> ro_name r = administrator_role_name) (roles s1) of
        None \<Rightarrow> Inl (ErrDB OpEnsureAdmin)
      | Some r \<Rightarrow> if db_down env OpEnsureAdmin then Inl (ErrDB OpEnsureAdmin) else Inr (r, s1))"

definition claim_tx :: "env \<Rightarrow> claim_input \<Rightarrow> string \<Rightarrow> sys \<Rightarrow> svc_error + (claim_result \<times> sys)" where
  "claim_tx env inp h s =
     (case claimed_company env (cl_token inp) s of
        Inl e \<Rightarrow> Inl e
      | Inr c \<Rightarrow>
     (case absorb_duplicate env (cl_npwp inp) (co_id c) s of
        Inl e \<Rightarrow> Inl e
      | Inr r1 \<Rightarrow>
     (if db_down env OpClaim then Inl (ErrDB OpClaim)
      else case write_companies OpClaim (\<lambda>d. co_id d = co_id c)
                  (\<lambda>d. d\<lparr>co_npwp := Some (cl_npwp inp), co_claim_hash := None, co_claim_expires := None\<rparr>) (snd r1) of
        Inl e \<Rightarrow> Inl e
      | Inr s2 \<Rightarrow>
     (case administrator_of env (co_id c) s2 of
        Inl e \<Rightarrow> Inl e
      | Inr r3 \<Rightarrow>
     (case create_user env (claimant env inp (co_id c) (ro_id (fst r3)) h) (snd r3) of
        Inl e \<Rightarrow> Inl (if e = ErrConflict
          then ErrValidation ''an account with those details already exists'' else e)
      | Inr r4 \<Rightarrow>
     (case grant_defaults env (co_id c) product_tms claim_modules (snd r4) of
        Inl e \<Rightarrow> Inl e
      | Inr s5 \<Rightarrow>
          if db_down env OpModes then Inl (ErrDB OpModes)
          else Inr (\<lparr>cr_company = co_id c, cr_user = us_id (fst r4), cr_role = ro_id (fst r3),
                     cr_duplicate = fst r1\<rparr>, put_settings (co_id c) s5)))))))"

definition claim :: "env \<Rightarrow> claim_input \<Rightarrow> sys \<Rightarrow> (svc_error + claim_result) \<times> sys" where
  "claim env inp s =
     (if trim_space (cl_npwp inp) = [] \<or> normalise_tax_id (cl_npwp inp) = [] then (Inl ErrNPWPRequired, s)
      else if cl_email inp = [] \<and> cl_phone inp = [] \<and> cl_username inp = []
      then (Inl (ErrValidation ''one of email, phone or username is required''), s)
      else case validate_password_strength (cl_password inp) of
        Inl _ \<Rightarrow> (Inl (ErrValidation ''password''), s)
      | Inr _ \<Rightarrow>
          (case hash_password env (cl_password inp) of
             Inl e \<Rightarrow> (Inl e, s)
           | Inr h \<Rightarrow>
               (case transaction env (claim_tx env inp h) s of
                  (Inl e, s1) \<Rightarrow> (Inl e, s1)
                | (Inr r, s1) \<Rightarrow>
                    (Inr r, write_audit env ((blank_audit env)\<lparr>au_user := Some (cr_user r),
                       au_event := ''claim.completed'',
                       au_detail := [(''companyId'', uuid_string env (cr_company r))]\<rparr>) s1))))"

section \<open>Merging\<close>

record merge_result =
  mr_survivor :: uuid
  mr_merged :: uuid
  mr_users_moved :: nat
  mr_links_moved :: nat

definition or_else :: "'a option \<Rightarrow> 'a option \<Rightarrow> 'a option" where
  "or_else a b = (case a of None \<Rightarrow> b | Some _ \<Rightarrow> a)"

definition carry_over :: "company \<Rightarrow> company \<Rightarrow> company" where
  "carry_over d c = c\<lparr>co_npwp := or_else (co_npwp c) (co_npwp d), co_nib := or_else (co_nib c) (co_nib d),
     co_address := or_else (co_address c) (co_address d), co_city_id := or_else (co_city_id c) (co_city_id d),
     co_bank_account := or_else (co_bank_account c) (co_bank_account d)\<rparr>"

text \<open>The locked rows and the guards.\<close>

definition merge_pair :: "env \<Rightarrow> uuid \<Rightarrow> uuid \<Rightarrow> sys \<Rightarrow> svc_error + (company \<times> company)" where
  "merge_pair env surv dup s =
     (if db_down env OpLockCompany then Inl (ErrDB OpLockCompany)
      else case (sql_first (\<lambda>c. co_id c = surv) (companies s), sql_first (\<lambda>c. co_id c = dup) (companies s)) of
        (Some c, Some d) \<Rightarrow>
          if co_merged_into d \<noteq> None then Inl ErrAlreadyMerged
          else if co_merged_into c \<noteq> None then Inl ErrAlreadyMerged
          else if db_down env OpCountUsers then Inl (ErrDB OpCountUsers)
          else if live_users_of s dup > 0 \<and> live_users_of s surv > 0 then Inl ErrSurvivorHasUsers
          else Inr (c, d)
      | _ \<Rightarrow> Inl (ErrValidation ''one of the companies does not exist''))"

definition merge_tx :: "env \<Rightarrow> uuid \<Rightarrow> uuid \<Rightarrow> sys \<Rightarrow> svc_error + (merge_result \<times> sys)" where
  "merge_tx env surv dup s =
     (case merge_pair env surv dup s of
        Inl e \<Rightarrow> Inl e
      | Inr cd \<Rightarrow>
          if db_down env OpMerge then Inl (ErrDB OpMerge)
          else let theirs = (\<lambda>u. us_company u = Some dup);
                   moved = map (\<lambda>l. l\<lparr>li_shipper := surv\<rparr>) (filter (\<lambda>l. li_shipper l = dup) (links s));
                   s1 = s\<lparr>users := sql_update theirs (\<lambda>u. u\<lparr>us_company := Some surv\<rparr>) (users s),
                          links := move_links surv dup (links s),
                          companies := sql_update (\<lambda>c. co_id c = dup) (retire env surv) (companies s)\<rparr>
            in case write_companies OpMerge (\<lambda>c. co_id c = surv) (carry_over (snd cd)) s1 of
                 Inl e \<Rightarrow> Inl e
               | Inr s2 \<Rightarrow>
                   Inr (\<lparr>mr_survivor = surv, mr_merged = dup, mr_users_moved = sql_count theirs (users s),
                          mr_links_moved = length (add_links moved (links s)) - length (links s)\<rparr>, s2))"

definition merge_companies ::
  "env \<Rightarrow> uuid \<Rightarrow> uuid \<Rightarrow> uuid option \<Rightarrow> sys \<Rightarrow> (svc_error + merge_result) \<times> sys" where
  "merge_companies env surv dup actor s =
     (if surv = dup then (Inl ErrMergeIntoSelf, s)
      else case transaction env (merge_tx env surv dup) s of
        (Inl e, s1) \<Rightarrow> (Inl e, s1)
      | (Inr r, s1) \<Rightarrow>
          (Inr r, write_audit env ((blank_audit env)\<lparr>au_actor := actor, au_event := ''company.merged'',
             au_detail := [(''survivorId'', uuid_string env surv), (''mergedId'', uuid_string env dup)]\<rparr>) s1))"

definition resolve_company :: "env \<Rightarrow> uuid \<Rightarrow> sys \<Rightarrow> svc_error + uuid" where
  "resolve_company env cid s =
     (if db_down env OpFindCompany then Inl (ErrDB OpFindCompany)
      else Inr (case sql_first (\<lambda>c. co_id c = cid) (companies s) of
         None \<Rightarrow> cid
       | Some c \<Rightarrow> (case co_merged_into c of None \<Rightarrow> cid | Some t \<Rightarrow> t)))"

section \<open>Tax numbers identify companies\<close>

definition tax_ids_unique :: "sys \<Rightarrow> bool" where
  "tax_ids_unique s \<longleftrightarrow> (\<forall>c \<in> set (companies s). \<forall>d \<in> set (companies s). co_id c \<noteq> co_id d \<longrightarrow> \<not> companies_clash c d)"

lemma clash_commute: "companies_clash c d = companies_clash d c"
  by (auto simp: companies_clash_def tax_ids_clash_def split: option.splits)

lemma retire_simps [simp]:
  "co_id (retire env k c) = co_id c" "\<not> company_live (retire env k c)"
  "co_merged_into (retire env k c) = Some k" "co_claim_hash (retire env k c) = co_claim_hash c"
  "co_name (retire env k c) = co_name c"
  by (simp_all add: retire_def company_live_def)

lemma retire_no_clash [simp]: "\<not> companies_clash (retire env k c) d" "\<not> companies_clash d (retire env k c)"
  by (auto simp: companies_clash_def)

lemma write_companies_Inr:
  "write_companies op hit f s = Inr s' \<longleftrightarrow> s' = s\<lparr>companies := sql_update hit f (companies s)\<rparr> \<and>
     (\<forall>c \<in> set (sql_update hit f (companies s)). hit c \<longrightarrow>
        (\<forall>d \<in> set (sql_update hit f (companies s)). co_id d \<noteq> co_id c \<longrightarrow> \<not> companies_clash c d))"
  by (auto simp: write_companies_def Let_def list_ex_iff)

text \<open>A write keeps the invariant: rows it did not touch by the invariant, rows it did by the index.\<close>

lemma write_keeps_unique:
  assumes "tax_ids_unique s" "write_companies op hit f s = Inr s'" "\<And>c. hit c \<Longrightarrow> hit (f c)"
  shows "tax_ids_unique s'"
  unfolding tax_ids_unique_def
proof (intro ballI impI)
  fix c d assume c: "c \<in> set (companies s')" and d: "d \<in> set (companies s')" and ne: "co_id c \<noteq> co_id d"
  have s': "companies s' = sql_update hit f (companies s)"
    and free: "\<And>c d. c \<in> set (companies s') \<Longrightarrow> hit c \<Longrightarrow> d \<in> set (companies s') \<Longrightarrow> co_id d \<noteq> co_id c \<Longrightarrow>
      \<not> companies_clash c d"
    using assms(2) unfolding write_companies_Inr by simp_all
  have old: "x \<in> set (companies s)" if x: "x \<in> set (companies s')" "\<not> hit x" for x
  proof -
    obtain w where w: "w \<in> set (companies s)" "x = (if hit w then f w else w)"
      using x(1) unfolding s' by (rule sql_update_row)
    then show ?thesis using x(2) assms(3) by (auto split: if_splits)
  qed
  show "\<not> companies_clash c d"
  proof (cases "hit c \<or> hit d")
    case True
    then show ?thesis using free [OF c _ d] free [OF d _ c] ne clash_commute [of c d] by auto
  next
    case False
    have "c \<in> set (companies s)" "d \<in> set (companies s)"
      using old c d False by blast+
    then show ?thesis using assms(1) ne by (auto simp: tax_ids_unique_def)
  qed
qed

lemma retire_keeps_unique:
  assumes "tax_ids_unique s" "companies s' = sql_update (\<lambda>c. co_id c = loser) (retire env k) (companies s)"
  shows "tax_ids_unique s'"
  unfolding tax_ids_unique_def
proof (intro ballI impI)
  fix c d assume c: "c \<in> set (companies s')" and d: "d \<in> set (companies s')" and ne: "co_id c \<noteq> co_id d"
  obtain c0 where c0: "c0 \<in> set (companies s)" "c = (if co_id c0 = loser then retire env k c0 else c0)"
    using c unfolding assms(2) by (rule sql_update_row)
  obtain d0 where d0: "d0 \<in> set (companies s)" "d = (if co_id d0 = loser then retire env k d0 else d0)"
    using d unfolding assms(2) by (rule sql_update_row)
  show "\<not> companies_clash c d"
    using assms(1) c0 d0 ne by (auto simp: tax_ids_unique_def split: if_splits)
qed

lemma tax_ids_cong: "companies s' = companies s \<Longrightarrow> tax_ids_unique s' = tax_ids_unique s"
  by (simp add: tax_ids_unique_def)

lemma create_company_fresh:
  "create_company env False c0 s = Inr (c, s') \<Longrightarrow> \<not> list_ex (companies_clash c0) (companies s)"
  by (auto simp: create_company_def Let_def list_ex_iff split: if_splits)

lemma create_keeps_unique:
  assumes "tax_ids_unique s" "create_company env False c0 s = Inr (c, s')"
  shows "tax_ids_unique s'"
proof -
  have c: "c = (before_create c0)\<lparr>co_id := gen_uuid env (draws s)\<rparr>" "companies s' = companies s @ [c]"
    using create_company_Inr [OF assms(2)] by auto
  have "companies_clash c d = companies_clash c0 d" for d
    by (simp add: c(1) companies_clash_def company_live_def)
  then have "\<not> companies_clash c d \<and> \<not> companies_clash d c" if "d \<in> set (companies s)" for d
    using create_company_fresh [OF assms(2)] that clash_commute [of c d] by (auto simp: list_ex_iff)
  then show ?thesis
    using assms(1) unfolding tax_ids_unique_def c(2) by auto
qed

lemma link_shipper_Inr:
  "link_shipper env t i a s = Inr s' \<Longrightarrow>
     s' = s\<lparr>links := add_link \<lparr>li_transporter = t, li_shipper = i,
       li_by = (if a = uuid_nil then None else Some a)\<rparr> (links s)\<rparr>"
  by (auto simp: link_shipper_def split: if_splits)

lemma fold_in_Inr:
  "fold_in env k l s = Inr s' \<Longrightarrow> live_users_of s l = 0 \<and>
     s' = s\<lparr>links := move_links k l (links s),
            companies := sql_update (\<lambda>c. co_id c = l) (retire env k) (companies s)\<rparr>"
  by (auto simp: fold_in_def split: if_splits)

lemma absorb_Inr:
  assumes "absorb_duplicate env npwp cid s = Inr (d, s')"
  shows "users s' = users s \<and> roles s' = roles s \<and> modules s' = modules s \<and> settings s' = settings s \<and> draws s' = draws s \<and>
    (d = None \<longrightarrow> s' = s) \<and>
    (\<forall>l. d = Some l \<longrightarrow> l \<noteq> cid \<and> live_users_of s l = 0 \<and>
       links s' = move_links cid l (links s) \<and>
       companies s' = sql_update (\<lambda>c. co_id c = l) (retire env cid) (companies s))"
proof (cases d)
  case (Some l)
  then have "fold_in env cid l s = Inr s'" "l \<noteq> cid"
    using assms by (auto simp: absorb_duplicate_def split: if_splits option.splits sum.splits dest!: sql_first_Some)
  then show ?thesis using Some by (auto dest!: fold_in_Inr)
qed (use assms in \<open>auto simp: absorb_duplicate_def split: if_splits option.splits sum.splits\<close>)

lemma claim_tx_Inr:
  assumes "claim_tx env inp h s = Inr (r, s')"
  obtains c d s1 s2 ro s3 v s4 where "claimed_company env (cl_token inp) s = Inr c"
    "absorb_duplicate env (cl_npwp inp) (co_id c) s = Inr (d, s1)"
    "write_companies OpClaim (\<lambda>d. co_id d = co_id c)
       (\<lambda>d. d\<lparr>co_npwp := Some (cl_npwp inp), co_claim_hash := None, co_claim_expires := None\<rparr>) s1 = Inr s2"
    "administrator_of env (co_id c) s2 = Inr (ro, s3)"
    "create_user env (claimant env inp (co_id c) (ro_id ro) h) s3 = Inr (v, s4)"
    "s' = put_settings (co_id c) (s4\<lparr>modules := insert_defaults (co_id c) product_tms claim_modules (modules s4)\<rparr>)"
    "r = \<lparr>cr_company = co_id c, cr_user = us_id v, cr_role = ro_id ro, cr_duplicate = d\<rparr>"
  using assms unfolding claim_tx_def
  by (auto split: sum.splits if_splits dest!: grant_defaults_Inr)

lemma put_settings_keeps [simp]:
  "users (put_settings c s) = users s" "companies (put_settings c s) = companies s" "roles (put_settings c s) = roles s"
  "modules (put_settings c s) = modules s" "links (put_settings c s) = links s"
  by (simp_all add: put_settings_def)

lemma create_user_Inr:
  "create_user env u0 s = Inr (u, s') \<Longrightarrow>
     u = u0\<lparr>us_id := gen_uuid env (draws s), us_created := now env\<rparr> \<and>
     s' = s\<lparr>users := users s @ [u], draws := Suc (draws s)\<rparr>"
  by (auto simp: create_user_def Let_def split: if_splits)

lemma upsert_administrator_keeps [simp]:
  "users (upsert_administrator env c s) = users s" "companies (upsert_administrator env c s) = companies s"
  "modules (upsert_administrator env c s) = modules s" "settings (upsert_administrator env c s) = settings s"
  "links (upsert_administrator env c s) = links s"
  by (simp_all add: upsert_administrator_def)

lemma upsert_row:
  "r \<in> set (sql_upsert conflict f k t) \<Longrightarrow> conflict r \<Longrightarrow> (\<And>w. P (f w)) \<Longrightarrow> P k \<Longrightarrow> P r"
  by (auto simp: sql_upsert_def list_ex_iff sql_update_def split: if_splits)

lemma administrator_of_Inr:
  assumes "administrator_of env c s = Inr (r, s')"
  shows "s' = upsert_administrator env c s \<and> r \<in> set (roles s') \<and> ro_company r = c \<and> ro_grants_all r"
proof -
  have s': "s' = upsert_administrator env c s"
    and r: "sql_first (\<lambda>r. ro_company r = c \<and> ro_name r = administrator_role_name) (roles s') = Some r"
    using assms by (auto simp: administrator_of_def Let_def split: option.splits if_splits)
  have m: "r \<in> set (roles s')" "ro_company r = c" "ro_name r = administrator_role_name"
    using sql_first_Some [OF r] by auto
  have "ro_grants_all r"
    by (rule upsert_row [OF m(1) [unfolded s' upsert_administrator_def, simplified]]) (use m(2,3) in simp_all)
  then show ?thesis using s' m by blast
qed

lemma claim_Inr:
  assumes "claim env inp s = (Inr r, s')"
  obtains h s1 where "claim_tx env inp h s = Inr (r, s1)" "bcrypt_hash env (cl_password inp) = Some h"
    "users s' = users s1" "companies s' = companies s1" "roles s' = roles s1" "links s' = links s1"
    "modules s' = modules s1" "settings s' = settings s1" "normalise_tax_id (cl_npwp inp) \<noteq> []"
proof -
  obtain h where "hash_password env (cl_password inp) = Inr h" "normalise_tax_id (cl_npwp inp) \<noteq> []"
    using assms by (auto simp: claim_def split: if_splits sum.splits)
  moreover from this obtain s1 where "transaction env (claim_tx env inp h) s = (Inr r, s1)"
    "s' = write_audit env ((blank_audit env)\<lparr>au_user := Some (cr_user r),
       au_event := ''claim.completed'', au_detail := [(''companyId'', uuid_string env (cr_company r))]\<rparr>) s1"
    using assms by (auto simp: claim_def split: if_splits sum.splits prod.splits)
  ultimately show ?thesis
    using that by (auto simp: transaction_Inr hash_password_def split: option.splits)
qed

section \<open>Merging, step by step\<close>

lemma transaction_result:
  "transaction env f s = (r, s') \<Longrightarrow> (case r of Inl _ \<Rightarrow> s' = s | Inr v \<Rightarrow> f s = Inr (v, s'))"
  by (auto simp: transaction_def split: sum.splits if_splits)

lemma merge_tx_Inr:
  assumes "merge_tx env surv dup s = Inr (r, s')"
  obtains c d where "merge_pair env surv dup s = Inr (c, d)"
    "write_companies OpMerge (\<lambda>c. co_id c = surv) (carry_over d)
       (s\<lparr>users := sql_update (\<lambda>u. us_company u = Some dup) (\<lambda>u. u\<lparr>us_company := Some surv\<rparr>) (users s),
          links := move_links surv dup (links s),
          companies := sql_update (\<lambda>c. co_id c = dup) (retire env surv) (companies s)\<rparr>) = Inr s'"
  using assms unfolding merge_tx_def Let_def by (auto split: sum.splits if_splits)

lemma merge_pair_Inr:
  assumes "merge_pair env surv dup s = Inr (c, d)"
  shows "c \<in> set (companies s) \<and> co_id c = surv \<and> d \<in> set (companies s) \<and> co_id d = dup \<and>
     co_merged_into c = None \<and> co_merged_into d = None \<and> (live_users_of s dup = 0 \<or> live_users_of s surv = 0)"
  using assms by (auto simp: merge_pair_def split: if_splits option.splits dest!: sql_first_Some)

lemma merge_Inr:
  assumes "merge_companies env surv dup actor s = (Inr r, s')"
  obtains c d s1 where "merge_pair env surv dup s = Inr (c, d)" "surv \<noteq> dup"
    "users s' = sql_update (\<lambda>u. us_company u = Some dup) (\<lambda>u. u\<lparr>us_company := Some surv\<rparr>) (users s)"
    "links s' = move_links surv dup (links s)" "roles s' = roles s"
    "companies s' = sql_update (\<lambda>c. co_id c = surv) (carry_over d)
       (sql_update (\<lambda>c. co_id c = dup) (retire env surv) (companies s))"
proof -
  obtain s1 where s1: "merge_tx env surv dup s = Inr (r, s1)" "surv \<noteq> dup"
    "users s' = users s1" "links s' = links s1" "companies s' = companies s1" "roles s' = roles s1"
    using assms by (auto simp: merge_companies_def transaction_Inr split: if_splits sum.splits prod.splits)
  obtain c d where cd: "merge_pair env surv dup s = Inr (c, d)"
    "write_companies OpMerge (\<lambda>c. co_id c = surv) (carry_over d)
       (s\<lparr>users := sql_update (\<lambda>u. us_company u = Some dup) (\<lambda>u. u\<lparr>us_company := Some surv\<rparr>) (users s),
          links := move_links surv dup (links s),
          companies := sql_update (\<lambda>c. co_id c = dup) (retire env surv) (companies s)\<rparr>) = Inr s1"
    using merge_tx_Inr [OF s1(1)] .
  show ?thesis
    by (rule that [OF cd(1) s1(2)]) (use cd(2) s1(3-6) in \<open>simp_all add: write_companies_Inr\<close>)
qed

lemma carry_over_simps [simp]:
  "co_id (carry_over d c) = co_id c" "company_live (carry_over d c) = company_live c"
  "co_merged_into (carry_over d c) = co_merged_into c" "co_claim_hash (carry_over d c) = co_claim_hash c"
  by (simp_all add: carry_over_def company_live_def)

section \<open>Properties\<close>

lemma create_shipper_keeps_unique:
  assumes "tax_ids_unique s" "create_shipper env t a si s = (r1, s')"
  shows "tax_ids_unique s'"
proof -
  have "s' = s \<or> (\<exists>r. create_shipper_tx env t a (clean_shipper_input si) s = Inr (r, s'))"
    using assms(2) by (auto simp: create_shipper_def Let_def transaction_def split: if_splits sum.splits)
  moreover have "tax_ids_unique s'" if "create_shipper_tx env t a i s = Inr (r, s')" for i r
  proof -
    have "companies s' = companies s \<or>
        (\<exists>c s1. create_company env False (shipper_company t i) s = Inr (c, s1) \<and> companies s' = companies s1)"
      using that by (auto simp: create_shipper_tx_def split: sum.splits option.splits dest!: link_shipper_Inr)
    then show ?thesis using assms(1) create_keeps_unique tax_ids_cong by metis
  qed
  ultimately show ?thesis using assms(1) by blast
qed

lemma claim_keeps_unique:
  assumes "tax_ids_unique s" "claim env ci s = (r2, s')"
  shows "tax_ids_unique s'"
proof (cases r2)
  case (Inl e)
  then have "s' = s"
    using assms(2) by (auto simp: claim_def transaction_def split: if_splits sum.splits prod.splits)
  then show ?thesis using assms(1) by simp
next
  case (Inr r)
  then obtain h s1 where tx: "claim_tx env ci h s = Inr (r, s1)" "companies s' = companies s1"
    using assms(2) by (auto elim: claim_Inr)
  obtain x d s2 s3 ro s4 v s5 where "claimed_company env (cl_token ci) s = Inr x"
    and w: "absorb_duplicate env (cl_npwp ci) (co_id x) s = Inr (d, s2)"
    "write_companies OpClaim (\<lambda>d. co_id d = co_id x)
       (\<lambda>d. d\<lparr>co_npwp := Some (cl_npwp ci), co_claim_hash := None, co_claim_expires := None\<rparr>) s2 = Inr s3"
    "administrator_of env (co_id x) s3 = Inr (ro, s4)"
    "create_user env (claimant env ci (co_id x) (ro_id ro) h) s4 = Inr (v, s5)"
    "s1 = put_settings (co_id x) (s5\<lparr>modules := insert_defaults (co_id x) product_tms claim_modules (modules s5)\<rparr>)"
    "r = \<lparr>cr_company = co_id x, cr_user = us_id v, cr_role = ro_id ro, cr_duplicate = d\<rparr>"
    using claim_tx_Inr [OF tx(1)] .
  have "tax_ids_unique s2"
    using absorb_Inr [OF w(1)] retire_keeps_unique [OF assms(1)] assms(1) by (cases d) auto
  from write_keeps_unique [OF this w(2)] have "tax_ids_unique s3" by simp
  moreover have "companies s' = companies s3"
    using tx(2) w(5) create_user_Inr [OF w(4)] administrator_of_Inr [OF w(3)] by simp
  ultimately show ?thesis using tax_ids_cong by metis
qed

lemma merge_keeps_unique:
  assumes "tax_ids_unique s" "merge_companies env surv dup act s = (r3, s')"
  shows "tax_ids_unique s'"
proof -
  consider "s' = s" | r s1 where "merge_tx env surv dup s = Inr (r, s1)" "companies s' = companies s1"
    using assms(2) by (auto simp: merge_companies_def transaction_def split: if_splits sum.splits)
  then show ?thesis
  proof cases
    case 2
    obtain c d where "write_companies OpMerge (\<lambda>c. co_id c = surv) (carry_over d)
     (s\<lparr>users := sql_update (\<lambda>u. us_company u = Some dup) (\<lambda>u. u\<lparr>us_company := Some surv\<rparr>) (users s),
        links := move_links surv dup (links s),
        companies := sql_update (\<lambda>c. co_id c = dup) (retire env surv) (companies s)\<rparr>) = Inr s1"
      using merge_tx_Inr [OF 2(1)] .
    from write_keeps_unique [OF _ this] have "tax_ids_unique s1"
      using retire_keeps_unique [OF assms(1)] by simp
    then show ?thesis using 2(2) tax_ids_cong by metis
  qed (use assms(1) in simp)
qed


text \<open>What a claim has done: the company it took, the account it made, the companies it left.\<close>

lemma claim_effect:
  assumes "claim env inp s = (Inr r, s')"
  obtains c v ro where "c \<in> set (companies s)" "co_id c = cr_company r" "holds_link env (cl_token inp) c"
    "\<not> claim_expired env c" "live_users_of s (co_id c) = 0"
    "users s' = users s @ [v]" "us_id v = cr_user r" "us_company v = Some (cr_company r)"
    "bcrypt_hash env (cl_password inp) = Some (us_password_hash v)"
    "ro \<in> set (roles s')" "us_role v = Some (ro_id ro)" "ro_company ro = cr_company r" "ro_grants_all ro"
    "\<forall>x \<in> set (companies s'). co_id x = co_id c \<and> co_claim_hash x = None \<or>
       co_id x \<noteq> co_id c \<and> (\<exists>z \<in> set (companies s). co_id z = co_id x \<and> co_claim_hash z = co_claim_hash x)"
proof -
  obtain h s1 where tx: "claim_tx env inp h s = Inr (r, s1)" "bcrypt_hash env (cl_password inp) = Some h"
    "users s' = users s1" "companies s' = companies s1" "roles s' = roles s1"
    using assms by (rule claim_Inr)
  obtain c d s2 s3 ro s4 v s5 where w: "claimed_company env (cl_token inp) s = Inr c"
    "absorb_duplicate env (cl_npwp inp) (co_id c) s = Inr (d, s2)"
    "write_companies OpClaim (\<lambda>d. co_id d = co_id c)
       (\<lambda>d. d\<lparr>co_npwp := Some (cl_npwp inp), co_claim_hash := None, co_claim_expires := None\<rparr>) s2 = Inr s3"
    "administrator_of env (co_id c) s3 = Inr (ro, s4)"
    "create_user env (claimant env inp (co_id c) (ro_id ro) h) s4 = Inr (v, s5)"
    "s1 = put_settings (co_id c) (s5\<lparr>modules := insert_defaults (co_id c) product_tms claim_modules (modules s5)\<rparr>)"
    "r = \<lparr>cr_company = co_id c, cr_user = us_id v, cr_role = ro_id ro, cr_duplicate = d\<rparr>"
    using claim_tx_Inr [OF tx(1)] .
  note ab = absorb_Inr [OF w(2)] and ad = administrator_of_Inr [OF w(4)] and cu = create_user_Inr [OF w(5)]
  have s3: "s3 = s2\<lparr>companies := sql_update (\<lambda>d. co_id d = co_id c)
       (\<lambda>d. d\<lparr>co_npwp := Some (cl_npwp inp), co_claim_hash := None, co_claim_expires := None\<rparr>) (companies s2)\<rparr>"
    using w(3) unfolding write_companies_Inr by blast
  have v: "us_company v = Some (co_id c)" "us_role v = Some (ro_id ro)" "us_password_hash v = h"
    using cu by (simp_all add: claimant_def blank_user_def)
  show ?thesis
  proof (rule that [of c v ro])
    show "c \<in> set (companies s)" "holds_link env (cl_token inp) c" "\<not> claim_expired env c" "live_users_of s (co_id c) = 0"
      using w(1) by (auto simp: claimed_company_def split: if_splits option.splits dest!: sql_first_Some)
    show "users s' = users s @ [v]" using tx(3) w(6) cu ad ab s3 by simp
    show "ro \<in> set (roles s')" "ro_company ro = cr_company r" "ro_grants_all ro"
      using tx(5) w(6,7) cu conjunct2 [OF ad] by simp_all
    show "\<forall>x \<in> set (companies s'). co_id x = co_id c \<and> co_claim_hash x = None \<or>
       co_id x \<noteq> co_id c \<and> (\<exists>z \<in> set (companies s). co_id z = co_id x \<and> co_claim_hash z = co_claim_hash x)"
    proof
      fix x assume "x \<in> set (companies s')"
      moreover have "companies s' = companies s3" using tx(4) w(6) cu ad by simp
      ultimately obtain y where y: "y \<in> set (companies s2)" "x = (if co_id y = co_id c
          then y\<lparr>co_npwp := Some (cl_npwp inp), co_claim_hash := None, co_claim_expires := None\<rparr> else y)"
        unfolding s3 by (auto elim!: sql_update_row)
      have "\<exists>z \<in> set (companies s). co_id z = co_id y \<and> co_claim_hash z = co_claim_hash y" if "co_id y \<noteq> co_id c"
        using ab y(1) that by (cases d) (auto elim!: sql_update_row)
      with y(2) show "co_id x = co_id c \<and> co_claim_hash x = None \<or>
         co_id x \<noteq> co_id c \<and> (\<exists>z \<in> set (companies s). co_id z = co_id x \<and> co_claim_hash z = co_claim_hash x)" by auto
    qed
  qed (use tx(2) w(7) v in simp_all)
qed

lemma no_link_no_claim:
  assumes "sql_first (holds_link env (cl_token inp)) (companies s) = None"
  shows "\<not> is_ok (fst (claim env inp s))"
proof
  assume "is_ok (fst (claim env inp s))"
  then obtain r2 s9 where "claim env inp s = (Inr r2, s9)" by (metis is_ok_iff prod.collapse)
  then obtain h2 s8 where "claim_tx env inp h2 s = Inr (r2, s8)" by (rule claim_Inr)
  then obtain c2 where "claimed_company env (cl_token inp) s = Inr c2" by (rule claim_tx_Inr)
  then show False using assms by (auto simp: claimed_company_def split: if_splits)
qed

text \<open>
  C9. A claim hands the company over once: it succeeds only with the live, unexpired link
  of a company nobody is in; the company keeps its id and gains exactly one account, the
  claimant's, who holds an administrator role of that company and the given password; and
  the link is dead afterwards, for a preview as for a second claim.
\<close>
theorem claim_hands_over:
  assumes "claim env inp s = (Inr r, s')"
    "\<And>c d. c \<in> set (companies s) \<Longrightarrow> d \<in> set (companies s) \<Longrightarrow> co_claim_hash c \<noteq> None \<Longrightarrow>
       co_claim_hash d = co_claim_hash c \<Longrightarrow> co_id d = co_id c"
    "hash_token env2 = hash_token env" "\<not> db_down env2 OpFindCompany"
  shows "(\<exists>c \<in> set (companies s). co_id c = cr_company r \<and> holds_link env (cl_token inp) c \<and>
       \<not> claim_expired env c \<and> live_users_of s (co_id c) = 0) \<and>
     (\<exists>v q. users s' = users s @ [v] \<and> us_id v = cr_user r \<and> us_company v = Some (cr_company r) \<and>
       bcrypt_hash env (cl_password inp) = Some (us_password_hash v) \<and>
       q \<in> set (roles s') \<and> us_role v = Some (ro_id q) \<and> ro_company q = cr_company r \<and> ro_grants_all q) \<and>
     preview_claim env2 (cl_token inp) s' = Inl ErrClaimNotFound \<and>
     (\<forall>inp2. cl_token inp2 = cl_token inp \<longrightarrow> \<not> is_ok (fst (claim env2 inp2 s')))"
proof -
  obtain c v ro where c: "c \<in> set (companies s)" "co_id c = cr_company r" "holds_link env (cl_token inp) c"
    "\<not> claim_expired env c" "live_users_of s (co_id c) = 0"
    and v: "users s' = users s @ [v]" "us_id v = cr_user r" "us_company v = Some (cr_company r)"
    "bcrypt_hash env (cl_password inp) = Some (us_password_hash v)"
    and ro: "ro \<in> set (roles s')" "us_role v = Some (ro_id ro)" "ro_company ro = cr_company r" "ro_grants_all ro"
    and left: "\<forall>x \<in> set (companies s'). co_id x = co_id c \<and> co_claim_hash x = None \<or>
       co_id x \<noteq> co_id c \<and> (\<exists>z \<in> set (companies s). co_id z = co_id x \<and> co_claim_hash z = co_claim_hash x)"
    using claim_effect [OF assms(1)] .
  have "co_claim_hash x \<noteq> Some (hash_token env (cl_token inp))" if "x \<in> set (companies s')" for x
    using bspec [OF left that] assms(2) [OF c(1)] c(3) by (auto simp: holds_link_def)
  then have none: "sql_first (holds_link env2 (cl_token inp)) (companies s') = None"
    using assms(3) by (auto simp: sql_first_None holds_link_def)
  then have "preview_claim env2 (cl_token inp) s' = Inl ErrClaimNotFound"
    using assms(4) by (simp add: preview_claim_def)
  moreover have "\<not> is_ok (fst (claim env2 inp2 s'))" if "cl_token inp2 = cl_token inp" for inp2
    using none that by (intro no_link_no_claim) simp
  ultimately show ?thesis using c v ro by (intro conjI) auto
qed

definition claim_demo :: sys where
  "claim_demo = demo_tenant\<lparr>companies := [blank_company 5 ''Jaya'',
     (blank_company 6 ''Maju'')\<lparr>co_claim_hash := Some ''hlink'', co_claim_expires := Some (now demo_env + day)\<rparr>,
     (blank_company 9 ''Maju lama'')\<lparr>co_npwp := Some ''01.2''\<rparr>],
     links := [\<lparr>li_transporter = 5, li_shipper = 9, li_by = None\<rparr>]\<rparr>"

definition demo_claim :: claim_input where
  "demo_claim = \<lparr>cl_token = ''link'', cl_email = [], cl_phone = [], cl_username = '' ani'', cl_password = ''secret9'',
     cl_full_name = ''Ani'', cl_npwp = ''012''\<rparr>"

definition demo_claimed :: "(svc_error + claim_result) \<times> sys" where
  "demo_claimed = claim demo_env demo_claim claim_demo"

lemma demo_claim_runs: "\<exists>r. claim demo_env demo_claim claim_demo = (Inr r, snd demo_claimed) \<and>
    r = \<lparr>cr_company = 6, cr_user = 11, cr_role = 10, cr_duplicate = Some 9\<rparr>"
proof -
  have "fst (claim demo_env demo_claim claim_demo) = Inr \<lparr>cr_company = 6, cr_user = 11, cr_role = 10, cr_duplicate = Some 9\<rparr>"
    by code_simp
  then show ?thesis by (metis demo_claimed_def prod.collapse)
qed

lemma claim_demo_links:
  "c \<in> set (companies claim_demo) \<Longrightarrow> d \<in> set (companies claim_demo) \<Longrightarrow> co_claim_hash c \<noteq> None \<Longrightarrow>
     co_claim_hash d = co_claim_hash c \<Longrightarrow> co_id d = co_id c"
  by (auto simp: claim_demo_def blank_company_def)

theorem claim_hands_over_witness:
  "preview_claim demo_env ''link'' (snd demo_claimed) = Inl ErrClaimNotFound"
proof -
  obtain r where "claim demo_env demo_claim claim_demo = (Inr r, snd demo_claimed)" using demo_claim_runs by blast
  from claim_hands_over [OF this claim_demo_links refl demo_up(1)]
  have "preview_claim demo_env (cl_token demo_claim) (snd demo_claimed) = Inl ErrClaimNotFound" by blast
  then show ?thesis by (simp add: demo_claim_def)
qed


lemma add_link_iff:
  "(\<exists>l \<in> set (add_link k t). li_transporter l = a \<and> li_shipper l = b) \<longleftrightarrow>
     (li_transporter k = a \<and> li_shipper k = b) \<or> (\<exists>l \<in> set t. li_transporter l = a \<and> li_shipper l = b)"
  by (auto simp: add_link_def list_ex_iff)

lemma add_links_iff:
  "(\<exists>l \<in> set (add_links ks t). li_transporter l = a \<and> li_shipper l = b) \<longleftrightarrow>
     (\<exists>l \<in> set ks \<union> set t. li_transporter l = a \<and> li_shipper l = b)"
proof (induction ks arbitrary: t)
  case (Cons k ks)
  show ?case by (simp only: add_links.simps Cons.IH) (auto simp: add_link_iff bex_Un)
qed simp

text \<open>Whether two companies deal with each other.\<close>

definition linked :: "sys \<Rightarrow> uuid \<Rightarrow> uuid \<Rightarrow> bool" where
  "linked s a b = list_ex (\<lambda>l. li_transporter l = a \<and> li_shipper l = b) (links s)"

lemma move_links_iff:
  assumes "keep \<noteq> loser"
  shows "(\<exists>l \<in> set (move_links keep loser t). li_transporter l = a \<and> li_shipper l = b) \<longleftrightarrow>
    b \<noteq> loser \<and> (\<exists>l \<in> set t. li_transporter l = a \<and> (li_shipper l = b \<or> b = keep \<and> li_shipper l = loser))"
proof -
  let ?ks = "map (\<lambda>l. l\<lparr>li_shipper := keep\<rparr>) (filter (\<lambda>l. li_shipper l = loser) t)"
  have "(\<exists>l \<in> set (move_links keep loser t). li_transporter l = a \<and> li_shipper l = b) \<longleftrightarrow>
      b \<noteq> loser \<and> (\<exists>l \<in> set (add_links ?ks t). li_transporter l = a \<and> li_shipper l = b)"
    by (auto simp: move_links_def set_sql_delete)
  also have "\<dots> \<longleftrightarrow> b \<noteq> loser \<and> (\<exists>l \<in> set ?ks \<union> set t. li_transporter l = a \<and> li_shipper l = b)"
    unfolding add_links_iff ..
  also have "(\<exists>l \<in> set ?ks \<union> set t. li_transporter l = a \<and> li_shipper l = b) \<longleftrightarrow>
      (\<exists>l \<in> set t. li_transporter l = a \<and> (li_shipper l = b \<or> b = keep \<and> li_shipper l = loser))"
    by (simp add: bex_Un) blast
  finally show ?thesis .
qed


definition merge_demo :: sys where
  "merge_demo = demo_tenant\<lparr>companies := [blank_company 5 ''Jaya'', (blank_company 6 ''Maju'')\<lparr>co_npwp := Some ''012''\<rparr>,
     blank_company 9 ''Maju lama'', blank_company 12 ''Angkut''],
     links := [\<lparr>li_transporter = 12, li_shipper = 5, li_by = None\<rparr>]\<rparr>"

definition demo_merged :: sys where
  "demo_merged = snd (merge_companies demo_env 6 5 None merge_demo)"

lemma demo_merge_runs: "\<exists>r. merge_companies demo_env 6 5 None merge_demo = (Inr r, demo_merged)"
proof -
  have "is_ok (fst (merge_companies demo_env 6 5 None merge_demo))" by code_simp
  then show ?thesis unfolding demo_merged_def is_ok_iff by (metis prod.collapse)
qed


text \<open>
  A recorded shipper is linked: when the call returns a company, it is a live row of
  the table linked to the transporter; when its tax number was known the table of
  companies is unchanged, otherwise one shipper was added, which names the transporter as
  its creator; and no other relation changed.
\<close>
theorem recorded_shipper_linked:
  assumes "create_shipper env t a inp s = (Inr r, s')"
  shows "sr_company r \<in> set (companies s') \<and> company_live (sr_company r) \<and>
     (\<forall>x y. linked s' x y \<longleftrightarrow> linked s x y \<or> x = t \<and> y = co_id (sr_company r)) \<and>
     (if sr_existing r
      then companies s' = companies s \<and> (\<exists>v. cs_npwp inp = Some v \<and> same_tax_id v (sr_company r))
      else companies s' = companies s @ [sr_company r] \<and> co_role (sr_company r) = ''shipper'' \<and>
        co_created_by (sr_company r) = Some t \<and> co_name (sr_company r) = trim_space (cs_name inp))"
proof -
  let ?i = "clean_shipper_input inp"
  have "create_shipper_tx env t a ?i s = Inr (r, s')"
    using assms by (auto simp: create_shipper_def Let_def transaction_Inr split: if_splits)
  then consider (old) v where "cs_npwp ?i = Some v"
      "sql_first (\<lambda>c. same_tax_id v c \<and> company_live c) (sort_key co_id (companies s)) = Some (sr_company r)"
      "link_shipper env t (co_id (sr_company r)) a s = Inr s'" "sr_existing r"
    | (new) s1 where "create_company env False (shipper_company t ?i) s = Inr (sr_company r, s1)"
      "link_shipper env t (co_id (sr_company r)) a s1 = Inr s'" "\<not> sr_existing r"
    by (auto simp: create_shipper_tx_def find_by_tax_id_def split: sum.splits option.splits if_splits)
  then show ?thesis
  proof cases
    case old
    have "sr_company r \<in> set (companies s)" "same_tax_id v (sr_company r)" "company_live (sr_company r)"
      using sql_first_Some [OF old(2)] by auto
    then show ?thesis
      using link_shipper_Inr [OF old(3)] old(1,4)
      by (auto simp: linked_def list_ex_iff add_link_iff clean_shipper_input_def)
  next
    case new
    note c = create_company_Inr [OF new(1)]
    have "co_role (sr_company r) = ''shipper''" "co_created_by (sr_company r) = Some t"
      "co_name (sr_company r) = trim_space (cs_name inp)" "company_live (sr_company r)"
      using c by (simp_all add: shipper_company_def clean_shipper_input_def blank_company_def company_live_def)
    moreover have "links s1 = links s" "companies s1 = companies s @ [sr_company r]" using c by simp_all
    ultimately show ?thesis
      using link_shipper_Inr [OF new(2)] new(3)
      by (auto simp: linked_def list_ex_iff add_link_iff)
  qed
qed

definition demo_shipper :: create_shipper_input where
  "demo_shipper = \<lparr>cs_name = '' Sinar '', cs_abbreviation = None, cs_entity_type = [], cs_npwp = Some ''0-1-2'', cs_nib = None,
     cs_address = None, cs_city_id = None, cs_phone = None, cs_pic_name = Some '' Ani'', cs_industry_sector = None\<rparr>"

theorem recorded_shipper_linked_witness:
  "\<exists>r s'. create_shipper demo_env 12 2 demo_shipper merge_demo = (Inr r, s') \<and> sr_existing r \<and> linked s' 12 6"
proof -
  obtain r s' where run: "create_shipper demo_env 12 2 demo_shipper merge_demo = (r, s')"
    by (cases "create_shipper demo_env 12 2 demo_shipper merge_demo")
  moreover have "(case fst (create_shipper demo_env 12 2 demo_shipper merge_demo) of Inl _ \<Rightarrow> False
      | Inr r \<Rightarrow> sr_existing r \<and> co_id (sr_company r) = 6)" by code_simp
  ultimately obtain q where q: "r = Inr q" "sr_existing q" "co_id (sr_company q) = 6" by (cases r) auto
  show ?thesis
    using recorded_shipper_linked [OF run [unfolded q(1)]] run q by auto
qed

text \<open>
  Resolution follows one hop.  That is enough as long as nobody points at the duplicate of
  a merge: then every id still resolves to a company that was not merged away.
\<close>

definition one_hop :: "sys \<Rightarrow> bool" where
  "one_hop s \<longleftrightarrow> (\<forall>c \<in> set (companies s). \<forall>d \<in> set (companies s).
     co_merged_into c = Some (co_id d) \<longrightarrow> co_merged_into d = None)"

text \<open>
  One hop stays enough: a merge into which nobody was merged before keeps the forwarding
  pointers one hop long.
\<close>
theorem merge_keeps_one_hop:
  assumes "merge_companies env surv dup actor s = (Inr r, s')" "one_hop s" "inj_on co_id (set (companies s))"
    "\<And>c. c \<in> set (companies s) \<Longrightarrow> co_merged_into c \<noteq> Some dup"
  shows "one_hop s'"
proof -
  obtain c d where m: "merge_pair env surv dup s = Inr (c, d)" "surv \<noteq> dup"
    "users s' = sql_update (\<lambda>u. us_company u = Some dup) (\<lambda>u. u\<lparr>us_company := Some surv\<rparr>) (users s)"
    "links s' = move_links surv dup (links s)" "roles s' = roles s"
    "companies s' = sql_update (\<lambda>c. co_id c = surv) (carry_over d)
       (sql_update (\<lambda>c. co_id c = dup) (retire env surv) (companies s))"
    using merge_Inr [OF assms(1)] .
  note p = merge_pair_Inr [OF m(1)]
  have row: "\<exists>y \<in> set (companies s). co_id x = co_id y \<and>
      co_merged_into x = (if co_id y = dup then Some surv else co_merged_into y)" if "x \<in> set (companies s')" for x
    using that m(2) unfolding m(6) by (auto elim!: sql_update_row)
  show ?thesis
    unfolding one_hop_def
  proof (intro ballI impI)
    fix x z assume x: "x \<in> set (companies s')" and z: "z \<in> set (companies s')" and i: "co_merged_into x = Some (co_id z)"
    obtain y where y: "y \<in> set (companies s)" "co_id x = co_id y"
      "co_merged_into x = (if co_id y = dup then Some surv else co_merged_into y)" using row [OF x] by blast
    obtain w where w: "w \<in> set (companies s)" "co_id z = co_id w"
      "co_merged_into z = (if co_id w = dup then Some surv else co_merged_into w)" using row [OF z] by blast
    show "co_merged_into z = None"
    proof (cases "co_id y = dup")
      case True
      then have "w = c" using i y(3) w(1,2) p assms(3) by (auto simp: inj_on_def)
      then show ?thesis using w(3) p m(2) by auto
    next
      case False
      then have into: "co_merged_into y = Some (co_id w)" using i y(3) w(2) by simp
      then have "co_id w \<noteq> dup" using assms(4) [OF y(1)] by auto
      moreover have "co_merged_into w = None" using into assms(2) y(1) w(1) unfolding one_hop_def by blast
      ultimately show ?thesis using w(3) by simp
    qed
  qed
qed

theorem merge_keeps_one_hop_witness: "one_hop demo_merged"
proof -
  obtain r where r: "merge_companies demo_env 6 5 None merge_demo = (Inr r, demo_merged)" using demo_merge_runs by blast
  have d: "inj_on co_id (set (companies merge_demo))" by (simp add: merge_demo_def blank_company_def)
  have "one_hop merge_demo" by (simp add: one_hop_def merge_demo_def blank_company_def)
  show ?thesis
    by (rule merge_keeps_one_hop [OF r \<open>one_hop merge_demo\<close> d]) (auto simp: merge_demo_def blank_company_def)
qed

section \<open>What the code does not promise\<close>

text \<open>
  The guard is missing: a company others were merged into can itself be merged away, and
  then the first duplicate resolves to a company that is gone.
\<close>

lemma merge_builds_chain:
  "(case merge_companies demo_env 9 6 None (snd (merge_companies demo_env 6 5 None merge_demo)) of (r, s') \<Rightarrow>
     is_ok r \<and> resolve_company demo_env 5 s' = Inr 6 \<and> resolve_company demo_env 6 s' = Inr 9 \<and>
     live_users_of s' 9 = 1)"
  by code_simp

text \<open>The people a merge moves keep the role of the company that is gone.\<close>

lemma merge_breaks_roles_at_home: "roles_at_home merge_demo \<and> \<not> roles_at_home demo_merged"
proof
  show "roles_at_home merge_demo"
    by (simp add: roles_at_home_def merge_demo_def demo_tenant_def demo_role_def blank_user_def)
  have "map (\<lambda>u. (us_company u, us_role u)) (users demo_merged) = [(Some 6, Some 3)]"
    "map (\<lambda>r. (ro_id r, ro_company r)) (roles demo_merged) = [(3, 5)]" by code_simp+
  then obtain u r where u: "users demo_merged = [u]" "us_company u = Some 6" "us_role u = Some 3"
    and r: "roles demo_merged = [r]" "ro_id r = 3" "ro_company r = 5" by auto
  show "\<not> roles_at_home demo_merged"
    by (simp add: roles_at_home_def u r)
qed

text \<open>A merge into a company that was deleted goes through, and takes the people with it.\<close>

lemma merge_into_deleted:
  "is_ok (fst (merge_companies demo_env 6 5 None (merge_demo\<lparr>companies :=
     [blank_company 5 ''Jaya'', (blank_company 6 ''Maju'')\<lparr>co_deleted := Some 0\<rparr>]\<rparr>)))"
  by code_simp

text \<open>
  Who may issue a link is never asked: created_by is not read, so any member manager of
  any company can obtain the administrator role of any company without accounts.
\<close>

lemma claim_link_ignores_actor:
  "is_ok (fst (issue_claim_link env cid actor s)) = is_ok (fst (issue_claim_link env cid actor' s))"
  by (auto simp: issue_claim_link_def transaction_def Let_def split: prod.splits sum.splits if_splits)

text \<open>
  A claimed company is granted eleven modules, a registered one the thirteen of the default
  list; dispatch and configuration are missing.
\<close>

lemma claim_grants_fewer_modules:
  "set claim_modules \<subseteq> set default_tms_features \<and>
   set default_tms_features - set claim_modules = {''dispatch'', ''configuration''}"
  by code_simp

text \<open>
  Claim stores the user name as typed, login trims what it is given: an account claimed
  with a leading space in its name cannot log in with it.
\<close>

definition ani_signs_in :: login_input where
  "ani_signs_in = \<lparr>in_identifier = '' ani'', in_password = ''secret9'', in_device = [], in_platform = [],
     in_user_agent = [], in_ip = []\<rparr>"

lemma claimed_name_untrimmed:
  "fst (login demo_env ani_signs_in (snd demo_claimed)) = Inl ErrInvalidCredentials"
  by code_simp

end
