(* ===== verification/StringArray.thy ===== *)
theory StringArray
  imports Prelude
begin

text \<open>
  The text[] columns of internal/models/models.go (permission lists of roles and
  grants, API key scopes, e-mail recipients): the literal StringArray.Value writes,
  the one-pass reader parsePGArray and Scan.  A Go range over a string of valid
  UTF-8 treats the bytes of a character together; the reader only looks for ASCII
  bytes, so working byte by byte is the same there.  What Postgres prints for a
  stored array is not what was written: it quotes only where it must.  The round
  trip is therefore proved for every choice of what is quoted.
\<close>

text \<open>An encoding with its decoder, and what a client may rely on.\<close>

locale codec =
  fixes enc :: "'a \<Rightarrow> string" and dec :: "string \<Rightarrow> 'a option"
  assumes decode_encode: "dec (enc x) = Some x"
begin

lemma encode_inject [simp]: "enc x = enc y \<longleftrightarrow> x = y"
  using decode_encode by (metis option.inject)

lemma encode_inj: "inj enc"
  by (rule injI) simp

end

section \<open>Writing\<close>

definition special :: "char \<Rightarrow> bool" where
  "special c = (c = CHR 0x22 \<or> c = CHR 0x5C)"      \<comment> \<open>double quote, backslash\<close>

definition escape_array_elem :: "string \<Rightarrow> string" where
  "escape_array_elem s = concat (map (\<lambda>c. if special c then [CHR 0x5C, c] else [c]) s)"

definition quoted :: "string \<Rightarrow> string" where
  "quoted s = [CHR 0x22] @ escape_array_elem s @ [CHR 0x22]"

definition array_value :: "string list option \<Rightarrow> string" where
  "array_value a = (case a of None \<Rightarrow> ''{}'' | Some xs \<Rightarrow> ''{'' @ join '','' (map quoted xs) @ ''}'')"

section \<open>Reading\<close>

text \<open>The state of the loop: the element being read, whether inside quotes, whether after a backslash.\<close>

fun read_elems :: "string \<Rightarrow> bool \<Rightarrow> bool \<Rightarrow> string \<Rightarrow> string list" where
  "read_elems cur in_quote escaped [] = [cur]"
| "read_elems cur in_quote escaped (r # rest) =
     (if escaped then read_elems (cur @ [r]) in_quote False rest
      else if r = CHR 0x5C then read_elems cur in_quote True rest
      else if r = CHR 0x22 then read_elems cur (\<not> in_quote) escaped rest
      else if r = CHR '','' \<and> \<not> in_quote then cur # read_elems [] in_quote escaped rest
      else read_elems (cur @ [r]) in_quote escaped rest)"

definition parse_pg_array :: "string \<Rightarrow> string list option" where
  "parse_pg_array s =
     (if length s < 2 \<or> hd s \<noteq> CHR ''{'' \<or> last s \<noteq> CHR ''}'' then None
      else let body = butlast (tl s) in
        if body = [] then Some [] else Some (read_elems [] False False body))"

datatype column = SqlNull | SqlBytes string | SqlString string | SqlOther

text \<open>Scan: None is an error, Some None the nil slice.\<close>

definition scan_array :: "column \<Rightarrow> string list option option" where
  "scan_array src = (case src of
      SqlNull \<Rightarrow> Some None
    | SqlBytes s \<Rightarrow> map_option Some (parse_pg_array s)
    | SqlString s \<Rightarrow> map_option Some (parse_pg_array s)
    | SqlOther \<Rightarrow> None)"

section \<open>Round trip\<close>

text \<open>
  array_out of Postgres quotes an element that is empty, spells NULL or holds a
  brace, a comma, a quote, a backslash or white space; it may quote any other.
\<close>

definition plain :: "string \<Rightarrow> bool" where
  "plain s \<longleftrightarrow> s \<noteq> [] \<and> to_lower s \<noteq> ''null'' \<and>
     list_all (\<lambda>c. \<not> special c \<and> c \<notin> set ''{},'' \<and> \<not> is_space c) s"

definition render :: "(string \<Rightarrow> bool) \<Rightarrow> string \<Rightarrow> string" where
  "render bare s = (if bare s \<and> plain s then s else quoted s)"

definition array_out :: "(string \<Rightarrow> bool) \<Rightarrow> string list \<Rightarrow> string" where
  "array_out bare xs = ''{'' @ join '','' (map (render bare) xs) @ ''}''"

lemma read_escaped:
  "read_elems cur True False (escape_array_elem s @ rest) = read_elems (cur @ s) True False rest"
  by (induction s arbitrary: cur) (simp_all add: escape_array_elem_def special_def)

lemma read_quoted: "read_elems cur False False (quoted s @ rest) = read_elems (cur @ s) False False rest"
  by (simp add: quoted_def read_escaped)

lemma read_plain:
  "list_all (\<lambda>c. \<not> special c \<and> c \<notin> set ''{},'' \<and> \<not> is_space c) s \<Longrightarrow>
   read_elems cur False False (s @ rest) = read_elems (cur @ s) False False rest"
  by (induction s arbitrary: cur) (simp_all add: special_def)

lemma read_either:
  "read_elems [] False False (render bare s @ rest) = read_elems s False False rest"
  using read_plain [of s "[]" rest] read_quoted [of "[]" s rest] by (simp add: plain_def render_def)

lemma read_join:
  "xs \<noteq> [] \<Longrightarrow>
   read_elems [] False False (join '','' (map (render bare) xs)) = xs"
proof (induction xs)
  case (Cons x xs)
  show ?case
  proof (cases "xs = []")
    case True
    then show ?thesis using read_either [of bare x "[]"] by simp
  next
    case False
    then show ?thesis using Cons.IH [OF False] by (simp add: join_Cons read_either)
  qed
qed simp

lemma join_elems_ne:
  "xs \<noteq> [] \<Longrightarrow> join '','' (map (render bare) xs) \<noteq> []"
proof -
  assume "xs \<noteq> []"
  then obtain y ys where "xs = y # ys" by (cases xs) auto
  then show ?thesis by (cases "ys = []") (simp_all add: join_Cons quoted_def plain_def render_def)
qed

lemma parse_braces: "parse_pg_array (''{'' @ body @ ''}'') = (if body = [] then Some [] else Some (read_elems [] False False body))"
  by (simp add: parse_pg_array_def butlast_append)

lemma parse_array_out: "parse_pg_array (array_out bare xs) = Some xs"
proof (cases "xs = []")
  case False
  then show ?thesis unfolding array_out_def parse_braces using join_elems_ne [OF False] read_join [OF False]
    by simp
qed (simp add: array_out_def parse_pg_array_def)

lemma array_value_out: "array_value (Some xs) = array_out (\<lambda>_. False) xs"
  by (simp add: array_value_def array_out_def render_def [abs_def])

interpretation pg: codec "\<lambda>xs. array_value (Some xs)" parse_pg_array
  by unfold_locales (simp add: array_value_out parse_array_out)

text \<open>
  C27. A list of strings written to a text[] column is read back unchanged whatever
  characters it holds, from the literal the service writes and from every form in
  which Postgres may print it; nil is written as the empty array and comes back
  empty but not nil, NULL as nil, and different lists never share a literal.
\<close>
theorem string_array_roundtrip:
  "scan_array (SqlString (array_value (Some xs))) = Some (Some xs) \<and>
   scan_array (SqlBytes (array_out bare xs)) = Some (Some xs) \<and>
   scan_array (SqlString (array_value None)) = Some (Some []) \<and>
   scan_array SqlNull = Some None \<and>
   (array_value (Some xs) = array_value (Some ys)) = (xs = ys)"
  by (simp add: scan_array_def pg.decode_encode parse_array_out)
     (simp add: array_value_def parse_pg_array_def)

text \<open>
  What the reader does not notice: an element NULL is read as the text NULL, a
  nested array as text with its braces, a missing closing quote not at all, and a
  closing backslash escapes nothing.
\<close>

lemma null_element_read_as_text:
  "parse_pg_array ''{a,NULL}'' = Some [''a'', ''NULL'']"
  by (simp add: parse_pg_array_def)

lemma unclosed_quote_accepted:
  "parse_pg_array [CHR ''{'', CHR 0x22, CHR ''a'', CHR '','', CHR ''b'', CHR ''}''] = Some [''a,b'']"
  "parse_pg_array [CHR ''{'', CHR ''a'', CHR 0x5C, CHR ''}''] = Some [''a'']"
  by (simp_all add: parse_pg_array_def)

end
