(* ===== verification/Query.thy ===== *)
theory Query
  imports TextUtil StringArray Repository "HOL-Library.List_Lexorder" "HOL-Library.Char_ord" "HOL-Library.Signed_Division"
begin

text \<open>
  internal/platform/query/query.go, repository/query.go and the listings built on
  them: from the query string (or the gRPC message) of a list request to the page
  of rows it answers.  Go's int is a 64-bit word, so page arithmetic wraps as it
  does there.  The scanner of encoding/json, which turns the text of a parameter
  into a tree of values, is the argument \<open>unm\<close> of the parser (None: not JSON); what
  is built from the tree is modelled in full.  Numbers of the tree carry the text
  strconv.FormatFloat gives them.  Postgres is the argument that says whether a row
  satisfies a WHERE clause and the argument that puts rows in an order.
\<close>

section \<open>Parameters of a listing\<close>

definition max_page_size :: int where "max_page_size = 200"
definition default_page_size :: int where "default_page_size = 20"

datatype operator = OpEq | OpNeq | OpLike | OpIn | OpGt | OpGte | OpLt | OpLte | OpBetween | OpUnknown

record filter_clause =
  fl_field :: string
  fl_value :: string
  fl_operator :: operator
  fl_values :: "string list"

record sort_clause =
  so_field :: string
  so_desc :: bool

datatype query_error =
    NotAList string                              \<comment> \<open>the parameter is not a JSON list of clauses\<close>
  | NotAllowed string "string list"              \<comment> \<open>the field, and the fields that are\<close>
  | NotAnOperator string string
  | NoValues string

record params =
  qp_err :: "query_error option"
  qp_page :: int64
  qp_size :: int64
  qp_filters :: "filter_clause list"
  qp_sorts :: "sort_clause list"
  qp_search :: string

definition page_offset :: "params \<Rightarrow> int64" where
  "page_offset p = (if sint (qp_page p) < 1 then 0 else qp_page p * qp_size p)"

definition total_pages :: "params \<Rightarrow> int64 \<Rightarrow> int64" where
  "total_pages p n =
     (if sint (qp_size p) \<le> 0 then 0
      else let pages = word_of_int (sint n sdiv sint (qp_size p))
        in if sint n smod sint (qp_size p) \<noteq> 0 then pages + 1 else pages)"

section \<open>strconv.Atoi\<close>

text \<open>
  The value and whether it is one.  A number too large for an int is an error whose
  value is the largest (or smallest) int, which Parse, ignoring the error of the
  page number, goes on with.
\<close>

fun digits_value :: "int \<Rightarrow> string \<Rightarrow> int option" where
  "digits_value acc [] = Some acc"
| "digits_value acc (c # cs) =
     (if is_digit c then digits_value (10 * acc + (of_char c - 48)) cs else None)"

definition unsigned_digits :: "string \<Rightarrow> int option" where
  "unsigned_digits s = (if s = [] then None else digits_value 0 s)"

definition max_int :: int where "max_int = 9223372036854775807"

definition atoi :: "string \<Rightarrow> int64 \<times> bool" where
  "atoi s =
     (let neg = has_prefix s ''-'';
          body = (if neg \<or> has_prefix s ''+'' then drop 1 s else s)
      in case unsigned_digits body of
          None \<Rightarrow> (0, False)
        | Some n \<Rightarrow>
            if neg then (if n > max_int + 1 then (word_of_int (- max_int - 1), False) else (word_of_int (- n), True))
            else (if n > max_int then (word_of_int max_int, False) else (word_of_int n, True)))"

section \<open>The field allowlist\<close>

type_synonym field_set = "(string \<times> string) list"   \<comment> \<open>a Go map: nil is the empty one\<close>

definition resolve :: "field_set \<Rightarrow> string \<Rightarrow> string option" where
  "resolve f name = map_of f name"

definition names :: "field_set \<Rightarrow> string list" where
  "names f = sort (map fst f)"

section \<open>Reading the clauses\<close>

datatype json = JNull | JBool bool | JNum string | JStr string | JArr "json list" | JObj "(string \<times> json) list"

text \<open>filterValue.UnmarshalJSON; an array is appended to what the value already holds.\<close>

fun format_scalar :: "json \<Rightarrow> string option" where
  "format_scalar (JStr t) = Some t"
| "format_scalar (JNum t) = Some t"
| "format_scalar (JBool b) = Some (if b then ''true'' else ''false'')"
| "format_scalar _ = None"

fun unmarshal_value :: "string list \<Rightarrow> json \<Rightarrow> string list option" where
  "unmarshal_value old (JArr items) = Some (old @ List.map_filter format_scalar items)"
| "unmarshal_value old (JObj _) = None"
| "unmarshal_value old JNull = Some []"
| "unmarshal_value old j = map_option (\<lambda>t. [t]) (format_scalar j)"

definition value_scalar :: "string list \<Rightarrow> string" where
  "value_scalar vs = (if length vs = 0 then [] else vs ! 0)"

definition value_list :: "string list \<Rightarrow> string list" where
  "value_list vs =
     (if length vs = 1 \<and> CHR '','' \<in> set (vs ! 0)
      then filter (\<lambda>t. t \<noteq> []) (map trim_space (split_on (CHR '','') (vs ! 0)))
      else vs)"

record raw_filter =
  rf_id :: string
  rf_value :: "string list"
  rf_operator :: string
  rf_type :: string

record raw_sort =
  rs_id :: string
  rs_desc :: bool

text \<open>
  encoding/json into a struct: members are matched to fields without regard to
  case, others skipped, null leaves a field alone, a member of the wrong type is an
  error; the last of two members with one name counts.
\<close>

fun set_text :: "string \<Rightarrow> json \<Rightarrow> string option" where
  "set_text old (JStr t) = Some t"
| "set_text old JNull = Some old"
| "set_text old _ = None"

fun set_flag :: "bool \<Rightarrow> json \<Rightarrow> bool option" where
  "set_flag old (JBool b) = Some b"
| "set_flag old JNull = Some old"
| "set_flag old _ = None"

definition filter_member :: "string \<times> json \<Rightarrow> raw_filter \<Rightarrow> raw_filter option" where
  "filter_member m r =
     (let k = to_lower (fst m); v = snd m in
      if k = ''id'' then map_option (\<lambda>t. r\<lparr>rf_id := t\<rparr>) (set_text (rf_id r) v)
      else if k = ''value'' then map_option (\<lambda>t. r\<lparr>rf_value := t\<rparr>) (unmarshal_value (rf_value r) v)
      else if k = ''operator'' then map_option (\<lambda>t. r\<lparr>rf_operator := t\<rparr>) (set_text (rf_operator r) v)
      else if k = ''type'' then map_option (\<lambda>t. r\<lparr>rf_type := t\<rparr>) (set_text (rf_type r) v)
      else Some r)"

definition sort_member :: "string \<times> json \<Rightarrow> raw_sort \<Rightarrow> raw_sort option" where
  "sort_member m r =
     (let k = to_lower (fst m); v = snd m in
      if k = ''id'' then map_option (\<lambda>t. r\<lparr>rs_id := t\<rparr>) (set_text (rs_id r) v)
      else if k = ''desc'' then map_option (\<lambda>t. r\<lparr>rs_desc := t\<rparr>) (set_flag (rs_desc r) v)
      else Some r)"

fun members :: "(string \<times> json \<Rightarrow> 'r \<Rightarrow> 'r option) \<Rightarrow> (string \<times> json) list \<Rightarrow> 'r \<Rightarrow> 'r option" where
  "members f [] r = Some r"
| "members f (m # ms) r = (case f m r of None \<Rightarrow> None | Some r' \<Rightarrow> members f ms r')"

fun struct_of :: "(string \<times> json \<Rightarrow> 'r \<Rightarrow> 'r option) \<Rightarrow> 'r \<Rightarrow> json \<Rightarrow> 'r option" where
  "struct_of f z (JObj ms) = members f ms z"
| "struct_of f z JNull = Some z"
| "struct_of f z _ = None"

fun all_some :: "'a option list \<Rightarrow> 'a list option" where
  "all_some [] = Some []"
| "all_some (None # xs) = None"
| "all_some (Some x # xs) = map_option ((#) x) (all_some xs)"

fun slice_of :: "(json \<Rightarrow> 'r option) \<Rightarrow> json \<Rightarrow> 'r list option" where
  "slice_of f (JArr items) = all_some (map f items)"
| "slice_of f JNull = Some []"
| "slice_of f _ = None"

definition zero_filter :: raw_filter where
  "zero_filter = \<lparr>rf_id = [], rf_value = [], rf_operator = [], rf_type = []\<rparr>"
definition zero_sort :: raw_sort where "zero_sort = \<lparr>rs_id = [], rs_desc = False\<rparr>"

definition normalise_operator :: "string \<Rightarrow> operator" where
  "normalise_operator s0 =
     (let s = to_lower s0 in
      if s \<in> set [''neq'', ''ne'', ''!=''] then OpNeq
      else if s \<in> set [''like'', ''contains''] then OpLike
      else if s = ''in'' then OpIn
      else if s \<in> set [''gt'', ''>''] then OpGt
      else if s \<in> set [''gte'', ''>=''] then OpGte
      else if s \<in> set [''lt'', ''<''] then OpLt
      else if s \<in> set [''lte'', ''<=''] then OpLte
      else if s = ''between'' then OpBetween
      else if s \<in> set [''regex'', ''match''] then OpLike
      else if s \<in> set ['''', ''eq'', ''equal'', ''equals'', ''='', ''=='', ''is''] then OpEq
      else OpUnknown)"

definition first_spelling :: "string list \<Rightarrow> string" where
  "first_spelling vs = (case List.find (\<lambda>v. v \<noteq> []) vs of None \<Rightarrow> [] | Some v \<Rightarrow> v)"

fun filter_clauses :: "field_set \<Rightarrow> raw_filter list \<Rightarrow> query_error + filter_clause list" where
  "filter_clauses allowed [] = Inr []"
| "filter_clauses allowed (it # rest) =
     (case resolve allowed (rf_id it) of
        None \<Rightarrow> Inl (NotAllowed (rf_id it) (names allowed))
      | Some col \<Rightarrow>
          let spelling = first_spelling [rf_operator it, rf_type it];
              op = normalise_operator spelling;
              values = value_list (rf_value it)
          in if op = OpUnknown then Inl (NotAnOperator spelling (rf_id it))
             else if op = OpIn \<and> length values = 0 then Inl (NoValues (rf_id it))
             else (case filter_clauses allowed rest of
                 Inl e \<Rightarrow> Inl e
               | Inr out \<Rightarrow> Inr (\<lparr>fl_field = col, fl_value = value_scalar (rf_value it),
                                   fl_operator = op, fl_values = values\<rparr> # out)))"

fun sort_clauses :: "field_set \<Rightarrow> raw_sort list \<Rightarrow> query_error + sort_clause list" where
  "sort_clauses allowed [] = Inr []"
| "sort_clauses allowed (it # rest) =
     (case resolve allowed (rs_id it) of
        None \<Rightarrow> Inl (NotAllowed (rs_id it) (names allowed))
      | Some col \<Rightarrow> (case sort_clauses allowed rest of
            Inl e \<Rightarrow> Inl e
          | Inr out \<Rightarrow> Inr (\<lparr>so_field = col, so_desc = rs_desc it\<rparr> # out)))"

type_synonym scanner = "string \<Rightarrow> json option"

definition parse_filters :: "scanner \<Rightarrow> string \<Rightarrow> field_set \<Rightarrow> query_error + filter_clause list" where
  "parse_filters unm raw allowed =
     (if raw = [] then Inr []
      else case Option.bind (unm raw) (slice_of (struct_of filter_member zero_filter)) of
          None \<Rightarrow> Inl (NotAList ''filtered'')
        | Some items \<Rightarrow> filter_clauses allowed items)"

definition parse_sorts :: "scanner \<Rightarrow> string \<Rightarrow> field_set \<Rightarrow> query_error + sort_clause list" where
  "parse_sorts unm raw allowed =
     (if raw = [] then Inr []
      else case Option.bind (unm raw) (slice_of (struct_of sort_member zero_sort)) of
          None \<Rightarrow> Inl (NotAList ''sorted'')
        | Some items \<Rightarrow> sort_clauses allowed items)"

definition clamp_page :: "string \<Rightarrow> int64" where
  "clamp_page s = (let page = fst (atoi s) in if sint page < 0 then 0 else page)"

definition clamp_size :: "string \<Rightarrow> int64" where
  "clamp_size s =
     (let n = atoi s;
          sz = (if \<not> snd n \<or> sint (fst n) \<le> 0 then word_of_int default_page_size else fst n)
      in if sint sz > max_page_size then word_of_int max_page_size else sz)"

definition refused :: "int64 \<Rightarrow> int64 \<Rightarrow> query_error \<Rightarrow> string \<Rightarrow> params" where
  "refused page sz e search =
     \<lparr>qp_err = Some e, qp_page = page, qp_size = sz, qp_filters = [], qp_sorts = [],
      qp_search = trim_space search\<rparr>"

definition parse_query ::
  "scanner \<Rightarrow> string \<Rightarrow> string \<Rightarrow> string \<Rightarrow> string \<Rightarrow> string \<Rightarrow> field_set \<Rightarrow> params" where
  "parse_query unm page_str size_str filtered sorted_by search allowed =
     (case parse_filters unm filtered allowed of
        Inl e \<Rightarrow> refused (clamp_page page_str) (clamp_size size_str) e search
      | Inr fs \<Rightarrow>
          (case parse_sorts unm sorted_by allowed of
             Inl e \<Rightarrow> refused (clamp_page page_str) (clamp_size size_str) e search
           | Inr ss \<Rightarrow>
               \<lparr>qp_err = None, qp_page = clamp_page page_str, qp_size = clamp_size size_str,
                qp_filters = fs, qp_sorts = ss, qp_search = trim_space search\<rparr>))"

section \<open>The gRPC form\<close>

record proto_filter =
  pf_id :: string
  pf_value :: string
  pf_operator :: int

record proto_query =
  pq_page :: "(int32 \<times> int32) option"       \<comment> \<open>page and page_size\<close>
  pq_filtered :: "proto_filter list"
  pq_sorted :: "(string \<times> bool) list"
  pq_search :: string

definition operator_from_proto :: "int \<Rightarrow> operator" where
  "operator_from_proto op =
     (if op = 2 then OpNeq else if op = 3 then OpLike else if op = 4 then OpIn else if op = 5 then OpGt
      else if op = 6 then OpGte else if op = 7 then OpLt else if op = 8 then OpLte
      else if op = 9 then OpBetween else OpEq)"

definition proto_page :: "proto_query \<Rightarrow> int64" where
  "proto_page q = (case pq_page q of None \<Rightarrow> 0
     | Some pg \<Rightarrow> let n = word_of_int (sint (fst pg)) in if sint n < 0 then 0 else n)"

definition proto_size :: "proto_query \<Rightarrow> int64" where
  "proto_size q = (case pq_page q of None \<Rightarrow> word_of_int default_page_size
     | Some pg \<Rightarrow> if sint (snd pg) > 0 then word_of_int (min (sint (snd pg)) max_page_size)
                  else word_of_int default_page_size)"

definition from_proto :: "proto_query option \<Rightarrow> field_set \<Rightarrow> params" where
  "from_proto q0 allowed =
     (case q0 of
        None \<Rightarrow> \<lparr>qp_err = None, qp_page = 0, qp_size = word_of_int default_page_size,
                  qp_filters = [], qp_sorts = [], qp_search = []\<rparr>
      | Some q \<Rightarrow>
         \<lparr>qp_err = None, qp_page = proto_page q, qp_size = proto_size q,
          qp_filters = List.map_filter (\<lambda>f. map_option (\<lambda>col.
              \<lparr>fl_field = col, fl_value = pf_value f, fl_operator = operator_from_proto (pf_operator f),
               fl_values = []\<rparr>) (resolve allowed (pf_id f))) (pq_filtered q),
          qp_sorts = List.map_filter (\<lambda>x. map_option (\<lambda>col. \<lparr>so_field = col, so_desc = snd x\<rparr>)
              (resolve allowed (fst x))) (pq_sorted q),
          qp_search = trim_space (pq_search q)\<rparr>)"

record page_info =
  pi_page :: int32
  pi_size :: int32
  pi_rows :: int64
  pi_pages :: int32

definition page_info_of :: "params \<Rightarrow> int64 \<Rightarrow> page_info" where
  "page_info_of p n =
     \<lparr>pi_page = non_negative_int32 (qp_page p), pi_size = non_negative_int32 (qp_size p),
      pi_rows = n, pi_pages = non_negative_int32 (total_pages p n)\<rparr>"

section \<open>Clauses of the statement\<close>

definition quote_ident :: "string \<Rightarrow> string" where
  "quote_ident s = [CHR 0x22] @ concat (map (\<lambda>c. if c = CHR 0x22 then [c, c] else [c]) s) @ [CHR 0x22]"

text \<open>A condition is its text, with a question mark for each bound argument, and the arguments.\<close>

datatype sql_arg = Bind string | BindList "string list"

record condition =
  cn_text :: string
  cn_args :: "sql_arg list"

definition where_of :: "filter_clause \<Rightarrow> condition option" where
  "where_of f =
     (let col = quote_ident (fl_field f);
          one = (\<lambda>cmp v. Some \<lparr>cn_text = col @ cmp, cn_args = [Bind v]\<rparr>)
      in case fl_operator f of
          OpNeq \<Rightarrow> one '' <> ?'' (fl_value f)
        | OpLike \<Rightarrow> one '' ILIKE ?'' (''%'' @ fl_value f @ ''%'')
        | OpIn \<Rightarrow> Some \<lparr>cn_text = col @ '' IN ?'', cn_args = [BindList (fl_values f)]\<rparr>
        | OpGt \<Rightarrow> one '' > ?'' (fl_value f)
        | OpGte \<Rightarrow> one '' >= ?'' (fl_value f)
        | OpLt \<Rightarrow> one '' < ?'' (fl_value f)
        | OpLte \<Rightarrow> one '' <= ?'' (fl_value f)
        | OpBetween \<Rightarrow>
            (case cut (CHR '','') (fl_value f) of (lo, hi, found) \<Rightarrow>
               if found then Some \<lparr>cn_text = col @ '' BETWEEN ? AND ?'', cn_args = [Bind lo, Bind hi]\<rparr>
               else None)
        | _ \<Rightarrow> one '' = ?'' (fl_value f))"

definition apply_filters :: "params \<Rightarrow> condition list" where
  "apply_filters p = List.map_filter where_of (qp_filters p)"

definition apply_sorts :: "params \<Rightarrow> string \<Rightarrow> string list" where
  "apply_sorts p fallback =
     (if length (qp_sorts p) = 0 then [fallback]
      else map (\<lambda>s. quote_ident (so_field s) @ '' '' @ (if so_desc s then ''DESC'' else ''ASC'')) (qp_sorts p))"

section \<open>Listings\<close>

text \<open>
  Postgres: whether a row satisfies a condition, and the rows put in an order.  The
  search box is one more condition.  GORM writes OFFSET only when it is positive.
\<close>

record 'r engine =
  holds :: "'r \<Rightarrow> condition \<Rightarrow> bool"
  order_by :: "string list \<Rightarrow> 'r list \<Rightarrow> 'r list"

definition search_condition :: "string \<Rightarrow> nat \<Rightarrow> params \<Rightarrow> condition list" where
  "search_condition txt n p =
     (if qp_search p \<noteq> []
      then [\<lparr>cn_text = txt, cn_args = replicate n (Bind (''%'' @ qp_search p @ ''%''))\<rparr>] else [])"

definition page_rows :: "'r engine \<Rightarrow> params \<Rightarrow> 'r list \<Rightarrow> 'r list" where
  "page_rows db p rows =
     (let sorted_rows = order_by db (apply_sorts p ''created_at DESC'') rows;
          rest = (if sint (page_offset p) > 0 then drop (nat (sint (page_offset p))) sorted_rows else sorted_rows)
      in take (nat (sint (qp_size p))) rest)"

definition listing ::
  "env \<Rightarrow> dbop \<Rightarrow> 'r engine \<Rightarrow> params \<Rightarrow> 'r list \<Rightarrow> svc_error + ('r list \<times> int64)" where
  "listing env op db p rows =
     (if db_down env op then Inl (ErrDB op)
      else Inr (page_rows db p rows, word_of_int (int (length rows))))"

definition user_search :: string where
  "user_search = ''full_name ILIKE ? OR email ILIKE ? OR username ILIKE ? OR phone ILIKE ?''"

definition list_users ::
  "env \<Rightarrow> user engine \<Rightarrow> params \<Rightarrow> sys \<Rightarrow> svc_error + (user list \<times> int64)" where
  "list_users env db p s =
     listing env OpListUsers db p
       (filter (\<lambda>u. user_live u \<and> list_all (holds db u) (apply_filters p @ search_condition user_search 4 p))
         (users s))"

definition list_by_company ::
  "env \<Rightarrow> user engine \<Rightarrow> uuid \<Rightarrow> string list \<Rightarrow> params \<Rightarrow> sys \<Rightarrow> svc_error + (user list \<times> int64)" where
  "list_by_company env db cid wanted p s =
     listing env OpListUsers db p
       (filter (\<lambda>u. user_live u \<and> us_company u = Some cid \<and>
            list_all (holds db u)
              ((if length wanted > 0 then [\<lparr>cn_text = ''role IN ?'', cn_args = [BindList wanted]\<rparr>] else [])
               @ apply_filters p)) (users s))"

definition list_companies ::
  "env \<Rightarrow> company engine \<Rightarrow> params \<Rightarrow> sys \<Rightarrow> svc_error + (company list \<times> int64)" where
  "list_companies env db p s =
     listing env OpFindCompany db p
       (filter (\<lambda>c. company_live c \<and>
            list_all (holds db c) (apply_filters p @ search_condition ''name ILIKE ? OR npwp ILIKE ?'' 2 p))
         (companies s))"

text \<open>CompanyRepository.ListForSync: rows by id, the page given as numbers of the caller.\<close>

definition list_for_sync ::
  "env \<Rightarrow> int64 \<Rightarrow> int64 \<Rightarrow> bool \<Rightarrow> (company \<Rightarrow> bool) \<Rightarrow> sys \<Rightarrow> svc_error + (company list \<times> int64)" where
  "list_for_sync env page sz only_fms updated_since s =
     (if db_down env OpFindCompany then Inl (ErrDB OpFindCompany)
      else let rows = filter (\<lambda>c. company_live c \<and> (only_fms \<longrightarrow> co_fms_tenant c \<noteq> None) \<and> updated_since c) (companies s);
               ordered = sort_key co_id rows;
               off = sint (page * sz)
        in Inr (take (nat (sint sz)) (if off > 0 then drop (nat off) ordered else ordered),
                word_of_int (int (length rows))))"

definition user_list_fields :: field_set where
  "user_list_fields = [(''username'', ''username''), (''email'', ''email''), (''phone'', ''phone''),
     (''fullName'', ''full_name''), (''role'', ''role''), (''accountType'', ''account_type''),
     (''isVerified'', ''is_verified''), (''isSuspended'', ''is_suspended''),
     (''createdAt'', ''created_at''), (''lastLoginAt'', ''last_login_at'')]"

definition company_list_fields :: field_set where
  "company_list_fields = [(''name'', ''name''), (''role'', ''role''), (''npwp'', ''npwp''),
     (''isVerified'', ''is_verified''), (''isSuspended'', ''is_suspended''), (''createdAt'', ''created_at'')]"

definition company_fields :: field_set where
  "company_fields = [(''name'', ''name''), (''role'', ''role''), (''abbreviation'', ''abbreviation''),
     (''entityType'', ''entity_type''), (''createdAt'', ''created_at'')]"

section \<open>Page arithmetic\<close>

lemma clamp_size_range: "1 \<le> sint (clamp_size s) \<and> sint (clamp_size s) \<le> max_page_size"
  by (auto simp: clamp_size_def Let_def default_page_size_def max_page_size_def)

lemma clamp_page_range: "0 \<le> sint (clamp_page s)"
  by (auto simp: clamp_page_def Let_def)

lemma proto_size_range: "1 \<le> sint (proto_size q) \<and> sint (proto_size q) \<le> max_page_size"
  by (auto simp: proto_size_def default_page_size_def max_page_size_def sint_small64 min_def split: option.splits)

lemma proto_page_range: "0 \<le> sint (proto_page q)"
  by (auto simp: proto_page_def Let_def split: option.splits)

lemma sint_bounds64: "- 9223372036854775808 \<le> sint (w :: int64) \<and> sint w \<le> 9223372036854775807"
  using sint_ge [of w] sint_lt [of w] by simp

lemma sint_times64:
  "0 \<le> sint (a :: int64) * sint b \<Longrightarrow> sint a * sint b \<le> 9223372036854775807 \<Longrightarrow> sint (a * b) = sint a * sint b"
proof -
  assume "0 \<le> sint a * sint b" "sint a * sint b \<le> 9223372036854775807"
  moreover have "a * b = word_of_int (sint a * sint b)" by simp
  ultimately show ?thesis using sint_small64 [of "sint a * sint b"] by simp
qed

lemma page_offset_exact:
  assumes "0 \<le> sint (qp_page p)" "0 \<le> sint (qp_size p)" "sint (qp_page p) * sint (qp_size p) \<le> max_int"
  shows "sint (page_offset p) = sint (qp_page p) * sint (qp_size p)"
proof (cases "sint (qp_page p) = 0")
  case False
  then have "\<not> sint (qp_page p) < 1" using assms(1) by linarith
  then show ?thesis using assms by (simp add: page_offset_def sint_times64 max_int_def)
qed (simp add: page_offset_def)

lemma sdiv_smod_nonneg:
  "0 \<le> n \<Longrightarrow> 0 < k \<Longrightarrow> n sdiv k = n div k \<and> n smod k = (n mod k :: int)"
  by (auto simp: signed_divide_int_def signed_modulo_int_def sgn_if minus_div_mult_eq_mod)

lemma ceiling_div:
  "0 < k \<Longrightarrow> (if n mod k \<noteq> 0 then n div k + 1 else n div k) = (n + k - 1) div (k :: int)"
proof -
  assume k: "0 < k"
  have n: "n + k - 1 = (n mod k + k - 1) + n div k * k" by (simp add: mult_div_mod_eq)
  have "(n + k - 1) div k = (n mod k + k - 1) div k + n div k"
    unfolding n using k div_mult_self1 [of k "n mod k + k - 1" "n div k"] by simp
  moreover have "(n mod k + k - 1) div k = (if n mod k \<noteq> 0 then 1 else 0)"
  proof (cases "n mod k = 0")
    case True
    then show ?thesis using k by (simp add: div_pos_pos_trivial)
  next
    case False
    then have r: "0 \<le> n mod k - 1" "n mod k - 1 < k"
      using pos_mod_bound [OF k, of n] pos_mod_sign [OF k, of n] by linarith+
    have "(n mod k + k - 1) div k = (n mod k - 1 + 1 * k) div k" by (simp add: algebra_simps)
    also have "\<dots> = 1 + (n mod k - 1) div k"
      using k by (intro div_mult_self1) simp
    also have "(n mod k - 1) div k = 0" using r by (rule div_pos_pos_trivial)
    finally show ?thesis using False by simp
  qed
  ultimately show ?thesis by simp
qed

lemma total_pages_exact:
  assumes "0 \<le> n" "n < max_int" "0 < sint (qp_size p)"
  shows "sint (total_pages p (word_of_int n)) = (n + sint (qp_size p) - 1) div sint (qp_size p)"
proof -
  let ?k = "sint (qp_size p)"
  have n: "sint (word_of_int n :: int64) = n" using assms by (simp add: sint_small64 max_int_def)
  have "0 \<le> n div ?k" "n div ?k \<le> n" using assms
    using zdiv_mono2 [of n 1 ?k] by (simp_all add: pos_imp_zdiv_nonneg_iff)
  then have r: "0 \<le> (n + ?k - 1) div ?k" "(n + ?k - 1) div ?k \<le> max_int"
    using ceiling_div [OF assms(3), of n] assms(2) by (auto split: if_splits)
  have "total_pages p (word_of_int n) = word_of_int ((n + ?k - 1) div ?k)"
    unfolding ceiling_div [OF assms(3), of n, symmetric]
    using assms(3) n by (simp add: total_pages_def Let_def sdiv_smod_nonneg [OF assms(1,3)] n)
  then show ?thesis using r by (simp add: sint_small64 max_int_def)
qed

text \<open>Consecutive windows of a list put together are the list.\<close>

lemma windows_cover:
  "length xs \<le> m * k \<Longrightarrow> concat (map (\<lambda>i. take k (drop (i * k) xs)) [0..<m]) = xs"
proof -
  assume len: "length xs \<le> m * k"
  have "concat (map (\<lambda>i. take k (drop (i * k) xs)) [0..<m]) = take (m * k) xs"
  proof (induction m)
    case (Suc m)
    have "take (Suc m * k) xs = take (m * k) xs @ take k (drop (m * k) xs)"
      using take_add [of "m * k" k xs] by (simp only: mult_Suc add.commute [of k "m * k"])
    then show ?case using Suc by simp
  qed simp
  then show ?thesis using len by simp
qed

section \<open>Nothing is dropped\<close>

lemma all_some_length: "all_some xs = Some ys \<Longrightarrow> length ys = length xs"
  by (induction xs arbitrary: ys rule: all_some.induct) auto

definition acceptable :: "field_set \<Rightarrow> raw_filter \<Rightarrow> bool" where
  "acceptable allowed r =
     (let op = normalise_operator (first_spelling [rf_operator r, rf_type r])
      in resolve allowed (rf_id r) \<noteq> None \<and> op \<noteq> OpUnknown \<and> \<not> (op = OpIn \<and> value_list (rf_value r) = []))"

definition clause_of :: "field_set \<Rightarrow> raw_filter \<Rightarrow> filter_clause" where
  "clause_of allowed r =
     \<lparr>fl_field = the (resolve allowed (rf_id r)), fl_value = value_scalar (rf_value r),
      fl_operator = normalise_operator (first_spelling [rf_operator r, rf_type r]),
      fl_values = value_list (rf_value r)\<rparr>"

lemma filter_clauses_Inr:
  "filter_clauses allowed rs = Inr fs \<longleftrightarrow> list_all (acceptable allowed) rs \<and> fs = map (clause_of allowed) rs"
proof (induction rs arbitrary: fs)
  case (Cons r rs)
  show ?case
  proof (cases "filter_clauses allowed rs")
    case (Inl e)
    then have "\<not> list_all (acceptable allowed) rs" using Cons.IH [of "map (clause_of allowed) rs"] by simp
    then show ?thesis using Inl by (simp add: Let_def split: option.split)
  next
    case (Inr out)
    then have "list_all (acceptable allowed) rs" "out = map (clause_of allowed) rs"
      using Cons.IH [of out] by simp_all
    then show ?thesis using Inr
      by (auto simp: acceptable_def [of allowed r] clause_of_def [of allowed r] Let_def split: option.split)
  qed
qed auto

lemma sort_clauses_Inr:
  "sort_clauses allowed rs = Inr ss \<longleftrightarrow>
     list_all (\<lambda>r. resolve allowed (rs_id r) \<noteq> None) rs \<and>
     ss = map (\<lambda>r. \<lparr>so_field = the (resolve allowed (rs_id r)), so_desc = rs_desc r\<rparr>) rs"
proof (induction rs arbitrary: ss)
  case (Cons r rs)
  show ?case
  proof (cases "sort_clauses allowed rs")
    case (Inl e)
    then have "\<not> list_all (\<lambda>r. resolve allowed (rs_id r) \<noteq> None) rs"
      using Cons.IH [of "map (\<lambda>r. \<lparr>so_field = the (resolve allowed (rs_id r)), so_desc = rs_desc r\<rparr>) rs"]
      by simp
    then show ?thesis using Inl by (simp split: option.split)
  next
    case (Inr out)
    then show ?thesis using Cons.IH [of out] by (auto split: option.split)
  qed
qed auto

definition params_ok :: "field_set \<Rightarrow> params \<Rightarrow> bool" where
  "params_ok allowed p \<longleftrightarrow>
     0 \<le> sint (qp_page p) \<and> 1 \<le> sint (qp_size p) \<and> sint (qp_size p) \<le> max_page_size \<and>
     list_all (\<lambda>f. fl_field f \<in> snd ` set allowed \<and> fl_operator f \<noteq> OpUnknown) (qp_filters p) \<and>
     list_all (\<lambda>x. so_field x \<in> snd ` set allowed) (qp_sorts p)"

lemma resolve_column: "resolve allowed k = Some col \<Longrightarrow> col \<in> snd ` set allowed"
  unfolding resolve_def by (metis image_eqI map_of_SomeD snd_conv)

lemma operator_from_proto_known: "operator_from_proto n \<noteq> OpUnknown"
  by (simp add: operator_from_proto_def)

lemma parse_filters_Inr:
  "parse_filters unm raw allowed = Inr fs \<Longrightarrow> \<exists>rs. list_all (acceptable allowed) rs \<and> fs = map (clause_of allowed) rs \<and>
     (raw \<noteq> [] \<longrightarrow> Option.bind (unm raw) (slice_of (struct_of filter_member zero_filter)) = Some rs)"
  by (auto simp: parse_filters_def filter_clauses_Inr split: if_splits option.splits)

lemma parse_sorts_Inr:
  "parse_sorts unm raw allowed = Inr ss \<Longrightarrow> list_all (\<lambda>x. so_field x \<in> snd ` set allowed) ss"
  by (auto simp: parse_sorts_def sort_clauses_Inr list_all_iff resolve_column split: if_splits option.splits)

text \<open>
  C24. Whatever a client sends, over HTTP or gRPC, the page is not negative, the page
  holds between one and 200 rows, every column filtered or sorted by is one of the
  allowlist, every operator is known, and a refused request carries no clause.
\<close>
theorem listing_params_safe:
  "params_ok allowed (parse_query unm page_str size_str filtered sorted_by search allowed) \<and>
   params_ok allowed (from_proto q allowed) \<and>
   (qp_err (parse_query unm page_str size_str filtered sorted_by search allowed) = None \<or>
    qp_filters (parse_query unm page_str size_str filtered sorted_by search allowed) = [] \<and>
    qp_sorts (parse_query unm page_str size_str filtered sorted_by search allowed) = [])"
proof -
  have f: "list_all (\<lambda>f. fl_field f \<in> snd ` set allowed \<and> fl_operator f \<noteq> OpUnknown) fs"
    if "parse_filters unm filtered allowed = Inr fs" for fs
    using parse_filters_Inr [OF that] resolve_column
    by (fastforce simp: list_all_iff acceptable_def clause_of_def Let_def)
  have "params_ok allowed (parse_query unm page_str size_str filtered sorted_by search allowed)"
    using f parse_sorts_Inr [of unm sorted_by allowed]
    by (auto simp: parse_query_def refused_def params_ok_def clamp_page_range clamp_size_range split: sum.splits)
  moreover have "params_ok allowed (from_proto q allowed)"
    using proto_size_range proto_page_range
    by (auto simp: from_proto_def params_ok_def List.map_filter_def list_all_iff operator_from_proto_known
        sint_small64 default_page_size_def max_page_size_def dest: resolve_column split: option.splits)
  ultimately show ?thesis
    by (simp add: parse_query_def refused_def split: sum.splits)
qed

text \<open>What makes a clause of the request one the server understands, and the errors it answers.\<close>

lemma parse_filters_refuses:
  assumes "raw \<noteq> []" "Option.bind (unm raw) (slice_of (struct_of filter_member zero_filter)) = Some rs"
  shows "is_ok (parse_filters unm raw allowed) = list_all (acceptable allowed) rs"
  using assms filter_clauses_Inr [of allowed rs]
  by (cases "filter_clauses allowed rs") (auto simp: parse_filters_def)


definition demo_scanner :: scanner where
  "demo_scanner s = (if s = ''draft'' then Some (JArr [JObj [(''id'', JStr ''status''), (''value'', JArr [JStr ''a'', JNum ''3'']),
       (''type'', JStr ''IN'')]]) else None)"


section \<open>Columns and values in the statement\<close>

text \<open>How Postgres reads a quoted identifier: up to a quote that is not doubled.\<close>

fun read_ident :: "string \<Rightarrow> (string \<times> string) option" where
  "read_ident [] = None"
| "read_ident (c # cs) =
     (if c = CHR 0x22
      then (case cs of
          [] \<Rightarrow> Some ([], [])
        | d # ds \<Rightarrow> if d = CHR 0x22 then map_option (\<lambda>r. (CHR 0x22 # fst r, snd r)) (read_ident ds)
                    else Some ([], cs))
      else map_option (\<lambda>r. (c # fst r, snd r)) (read_ident cs))"

definition lex_ident :: "string \<Rightarrow> (string \<times> string) option" where
  "lex_ident s = (case s of [] \<Rightarrow> None | c # cs \<Rightarrow> if c = CHR 0x22 then read_ident cs else None)"

lemma read_ident_quoted:
  "rest = [] \<or> hd rest \<noteq> CHR 0x22 \<Longrightarrow>
   read_ident (concat (map (\<lambda>c. if c = CHR 0x22 then [c, c] else [c]) s) @ CHR 0x22 # rest) = Some (s, rest)"
proof (induction s)
  case Nil
  then show ?case by (cases rest) simp_all
next
  case (Cons c s)
  then show ?case by simp
qed

lemma lex_quote_ident: "rest = [] \<or> hd rest \<noteq> CHR 0x22 \<Longrightarrow> lex_ident (quote_ident s @ rest) = Some (s, rest)"
  by (simp add: lex_ident_def quote_ident_def read_ident_quoted)

interpretation ident: codec quote_ident "\<lambda>s. map_option fst (lex_ident s)"
  by unfold_locales (use lex_quote_ident [of "[]"] in simp)

fun comparison :: "operator \<Rightarrow> string" where
  "comparison OpNeq = '' <> ?''"
| "comparison OpLike = '' ILIKE ?''"
| "comparison OpIn = '' IN ?''"
| "comparison OpGt = '' > ?''"
| "comparison OpGte = '' >= ?''"
| "comparison OpLt = '' < ?''"
| "comparison OpLte = '' <= ?''"
| "comparison OpBetween = '' BETWEEN ? AND ?''"
| "comparison _ = '' = ?''"

lemma where_of_text:
  "where_of f = Some c \<Longrightarrow> cn_text c = quote_ident (fl_field f) @ comparison (fl_operator f) \<and>
     length (cn_args c) = length (filter (\<lambda>x. x = CHR ''?'') (comparison (fl_operator f)))"
  by (cases "fl_operator f") (auto simp: where_of_def Let_def split: prod.splits if_splits)

lemma comparison_hd: "hd (comparison op) = CHR '' ''"
  by (cases op) simp_all

text \<open>
  C26. Every condition and every sort key put into a statement starts with one quoted
  identifier, which Postgres reads back as exactly the column, followed by text that
  depends on the operator alone; the values stay out of the text, one argument for
  each question mark, and different columns give different identifiers.
\<close>
theorem clauses_cannot_inject:
  "list_all (\<lambda>c. \<exists>f \<in> set (qp_filters p). lex_ident (cn_text c) = Some (fl_field f, comparison (fl_operator f)) \<and>
        length (cn_args c) = length (filter (\<lambda>x. x = CHR ''?'') (comparison (fl_operator f)))) (apply_filters p) \<and>
   (qp_sorts p = [] \<or>
      map lex_ident (apply_sorts p fallback) =
      map (\<lambda>s. Some (so_field s, if so_desc s then '' DESC'' else '' ASC'')) (qp_sorts p)) \<and>
   (quote_ident col1 = quote_ident col2) = (col1 = col2)"
proof -
  have "\<exists>f \<in> set (qp_filters p). lex_ident (cn_text c) = Some (fl_field f, comparison (fl_operator f)) \<and>
        length (cn_args c) = length (filter (\<lambda>x. x = CHR ''?'') (comparison (fl_operator f)))"
    if "c \<in> set (apply_filters p)" for c
  proof -
    have "\<exists>f \<in> set (qp_filters p). where_of f = Some c"
      using that by (auto simp: apply_filters_def List.map_filter_def)
    then obtain f where "f \<in> set (qp_filters p)" "where_of f = Some c" by blast
    then show ?thesis
      using where_of_text [of f c] lex_quote_ident [of "comparison (fl_operator f)" "fl_field f"]
        comparison_hd [of "fl_operator f"] by (intro bexI [of _ f]) auto
  qed
  moreover have "lex_ident (quote_ident col @ CHR '' '' # t) = Some (col, CHR '' '' # t)" for col t
    by (rule lex_quote_ident) simp
  ultimately show ?thesis by (auto simp: list_all_iff apply_sorts_def)
qed

section \<open>Pages\<close>

text \<open>
  Paging loses and repeats nothing: for any page size the parser lets through,
  the pages zero to TotalPages - 1 laid end to end are the rows of the listing in
  their order, and the total is their number.
\<close>
theorem pages_cover_listing:
  assumes "1 \<le> sint (qp_size p)" "sint (qp_size p) \<le> max_page_size" "length rows < 2 ^ 62"
    and "length (order_by db (apply_sorts p ''created_at DESC'') rows) = length rows"
    and "\<not> db_down env op" "listing env op db p rows = Inr (page, n)"
  shows "concat (map (\<lambda>i. page_rows db (p\<lparr>qp_page := word_of_int (int i)\<rparr>) rows)
           [0..<nat (sint (total_pages p n))]) =
         order_by db (apply_sorts p ''created_at DESC'') rows \<and> sint n = int (length rows)"
proof -
  let ?xs = "order_by db (apply_sorts p ''created_at DESC'') rows"
  let ?k = "sint (qp_size p)"
  let ?m = "(int (length rows) + ?k - 1) div ?k"
  have n: "n = word_of_int (int (length rows))" using assms(5,6) by (simp add: listing_def)
  have l: "int (length rows) < 2 ^ 62" using assms(3) by (metis of_nat_less_numeral_power_cancel_iff)
  then have m: "sint (total_pages p n) = ?m"
    unfolding n using assms(1) by (intro total_pages_exact) (simp_all add: max_int_def)
  have mk: "?m * ?k \<le> int (length rows) + ?k - 1"
    using assms(1) pos_mod_sign [of ?k "int (length rows) + ?k - 1"]
      minus_mod_eq_div_mult [of "int (length rows) + ?k - 1" ?k] by linarith
  have page: "page_rows db (p\<lparr>qp_page := word_of_int (int i)\<rparr>) rows = take (nat ?k) (drop (i * nat ?k) ?xs)"
    if "i < nat ?m" for i
  proof -
    have "int i * ?k \<le> ?m * ?k" using that assms(1) by (intro mult_right_mono) linarith+
    then have b: "int i * ?k \<le> max_int" using mk l assms(2) by (simp add: max_int_def max_page_size_def)
    have "int i * 1 \<le> int i * ?k" using assms(1) by (intro mult_left_mono) simp_all
    then have i: "sint (word_of_int (int i) :: int64) = int i"
      using b by (intro sint_small64) (simp_all add: max_int_def)
    define q where "q = p\<lparr>qp_page := word_of_int (int i)\<rparr>"
    have q: "qp_page q = word_of_int (int i)" "qp_size q = qp_size p" "apply_sorts q = apply_sorts p"
      by (simp_all add: q_def apply_sorts_def fun_eq_iff)
    have off: "sint (page_offset q) = int i * ?k"
      using page_offset_exact [of q] b assms(1) by (simp only: q i)
    have "nat (int i * ?k) = i * nat ?k" using assms(1) by (simp add: nat_mult_distrib)
    then have "page_rows db q rows = take (nat ?k) (drop (i * nat ?k) ?xs)"
      using assms(1) by (simp only: page_rows_def Let_def off q) (auto simp: not_less mult_le_0_iff)
    then show ?thesis by (simp only: q_def)
  qed
  have "concat (map (\<lambda>i. page_rows db (p\<lparr>qp_page := word_of_int (int i)\<rparr>) rows) [0..<nat ?m]) =
        concat (map (\<lambda>i. take (nat ?k) (drop (i * nat ?k) ?xs)) [0..<nat ?m])"
    using page by (intro arg_cong [of _ _ concat] map_cong) auto
  also have "\<dots> = ?xs"
  proof (rule windows_cover)
    have "int (length rows) \<le> ?m * ?k"
      using assms(1) pos_mod_bound [of ?k "int (length rows) + ?k - 1"]
        minus_mod_eq_div_mult [of "int (length rows) + ?k - 1" ?k] by linarith
    moreover have "0 \<le> ?m" using assms(1) by (simp add: pos_imp_zdiv_nonneg_iff)
    ultimately show "length ?xs \<le> nat ?m * nat ?k"
      using assms(1,4) by (simp add: nat_mult_distrib [symmetric] nat_le_iff le_nat_iff)
  qed
  finally have "concat (map (\<lambda>i. page_rows db (p\<lparr>qp_page := word_of_int (int i)\<rparr>) rows) [0..<nat ?m]) = ?xs" .
  moreover have "sint n = int (length rows)" unfolding n using l by (intro sint_small64) simp_all
  ultimately show ?thesis by (simp only: m simp_thms)
qed

definition demo_engine :: "'r engine" where
  "demo_engine = \<lparr>holds = \<lambda>_ _. True, order_by = \<lambda>_ xs. rev xs\<rparr>"

definition demo_page :: params where
  "demo_page = \<lparr>qp_err = None, qp_page = 0, qp_size = 2, qp_filters = [], qp_sorts = [], qp_search = []\<rparr>"

theorem pages_cover_listing_witness:
  "concat (map (\<lambda>i. page_rows demo_engine (demo_page\<lparr>qp_page := word_of_int (int i)\<rparr>) [3, 4, 5 :: nat])
      [0..<nat (sint (total_pages demo_page 3))]) = [5, 4, 3]"
  using pages_cover_listing [of demo_page "[3, 4, 5 :: nat]" demo_engine demo_env OpListUsers "[5, 4]" 3]
  by (simp add: demo_page_def demo_engine_def max_page_size_def listing_def page_rows_def page_offset_def demo_env_def)

section \<open>What the listings let through\<close>

text \<open>
  Page 922337203685477581 of 20 rows: the product passes the end of a 64-bit int and
  the offset is 4, so a page no listing has answers with rows of the first page.
\<close>
lemma offset_wraps:
  "page_offset (demo_page\<lparr>qp_page := clamp_page ''922337203685477581'', qp_size := 20\<rparr>) = 4"
  by code_simp

text \<open>A "between" filter given as an array is accepted and then left out of the statement.\<close>
lemma between_array_dropped:
  "let p = parse_query (\<lambda>s. Some (JArr [JObj [(''id'', JStr ''createdAt''), (''operator'', JStr ''between''),
             (''value'', JArr [JStr ''2024-01-01'', JStr ''2024-02-01''])]])) [] [] ''x'' [] [] user_list_fields
   in qp_err p = None \<and> length (qp_filters p) = 1 \<and> apply_filters p = []"
  by code_simp

text \<open>Over gRPC an "in" filter arrives without its values, and a field outside the allowlist is skipped.\<close>
lemma proto_filters_lost:
  "map cn_args (apply_filters (from_proto (Some \<lparr>pq_page = None,
      pq_filtered = [\<lparr>pf_id = ''role'', pf_value = ''driver,admin'', pf_operator = 4\<rparr>,
                     \<lparr>pf_id = ''passwordHash'', pf_value = ''x'', pf_operator = 1\<rparr>],
      pq_sorted = [], pq_search = []\<rparr>) user_list_fields)) = [[BindList []]]"
  by code_simp

end
