(* ===== verification/Drivers.thy ===== *)
theory Drivers
  imports Users Query
begin

text \<open>
  internal/services/driver_account_service.go: logins for drivers.  The driver role
  is created or topped up on first use, outside any transaction; the account is
  registered by the user service.  The notifier is best effort and never fails the
  caller, so what it was asked to send is part of the result.  Usernames are derived
  on ASCII strings: the pattern [^a-z0-9._] removes every other byte.
\<close>

section \<open>The driver role\<close>

definition driver_role_name :: string where "driver_role_name = ''Driver''"

definition driver_role_permissions :: "string list" where
  "driver_role_permissions = [''tms:shipment.read'', ''tms:shipment.update'', ''tms:order.read'']"

definition default_driver_password :: string where "default_driver_password = ''123456''"

definition driver_description :: string where
  "driver_description = ''What the K-Trip driver app needs: see and advance the shipments assigned to you. Created automatically.''"

fun top_up :: "string list \<Rightarrow> string list \<Rightarrow> string list" where
  "top_up have_keys [] = have_keys"
| "top_up have_keys (k # ks) = top_up (if k \<in> set have_keys then have_keys else have_keys @ [k]) ks"

definition ensure_driver_role :: "env \<Rightarrow> uuid \<Rightarrow> sys \<Rightarrow> svc_error + (role \<times> sys)" where
  "ensure_driver_role env cid s =
     (case find_role_by_name env s cid driver_role_name of
        Inr r0 \<Rightarrow>
          let keys = top_up (ro_permissions r0) driver_role_permissions;
              r = r0\<lparr>ro_permissions := keys\<rparr>
          in if keys \<noteq> ro_permissions r0 \<and> ro_is_system r0
             then (case update_role env cid (ro_id r0) (\<lambda>q. q\<lparr>ro_permissions := keys\<rparr>) s of
                 Inl e \<Rightarrow> Inl e
               | Inr s1 \<Rightarrow> Inr (r, s1))
             else Inr (r, s)
      | Inl e \<Rightarrow>
          if e \<noteq> ErrNotFound then Inl e
          else create_role env \<lparr>ro_id = uuid_nil, ro_company = cid, ro_name = driver_role_name,
                 ro_description = Some driver_description, ro_permissions = driver_role_permissions,
                 ro_grants_all = False, ro_is_system = True, ro_created_by = None\<rparr> s)"

section \<open>Usernames\<close>

definition username_char :: "char \<Rightarrow> bool" where
  "username_char c = (is_lower c \<or> is_digit c \<or> c = CHR ''.'' \<or> c = CHR ''_'')"

definition username_chars :: "string \<Rightarrow> string" where
  "username_chars s = filter username_char (to_lower s)"

definition first_name_slug :: "string \<Rightarrow> string" where
  "first_name_slug name = (case Prelude.fields name of [] \<Rightarrow> [] | w # _ \<Rightarrow> username_chars w)"

definition company_initials :: "env \<Rightarrow> sys \<Rightarrow> uuid \<Rightarrow> string" where
  "company_initials env s cid =
     (case find_company env s cid of
        Inl _ \<Rightarrow> []
      | Inr co \<Rightarrow>
          (let abbr = (case co_abbreviation co of None \<Rightarrow> [] | Some a \<Rightarrow> username_chars a)
           in if abbr \<noteq> [] then abbr
              else concat (map (\<lambda>w. username_chars (take 1 w)) (Prelude.fields (co_name co)))))"

definition digit_char :: "nat \<Rightarrow> char" where "digit_char d = char_of (48 + d)"

definition two_digits :: "nat \<Rightarrow> string" where
  "two_digits n = [digit_char (n div 10), digit_char (n mod 10)]"

definition base_username :: "env \<Rightarrow> sys \<Rightarrow> uuid \<Rightarrow> string \<Rightarrow> string" where
  "base_username env s cid name =
     (let base = first_name_slug name @ company_initials env s cid
      in if base = [] then ''driver'' else base)"

text \<open>The loop for n := 1; n <= 99; n++.\<close>

function search_username :: "env \<Rightarrow> sys \<Rightarrow> string \<Rightarrow> nat \<Rightarrow> svc_error + string" where
  "search_username env s base n =
     (if \<not> n \<le> 99 then Inl (ErrValidation ''every username is taken; enter one by hand'')
      else case exists_by_username env (base @ two_digits n) s of
        Inl e \<Rightarrow> Inl e
      | Inr taken \<Rightarrow> if \<not> taken then Inr (base @ two_digits n) else search_username env s base (n + 1))"
  by pat_completeness auto
termination by (relation "measure (\<lambda>(_, _, _, n). 100 - n)") auto

declare search_username.simps [simp del]

definition derive_username :: "env \<Rightarrow> uuid \<Rightarrow> string \<Rightarrow> sys \<Rightarrow> svc_error + string" where
  "derive_username env cid name s =
     (let base = base_username env s cid name in
      case exists_by_username env base s of
        Inl e \<Rightarrow> Inl e
      | Inr taken \<Rightarrow> if \<not> taken then Inr base else search_username env s base 1)"

section \<open>Accounts\<close>

record create_driver_input =
  cd_full_name :: string
  cd_phone :: string
  cd_username :: string
  cd_password :: string
  cd_send :: bool

record driver_account =
  da_user :: uuid
  da_username :: string
  da_full_name :: string
  da_phone :: string
  da_status :: string
  da_created :: time
  da_last_login :: "time option"
  da_first_login :: "time option"
  da_password :: string
  da_whatsapp :: bool

definition status_of :: "user \<Rightarrow> string" where
  "status_of u = (if us_suspended u then ''suspended'' else ''active'')"

definition text_or_empty :: "string option \<Rightarrow> string" where
  "text_or_empty v = (case v of None \<Rightarrow> [] | Some x \<Rightarrow> x)"

definition to_driver_account :: "user \<Rightarrow> driver_account" where
  "to_driver_account u =
     \<lparr>da_user = us_id u, da_username = text_or_empty (us_username u),
      da_full_name = text_or_empty (us_full_name u), da_phone = text_or_empty (us_phone u),
      da_status = status_of u, da_created = us_created u, da_last_login = us_last_login u,
      da_first_login = us_last_login u, da_password = [], da_whatsapp = False\<rparr>"

text \<open>The message handed to the notifier: phone, company name, username, password.\<close>

type_synonym message = "string \<times> string \<times> string \<times> string"

definition register_driver_input ::
  "create_driver_input \<Rightarrow> uuid \<Rightarrow> uuid \<Rightarrow> uuid \<Rightarrow> string \<Rightarrow> register_input" where
  "register_driver_input inp actor cid rid username =
     \<lparr>ri_username = username, ri_email = [], ri_phone = trim_space (cd_phone inp),
      ri_password = (if cd_password inp = [] then default_driver_password else cd_password inp),
      ri_full_name = trim_space (cd_full_name inp), ri_role = [], ri_parent = Some actor,
      ri_company = Some cid, ri_role_id = Some rid, ri_company_name = [], ri_company_abbreviation = [],
      ri_permissions = [], ri_unaffiliated = False\<rparr>"

definition driver_username :: "env \<Rightarrow> uuid \<Rightarrow> create_driver_input \<Rightarrow> sys \<Rightarrow> svc_error + string" where
  "driver_username env cid inp s =
     (let username = trim_space (cd_username inp) in
      if username = [] then derive_username env cid (trim_space (cd_full_name inp)) s else Inr username)"

definition driver_message :: "env \<Rightarrow> uuid \<Rightarrow> register_input \<Rightarrow> sys \<Rightarrow> message" where
  "driver_message env cid ri s =
     (ri_phone ri, (case find_company env s cid of Inl _ \<Rightarrow> ''Karlo'' | Inr co \<Rightarrow> co_name co),
      ri_username ri, ri_password ri)"

definition created_account :: "create_driver_input \<Rightarrow> register_input \<Rightarrow> user \<Rightarrow> driver_account" where
  "created_account inp ri u =
     \<lparr>da_user = us_id u, da_username = ri_username ri, da_full_name = ri_full_name ri,
      da_phone = ri_phone ri, da_status = status_of u, da_created = us_created u,
      da_last_login = None, da_first_login = None,
      da_password = (if cd_password inp = [] \<or> cd_send inp then ri_password ri else []),
      da_whatsapp = cd_send inp\<rparr>"

definition create_driver ::
  "env \<Rightarrow> uuid \<Rightarrow> uuid \<Rightarrow> create_driver_input \<Rightarrow> sys \<Rightarrow> (svc_error + (driver_account \<times> message list)) \<times> sys" where
  "create_driver env actor cid inp s =
     (if trim_space (cd_full_name inp) = [] then (Inl (ErrValidation ''a name is required''), s)
      else if trim_space (cd_phone inp) = [] then (Inl (ErrValidation ''a WhatsApp number is required''), s)
      else case ensure_driver_role env cid s of
        Inl e \<Rightarrow> (Inl e, s)
      | Inr rs \<Rightarrow>
          (case driver_username env cid inp (snd rs) of
             Inl e \<Rightarrow> (Inl e, snd rs)
           | Inr username \<Rightarrow>
               (let ri = register_driver_input inp actor cid (ro_id (fst rs)) username;
                    done_reg = register env ri (snd rs)
                in case fst done_reg of
                     Inl e \<Rightarrow> (Inl e, snd done_reg)
                   | Inr u \<Rightarrow> (Inr (created_account inp ri u,
                        if cd_send inp then [driver_message env cid ri (snd done_reg)] else []),
                      snd done_reg))))"

definition lookup_driver :: "env \<Rightarrow> uuid \<Rightarrow> string \<Rightarrow> sys \<Rightarrow> svc_error + driver_account" where
  "lookup_driver env cid username s =
     (case find_by_identifier env s (trim_space username) of
        Inl e \<Rightarrow> Inl e
      | Inr u \<Rightarrow>
          if us_company u \<noteq> None \<and> us_company u \<noteq> Some cid
          then Inl (ErrForbidden ''that username belongs to another company'')
          else Inr (to_driver_account u))"

definition adopt_driver :: "env \<Rightarrow> uuid \<Rightarrow> uuid \<Rightarrow> sys \<Rightarrow> (svc_error + driver_account) \<times> sys" where
  "adopt_driver env cid uid s =
     (case find_user_by_id env s uid of
        Inl e \<Rightarrow> (Inl e, s)
      | Inr u \<Rightarrow>
          if us_company u \<noteq> None \<and> us_company u \<noteq> Some cid
          then (Inl (ErrForbidden ''that account belongs to another company''), s)
          else (case ensure_driver_role env cid s of
              Inl e \<Rightarrow> (Inl e, s)
            | Inr rs \<Rightarrow>
                (let f = (\<lambda>u. u\<lparr>us_company := Some cid, us_role := Some (ro_id (fst rs))\<rparr>)
                 in case update_user_fields env uid f (snd rs) of
                      Inl e \<Rightarrow> (Inl e, snd rs)
                    | Inr s2 \<Rightarrow> (Inr (to_driver_account (f u)), s2))))"

definition list_drivers ::
  "env \<Rightarrow> user engine \<Rightarrow> uuid \<Rightarrow> sys \<Rightarrow> svc_error + driver_account list" where
  "list_drivers env db cid s =
     (case find_role_by_name env s cid driver_role_name of
        Inl e \<Rightarrow> if e = ErrNotFound then Inr [] else Inl e
      | Inr r \<Rightarrow>
          (case list_by_company env db cid []
               \<lparr>qp_err = None, qp_page = 0, qp_size = 500, qp_filters = [], qp_sorts = [], qp_search = []\<rparr> s of
             Inl e \<Rightarrow> Inl e
           | Inr page \<Rightarrow> Inr (map to_driver_account
                (filter (\<lambda>u. us_role u = Some (ro_id r)) (fst page)))))"

section \<open>The search for a free username\<close>

definition username_taken :: "sys \<Rightarrow> string \<Rightarrow> bool" where
  "username_taken s v \<longleftrightarrow> (\<exists>u \<in> set (users s). user_live u \<and> ci_eq (us_username u) v)"

lemma exists_by_username_eq:
  "exists_by_username env v s = (if db_down env OpExists then Inl (ErrDB OpExists) else Inr (username_taken s v))"
  by (auto simp: exists_by_username_def exists_user_def username_taken_def sql_count_def
      length_greater_0_conv filter_empty_conv)

text \<open>The names tried, in order: the base, then the base with 01 to 99.\<close>

definition candidate :: "string \<Rightarrow> nat \<Rightarrow> string" where
  "candidate base n = (if n = 0 then base else base @ two_digits n)"

lemma search_username_up:
  assumes "\<not> db_down env OpExists"
  shows "search_username env s base n =
    (if \<not> n \<le> 99 then Inl (ErrValidation ''every username is taken; enter one by hand'')
     else if username_taken s (base @ two_digits n) then search_username env s base (Suc n)
     else Inr (base @ two_digits n))"
  using assms by (subst search_username.simps) (simp add: exists_by_username_eq)

lemma search_username_cases:
  assumes "\<not> db_down env OpExists" "1 \<le> n"
  shows "(\<exists>k. n \<le> k \<and> k \<le> 99 \<and> search_username env s base n = Inr (candidate base k) \<and>
            \<not> username_taken s (candidate base k) \<and> (\<forall>j. n \<le> j \<and> j < k \<longrightarrow> username_taken s (candidate base j))) \<or>
         (\<forall>j. n \<le> j \<and> j \<le> 99 \<longrightarrow> username_taken s (candidate base j))"
  using assms
proof (induction env s base n rule: search_username.induct)
  case (1 env s base n)
  consider "\<not> n \<le> 99" | "n \<le> 99" "\<not> username_taken s (base @ two_digits n)"
    | "n \<le> 99" "username_taken s (base @ two_digits n)" by blast
  then show ?case
  proof cases
    case 2
    then have "search_username env s base n = Inr (candidate base n)" "\<not> username_taken s (candidate base n)"
      using 1(2,3) by (simp_all add: search_username_up candidate_def)
    then show ?thesis using 2(1) by (intro disjI1 exI [of _ n]) auto
  next
    case 3
    then have eq: "search_username env s base n = search_username env s base (n + 1)"
      using 1(2) by (simp add: search_username_up [of env s base n])
    have n: "username_taken s (candidate base n)" using 3 1(3) by (simp add: candidate_def)
    have "exists_by_username env (base @ two_digits n) s = Inr True"
      using 3 1(2) by (simp add: exists_by_username_eq)
    from 1(1) [OF _ this _ 1(2)] 3 have IH:
      "(\<exists>k. n + 1 \<le> k \<and> k \<le> 99 \<and> search_username env s base (n + 1) = Inr (candidate base k) \<and>
            \<not> username_taken s (candidate base k) \<and> (\<forall>j. n + 1 \<le> j \<and> j < k \<longrightarrow> username_taken s (candidate base j))) \<or>
         (\<forall>j. n + 1 \<le> j \<and> j \<le> 99 \<longrightarrow> username_taken s (candidate base j))" by simp
    then show ?thesis
    proof
      assume "\<exists>k. n + 1 \<le> k \<and> k \<le> 99 \<and> search_username env s base (n + 1) = Inr (candidate base k) \<and>
            \<not> username_taken s (candidate base k) \<and> (\<forall>j. n + 1 \<le> j \<and> j < k \<longrightarrow> username_taken s (candidate base j))"
      then obtain k where k: "n + 1 \<le> k" "k \<le> 99" "search_username env s base (n + 1) = Inr (candidate base k)"
        "\<not> username_taken s (candidate base k)" "\<And>j. n + 1 \<le> j \<Longrightarrow> j < k \<Longrightarrow> username_taken s (candidate base j)"
        by blast
      have "username_taken s (candidate base j)" if "n \<le> j" "j < k" for j
        using that n k(5) [of j] by (cases "j = n") simp_all
      then show ?thesis using k eq by (intro disjI1 exI [of _ k]) simp
    next
      assume a: "\<forall>j. n + 1 \<le> j \<and> j \<le> 99 \<longrightarrow> username_taken s (candidate base j)"
      have "username_taken s (candidate base j)" if "n \<le> j" "j \<le> 99" for j
        using that n a by (cases "j = n") simp_all
      then show ?thesis by blast
    qed
  next
    case 1
    then show ?thesis by auto
  qed
qed

lemma digit_char_lower: "d < 10 \<Longrightarrow> lower_char (digit_char d) = digit_char d"
  by (simp add: lower_char_def is_upper_def in_range_def digit_char_def)

lemma digit_char_inj: "d < 10 \<Longrightarrow> e < 10 \<Longrightarrow> digit_char d = digit_char e \<longleftrightarrow> d = e"
proof
  assume "d < 10" "e < 10" "digit_char d = digit_char e"
  then have "of_char (digit_char d) = (of_char (digit_char e) :: nat)" by simp
  then show "d = e" using \<open>d < 10\<close> \<open>e < 10\<close> by (simp add: digit_char_def)
qed simp

lemma candidate_inj:
  assumes "i \<le> 99" "j \<le> 99" "to_lower (candidate base i) = to_lower (candidate base j)"
  shows "i = j"
proof -
  have d: "i div 10 < 10" "j div 10 < 10" using assms by simp_all
  have l: "to_lower (two_digits n) = two_digits n" if "n \<le> 99" for n
  proof -
    have "n div 10 < 10" using that by simp
    then show ?thesis by (simp add: two_digits_def to_lower_def digit_char_lower)
  qed
  have len: "length (candidate base i) = length (candidate base j)"
    using assms(3) by (simp add: to_lower_def) (metis length_map)
  show ?thesis
  proof (cases "i = 0 \<or> j = 0")
    case True
    then show ?thesis using len by (auto simp: candidate_def two_digits_def split: if_splits)
  next
    case False
    then have "to_lower base @ two_digits i = to_lower base @ two_digits j"
      using assms l by (simp add: candidate_def to_lower_def)
    then have "i div 10 = j div 10" "i mod 10 = j mod 10"
      using d by (simp_all add: two_digits_def digit_char_inj)
    then show ?thesis by (metis div_mult_mod_eq)
  qed
qed

lemma all_candidates_taken:
  assumes "\<And>j. j \<le> 99 \<Longrightarrow> username_taken s (candidate base j)"
  shows "100 \<le> sql_count user_live (users s)"
proof -
  let ?name = "\<lambda>u. to_lower (the (us_username u))"
  have "(\<lambda>j. to_lower (candidate base j)) ` {..99} \<subseteq> ?name ` set (filter user_live (users s))"
  proof
    fix v assume "v \<in> (\<lambda>j. to_lower (candidate base j)) ` {..99}"
    then obtain j where "j \<le> 99" and v: "v = to_lower (candidate base j)" by auto
    then obtain u where "u \<in> set (users s)" "user_live u" "ci_eq (us_username u) (candidate base j)"
      using assms [of j] by (auto simp: username_taken_def)
    then show "v \<in> ?name ` set (filter user_live (users s))"
      by (intro image_eqI [of _ _ u]) (auto simp: v ci_eq_def split: option.splits)
  qed
  then have "card ((\<lambda>j. to_lower (candidate base j)) ` {..99}) \<le> length (filter user_live (users s))"
    by (meson List.finite_set card_image_le card_length card_mono finite_imageI le_trans)
  moreover have "inj_on (\<lambda>j. to_lower (candidate base j)) {..99}"
    by (rule inj_onI) (simp add: candidate_inj)
  ultimately show ?thesis by (simp add: card_image sql_count_def)
qed


section \<open>What a driver's account may do\<close>

lemma top_up_keys: "set (top_up ks wanted) = set ks \<union> set wanted"
  by (induction ks wanted rule: top_up.induct) auto

lemma find_role_by_name_Inr:
  "find_role_by_name env s cid n = Inr r \<Longrightarrow> r \<in> set (roles s) \<and> ro_company r = cid \<and> ro_name r = n"
  by (auto simp: find_role_by_name_def split: if_splits option.splits dest!: sql_first_Some)

lemma update_role_Inr:
  "update_role env cid i f s = Inr s' \<Longrightarrow> s' = s\<lparr>roles := sql_update (\<lambda>r. ro_id r = i \<and> ro_company r = cid) f (roles s)\<rparr>"
  by (auto simp: update_role_def Let_def split: if_splits)

lemma create_role_Inr:
  "create_role env r0 s = Inr (r, s') \<Longrightarrow> r = r0\<lparr>ro_id := gen_uuid env (draws s)\<rparr> \<and>
     s' = s\<lparr>roles := roles s @ [r], draws := Suc (draws s)\<rparr>"
  by (auto simp: create_role_def Let_def split: if_splits)

definition is_driver_role :: "uuid \<Rightarrow> role \<Rightarrow> bool" where
  "is_driver_role cid q \<longleftrightarrow> ro_company q = cid \<and> ro_name q = driver_role_name \<and>
     (ro_is_system q \<longrightarrow> set driver_role_permissions \<subseteq> set (ro_permissions q))"

lemma ensure_driver_role_Inr:
  assumes "ensure_driver_role env cid s = Inr (r, s')"
  shows "\<exists>t d. s' = s\<lparr>roles := t, draws := d\<rparr> \<and> draws s \<le> d \<and>
     (\<exists>q \<in> set t. ro_id q = ro_id r \<and> is_driver_role cid q) \<and>
     ro_company ` set t \<subseteq> insert cid (ro_company ` set (roles s))"
proof (cases "find_role_by_name env s cid driver_role_name")
  case (Inl e)
  then obtain q where "r = q" "q = \<lparr>ro_id = gen_uuid env (draws s), ro_company = cid, ro_name = driver_role_name,
      ro_description = Some driver_description, ro_permissions = driver_role_permissions,
      ro_grants_all = False, ro_is_system = True, ro_created_by = None\<rparr>"
    "s' = s\<lparr>roles := roles s @ [q], draws := Suc (draws s)\<rparr>"
    using assms by (auto simp: ensure_driver_role_def dest!: create_role_Inr split: if_splits)
  then show ?thesis
    by (intro exI [of _ "roles s @ [q]"] exI [of _ "Suc (draws s)"]) (auto simp: is_driver_role_def)
next
  case (Inr r0)
  note r0 = find_role_by_name_Inr [OF Inr]
  let ?keys = "top_up (ro_permissions r0) driver_role_permissions"
  show ?thesis
  proof (cases "?keys \<noteq> ro_permissions r0 \<and> ro_is_system r0")
    case True
    let ?hit = "\<lambda>q. ro_id q = ro_id r0 \<and> ro_company q = cid"
    let ?f = "\<lambda>q. q\<lparr>ro_permissions := ?keys\<rparr>"
    obtain s1 where "update_role env cid (ro_id r0) ?f s = Inr s1" "s' = s1" "r = r0\<lparr>ro_permissions := ?keys\<rparr>"
      using assms Inr True by (auto simp: ensure_driver_role_def Let_def split: sum.splits)
    then have s': "s' = s\<lparr>roles := sql_update ?hit ?f (roles s)\<rparr>" and r: "ro_id r = ro_id r0"
      by (auto dest!: update_role_Inr)
    have "?f r0 \<in> set (sql_update ?hit ?f (roles s))" using r0 by (auto simp: set_sql_update intro: rev_image_eqI)
    moreover have "is_driver_role cid (?f r0)" using r0 by (auto simp: is_driver_role_def top_up_keys)
    moreover have "ro_company ` set (sql_update ?hit ?f (roles s)) \<subseteq> ro_company ` set (roles s)"
      by (auto simp: set_sql_update)
    ultimately have "\<exists>q \<in> set (sql_update ?hit ?f (roles s)). ro_id q = ro_id r \<and> is_driver_role cid q"
      using r by (intro bexI [of _ "?f r0"]) simp_all
    then show ?thesis using s' \<open>ro_company ` _ \<subseteq> _\<close>
      by (intro exI [of _ "sql_update ?hit ?f (roles s)"] exI [of _ "draws s"]) auto
  next
    case False
    then have s': "s' = s" "ro_id r = ro_id r0"
      using assms Inr by (auto simp: ensure_driver_role_def Let_def)
    have "is_driver_role cid r0"
      using r0 False top_up_keys [of "ro_permissions r0" driver_role_permissions] by (auto simp: is_driver_role_def)
    then show ?thesis using s' r0
      by (intro exI [of _ "roles s"] exI [of _ "draws s"]) auto
  qed
qed

lemma register_member_role:
  assumes "register_tx env inp h s = Inr (v, s')" "\<not> new_tenant inp" "ri_role_id inp = Some rid" "ri_company inp = Some c"
  shows "us_role v = Some rid \<and> roles s' = roles s"
proof -
  obtain cid s1 u s2 s3 s4 where c: "found_company env inp s = Inr (cid, s1)"
    "create_account env (registered_user inp cid h) s1 = Inr (u, s2)"
    "(case cid of Some c \<Rightarrow> if new_tenant inp
        then grant_defaults env c product_tms default_tms_features s2 else Inr s2 | None \<Rightarrow> Inr s2) = Inr s3"
    "give_role env inp cid u s3 = Inr (v, s4)" "give_extras env inp v s4 = Inr s'"
    using register_tx_Inr [OF assms(1)] by metis
  have "cid = Some c" "s1 = s" using found_company_Inr [OF c(1)] assms(2,4) by simp_all
  moreover have "roles s2 = roles s1" using create_account_Inr [OF c(2)] by simp
  moreover have "s3 = s2" using c(3) assms(2) \<open>cid = Some c\<close> by simp
  moreover obtain rid' s5 where "choose_role env inp c s3 = Inr (rid', s5)" "v = u\<lparr>us_role := Some rid'\<rparr>" "roles s4 = roles s5"
    using give_role_Inr [OF c(4)] \<open>cid = Some c\<close> by auto
  moreover have "rid' = rid" "s5 = s3"
    using calculation(5) assms(3) by (auto simp: choose_role_def split: sum.splits)
  ultimately show ?thesis using give_extras_Inr [OF c(5)] by simp
qed

lemma create_driver_Inr:
  assumes "create_driver env actor cid inp s = (Inr p, s')"
  obtains rs n u where "ensure_driver_role env cid s = Inr rs"
    "driver_username env cid inp (snd rs) = Inr n"
    "register env (register_driver_input inp actor cid (ro_id (fst rs)) n) (snd rs) = (Inr u, s')"
    "fst p = created_account inp (register_driver_input inp actor cid (ro_id (fst rs)) n) u"
proof -
  obtain rs n where e: "ensure_driver_role env cid s = Inr rs" "driver_username env cid inp (snd rs) = Inr n"
    using assms by (auto simp: create_driver_def split: if_splits sum.splits)
  let ?reg = "register env (register_driver_input inp actor cid (ro_id (fst rs)) n) (snd rs)"
  obtain u where u: "fst ?reg = Inr u"
    using assms e by (auto simp: create_driver_def Let_def split: if_splits sum.splits)
  then have "snd ?reg = s'" "fst p = created_account inp (register_driver_input inp actor cid (ro_id (fst rs)) n) u"
    using assms e by (auto simp: create_driver_def Let_def split: if_splits)
  with u show ?thesis using e that by (metis prod.collapse)
qed

text \<open>
  The account answered is a driver of the company in its driver role; nobody else's row changed,
  and it was nobody's or already the company's.
\<close>
definition driver_placed :: "uuid \<Rightarrow> sys \<Rightarrow> sys \<Rightarrow> driver_account \<Rightarrow> bool" where
  "driver_placed cid s s' acc \<longleftrightarrow>
     (\<exists>q \<in> set (roles s'). is_driver_role cid q \<and>
        (\<exists>u \<in> set (users s'). us_id u = da_user acc \<and> user_live u \<and> us_company u = Some cid \<and>
           us_role u = Some (ro_id q) \<and> status_of u = da_status acc)) \<and>
     {u \<in> set (users s'). us_id u \<noteq> da_user acc} = {u \<in> set (users s). us_id u \<noteq> da_user acc} \<and>
     {u \<in> set (users s). us_id u = da_user acc \<and> user_live u \<and> us_company u \<notin> {None, Some cid}} = {}"

lemma created_driver_placed:
  assumes "fresh_ids env s" "cid \<in> co_id ` set (companies s)" "create_driver env actor cid inp s = (Inr (acc, msgs), s')"
  shows "driver_placed cid s s' acc"
proof -
  obtain r s1 n v where e: "ensure_driver_role env cid s = Inr (r, s1)"
    and reg: "register env (register_driver_input inp actor cid (ro_id r) n) s1 = (Inr v, s')"
    and acc: "acc = created_account inp (register_driver_input inp actor cid (ro_id r) n) v"
    using assms(3) by (elim create_driver_Inr) (metis fst_conv prod.collapse)
  let ?ri = "register_driver_input inp actor cid (ro_id r) n"
  have nt: "\<not> new_tenant ?ri" "ri_role_id ?ri = Some (ro_id r)" "ri_company ?ri = Some cid"
    by (simp_all add: register_driver_input_def new_tenant_def)
  obtain t d where s1: "s1 = s\<lparr>roles := t, draws := d\<rparr>" "draws s \<le> d"
    "\<exists>q \<in> set t. ro_id q = ro_id r \<and> is_driver_role cid q" "ro_company ` set t \<subseteq> insert cid (ro_company ` set (roles s))"
    using ensure_driver_role_Inr [OF e] by blast
  have cid: "gen_uuid env n \<noteq> cid" if "draws s \<le> n" for n
    using assms(2) fresh_ids_not(2) [OF assms(1) that] by (metis imageE)
  have f: "fresh_ids env s1"
    using assms(1) s1(2,4) cid by (auto simp: fresh_ids_def s1(1)) (metis image_eqI insertE le_trans subsetD)
  obtain h where tx: "register_tx env ?ri h s1 = Inr (v, s')" using register_cases [OF reg] by auto
  have role: "us_role v = Some (ro_id r)" "roles s' = t"
    using register_member_role [OF tx nt] s1(1) by simp_all
  have u: "us_company v = Some cid" "users s' = users s @ [v]" "us_deleted v = None" "us_id v = gen_uuid env d"
    using register_result [OF tx f] nt s1(1)
    by (auto simp: registered_user_def blank_user_def)
  have fresh: "us_id w \<noteq> us_id v" if "w \<in> set (users s)" for w
    using fresh_ids_not(1) [OF assms(1) s1(2) that] u(4) by simp
  have a: "da_user acc = us_id v" "da_status acc = status_of v" by (simp_all add: acc created_account_def)
  obtain q where "q \<in> set t" "ro_id q = ro_id r" "is_driver_role cid q" using s1(3) by blast
  then show ?thesis
    using role u fresh a unfolding driver_placed_def by (intro conjI bexI [of _ q]) (auto simp: user_live_def)
qed

lemma adopted_driver_placed:
  assumes "distinct (map us_id (users s))" "adopt_driver env cid uid s = (Inr acc, s')"
  shows "driver_placed cid s s' acc"
proof -
  obtain u r s1 where u: "find_user_by_id env s uid = Inr u" "us_company u \<in> {None, Some cid}"
    and e: "ensure_driver_role env cid s = Inr (r, s1)"
    and up: "update_user_fields env uid (\<lambda>u. u\<lparr>us_company := Some cid, us_role := Some (ro_id r)\<rparr>) s1 = Inr s'"
    and acc: "acc = to_driver_account (u\<lparr>us_company := Some cid, us_role := Some (ro_id r)\<rparr>)"
    using assms(2) by (auto simp: adopt_driver_def Let_def split: if_splits sum.splits)
  obtain t d where s1: "s1 = s\<lparr>roles := t, draws := d\<rparr>"
    "\<exists>q \<in> set t. ro_id q = ro_id r \<and> is_driver_role cid q"
    using ensure_driver_role_Inr [OF e] by blast
  let ?f = "\<lambda>u. u\<lparr>us_company := Some cid, us_role := Some (ro_id r)\<rparr>"
  let ?hit = "\<lambda>u. us_id u = uid \<and> user_live u"
  have s': "users s' = sql_update ?hit ?f (users s)" "roles s' = t"
    using update_user_Inr [OF up] s1(1) by simp_all
  note fu = find_user_Inr [OF u(1)]
  have a: "da_user acc = uid" "da_status acc = status_of (?f u)"
    using fu by (simp_all add: acc to_driver_account_def)
  have "?f u \<in> set (users s')" using fu by (auto simp: s' set_sql_update intro: rev_image_eqI)
  moreover have "{w \<in> set (users s'). us_id w \<noteq> uid} = {w \<in> set (users s). us_id w \<noteq> uid}"
    by (auto simp: s' set_sql_update split: if_splits)
  moreover have "w = u" if "w \<in> set (users s)" "us_id w = uid" for w
    using assms(1) that fu by (metis (no_types, lifting) distinct_map inj_on_def)
  then have "{w \<in> set (users s). us_id w = uid \<and> user_live w \<and> us_company w \<notin> {None, Some cid}} = {}"
    using u(2) by blast
  moreover have "us_id (?f u) = uid \<and> user_live (?f u)" using fu by (simp add: user_live_def)
  moreover obtain q where "q \<in> set t" "ro_id q = ro_id r" "is_driver_role cid q" using s1(2) by blast
  ultimately show ?thesis unfolding driver_placed_def a s'(2)
    by (intro conjI bexI [of _ q] bexI [of _ "?f u"]) simp_all
qed

text \<open>
  A driver's account holds the driver role of its company and nothing else: after
  creating or adopting one, the account belongs to the company, its role is the
  company's "Driver" role, whose keys (when the platform made the role) include what
  the app calls, the account adopted was nobody's or already the company's, and no
  other account changed.
\<close>
theorem driver_holds_driver_role:
  assumes "fresh_ids env s" "cid \<in> co_id ` set (companies s)" "distinct (map us_id (users s))"
    and "(\<exists>msgs. create_driver env actor cid inp s = (Inr (acc, msgs), s')) \<or> adopt_driver env cid uid s = (Inr acc, s')"
  shows "\<exists>q \<in> set (roles s'). is_driver_role cid q \<and>
     (\<exists>u \<in> set (users s'). us_id u = da_user acc \<and> user_live u \<and> us_company u = Some cid \<and>
        us_role u = Some (ro_id q) \<and> status_of u = da_status acc) \<and>
     {u \<in> set (users s'). us_id u \<noteq> da_user acc} = {u \<in> set (users s). us_id u \<noteq> da_user acc} \<and>
     {u \<in> set (users s). us_id u = da_user acc \<and> user_live u \<and> us_company u \<notin> {None, Some cid}} = {}"
proof -
  have "driver_placed cid s s' acc"
    using assms(4) created_driver_placed [OF assms(1,2)] adopted_driver_placed [OF assms(3)] by blast
  then show ?thesis unfolding driver_placed_def by blast
qed

definition demo_driver :: create_driver_input where
  "demo_driver = \<lparr>cd_full_name = ''Dwi Prasetyo'', cd_phone = ''0811'', cd_username = [], cd_password = [], cd_send = True\<rparr>"

definition demo_driver_run :: "(svc_error + (driver_account \<times> message list)) \<times> sys" where
  "demo_driver_run = create_driver demo_env 2 5 demo_driver demo_tenant"

text \<open>The first driver Dwi of Jaya is dwij and is sent the default password.\<close>

lemma demo_driver_runs:
  "map_sum (\<lambda>e. e) (\<lambda>p. (da_username (fst p), da_password (fst p), snd p)) (fst demo_driver_run) =
     Inr (''dwij'', ''123456'', [(''0811'', ''Jaya'', ''dwij'', ''123456'')])"
  by code_simp

theorem driver_holds_driver_role_witness:
  "\<exists>q \<in> set (roles (snd demo_driver_run)). is_driver_role 5 q"
proof -
  obtain acc msgs where "fst demo_driver_run = Inr (acc, msgs)"
    using demo_driver_runs by (cases "fst demo_driver_run") auto
  then have run: "create_driver demo_env 2 5 demo_driver demo_tenant = (Inr (acc, msgs), snd demo_driver_run)"
    unfolding demo_driver_run_def by (metis prod.collapse)
  show ?thesis
    using driver_holds_driver_role [OF demo_fresh, of 5 2 demo_driver acc "snd demo_driver_run" uuid_nil] run
    by (auto simp: demo_tenant_def blank_company_def)
qed


section \<open>What adoption lets through\<close>

text \<open>
  Adopting takes no seat into account, and an account that is already the company's
  is given the driver role whatever it held: the one administrator of a company is
  adopted into a driver, and its sessions stay as they were.
\<close>

definition full_office :: sys where
  "full_office = full_tenant\<lparr>users := [(blank_user 2 (Some 5))\<lparr>us_role := Some 3\<rparr>, blank_user 7 (Some 5), blank_user 8 None]\<rparr>"

lemma adopt_ignores_seats:
  "let s' = snd (adopt_driver demo_env 5 8 full_office)
   in seat_limit s' 5 = 2 \<and> seats_used full_office 5 = 2 \<and> seats_used s' 5 = 3"
  by code_simp

lemma adopt_demotes_administrator:
  "let s0 = demo_tenant\<lparr>roles := [demo_role\<lparr>ro_grants_all := True, ro_is_system := True, ro_name := ''Administrator''\<rparr>],
             sessions := sessions demo_logged_in\<rparr>;
       s' = snd (adopt_driver demo_env 5 2 s0)
   in map us_role (users s') = [Some 10] \<and> sessions s' = sessions s0 \<and> published s' = published s0"
  by code_simp

text \<open>The account of Karlo's own staff, in no company, can be taken by any of them.\<close>

lemma adopt_takes_staff:
  "map (\<lambda>u. (us_platform_staff u, us_company u)) (users (snd (adopt_driver demo_env 5 8
      (demo_tenant\<lparr>users := [(blank_user 8 None)\<lparr>us_platform_staff := True\<rparr>]\<rparr>)))) = [(True, Some 5)]"
  by code_simp

text \<open>The message is reported as sent whether or not a notifier is configured.\<close>

lemma whatsapp_always_sent: "da_whatsapp (created_account inp ri u) = cd_send inp"
  by (simp add: created_account_def)

end
