(* ===== verification/Http.thy ===== *)
theory Http
  imports Companies Drivers
begin

text \<open>
  What the HTTP handlers share (platform/response, scopeCompany, principalUserID,
  pathID, the mapping of service errors to statuses) and the first of them,
  handlers/role_handler.go.  A handler returns its reply and the state it leaves.
  The request body is what the JSON decoder made of it (None: not decodable); the
  binding:"required" tags are checked here.
\<close>

section \<open>Replies\<close>

datatype cookie = KeepCookie | SetCookie string uuid | ClearCookie

record 'b reply =
  rp_status :: nat
  rp_message :: string
  rp_body :: "'b option"
  rp_cookie :: cookie

definition answer :: "nat \<Rightarrow> string \<Rightarrow> 'b option \<Rightarrow> 'b reply" where
  "answer code msg b = \<lparr>rp_status = code, rp_message = msg, rp_body = b, rp_cookie = KeepCookie\<rparr>"

definition ok_reply :: "'b \<Rightarrow> 'b reply" where "ok_reply b = answer 200 [] (Some b)"
definition ok_message :: "string \<Rightarrow> 'b option \<Rightarrow> 'b reply" where "ok_message msg b = answer 200 msg b"
definition created :: "'b \<Rightarrow> 'b reply" where "created b = answer 201 [] (Some b)"
definition bad_request :: "string \<Rightarrow> 'b reply" where "bad_request msg = answer 400 msg None"
definition unauthorized :: "string \<Rightarrow> 'b reply" where "unauthorized msg = answer 401 msg None"
definition forbidden :: "string \<Rightarrow> 'b reply" where "forbidden msg = answer 403 msg None"
definition not_found :: "string \<Rightarrow> 'b reply" where "not_found msg = answer 404 msg None"
definition conflict :: "string \<Rightarrow> 'b reply" where "conflict msg = answer 409 msg None"
definition internal_error :: "string \<Rightarrow> 'b reply" where "internal_error msg = answer 500 msg None"

lemmas reply_defs = answer_def ok_reply_def ok_message_def created_def bad_request_def unauthorized_def
  forbidden_def not_found_def conflict_def internal_error_def

text \<open>The text of an error, where a handler shows it; the prefix of the sentinel it wraps included.\<close>

fun error_text :: "svc_error \<Rightarrow> string" where
  "error_text (ErrMsg t) = t"
| "error_text (ErrValidation t) = ''validation failed: '' @ t"
| "error_text (ErrForbidden t) = ''forbidden: '' @ t"
| "error_text _ = ''error''"

section \<open>Requests\<close>

record call =
  cx_principal :: "principal option"      \<comment> \<open>what the guard bound\<close>
  cx_acting :: string                      \<comment> \<open>X-Acting-For\<close>
  cx_agent :: string
  cx_ip :: string

definition bind_json :: "('r \<Rightarrow> string list) \<Rightarrow> 'r option \<Rightarrow> 'r option" where
  "bind_json required req = (case req of
      None \<Rightarrow> None
    | Some r \<Rightarrow> if [] \<in> set (required r) then None else Some r)"

definition scope_company :: "env \<Rightarrow> call \<Rightarrow> 'b reply + uuid" where
  "scope_company env cx =
     (case cx_principal cx of
        None \<Rightarrow> Inl (unauthorized msg_no_token)
      | Some p \<Rightarrow>
          (let acting = trim_space (cx_acting cx);
               raw = (if is_platform_staff p \<and> acting \<noteq> [] then acting else company_id p)
           in case uuid_parse env raw of
                None \<Rightarrow> Inl (forbidden ''Only a company has a profile.'')
              | Some cid \<Rightarrow> Inr cid))"

definition principal_user_id :: "env \<Rightarrow> call \<Rightarrow> 'b reply + uuid" where
  "principal_user_id env cx =
     (case cx_principal cx of
        None \<Rightarrow> Inl (unauthorized msg_no_token)
      | Some p \<Rightarrow>
          (case uuid_parse env (user_id p) of
             None \<Rightarrow> Inl (unauthorized ''Invalid principal'')
           | Some i \<Rightarrow> Inr i))"

definition caller_id :: "env \<Rightarrow> call \<Rightarrow> 'b reply + uuid" where
  "caller_id env cx =
     (case cx_principal cx of
        None \<Rightarrow> Inl (unauthorized msg_no_token)
      | Some p \<Rightarrow>
          (case uuid_parse env (user_id p) of
             None \<Rightarrow> Inl (unauthorized ''Invalid principal'')
           | Some i \<Rightarrow> Inr i))"

definition path_id :: "env \<Rightarrow> string \<Rightarrow> 'b reply + uuid" where
  "path_id env raw = (case uuid_parse env raw of
      None \<Rightarrow> Inl (bad_request ''Invalid id'') | Some i \<Rightarrow> Inr i)"

text \<open>errors.Is on the sentinels; every other error is a bad request.\<close>

definition write_service_error :: "svc_error \<Rightarrow> 'b reply" where
  "write_service_error e = (case e of
      ErrNotFound \<Rightarrow> not_found ''Not found''
    | ErrForbidden _ \<Rightarrow> forbidden ''Access Denied''
    | ErrConflict \<Rightarrow> conflict ''Already exists''
    | _ \<Rightarrow> bad_request (error_text e))"

definition write_auth_error :: "svc_error \<Rightarrow> 'b reply" where
  "write_auth_error e = (case e of
      ErrInvalidCredentials \<Rightarrow> unauthorized ''Invalid credentials''
    | ErrTokenInvalid \<Rightarrow> unauthorized ''Invalid credentials''
    | ErrAccountSuspended \<Rightarrow> forbidden ''Akun anda telah dihapus atau di non-aktifkan''
    | ErrAccountDeleted \<Rightarrow> unauthorized ''Akun anda telah dihapus atau di non-aktifkan''
    | ErrSessionRevoked \<Rightarrow> unauthorized ''Harap login kembali''
    | ErrRateLimited \<Rightarrow> answer 429 ''Too many attempts. Please try again later.'' None
    | ErrNotFound \<Rightarrow> not_found ''Not found''
    | _ \<Rightarrow> internal_error ''Authentication failed'')"

section \<open>Roles\<close>

definition role_caller :: "env \<Rightarrow> call \<Rightarrow> 'b reply + (principal \<times> uuid)" where
  "role_caller env cx =
     (case cx_principal cx of
        None \<Rightarrow> Inl (unauthorized msg_no_token)
      | Some p \<Rightarrow> (case scope_company env cx of Inl r \<Rightarrow> Inl r | Inr cid \<Rightarrow> Inr (p, cid)))"

text \<open>The product query parameter: None when it is absent.\<close>

definition role_product :: "string option \<Rightarrow> 'b reply + product" where
  "role_product q =
     (let p = (case q of None \<Rightarrow> product_tms | Some v \<Rightarrow> v) in
      if length (catalog_for p) = 0 then Inl (bad_request (''Unknown product: '' @ p)) else Inr p)"

definition keys_of :: "product \<Rightarrow> string list \<Rightarrow> string list" where
  "keys_of p keys = (let prefix = p @ '':'' in
     filter (\<lambda>k. length k > length prefix \<and> take (length prefix) k = prefix) keys)"

definition qualify :: "product \<Rightarrow> string \<Rightarrow> string" where "qualify p key = p @ '':'' @ key"

definition strip_one :: "string \<Rightarrow> string \<Rightarrow> string option" where
  "strip_one prefix key =
     (if length key > length prefix \<and> take (length prefix) key = prefix
      then Some (drop (length prefix) key) else None)"

definition strip_product :: "string \<Rightarrow> string" where
  "strip_product key =
     (case strip_one ''tms:'' key of
        Some k \<Rightarrow> k
      | None \<Rightarrow> (case strip_one ''fms:'' key of Some k \<Rightarrow> k | None \<Rightarrow> key))"

record role_request =
  rr_name :: string
  rr_description :: "string option"
  rr_permissions :: "string list"
  rr_grants_all :: bool

definition offered :: "principal \<Rightarrow> product \<Rightarrow> string list" where
  "offered p pd = concat (map (\<lambda>spec. [qualify pd (spec_key spec), spec_key spec]) (grantable_permissions p pd))"

fun vet_keys :: "string list \<Rightarrow> product \<Rightarrow> string list \<Rightarrow> string + string list" where
  "vet_keys grantable pd [] = Inr []"
| "vet_keys grantable pd (key # keys) =
     (if key \<notin> set grantable then Inl (''your company cannot grant '' @ key)
      else case vet_keys grantable pd keys of
        Inl e \<Rightarrow> Inl e
      | Inr out \<Rightarrow> Inr (qualify pd (strip_product key) # out))"

definition vetted :: "principal \<Rightarrow> product \<Rightarrow> role_request \<Rightarrow> string + string list" where
  "vetted p pd req = (if rr_grants_all req then Inr [] else vet_keys (offered p pd) pd (rr_permissions req))"

definition list_roles_of :: "env \<Rightarrow> uuid \<Rightarrow> sys \<Rightarrow> svc_error + role list" where
  "list_roles_of env cid s =
     (if db_down env OpListRoles then Inl (ErrDB OpListRoles)
      else Inr (sort_key (\<lambda>r. if ro_is_system r then 0 else 1 :: nat) (sort_key ro_name
             (filter (\<lambda>r. ro_company r = cid) (roles s)))))"

definition assignable_for :: "env \<Rightarrow> uuid \<Rightarrow> principal \<Rightarrow> product \<Rightarrow> sys \<Rightarrow> permission_spec list" where
  "assignable_for env cid p pd s =
     (if cid = uuid_nil then grantable_permissions p pd
      else case active_for_company env s cid pd of
        Inl _ \<Rightarrow> grantable_permissions p pd
      | Inr held \<Rightarrow> grantable_from pd held)"

definition role_list ::
  "env \<Rightarrow> call \<Rightarrow> string option \<Rightarrow> sys \<Rightarrow> (role list \<times> permission_spec list) reply" where
  "role_list env cx q s =
     (case role_caller env cx of
        Inl r \<Rightarrow> r
      | Inr pc \<Rightarrow>
          (case role_product q of
             Inl r \<Rightarrow> r
           | Inr pd \<Rightarrow>
               (case list_roles_of env (snd pc) s of
                  Inl _ \<Rightarrow> internal_error ''Could not list roles.''
                | Inr rs \<Rightarrow>
                    ok_reply
                      (if q \<noteq> None \<and> q \<noteq> Some []
                       then map (\<lambda>r. r\<lparr>ro_permissions := keys_of pd (ro_permissions r)\<rparr>) rs else rs,
                       assignable_for env (snd pc) (fst pc) pd s))))"

definition requested_role :: "uuid \<Rightarrow> role_request \<Rightarrow> string list \<Rightarrow> role" where
  "requested_role cid req permissions =
     \<lparr>ro_id = uuid_nil, ro_company = cid, ro_name = rr_name req, ro_description = rr_description req,
      ro_permissions = permissions, ro_grants_all = rr_grants_all req, ro_is_system = False,
      ro_created_by = None\<rparr>"

text \<open>The part of Create and Update before the repository: caller, product, body, vetting.\<close>

definition role_create ::
  "env \<Rightarrow> call \<Rightarrow> string option \<Rightarrow> role_request option \<Rightarrow> sys \<Rightarrow> role reply \<times> sys" where
  "role_create env cx q req s =
     (case role_caller env cx of
        Inl r \<Rightarrow> (r, s)
      | Inr pc \<Rightarrow>
          (case role_product q of
             Inl r \<Rightarrow> (r, s)
           | Inr pd \<Rightarrow>
               (case bind_json (\<lambda>r. [rr_name r]) req of
                  None \<Rightarrow> (bad_request ''invalid body'', s)
                | Some b \<Rightarrow>
                    (case vetted (fst pc) pd b of
                       Inl e \<Rightarrow> (bad_request e, s)
                     | Inr permissions \<Rightarrow>
                         (case create_role env (requested_role (snd pc) b permissions) s of
                            Inl e \<Rightarrow> (if e = ErrConflict then conflict ''A role with that name already exists.''
                                      else internal_error ''Could not create the role.'', s)
                          | Inr rs \<Rightarrow> (created (fst rs), snd rs))))))"

text \<open>
  ReplaceProductKeys: array_cat of the keys NOT LIKE the product's prefix and the
  new ones.  The catalogue products have no LIKE wildcard in their names.
\<close>

definition replace_product_keys :: "product \<Rightarrow> string list \<Rightarrow> string list \<Rightarrow> string list" where
  "replace_product_keys pd keys old = filter (\<lambda>k. \<not> has_prefix k (pd @ '':'')) old @ keys"

definition edited_role :: "product \<Rightarrow> role_request \<Rightarrow> string list \<Rightarrow> role \<Rightarrow> role" where
  "edited_role pd req permissions r =
     r\<lparr>ro_name := rr_name req, ro_description := rr_description req, ro_grants_all := rr_grants_all req,
       ro_permissions := replace_product_keys pd permissions (ro_permissions r)\<rparr>"

definition role_update ::
  "env \<Rightarrow> call \<Rightarrow> string \<Rightarrow> string option \<Rightarrow> role_request option \<Rightarrow> sys \<Rightarrow> role reply \<times> sys" where
  "role_update env cx raw q req s =
     (case role_caller env cx of
        Inl r \<Rightarrow> (r, s)
      | Inr pc \<Rightarrow>
          (case uuid_parse env raw of
             None \<Rightarrow> (bad_request ''Invalid role id'', s)
           | Some i \<Rightarrow>
               (case role_product q of
                  Inl r \<Rightarrow> (r, s)
                | Inr pd \<Rightarrow>
                    (case bind_json (\<lambda>r. [rr_name r]) req of
                       None \<Rightarrow> (bad_request ''invalid body'', s)
                     | Some b \<Rightarrow>
                         (case find_role env s (snd pc) i of
                            Inl _ \<Rightarrow> (not_found ''Role not found'', s)
                          | Inr old \<Rightarrow>
                              if ro_is_system old \<and> \<not> ro_grants_all old \<and> rr_grants_all b \<noteq> ro_grants_all old
                              then (forbidden ''This role is maintained by the platform and cannot be redefined.'', s)
                              else (case vetted (fst pc) pd b of
                                  Inl e \<Rightarrow> (bad_request e, s)
                                | Inr permissions \<Rightarrow>
                                    (case update_role env (snd pc) i (edited_role pd b permissions) s of
                                       Inl e \<Rightarrow> (if e = ErrConflict then conflict ''A role with that name already exists.''
                                                 else internal_error ''Could not update the role.'', s)
                                     | Inr s1 \<Rightarrow>
                                         (case find_role env s1 (snd pc) i of
                                            Inl _ \<Rightarrow> (internal_error ''Saved, but could not read the role back.'', s1)
                                          | Inr r \<Rightarrow> (ok_reply r, s1)))))))))"

definition role_delete :: "env \<Rightarrow> call \<Rightarrow> string \<Rightarrow> sys \<Rightarrow> unit reply \<times> sys" where
  "role_delete env cx raw s =
     (case role_caller env cx of
        Inl r \<Rightarrow> (r, s)
      | Inr pc \<Rightarrow>
          (case uuid_parse env raw of
             None \<Rightarrow> (bad_request ''Invalid role id'', s)
           | Some i \<Rightarrow>
               (case delete_role env (snd pc) i s of
                  Inl e \<Rightarrow>
                    (if e = ErrConflict then conflict ''People still hold this role. Move them to another role first.''
                     else if e = ErrNotFound then not_found ''Role not found''
                     else internal_error ''Could not delete the role.'', s)
                | Inr s1 \<Rightarrow> (ok_message ''Role removed.'' None, s1))))"

section \<open>What a role edit changes\<close>

lemma role_product_known:
  "(role_product q :: 'b reply + product) = Inr pd \<Longrightarrow> pd = product_tms \<or> pd = product_fms"
  by (auto simp: role_product_def Let_def catalog_for_cases split: if_splits)

lemma catalogue_keys_plain:
  "list_all (\<lambda>c. fst c \<noteq> [] \<and> CHR '':'' \<notin> set (fst c)) (tms_catalog @ fms_catalog)"
  by code_simp

lemma grantable_key:
  assumes "k \<in> spec_key ` set (grantable_permissions p pd)"
  shows "k \<noteq> [] \<and> CHR '':'' \<notin> set k"
proof -
  have "k \<in> spec_key ` (snd ` set (catalog_for pd))"
    using assms by (auto simp: grantable_permissions_def grantable_from_def split: if_splits option.splits)
  then obtain c where c: "c \<in> set (catalog_for pd)" "k = spec_key (snd c)" by auto
  then have k: "k = fst c" using catalog_for_keys [of "fst c" "snd c" pd] by simp
  have "c \<in> set (tms_catalog @ fms_catalog)" using c(1) by (auto simp: catalog_for_cases split: if_splits)
  then show ?thesis unfolding k by (rule bspec [OF catalogue_keys_plain [unfolded list_all_iff]])
qed

lemma strip_one_none: "CHR '':'' \<in> set prefix \<Longrightarrow> CHR '':'' \<notin> set k \<Longrightarrow> strip_one prefix k = None"
  unfolding strip_one_def by (metis in_set_takeD)

lemma strip_plain: "CHR '':'' \<notin> set k \<Longrightarrow> strip_product k = k"
  by (simp add: strip_product_def strip_one_none)

lemma strip_qualified:
  "pd = product_tms \<or> pd = product_fms \<Longrightarrow> k \<noteq> [] \<Longrightarrow> strip_product (qualify pd k) = k"
  by (auto simp: strip_product_def strip_one_def qualify_def product_tms_def product_fms_def)

lemma vet_keys_Inr:
  "vet_keys grantable pd keys = Inr out \<Longrightarrow>
     set keys \<subseteq> set grantable \<and> out = map (\<lambda>k. qualify pd (strip_product k)) keys"
  by (induction grantable pd keys arbitrary: out rule: vet_keys.induct) (auto split: if_splits sum.splits)

lemma vetted_keys:
  assumes "vetted p pd b = Inr out" "pd = product_tms \<or> pd = product_fms"
  shows "set out \<subseteq> qualify pd ` spec_key ` set (grantable_permissions p pd)"
proof (cases "rr_grants_all b")
  case False
  then have v: "set (rr_permissions b) \<subseteq> set (offered p pd)"
    "out = map (\<lambda>k. qualify pd (strip_product k)) (rr_permissions b)"
    using assms(1) vet_keys_Inr [of "offered p pd" pd "rr_permissions b" out] by (simp_all add: vetted_def)
  have "strip_product k \<in> spec_key ` set (grantable_permissions p pd)" if "k \<in> set (offered p pd)" for k
  proof -
    have "\<exists>sp \<in> set (grantable_permissions p pd). k = qualify pd (spec_key sp) \<or> k = spec_key sp"
      using that by (auto simp: offered_def)
    then obtain sp where sp: "sp \<in> set (grantable_permissions p pd)" "k = qualify pd (spec_key sp) \<or> k = spec_key sp"
      by blast
    then have "spec_key sp \<noteq> [] \<and> CHR '':'' \<notin> set (spec_key sp)" using grantable_key by blast
    then have "strip_product k = spec_key sp" using sp(2) assms(2) strip_plain strip_qualified by metis
    then show ?thesis using sp(1) by simp
  qed
  then show ?thesis using v by auto
qed (use assms(1) in \<open>simp add: vetted_def\<close>)

lemma keys_of_prefix:
  "k \<in> set (keys_of pd ks) \<Longrightarrow> k \<in> set ks \<and> has_prefix k (pd @ '':'')"
  by (auto simp: keys_of_def Let_def) (metis append_take_drop_id has_prefix_append)

lemma keys_of_append: "keys_of pd (ks @ ls) = keys_of pd ks @ keys_of pd ls"
  by (simp add: keys_of_def Let_def)

lemma has_prefix_qualify: "has_prefix (qualify pd k) (pd @ '':'')"
  using has_prefix_append [of "pd @ '':''" k] by (simp add: qualify_def)

lemma other_product_prefix:
  assumes "pd \<in> {product_tms, product_fms}" "pd' \<in> {product_tms, product_fms}" "pd \<noteq> pd'"
  shows "\<not> (has_prefix k (pd @ '':'') \<and> has_prefix k (pd' @ '':''))"
  using assms by (auto simp: product_tms_def product_fms_def has_prefix_iff)

lemma keys_of_other:
  assumes "pd \<in> {product_tms, product_fms}" "pd' \<in> {product_tms, product_fms}" "pd \<noteq> pd'"
    and "set new \<subseteq> range (qualify pd)"
  shows "keys_of pd' (replace_product_keys pd new old) = keys_of pd' old"
proof -
  have no: "has_prefix k (pd' @ '':'') \<Longrightarrow> \<not> has_prefix k (pd @ '':'')" for k
    using other_product_prefix [OF assms(1-3)] by blast
  have kp: "(length k > length (pd' @ '':'') \<and> take (length (pd' @ '':'')) k = pd' @ '':'') \<Longrightarrow> has_prefix k (pd' @ '':'')" for k
    by (metis append_take_drop_id has_prefix_append)
  have "keys_of pd' (filter (\<lambda>k. \<not> has_prefix k (pd @ '':'')) old) = keys_of pd' old"
    unfolding keys_of_def Let_def filter_filter using no kp by (intro filter_cong) auto
  moreover have "keys_of pd' new = []"
  proof -
    have "k \<notin> set (keys_of pd' new)" for k
      using assms(4) no has_prefix_qualify keys_of_prefix [of k pd' new] by blast
    then show ?thesis by (meson last_in_set)
  qed
  ultimately show ?thesis by (simp add: replace_product_keys_def keys_of_append)
qed

lemma keys_of_same:
  assumes "set new \<subseteq> qualify pd ` K" "[] \<notin> K"
  shows "keys_of pd (replace_product_keys pd new old) = new"
proof -
  have "keys_of pd (filter (\<lambda>k. \<not> has_prefix k (pd @ '':'')) old) = []"
  proof -
    have "k \<notin> set (keys_of pd (filter (\<lambda>k. \<not> has_prefix k (pd @ '':'')) old))" for k
      using keys_of_prefix [of k pd "filter (\<lambda>k. \<not> has_prefix k (pd @ '':'')) old"] by auto
    then show ?thesis by (meson last_in_set)
  qed
  moreover have "keys_of pd new = new"
    unfolding keys_of_def Let_def
  proof (rule filter_True)
    show "\<forall>x\<in>set new. length (pd @ '':'') < length x \<and> take (length (pd @ '':'')) x = pd @ '':''"
      using assms by (auto simp: qualify_def)
  qed
  ultimately show ?thesis by (simp add: replace_product_keys_def keys_of_append)
qed

lemma role_update_ok:
  assumes "role_update env cx raw q req s = (r, s')" "rp_status r = 200"
  obtains p cid i pd b old keys u where "cx_principal cx = Some p" "(scope_company env cx :: role reply + uuid) = Inr cid"
    "uuid_parse env raw = Some i" "(role_product q :: role reply + product) = Inr pd" "req = Some b"
    "find_role env s cid i = Inr old" "vetted p pd b = Inr keys"
    "update_role env cid i (edited_role pd b keys) s = Inr s'" "find_role env s' cid i = Inr u" "rp_body r = Some u"
    "\<not> (ro_is_system old \<and> \<not> ro_grants_all old \<and> rr_grants_all b)"
  using assms
  by (auto simp: role_update_def role_caller_def reply_defs bind_json_def scope_company_def role_product_def Let_def
      split: option.splits sum.splits if_splits)


definition demo_admin :: principal where
  "demo_admin = \<lparr>user_id = ''u-ii'', company_id = ''u-iiiii'', fms_tenant_id = 0, fms_user_id = 0,
     is_platform_staff = False,
     access = [product_tms \<mapsto> \<lparr>pa_role = ''Lead'', pa_permissions = [''collaboration.manageMember''],
        pa_features = [''order'', ''collaboration''], pa_grants_all = False\<rparr>],
     single_device = False, token_id = ''s1''\<rparr>"

definition demo_call :: call where
  "demo_call = \<lparr>cx_principal = Some demo_admin, cx_acting = [], cx_agent = [], cx_ip = []\<rparr>"

definition demo_role_request :: role_request where
  "demo_role_request = \<lparr>rr_name = ''Planner'', rr_description = None,
     rr_permissions = [''order.create'', ''tms:order.read''], rr_grants_all = False\<rparr>"

definition two_products :: sys where
  "two_products = demo_tenant\<lparr>roles := [demo_role\<lparr>ro_permissions := [''tms:order.update'', ''fms:live.view'']\<rparr>]\<rparr>"


section \<open>What the role handler lets through\<close>

text \<open>
  The guard for system roles reads IsSystem and not GrantsAll: the Administrator of
  every company has both, so any holder of collaboration.manageMember can turn it into
  a role that grants nothing.
\<close>
lemma administrator_redefined:
  "let s0 = upsert_administrator demo_env 5 demo_tenant;
       run = role_update demo_env demo_call ''u-iiiiiiiiii'' None
         (Some (demo_role_request\<lparr>rr_name := ''Nobody'', rr_permissions := []\<rparr>)) s0
   in rp_status (fst run) = 200 \<and>
      map (\<lambda>r. (ro_name r, ro_grants_all r, ro_permissions r)) (filter ro_is_system (roles (snd run))) = [(''Nobody'', False, [])]"
  by code_simp

text \<open>The repository's Update and Delete never answer ErrConflict: both clashes are answered 500.\<close>
lemma role_conflicts_are_500:
  "rp_status (fst (role_delete demo_env demo_call ''u-iii'' demo_tenant)) = 500 \<and>
   rp_status (fst (role_update demo_env demo_call ''u-iii'' None
      (Some (demo_role_request\<lparr>rr_name := ''Administrator'', rr_permissions := []\<rparr>))
      (upsert_administrator demo_env 5 demo_tenant))) = 500"
  by code_simp

text \<open>
  Keys are vetted against the caller: staff acting for a client give a role of that
  client a key the client has not bought.
\<close>
lemma staff_vetted_by_own_access:
  "let run = role_create demo_env (demo_call\<lparr>cx_principal := Some (demo_admin\<lparr>is_platform_staff := True, company_id := ''u-''\<rparr>),
         cx_acting := ''u-iiiii''\<rparr>) None
         (Some (demo_role_request\<lparr>rr_name := ''Billing'', rr_permissions := [''invoice.read'']\<rparr>)) demo_tenant
   in rp_status (fst run) = 201 \<and>
      map (\<lambda>r. (ro_company r, ro_permissions r)) (filter (\<lambda>r. ro_name r = ''Billing'') (roles (snd run))) =
        [(5, [''tms:invoice.read''])] \<and>
      projr (active_for_company demo_env demo_tenant 5 product_tms) = [''order'']"
  by code_simp

end
