(* ===== verification/AuthHandlers.thy ===== *)
theory AuthHandlers
  imports Http
begin

text \<open>
  handlers/auth_handler.go: login, registration, refresh, logout, password, and the
  identity a client renders itself from.  The session cookies are part of the reply;
  their attributes (domain, age, HttpOnly) are fixed by the configuration, which says
  only whether cookies are used at all.
\<close>

section \<open>Session cookies\<close>

record config =
  cf_cookies :: bool                       \<comment> \<open>SESSION_COOKIE_DOMAIN is set\<close>
  cf_verifier :: "jwt_lib option"           \<comment> \<open>NewVerifierFromEnv\<close>

definition set_cookies :: "config \<Rightarrow> string \<Rightarrow> uuid \<Rightarrow> 'b reply \<Rightarrow> 'b reply" where
  "set_cookies cf token uid r = (if cf_cookies cf then r\<lparr>rp_cookie := SetCookie token uid\<rparr> else r)"

definition clear_cookies :: "config \<Rightarrow> 'b reply \<Rightarrow> 'b reply" where
  "clear_cookies cf r = (if cf_cookies cf then r\<lparr>rp_cookie := ClearCookie\<rparr> else r)"

text \<open>The karlo_rt cookie of the request: None when it carries none.\<close>

definition from_cookie :: "config \<Rightarrow> string option \<Rightarrow> string" where
  "from_cookie cf v = (if \<not> cf_cookies cf then [] else case v of None \<Rightarrow> [] | Some t \<Rightarrow> t)"

section \<open>Identity\<close>

record identity =
  id_id :: string
  id_email :: string
  id_username :: string
  id_full_name :: string
  id_phone :: string
  id_company :: string
  id_language :: string
  id_staff :: bool
  id_role :: string
  id_permissions :: "string list"
  id_company_role :: string
  id_company_name :: string
  id_company_abbreviation :: string
  id_products :: "product \<Rightarrow> bool"
  id_access :: "product \<rightharpoonup> product_access"

definition build_identity :: "env \<Rightarrow> user \<Rightarrow> company option \<Rightarrow> principal \<Rightarrow> identity" where
  "build_identity env u co p =
     (let current = access p (service_product env);
          role0 = (case current of None \<Rightarrow> [] | Some a \<Rightarrow> pa_role a)
      in \<lparr>id_id = uuid_string env (us_id u), id_email = text_or_empty (us_email u),
          id_username = text_or_empty (us_username u), id_full_name = text_or_empty (us_full_name u),
          id_phone = text_or_empty (us_phone u),
          id_company = (case us_company u of None \<Rightarrow> [] | Some c \<Rightarrow> uuid_string env c),
          id_language = text_or_empty (map_of (us_profile u) ''language''),
          id_staff = us_platform_staff u,
          id_role = (if us_platform_staff u \<and> role0 = [] then ''superadmin'' else role0),
          id_permissions = (case current of None \<Rightarrow> [] | Some a \<Rightarrow> pa_permissions a),
          id_company_role = (case co of None \<Rightarrow> [] | Some c \<Rightarrow> co_role c),
          id_company_name = (case co of None \<Rightarrow> [] | Some c \<Rightarrow> co_name c),
          id_company_abbreviation = (case co of None \<Rightarrow> [] | Some c \<Rightarrow> text_or_empty (co_abbreviation c)),
          id_products = (\<lambda>pd. access p pd \<noteq> None),
          id_access = access p\<rparr>)"

section \<open>Login\<close>

record login_request =
  lq_username :: string
  lq_email :: string
  lq_phone :: string
  lq_password :: string
  lq_device :: string
  lq_platform :: string
  lq_product :: string

fun first_present :: "string list \<Rightarrow> string" where
  "first_present [] = []"
| "first_present (v # vs) = (if v \<noteq> [] then v else first_present vs)"

definition zero_principal :: principal where
  "zero_principal = \<lparr>user_id = [], company_id = [], fms_tenant_id = 0, fms_user_id = 0,
     is_platform_staff = False, access = Map.empty, single_device = False, token_id = []\<rparr>"

definition principal_of :: "config \<Rightarrow> token_pair \<Rightarrow> principal" where
  "principal_of cf t =
     (case cf_verifier cf of
        None \<Rightarrow> zero_principal
      | Some lib \<Rightarrow> (case verify lib (tp_access t) of Inl _ \<Rightarrow> zero_principal | Inr p \<Rightarrow> p))"

definition login_of :: "call \<Rightarrow> login_request \<Rightarrow> login_input" where
  "login_of cx b = \<lparr>in_identifier = first_present [lq_email b, lq_username b, lq_phone b],
     in_password = lq_password b, in_device = lq_device b, in_platform = lq_platform b,
     in_user_agent = cx_agent cx, in_ip = cx_ip cx\<rparr>"

text \<open>The account in the login result: the one the login read.\<close>

definition login_account :: "env \<Rightarrow> login_input \<Rightarrow> sys \<Rightarrow> user \<times> company option" where
  "login_account env inp s =
     (let u = projr (find_by_identifier env s (trim_space (in_identifier inp))) in (u, company_of s u))"

definition login_handler ::
  "config \<Rightarrow> env \<Rightarrow> call \<Rightarrow> login_request option \<Rightarrow> sys \<Rightarrow> (token_pair \<times> identity) reply \<times> sys" where
  "login_handler cf env cx req s =
     (case bind_json (\<lambda>b. [lq_password b]) req of
        None \<Rightarrow> (bad_request ''invalid body'', s)
      | Some b \<Rightarrow>
          (let run = login env (login_of cx b) s in
           case fst run of
             Inl e \<Rightarrow> (write_auth_error e, snd run)
           | Inr t \<Rightarrow>
               (let p = principal_of cf t; acc = login_account env (login_of cx b) s in
                if lq_product b \<noteq> [] \<and> \<not> is_known_product (lq_product b)
                then (bad_request (''Unknown product: '' @ lq_product b), snd run)
                else if lq_product b \<noteq> [] \<and> \<not> has_product p (lq_product b)
                then (forbidden (''This account does not have access to '' @ lq_product b @
                        ''. Ask your company administrator to grant it.''), snd run)
                else (set_cookies cf (tp_refresh t) (tp_user t)
                        (ok_reply (t, build_identity env (fst acc) (snd acc) p)), snd run))))"

section \<open>Registration\<close>

record register_request =
  rg_username :: string
  rg_email :: string
  rg_phone :: string
  rg_password :: string
  rg_full_name :: string
  rg_role :: string
  rg_company_name :: string
  rg_company_abbreviation :: string

definition register_handler ::
  "env \<Rightarrow> register_request option \<Rightarrow> sys \<Rightarrow> user reply \<times> sys" where
  "register_handler env req s =
     (case bind_json (\<lambda>b. [rg_password b]) req of
        None \<Rightarrow> (bad_request ''invalid body'', s)
      | Some b \<Rightarrow>
          (let run = register env
             \<lparr>ri_username = rg_username b, ri_email = rg_email b, ri_phone = rg_phone b,
              ri_password = rg_password b, ri_full_name = rg_full_name b, ri_role = rg_role b,
              ri_parent = None, ri_company = None, ri_role_id = None,
              ri_company_name = rg_company_name b, ri_company_abbreviation = rg_company_abbreviation b,
              ri_permissions = [], ri_unaffiliated = False\<rparr> s
           in case fst run of
                Inl e \<Rightarrow> (bad_request (error_text e), snd run)
              | Inr u \<Rightarrow> (created u, snd run)))"

record driver_request =
  dq_full_name :: string
  dq_username :: string
  dq_phone :: string
  dq_password :: string

definition register_driver_handler ::
  "env \<Rightarrow> driver_request option \<Rightarrow> sys \<Rightarrow> user reply \<times> sys" where
  "register_driver_handler env req s =
     (case bind_json (\<lambda>b. [dq_full_name b, dq_username b, dq_phone b, dq_password b]) req of
        None \<Rightarrow> (bad_request ''invalid body'', s)
      | Some b \<Rightarrow>
          (let run = register env
             \<lparr>ri_username = to_lower (trim_space (dq_username b)), ri_email = [], ri_phone = dq_phone b,
              ri_password = dq_password b, ri_full_name = dq_full_name b, ri_role = [],
              ri_parent = None, ri_company = None, ri_role_id = None, ri_company_name = [],
              ri_company_abbreviation = [], ri_permissions = [], ri_unaffiliated = True\<rparr> s
           in case fst run of
                Inl e \<Rightarrow> (bad_request (error_text e), snd run)
              | Inr u \<Rightarrow> (created u, snd run)))"

record member_request = register_request +
  mq_permissions :: "string list"
  mq_role_id :: string

definition member_input :: "member_request \<Rightarrow> uuid \<Rightarrow> uuid option \<Rightarrow> uuid option \<Rightarrow> register_input" where
  "member_input b parent rid cid =
     \<lparr>ri_username = rg_username b, ri_email = rg_email b, ri_phone = rg_phone b,
      ri_password = rg_password b, ri_full_name = rg_full_name b, ri_role = rg_role b,
      ri_parent = Some parent, ri_company = cid, ri_role_id = rid, ri_company_name = [],
      ri_company_abbreviation = [], ri_permissions = mq_permissions b, ri_unaffiliated = False\<rparr>"

definition member_role :: "env \<Rightarrow> member_request \<Rightarrow> 'b reply + uuid option" where
  "member_role env b =
     (if mq_role_id b = [] then Inr None
      else case uuid_parse env (mq_role_id b) of
        None \<Rightarrow> Inl (bad_request ''Invalid roleId'') | Some i \<Rightarrow> Inr (Some i))"

definition member_company :: "env \<Rightarrow> call \<Rightarrow> principal \<Rightarrow> 'b reply + uuid option" where
  "member_company env cx p =
     (if company_id p \<noteq> [] \<or> trim_space (cx_acting cx) \<noteq> []
      then (case scope_company env cx of Inl r \<Rightarrow> Inl r | Inr cid \<Rightarrow> Inr (Some cid))
      else Inr None)"

text \<open>Staff begets staff: the flag on a member created into the caller's own company.\<close>

definition flag_staff :: "env \<Rightarrow> principal \<Rightarrow> uuid \<Rightarrow> uuid option \<Rightarrow> user \<Rightarrow> sys \<Rightarrow> user \<times> sys" where
  "flag_staff env p actor cid u s =
     (if is_platform_staff p \<and> (case cid of None \<Rightarrow> False | Some c \<Rightarrow> company_id p = uuid_string env c)
      then (case grant_platform_staff env actor (us_id u) s of
          Inl _ \<Rightarrow> (u, s)
        | Inr s1 \<Rightarrow> (u\<lparr>us_platform_staff := True\<rparr>, s1))
      else (u, s))"

definition register_member_handler ::
  "env \<Rightarrow> call \<Rightarrow> member_request option \<Rightarrow> sys \<Rightarrow> user reply \<times> sys" where
  "register_member_handler env cx req s =
     (case cx_principal cx of
        None \<Rightarrow> (unauthorized msg_no_token, s)
      | Some p \<Rightarrow>
          (case bind_json (\<lambda>b. [rg_password b]) req of
             None \<Rightarrow> (bad_request ''invalid body'', s)
           | Some b \<Rightarrow>
               (case uuid_parse env (user_id p) of
                  None \<Rightarrow> (unauthorized ''Invalid principal'', s)
                | Some parent \<Rightarrow>
                    (case member_role env b of
                       Inl r \<Rightarrow> (r, s)
                     | Inr rid \<Rightarrow>
                         (case member_company env cx p of
                            Inl r \<Rightarrow> (r, s)
                          | Inr cid \<Rightarrow>
                              (let run = register env (member_input b parent rid cid) s in
                               case fst run of
                                 Inl e \<Rightarrow> (bad_request (error_text e), snd run)
                               | Inr u \<Rightarrow>
                                   (let us = flag_staff env p parent cid u (snd run)
                                    in (created (fst us), snd us))))))))"

section \<open>Sessions\<close>

text \<open>The body's token (None: no body, or not JSON), the cookie's token.\<close>

definition refresh_handler ::
  "config \<Rightarrow> env \<Rightarrow> string option \<Rightarrow> string option \<Rightarrow> sys \<Rightarrow> token_pair reply \<times> sys" where
  "refresh_handler cf env req ck s =
     (let given = (case req of None \<Rightarrow> [] | Some t \<Rightarrow> t);
          token = (if given = [] then from_cookie cf ck else given)
      in if token = [] then (bad_request ''refreshToken is required'', s)
         else (let run = refresh env token s in
           case fst run of
             Inl e \<Rightarrow> (clear_cookies cf (write_auth_error e), snd run)
           | Inr t \<Rightarrow> (set_cookies cf (tp_refresh t) (tp_user t) (ok_reply t), snd run)))"

definition logout_handler ::
  "config \<Rightarrow> env \<Rightarrow> call \<Rightarrow> string \<Rightarrow> sys \<Rightarrow> unit reply \<times> sys" where
  "logout_handler cf env cx dev s =
     (case cx_principal cx of
        None \<Rightarrow> (unauthorized msg_no_token, s)
      | Some p \<Rightarrow>
          (case uuid_parse env (user_id p) of
             None \<Rightarrow> (unauthorized ''Invalid principal'', s)
           | Some uid \<Rightarrow>
               if token_id p = [] then (clear_cookies cf (ok_message ''Logged out'' None), s)
               else (case uuid_parse env (token_id p) of
                   None \<Rightarrow> (clear_cookies cf (bad_request ''Invalid session''), s)
                 | Some tid \<Rightarrow>
                     (let run = logout env tid uid dev s in
                      case fst run of
                        Inl _ \<Rightarrow> (clear_cookies cf (internal_error ''Failed to log out''), snd run)
                      | Inr _ \<Rightarrow> (clear_cookies cf (ok_message ''Logged out'' None), snd run)))))"

definition logout_all_handler :: "config \<Rightarrow> env \<Rightarrow> call \<Rightarrow> sys \<Rightarrow> nat reply \<times> sys" where
  "logout_all_handler cf env cx s =
     (case principal_user_id env cx of
        Inl r \<Rightarrow> (r, s)
      | Inr uid \<Rightarrow>
          (let run = logout_all env uid s in
           case fst run of
             Inl _ \<Rightarrow> (internal_error ''Failed to log out'', snd run)
           | Inr n \<Rightarrow> (clear_cookies cf (ok_message ''Logged out everywhere'' (Some n)), snd run)))"

text \<open>The old and the new password.\<close>

definition change_password_handler ::
  "env \<Rightarrow> call \<Rightarrow> (string \<times> string) option \<Rightarrow> sys \<Rightarrow> unit reply \<times> sys" where
  "change_password_handler env cx req s =
     (case principal_user_id env cx of
        Inl r \<Rightarrow> (r, s)
      | Inr uid \<Rightarrow>
          (case bind_json (\<lambda>b. [fst b, snd b]) req of
             None \<Rightarrow> (bad_request ''invalid body'', s)
           | Some b \<Rightarrow>
               (let run = change_password env uid (fst b) (snd b) s in
                case fst run of
                  Inl e \<Rightarrow> (if e = ErrInvalidCredentials then unauthorized ''Current password is incorrect''
                            else bad_request (error_text e), snd run)
                | Inr _ \<Rightarrow> (ok_message ''Password changed. Please sign in again.'' None, snd run))))"

definition check_availability :: "env \<Rightarrow> string \<Rightarrow> string \<Rightarrow> sys \<Rightarrow> bool reply" where
  "check_availability env kind value s =
     (case identifier_available env s kind value of
        Inl e \<Rightarrow> bad_request (error_text e)
      | Inr free \<Rightarrow> ok_reply free)"

definition me_handler :: "env \<Rightarrow> call \<Rightarrow> sys \<Rightarrow> identity reply" where
  "me_handler env cx s =
     (case cx_principal cx of
        None \<Rightarrow> unauthorized msg_no_token
      | Some p \<Rightarrow>
          (case principal_user_id env cx of
             Inl r \<Rightarrow> r
           | Inr uid \<Rightarrow>
               (case find_user_by_id env s uid of
                  Inl _ \<Rightarrow> not_found ''User not found''
                | Inr u \<Rightarrow> ok_reply (build_identity env u (company_of s u) p))))"

end
