(* ===== verification/UserHandlers.thy ===== *)
theory UserHandlers
  imports AuthHandlers
begin

text \<open>
  handlers/user_handler.go and handlers/driver_account_handler.go.
\<close>

section \<open>Listing parameters\<close>

record list_request =
  lr_page :: "string option"
  lr_size :: "string option"
  lr_filtered :: string
  lr_sorted :: string
  lr_search :: string

definition parse_request :: "scanner \<Rightarrow> list_request \<Rightarrow> field_set \<Rightarrow> params" where
  "parse_request unm q allowed =
     parse_query unm (case lr_page q of None \<Rightarrow> ''0'' | Some v \<Rightarrow> v)
       (case lr_size q of None \<Rightarrow> ''20'' | Some v \<Rightarrow> v)
       (lr_filtered q) (lr_sorted q) (lr_search q) allowed"

text \<open>badQuery: the reply when the request could not be understood.\<close>

definition bad_query :: "params \<Rightarrow> 'b reply option" where
  "bad_query p = (case qp_err p of None \<Rightarrow> None | Some e \<Rightarrow> Some (bad_request ''query''))"

record meta =
  mt_page :: int64
  mt_limit :: int64
  mt_rows :: int64
  mt_pages :: int64

record member_summary =
  mb_user :: user
  mb_role :: string
  mb_permissions :: "string list"

definition product_access_rows :: "env \<Rightarrow> sys \<Rightarrow> uuid \<Rightarrow> svc_error + extra_access list" where
  "product_access_rows env s uid =
     (if db_down env OpLoadExtras then Inl (ErrDB OpLoadExtras)
      else Inr (sort_key ea_product (filter (\<lambda>e. ea_user e = uid) (extras s))))"

text \<open>The last enabled row of the service's product with permissions decides.\<close>

definition with_product_roles :: "env \<Rightarrow> sys \<Rightarrow> user list \<Rightarrow> member_summary list" where
  "with_product_roles env s us =
     map (\<lambda>u. \<lparr>mb_user = u,
        mb_role = (if us_platform_staff u then ''superadmin'' else []),
        mb_permissions = (case product_access_rows env s (us_id u) of
            Inl _ \<Rightarrow> []
          | Inr rows \<Rightarrow> fold (\<lambda>e acc. if ea_product e = service_product env \<and> ea_enabled e
                                 then ea_permissions e else acc) rows [])\<rparr>) us"

definition user_list ::
  "env \<Rightarrow> user engine \<Rightarrow> scanner \<Rightarrow> call \<Rightarrow> list_request \<Rightarrow> sys \<Rightarrow> (member_summary list \<times> meta) reply" where
  "user_list env db unm cx q s =
     (case cx_principal cx of
        None \<Rightarrow> unauthorized msg_no_token
      | Some p \<Rightarrow>
          (let ps = parse_request unm q user_list_fields in
           case bad_query ps of
             Some r \<Rightarrow> r
           | None \<Rightarrow>
               (case (if is_platform_staff p \<and> trim_space (cx_acting cx) = []
                      then Inr (list_users env db ps s)
                      else case scope_company env cx of
                        Inl r \<Rightarrow> Inl r
                      | Inr cid \<Rightarrow> Inr (list_by_company env db cid [] ps s)) of
                  Inl r \<Rightarrow> r
                | Inr (Inl _) \<Rightarrow> internal_error ''Failed to list users''
                | Inr (Inr page) \<Rightarrow>
                    ok_reply (with_product_roles env s (fst page),
                      \<lparr>mt_page = qp_page ps, mt_limit = qp_size ps, mt_rows = snd page,
                       mt_pages = total_pages ps (snd page)\<rparr>))))"

section \<open>One account\<close>

definition admin_roles :: "string list" where "admin_roles = [''superadmin'', ''admin'']"

definition may_read_user :: "env \<Rightarrow> principal \<Rightarrow> user \<Rightarrow> bool" where
  "may_read_user env p u \<longleftrightarrow>
     has_role (service_product env) p admin_roles \<or> user_id p = uuid_string env (us_id u) \<or>
     (case us_company u of None \<Rightarrow> False | Some c \<Rightarrow> company_id p = uuid_string env c)"

definition user_get :: "env \<Rightarrow> call \<Rightarrow> string \<Rightarrow> sys \<Rightarrow> user reply" where
  "user_get env cx raw s =
     (case path_id env raw of
        Inl r \<Rightarrow> r
      | Inr i \<Rightarrow>
          (case find_user_by_id env s i of
             Inl _ \<Rightarrow> not_found ''User not found''
           | Inr u \<Rightarrow>
               (let p = (case cx_principal cx of None \<Rightarrow> zero_principal | Some p \<Rightarrow> p)
                in if \<not> may_read_user env p u then forbidden ''Access Denied'' else ok_reply u)))"

type_synonym json_body = "(string \<times> Users.jvalue) list"

definition update_me ::
  "env \<Rightarrow> column_binder \<Rightarrow> call \<Rightarrow> json_body option \<Rightarrow> sys \<Rightarrow> unit reply \<times> sys" where
  "update_me env bind cx req s =
     (case principal_user_id env cx of
        Inl r \<Rightarrow> (r, s)
      | Inr uid \<Rightarrow>
          (case req of
             None \<Rightarrow> (bad_request ''invalid body'', s)
           | Some b \<Rightarrow>
               (case update_profile env bind uid b s of
                  Inl e \<Rightarrow> (bad_request (error_text e), s)
                | Inr s1 \<Rightarrow> (ok_message ''Profile updated'' None, s1))))"

text \<open>Actor, target and body of the handlers that change another account.\<close>

definition with_target ::
  "env \<Rightarrow> call \<Rightarrow> string \<Rightarrow> (uuid \<Rightarrow> uuid \<Rightarrow> sys \<Rightarrow> 'b reply \<times> sys) \<Rightarrow> sys \<Rightarrow> 'b reply \<times> sys" where
  "with_target env cx raw f s =
     (case principal_user_id env cx of
        Inl r \<Rightarrow> (r, s)
      | Inr actor \<Rightarrow> (case path_id env raw of Inl r \<Rightarrow> (r, s) | Inr target \<Rightarrow> f actor target s))"

definition service_reply :: "string \<Rightarrow> (svc_error + unit) \<times> sys \<Rightarrow> unit reply \<times> sys" where
  "service_reply msg run = (case fst run of
      Inl e \<Rightarrow> (write_service_error e, snd run)
    | Inr _ \<Rightarrow> (ok_message msg None, snd run))"

definition user_update ::
  "env \<Rightarrow> column_binder \<Rightarrow> call \<Rightarrow> string \<Rightarrow> json_body option \<Rightarrow> sys \<Rightarrow> unit reply \<times> sys" where
  "user_update env bind cx raw req =
     with_target env cx raw (\<lambda>actor target s. case req of
        None \<Rightarrow> (bad_request ''invalid body'', s)
      | Some b \<Rightarrow>
          (case admin_update env bind actor target b s of
             Inl e \<Rightarrow> (write_service_error e, s)
           | Inr s1 \<Rightarrow> (ok_message ''User updated'' None, s1)))"

definition assign_role_handler ::
  "env \<Rightarrow> call \<Rightarrow> string \<Rightarrow> string option \<Rightarrow> sys \<Rightarrow> unit reply \<times> sys" where
  "assign_role_handler env cx raw req =
     with_target env cx raw (\<lambda>actor target s. case bind_json (\<lambda>b. [b]) req of
        None \<Rightarrow> (bad_request ''invalid body'', s)
      | Some b \<Rightarrow>
          (case uuid_parse env b of
             None \<Rightarrow> (bad_request ''Invalid roleId'', s)
           | Some rid \<Rightarrow> service_reply ''Role assigned. They will see the change on their next sign-in.''
                (assign_role env actor target rid s)))"

record permission_request =
  pq_product :: string
  pq_permissions :: "string list option"      \<comment> \<open>None: missing or null\<close>

definition set_permission_handler ::
  "env \<Rightarrow> call \<Rightarrow> string \<Rightarrow> permission_request option \<Rightarrow> sys \<Rightarrow> unit reply \<times> sys" where
  "set_permission_handler env cx raw req =
     with_target env cx raw (\<lambda>actor target s. case bind_json (\<lambda>b. [pq_product b]) req of
        None \<Rightarrow> (bad_request ''invalid body'', s)
      | Some b \<Rightarrow>
          (case pq_permissions b of
             None \<Rightarrow> (bad_request ''invalid body'', s)
           | Some keys \<Rightarrow>
               if length (catalog_for (pq_product b)) = 0
               then (bad_request (''Unknown product: '' @ pq_product b), s)
               else service_reply ''Permissions updated. The user must sign in again.''
                 (set_permission env actor target (pq_product b) keys s)))"

definition suspend_handler ::
  "env \<Rightarrow> call \<Rightarrow> string \<Rightarrow> bool option \<Rightarrow> sys \<Rightarrow> unit reply \<times> sys" where
  "suspend_handler env cx raw req =
     with_target env cx raw (\<lambda>actor target s. case req of
        None \<Rightarrow> (bad_request ''invalid body'', s)
      | Some b \<Rightarrow> service_reply ''User updated'' (set_suspended env actor target b s))"

definition delete_handler :: "env \<Rightarrow> call \<Rightarrow> string \<Rightarrow> sys \<Rightarrow> unit reply \<times> sys" where
  "delete_handler env cx raw =
     with_target env cx raw (\<lambda>actor target s. service_reply ''User deleted'' (delete_user env actor target s))"

section \<open>Product access\<close>

text \<open>The three access handlers use callerID, which answers what principalUserID does.\<close>

definition with_caller ::
  "env \<Rightarrow> call \<Rightarrow> string \<Rightarrow> (uuid \<Rightarrow> uuid \<Rightarrow> sys \<Rightarrow> 'b reply \<times> sys) \<Rightarrow> sys \<Rightarrow> 'b reply \<times> sys" where
  "with_caller env cx raw f s =
     (case caller_id env cx of
        Inl r \<Rightarrow> (r, s)
      | Inr actor \<Rightarrow> (case path_id env raw of Inl r \<Rightarrow> (r, s) | Inr target \<Rightarrow> f actor target s))"

record access_request =
  aq_product :: string
  aq_role :: string
  aq_permissions :: "string list"
  aq_enabled :: "bool option"

definition list_access :: "env \<Rightarrow> call \<Rightarrow> string \<Rightarrow> sys \<Rightarrow> extra_access list reply \<times> sys" where
  "list_access env cx raw =
     with_caller env cx raw (\<lambda>actor target s. case list_product_access env actor target s of
        Inl e \<Rightarrow> (write_service_error e, s) | Inr rows \<Rightarrow> (ok_reply rows, s))"

definition set_access ::
  "env \<Rightarrow> call \<Rightarrow> string \<Rightarrow> access_request option \<Rightarrow> sys \<Rightarrow> unit reply \<times> sys" where
  "set_access env cx raw req =
     with_caller env cx raw (\<lambda>actor target s. case bind_json (\<lambda>b. [aq_product b]) req of
        None \<Rightarrow> (bad_request ''invalid body'', s)
      | Some b \<Rightarrow> service_reply ''Access updated. The account must sign in again for it to take effect.''
          (set_product_access env actor target (aq_product b) (aq_permissions b)
             (case aq_enabled b of None \<Rightarrow> True | Some v \<Rightarrow> v) s))"

definition revoke_access :: "env \<Rightarrow> call \<Rightarrow> string \<Rightarrow> product \<Rightarrow> sys \<Rightarrow> unit reply \<times> sys" where
  "revoke_access env cx raw p =
     with_caller env cx raw (\<lambda>actor target s.
       service_reply ''Access revoked and sessions ended.'' (withdraw_product_access env actor target p s))"

section \<open>Devices\<close>

record device_request =
  dv_push :: string
  dv_platform :: string
  dv_device :: string

definition register_device ::
  "bool \<Rightarrow> env \<Rightarrow> call \<Rightarrow> device_request option \<Rightarrow> sys \<Rightarrow> unit reply \<times> sys" where
  "register_device wired env cx req s =
     (case principal_user_id env cx of
        Inl r \<Rightarrow> (r, s)
      | Inr uid \<Rightarrow>
          (case bind_json (\<lambda>b. [dv_push b]) req of
             None \<Rightarrow> (bad_request ''invalid body'', s)
           | Some b \<Rightarrow>
               if \<not> wired then (bad_request ''push registration is not available'', s)
               else (case upsert_device env \<lparr>dt_user = uid, dt_push = dv_push b,
                         dt_platform = nil_if_empty (dv_platform b), dt_device = nil_if_empty (dv_device b),
                         dt_active = False, dt_failed = None\<rparr> s of
                   Inl _ \<Rightarrow> (internal_error ''could not register device'', s)
                 | Inr s1 \<Rightarrow> (ok_message ''Device registered'' None, s1))))"

section \<open>Drivers\<close>

text \<open>
  fail: errors.Is on three sentinels; every other error whose text is shorter than
  160 bytes is a bad request.  The texts the model carries are; those of a failed
  statement are the driver's, and \<open>long_text\<close> says which of them are not.
\<close>

definition driver_fail :: "(svc_error \<Rightarrow> bool) \<Rightarrow> svc_error \<Rightarrow> string \<Rightarrow> 'b reply" where
  "driver_fail long_text e fallback =
     (case e of
        ErrValidation _ \<Rightarrow> bad_request (error_text e)
      | ErrForbidden _ \<Rightarrow> forbidden (error_text e)
      | ErrNotFound \<Rightarrow> not_found ''No such account.''
      | _ \<Rightarrow> if \<not> long_text e then bad_request (error_text e) else internal_error fallback)"

record create_driver_request =
  cq_full_name :: string
  cq_phone :: string
  cq_username :: string
  cq_password :: string
  cq_send :: "bool option"

definition driver_create ::
  "(svc_error \<Rightarrow> bool) \<Rightarrow> env \<Rightarrow> call \<Rightarrow> create_driver_request option \<Rightarrow> sys
     \<Rightarrow> (driver_account \<times> message list) reply \<times> sys" where
  "driver_create lt env cx req s =
     (case cx_principal cx of
        None \<Rightarrow> (unauthorized msg_no_token, s)
      | Some p \<Rightarrow>
          (case scope_company env cx of
             Inl r \<Rightarrow> (r, s)
           | Inr cid \<Rightarrow>
               (case uuid_parse env (user_id p) of
                  None \<Rightarrow> (unauthorized ''Invalid principal'', s)
                | Some actor \<Rightarrow>
                    (case bind_json (\<lambda>b. [cq_full_name b, cq_phone b]) req of
                       None \<Rightarrow> (bad_request ''invalid body'', s)
                     | Some b \<Rightarrow>
                         (let run = create_driver env actor cid
                            \<lparr>cd_full_name = cq_full_name b, cd_phone = cq_phone b, cd_username = cq_username b,
                             cd_password = cq_password b,
                             cd_send = (case cq_send b of None \<Rightarrow> True | Some v \<Rightarrow> v)\<rparr> s
                          in case fst run of
                               Inl e \<Rightarrow> (driver_fail lt e ''Could not register the driver.'', snd run)
                             | Inr out \<Rightarrow> (ok_message ''Driver account created.'' (Some out), snd run))))))"

definition driver_list ::
  "(svc_error \<Rightarrow> bool) \<Rightarrow> env \<Rightarrow> user engine \<Rightarrow> call \<Rightarrow> sys \<Rightarrow> driver_account list reply" where
  "driver_list lt env db cx s =
     (case scope_company env cx of
        Inl r \<Rightarrow> r
      | Inr cid \<Rightarrow>
          (case list_drivers env db cid s of
             Inl e \<Rightarrow> driver_fail lt e ''Could not list driver accounts.''
           | Inr out \<Rightarrow> ok_reply out))"

definition driver_lookup ::
  "(svc_error \<Rightarrow> bool) \<Rightarrow> env \<Rightarrow> call \<Rightarrow> string \<Rightarrow> sys \<Rightarrow> driver_account reply" where
  "driver_lookup lt env cx username s =
     (case scope_company env cx of
        Inl r \<Rightarrow> r
      | Inr cid \<Rightarrow>
          if username = [] then bad_request ''username is required''
          else (case lookup_driver env cid username s of
             Inl e \<Rightarrow> driver_fail lt e ''Could not look up that username.''
           | Inr out \<Rightarrow> ok_reply out))"

definition driver_adopt ::
  "(svc_error \<Rightarrow> bool) \<Rightarrow> env \<Rightarrow> call \<Rightarrow> string \<Rightarrow> sys \<Rightarrow> driver_account reply \<times> sys" where
  "driver_adopt lt env cx raw s =
     (case scope_company env cx of
        Inl r \<Rightarrow> (r, s)
      | Inr cid \<Rightarrow>
          (case uuid_parse env raw of
             None \<Rightarrow> (bad_request ''That is not a valid account id.'', s)
           | Some i \<Rightarrow>
               (let run = adopt_driver env cid i s in
                case fst run of
                  Inl e \<Rightarrow> (driver_fail lt e ''Could not adopt that account.'', snd run)
                | Inr out \<Rightarrow> (ok_message ''Driver joined your company.'' (Some out), snd run))))"

end
