(* ===== verification/AdminHandlers.thy ===== *)
theory AdminHandlers
  imports UserHandlers
begin

text \<open>
  The handlers of companies, shippers and claims, merges, entitlements and the
  permission catalogue, with the catalogue's repository.
\<close>

section \<open>Company profile\<close>

text \<open>A profile request: every field optional, None leaves it alone.\<close>

record profile_request =
  pr_name :: "string option"
  pr_legal_name :: "string option"
  pr_address :: "string option"
  pr_city :: "string option"
  pr_province :: "string option"
  pr_postal_code :: "string option"
  pr_country :: "string option"
  pr_phone :: "string option"
  pr_email :: "string option"
  pr_website :: "string option"
  pr_logo_key :: "string option"
  pr_logo_url :: "string option"
  pr_npwp :: "string option"
  pr_company_profile :: "string option"
  pr_bank_account :: "string option"
  pr_profile :: "(string \<times> string) list option"
  pr_settings :: "(string option \<times> bool option) option"   \<comment> \<open>tripAllowance, finishWithGeofencing\<close>

datatype company_value =
    TextValue "string option"
  | BankValue string
  | ProfileValue "(string \<times> string) list"
  | SettingsValue "string option" bool

definition nil_if_blank :: "string \<Rightarrow> string option" where
  "nil_if_blank s = (if s = [] then None else Some s)"

definition text_field :: "string \<Rightarrow> string option \<Rightarrow> (string \<times> company_value) list" where
  "text_field col v = (case v of None \<Rightarrow> [] | Some t \<Rightarrow> [(col, TextValue (nil_if_blank (trim_space t)))])"

definition text_fields :: "profile_request \<Rightarrow> (string \<times> company_value) list" where
  "text_fields r = text_field ''name'' (pr_name r) @ text_field ''legal_name'' (pr_legal_name r) @
     text_field ''address'' (pr_address r) @ text_field ''city'' (pr_city r) @
     text_field ''province'' (pr_province r) @ text_field ''postal_code'' (pr_postal_code r) @
     text_field ''phone'' (pr_phone r) @ text_field ''email'' (pr_email r) @
     text_field ''website'' (pr_website r) @ text_field ''logo_key'' (pr_logo_key r) @
     text_field ''logo_url'' (pr_logo_url r) @ text_field ''npwp'' (pr_npwp r) @
     text_field ''company_profile'' (pr_company_profile r)"

definition profile_fields :: "profile_request \<Rightarrow> string + (string \<times> company_value) list" where
  "profile_fields r =
     (if (case pr_name r of None \<Rightarrow> False | Some n \<Rightarrow> trim_space n = []) then Inl ''name cannot be empty''
      else let out = text_fields r @
                (case pr_bank_account r of None \<Rightarrow> [] | Some b \<Rightarrow> [(''bank_account'', BankValue b)]) @
                (case pr_profile r of None \<Rightarrow> [] | Some m \<Rightarrow> [(''profile'', ProfileValue m)])
           in case pr_country r of
                None \<Rightarrow> Inr out
              | Some c \<Rightarrow>
                  (let cc = to_upper (trim_space c) in
                   if length cc \<noteq> 2 then Inl ''country must be an ISO 3166-1 alpha-2 code''
                   else Inr (out @ [(''country'', TextValue (Some cc))])))"

fun set_company_column :: "string \<Rightarrow> company_value \<Rightarrow> company \<Rightarrow> company" where
  "set_company_column col (TextValue v) c =
     (if col = ''name'' then c\<lparr>co_name := text_or_empty v\<rparr>
      else if col = ''address'' then c\<lparr>co_address := v\<rparr>
      else if col = ''phone'' then c\<lparr>co_phone := v\<rparr>
      else if col = ''npwp'' then c\<lparr>co_npwp := v\<rparr>
      else c\<lparr>co_columns := set_profile col v (co_columns c)\<rparr>)"
| "set_company_column col (BankValue b) c = c\<lparr>co_bank_account := Some b\<rparr>"
| "set_company_column col (ProfileValue m) c = c\<lparr>co_profile := m\<rparr>"
| "set_company_column col (SettingsValue t g) c = c\<lparr>co_trip_allowance := t, co_geofencing := g\<rparr>"

definition update_company_columns ::
  "env \<Rightarrow> uuid \<Rightarrow> (string \<times> company_value) list \<Rightarrow> sys \<Rightarrow> svc_error + sys" where
  "update_company_columns env i fs s =
     (if fs = [] then Inr s
      else update_company_fields env i (fold (\<lambda>f. set_company_column (fst f) (snd f)) fs) s)"

definition settings_field ::
  "env \<Rightarrow> uuid \<Rightarrow> profile_request \<Rightarrow> sys \<Rightarrow> svc_error + (string \<times> company_value) list" where
  "settings_field env i r s =
     (case pr_settings r of
        None \<Rightarrow> Inr []
      | Some st \<Rightarrow>
          if fst st = None \<and> snd st = None then Inr []
          else (case find_company env s i of
              Inl e \<Rightarrow> Inl e
            | Inr c \<Rightarrow> Inr [(''settings'', SettingsValue (or_else (fst st) (co_trip_allowance c))
                 (case snd st of None \<Rightarrow> co_geofencing c | Some b \<Rightarrow> b))]))"

definition update_company_profile ::
  "env \<Rightarrow> uuid \<Rightarrow> profile_request option \<Rightarrow> sys \<Rightarrow> company reply \<times> sys" where
  "update_company_profile env i req s =
     (case req of
        None \<Rightarrow> (bad_request ''invalid body'', s)
      | Some r \<Rightarrow>
          (case profile_fields r of
             Inl e \<Rightarrow> (bad_request e, s)
           | Inr fs \<Rightarrow>
               (case settings_field env i r s of
                  Inl _ \<Rightarrow> (not_found ''Company not found'', s)
                | Inr st \<Rightarrow>
                    (case update_company_columns env i (fs @ st) s of
                       Inl e \<Rightarrow> (if e = ErrNotFound then not_found ''Company not found''
                                 else internal_error ''Could not update the company.'', s)
                     | Inr s1 \<Rightarrow>
                         (case find_company env s1 i of
                            Inl _ \<Rightarrow> (not_found ''Company not found'', s1)
                          | Inr c \<Rightarrow> (ok_reply c, s1))))))"

definition company_me :: "env \<Rightarrow> call \<Rightarrow> sys \<Rightarrow> company reply" where
  "company_me env cx s =
     (case scope_company env cx of
        Inl r \<Rightarrow> r
      | Inr i \<Rightarrow> (case find_company env s i of Inl _ \<Rightarrow> not_found ''Company not found'' | Inr c \<Rightarrow> ok_reply c))"

definition company_update_me ::
  "env \<Rightarrow> call \<Rightarrow> profile_request option \<Rightarrow> sys \<Rightarrow> company reply \<times> sys" where
  "company_update_me env cx req s =
     (case scope_company env cx of Inl r \<Rightarrow> (r, s) | Inr i \<Rightarrow> update_company_profile env i req s)"

definition company_update ::
  "env \<Rightarrow> string \<Rightarrow> profile_request option \<Rightarrow> sys \<Rightarrow> company reply \<times> sys" where
  "company_update env raw req s =
     (case path_id env raw of Inl r \<Rightarrow> (r, s) | Inr i \<Rightarrow> update_company_profile env i req s)"

text \<open>The directory: int(math.Ceil(total / pageSize)) is the exact quotient rounded up.\<close>

definition held_products :: "env \<Rightarrow> sys \<Rightarrow> uuid \<Rightarrow> product list" where
  "held_products env s cid = filter (\<lambda>p. case active_for_company env s cid p of
      Inl _ \<Rightarrow> False | Inr held \<Rightarrow> length held > 0) [product_tms, product_fms]"

definition company_list ::
  "env \<Rightarrow> company engine \<Rightarrow> scanner \<Rightarrow> list_request \<Rightarrow> string \<Rightarrow> sys \<Rightarrow> ((company \<times> product list) list \<times> meta) reply" where
  "company_list env db unm q side s =
     (let ps0 = parse_query unm (text_or_empty (lr_page q)) (text_or_empty (lr_size q))
           (lr_filtered q) (lr_sorted q) (lr_search q) company_fields in
      case bad_query ps0 of
        Some r \<Rightarrow> r
      | None \<Rightarrow>
          (let ps = (if side \<noteq> []
               then ps0\<lparr>qp_filters := qp_filters ps0 @
                 [\<lparr>fl_field = ''role'', fl_value = side, fl_operator = OpEq, fl_values = []\<rparr>]\<rparr>
               else ps0)
           in case list_companies env db ps s of
                Inl _ \<Rightarrow> internal_error ''Could not list companies.''
              | Inr page \<Rightarrow>
                  ok_reply (map (\<lambda>c. (c, held_products env s (co_id c))) (fst page),
                    \<lparr>mt_page = qp_page ps, mt_limit = qp_size ps, mt_rows = snd page,
                     mt_pages = (if sint (qp_size ps) > 0
                        then word_of_int (- ((- sint (snd page)) div sint (qp_size ps))) else 0)\<rparr>)))"

section \<open>Shippers and claims\<close>

definition actor_or_nil :: "env \<Rightarrow> principal \<Rightarrow> uuid" where
  "actor_or_nil env p = (case uuid_parse env (user_id p) of None \<Rightarrow> uuid_nil | Some i \<Rightarrow> i)"

definition shipper_create ::
  "env \<Rightarrow> call \<Rightarrow> create_shipper_input option \<Rightarrow> sys \<Rightarrow> create_shipper_result reply \<times> sys" where
  "shipper_create env cx req s =
     (case cx_principal cx of
        None \<Rightarrow> (unauthorized msg_no_token, s)
      | Some p \<Rightarrow>
          (case scope_company env cx of
             Inl r \<Rightarrow> (r, s)
           | Inr cid \<Rightarrow>
               (case bind_json (\<lambda>b. [cs_name b]) req of
                  None \<Rightarrow> (bad_request ''A name is required.'', s)
                | Some b \<Rightarrow>
                    (let run = create_shipper env cid (actor_or_nil env p) b s in
                     case fst run of
                       Inl e \<Rightarrow> ((case e of ErrValidation _ \<Rightarrow> bad_request (error_text e)
                                   | _ \<Rightarrow> internal_error ''Could not record the shipper.''), snd run)
                     | Inr out \<Rightarrow> (ok_message (if sr_existing out
                           then ''That tax number is already registered, so you have been linked to the existing shipper rather than a duplicate being created.''
                           else ''Shipper created.'') (Some out), snd run)))))"

definition shipper_list :: "env \<Rightarrow> call \<Rightarrow> sys \<Rightarrow> company list reply" where
  "shipper_list env cx s =
     (case scope_company env cx of
        Inl r \<Rightarrow> r
      | Inr cid \<Rightarrow> (case list_shippers env s cid of
            Inl _ \<Rightarrow> internal_error ''Could not list your shippers.'' | Inr cs \<Rightarrow> ok_reply cs))"

definition transporter_list :: "env \<Rightarrow> call \<Rightarrow> sys \<Rightarrow> company list reply" where
  "transporter_list env cx s =
     (case scope_company env cx of
        Inl r \<Rightarrow> r
      | Inr cid \<Rightarrow> (case list_transporters env s cid of
            Inl _ \<Rightarrow> internal_error ''Could not list your transporters.'' | Inr cs \<Rightarrow> ok_reply cs))"

definition claim_link_handler ::
  "env \<Rightarrow> call \<Rightarrow> string \<Rightarrow> sys \<Rightarrow> (string \<times> time) reply \<times> sys" where
  "claim_link_handler env cx raw s =
     (case cx_principal cx of
        None \<Rightarrow> (unauthorized msg_no_token, s)
      | Some p \<Rightarrow>
          (case uuid_parse env raw of
             None \<Rightarrow> (bad_request ''That is not a valid shipper id.'', s)
           | Some i \<Rightarrow>
               (let run = issue_claim_link env i (actor_or_nil env p) s in
                case fst run of
                  Inl e \<Rightarrow> ((case e of
                      ErrAlreadyClaimed \<Rightarrow> bad_request ''That company already has users, so it has been claimed.''
                    | ErrClaimNotFound \<Rightarrow> not_found ''No such shipper.''
                    | _ \<Rightarrow> internal_error ''Could not issue a claim link.''), snd run)
                | Inr out \<Rightarrow> (ok_message ''Share this link with the shipper. It is shown once and cannot be retrieved again.''
                                (Some out), snd run))))"

definition preview_handler :: "env \<Rightarrow> string \<Rightarrow> sys \<Rightarrow> string reply" where
  "preview_handler env token s =
     (case preview_claim env token s of
        Inl e \<Rightarrow> (case e of ErrClaimExpired \<Rightarrow> bad_request ''That link has expired. Ask for a new one.''
                   | _ \<Rightarrow> not_found ''That link is not valid.'')
      | Inr n \<Rightarrow> ok_reply n)"

definition claim_handler ::
  "env \<Rightarrow> string \<Rightarrow> claim_input option \<Rightarrow> sys \<Rightarrow> claim_result reply \<times> sys" where
  "claim_handler env token req s =
     (case bind_json (\<lambda>b. [cl_password b, cl_npwp b]) req of
        None \<Rightarrow> (bad_request ''A password and a tax number (NPWP) are required.'', s)
      | Some b \<Rightarrow>
          (let run = claim env (b\<lparr>cl_token := token\<rparr>) s in
           case fst run of
             Inl e \<Rightarrow> ((case e of
                 ErrNPWPRequired \<Rightarrow> bad_request ''A tax number (NPWP) is required to claim a company.''
               | ErrClaimExpired \<Rightarrow> bad_request ''That link has expired. Ask for a new one.''
               | ErrAlreadyClaimed \<Rightarrow> bad_request ''That company has already been claimed.''
               | ErrClaimNotFound \<Rightarrow> not_found ''That link is not valid.''
               | ErrValidation _ \<Rightarrow> bad_request (error_text e)
               | _ \<Rightarrow> internal_error ''Could not complete the claim.''), snd run)
           | Inr out \<Rightarrow> (ok_message (if cr_duplicate out \<noteq> None
                then ''Your company is ready. Another record of the same business was found and merged, so its history is included.''
                else ''Your company is ready. Sign in with the account you just created.'') (Some out), snd run)))"

section \<open>Merging\<close>

definition merge_handler ::
  "env \<Rightarrow> call \<Rightarrow> string \<Rightarrow> string option \<Rightarrow> sys \<Rightarrow> merge_result reply \<times> sys" where
  "merge_handler env cx raw req s =
     (case cx_principal cx of
        None \<Rightarrow> (unauthorized msg_no_token, s)
      | Some p \<Rightarrow>
          (case uuid_parse env raw of
             None \<Rightarrow> (bad_request ''That is not a valid company id.'', s)
           | Some surv \<Rightarrow>
               (case bind_json (\<lambda>b. [b]) req of
                  None \<Rightarrow> (bad_request ''Name the duplicate company to merge in.'', s)
                | Some b \<Rightarrow>
                    (case uuid_parse env b of
                       None \<Rightarrow> (bad_request ''That is not a valid company id.'', s)
                     | Some dup \<Rightarrow>
                         (let run = merge_companies env surv dup (Some (actor_or_nil env p)) s in
                          case fst run of
                            Inl e \<Rightarrow> ((case e of
                                ErrMergeIntoSelf \<Rightarrow> bad_request ''A company cannot be merged into itself.''
                              | ErrAlreadyMerged \<Rightarrow> bad_request (error_text e)
                              | ErrSurvivorHasUsers \<Rightarrow> bad_request ''Both companies have people signed in. Merging would move accounts between tenants, so it must be resolved by hand.''
                              | ErrValidation _ \<Rightarrow> bad_request (error_text e)
                              | _ \<Rightarrow> internal_error ''Could not merge the companies.''), snd run)
                          | Inr out \<Rightarrow> (ok_message ''Merged. The duplicate now forwards to this company, so existing references to it still resolve.''
                                          (Some out), snd run))))))"

section \<open>Entitlements\<close>

definition product_param :: "string option \<Rightarrow> product" where
  "product_param q = (case q of None \<Rightarrow> product_tms | Some v \<Rightarrow> v)"

definition feature_catalogue :: "string option \<Rightarrow> feature list reply" where
  "feature_catalogue q =
     (let p = product_param q in
      if \<not> is_known_product p then bad_request (''Unknown product: '' @ p)
      else ok_reply (sellable_features p))"

definition modules_for_company :: "env \<Rightarrow> sys \<Rightarrow> uuid \<Rightarrow> svc_error + company_module list" where
  "modules_for_company env s cid =
     (if db_down env OpModules then Inl (ErrDB OpModules)
      else Inr (sort_key cm_product (sort_key cm_module (filter (\<lambda>m. cm_company m = cid) (modules s)))))"

definition entitlement_list :: "env \<Rightarrow> string \<Rightarrow> sys \<Rightarrow> company_module list reply" where
  "entitlement_list env raw s =
     (case path_id env raw of
        Inl r \<Rightarrow> r
      | Inr cid \<Rightarrow> (case modules_for_company env s cid of
            Inl e \<Rightarrow> write_service_error e | Inr rows \<Rightarrow> ok_reply rows))"

definition entitlement_effective :: "env \<Rightarrow> string \<Rightarrow> string option \<Rightarrow> sys \<Rightarrow> effective_entitlement reply" where
  "entitlement_effective env raw q s =
     (case path_id env raw of
        Inl r \<Rightarrow> r
      | Inr cid \<Rightarrow> (case effective env s cid (product_param q) of
            Inl e \<Rightarrow> write_service_error e | Inr x \<Rightarrow> ok_reply x))"

record grant_request =
  gq_product :: string
  gq_module :: string
  gq_valid_from :: string
  gq_valid_until :: string
  gq_limits :: "(string \<times> string) list"
  gq_note :: string

text \<open>time.Parse of YYYY-MM-DD is \<open>parse_date\<close>; the empty string is no date.\<close>

definition optional_date :: "(string \<Rightarrow> time option) \<Rightarrow> string \<Rightarrow> unit + time option" where
  "optional_date parse_date v =
     (if v = [] then Inr None else case parse_date v of None \<Rightarrow> Inl () | Some t \<Rightarrow> Inr (Some t))"

definition entitlement_grant_handler ::
  "(string \<Rightarrow> time option) \<Rightarrow> env \<Rightarrow> call \<Rightarrow> int \<Rightarrow> string \<Rightarrow> grant_request option \<Rightarrow> sys \<Rightarrow> company_module reply \<times> sys" where
  "entitlement_grant_handler parse_date env cx nextval raw req s =
     (case path_id env raw of
        Inl r \<Rightarrow> (r, s)
      | Inr cid \<Rightarrow>
          (case cx_principal cx of
             None \<Rightarrow> (unauthorized msg_no_token, s)
           | Some p \<Rightarrow>
               (case bind_json (\<lambda>b. [gq_product b, gq_module b]) req of
                  None \<Rightarrow> (bad_request ''invalid body'', s)
                | Some b \<Rightarrow>
                    (case optional_date parse_date (gq_valid_from b) of
                       Inl _ \<Rightarrow> (bad_request ''validFrom must be YYYY-MM-DD'', s)
                     | Inr from_date \<Rightarrow>
                         (case optional_date parse_date (gq_valid_until b) of
                            Inl _ \<Rightarrow> (bad_request ''validUntil must be YYYY-MM-DD'', s)
                          | Inr until_date \<Rightarrow>
                              (let run = entitlement_grant_op env p nextval
                                 \<lparr>gi_company = cid, gi_product = gq_product b, gi_module = gq_module b,
                                  gi_valid_from = from_date, gi_valid_until = until_date,
                                  gi_limits = gq_limits b, gi_note = nil_if_empty (gq_note b)\<rparr> s
                               in case fst run of
                                    Inl e \<Rightarrow> (write_service_error e, snd run)
                                  | Inr row \<Rightarrow> (ok_reply row, snd run)))))))"

definition entitlement_revoke_handler ::
  "env \<Rightarrow> call \<Rightarrow> string \<Rightarrow> product \<Rightarrow> string \<Rightarrow> sys \<Rightarrow> unit reply \<times> sys" where
  "entitlement_revoke_handler env cx raw pd m s =
     (case path_id env raw of
        Inl r \<Rightarrow> (r, s)
      | Inr cid \<Rightarrow>
          (case cx_principal cx of
             None \<Rightarrow> (unauthorized msg_no_token, s)
           | Some p \<Rightarrow>
               (let run = entitlement_revoke_op env p cid pd m s in
                case fst run of
                  Inl e \<Rightarrow> (if e = ErrNotFound then not_found ''That company does not hold this module''
                            else write_service_error e, snd run)
                | Inr _ \<Rightarrow> (ok_message ''Module revoked. Tokens already issued keep it until they expire, at most fifteen minutes.''
                               None, snd run))))"

definition entitlement_history :: "env \<Rightarrow> string \<Rightarrow> string \<Rightarrow> sys \<Rightarrow> module_event list reply" where
  "entitlement_history env raw limit s =
     (case path_id env raw of
        Inl r \<Rightarrow> r
      | Inr cid \<Rightarrow> (case module_history env s cid (sint (fst (atoi limit))) of
            Inl e \<Rightarrow> write_service_error e | Inr es \<Rightarrow> ok_reply es))"

end
