(* ===== verification/CatalogStore.thy ===== *)
theory CatalogStore
  imports AdminHandlers
begin

text \<open>
  repository/catalog_repository.go and handlers/catalog_handler.go: the table that
  mirrors the permission catalogue for role editors.  Each statement of Sync reads
  its own NOW(): the clock gives the time of the n-th of them.
\<close>

section \<open>Sorting the keys\<close>

text \<open>
  sortStrings, two nested loops that swap in place: for j := i; j > 0 and s[j] < s[j-1];
  and around it for i := 1; i < len(s).
\<close>

function sink :: "string list \<Rightarrow> nat \<Rightarrow> string list" where
  "sink s j =
     (if j > 0 \<and> s ! j < s ! (j - 1) then sink (s[j := s ! (j - 1), j - 1 := s ! j]) (j - 1) else s)"
  by pat_completeness auto
termination by (relation "measure snd") auto

declare sink.simps [simp del]

lemma length_sink [simp]: "length (sink s j) = length s"
  by (induction s j rule: sink.induct) (subst sink.simps, simp)

function sort_from :: "nat \<Rightarrow> string list \<Rightarrow> string list" where
  "sort_from i s = (if i < length s then sort_from (i + 1) (sink s i) else s)"
  by pat_completeness auto
termination by (relation "measure (\<lambda>(i, s). length s - i)") auto

declare sort_from.simps [simp del]

definition sort_strings :: "string list \<Rightarrow> string list" where "sort_strings s = sort_from 1 s"

lemma insort_snoc: "(x :: 'a :: linorder) < y \<Longrightarrow> insort x (xs @ [y]) = insort x xs @ [y]"
  by (induction xs) auto

lemma insort_last: "sorted zs \<Longrightarrow> (\<And>z. z \<in> set zs \<Longrightarrow> z \<le> (x :: 'a :: linorder)) \<Longrightarrow> insort x zs = zs @ [x]"
proof (induction zs)
  case (Cons z zs)
  show ?case
  proof (cases "x \<le> z")
    case True
    then have "x = z" using Cons.prems(2) [of z] by simp
    then have "set zs \<subseteq> {x}" using Cons.prems by (auto intro: antisym)
    then have "zs = replicate (length zs) x" by (metis replicate_eqI singletonD subsetD)
    then show ?thesis using \<open>x = z\<close> by (metis append_Cons insort_key.simps(2) order_refl replicate_append_same)
  next
    case False
    then show ?thesis using Cons by simp
  qed
qed simp

lemma sink_insort:
  "j < length s \<Longrightarrow> sorted (take j s) \<Longrightarrow> sink s j = insort (s ! j) (take j s) @ drop (Suc j) s"
proof (induction j arbitrary: s)
  case 0
  then show ?case by (subst sink.simps) (cases s; simp)
next
  case (Suc j)
  let ?x = "s ! Suc j" and ?y = "s ! j"
  have t: "take (Suc j) s = take j s @ [?y]" using Suc.prems(1) by (simp add: take_Suc_conv_app_nth)
  have so: "sorted (take j s)" "\<And>z. z \<in> set (take j s) \<Longrightarrow> z \<le> ?y"
    using Suc.prems(2) unfolding t by (simp_all add: sorted_append)
  show ?case
  proof (cases "?x < ?y")
    case True
    let ?s = "s[Suc j := ?y, j := ?x]"
    have "sink s (Suc j) = sink ?s j" using True by (subst sink.simps) simp
    also have "\<dots> = insort (?s ! j) (take j ?s) @ drop (Suc j) ?s"
      using Suc.prems(1) so(1) by (intro Suc.IH) simp_all
    also have "take j ?s = take j s" by simp
    also have "?s ! j = ?x" using Suc.prems(1) by simp
    also have "drop (Suc j) ?s = ?y # drop (Suc (Suc j)) s"
      using Suc.prems(1) by (simp add: drop_update_swap flip: Cons_nth_drop_Suc)
    finally show ?thesis using True by (simp add: t insort_snoc)
  next
    case False
    then have "sink s (Suc j) = s" by (subst sink.simps) simp
    moreover have "insort ?x (take (Suc j) s) = take (Suc j) s @ [?x]"
    proof (rule insort_last [OF Suc.prems(2)])
      fix z assume "z \<in> set (take (Suc j) s)"
      then have "z \<le> ?y" using so(2) by (auto simp: t)
      then show "z \<le> ?x" using False by (meson leI order_trans)
    qed
    ultimately show ?thesis using Suc.prems(1) by (simp add: id_take_nth_drop [symmetric])
  qed
qed

lemma sort_from_sort:
  "sorted (take i s) \<Longrightarrow> sort_from i s = sort s"
proof (induction i s rule: sort_from.induct)
  case (1 i s)
  show ?case
  proof (cases "i < length s")
    case True
    have k: "sink s i = insort (s ! i) (take i s) @ drop (Suc i) s" using True 1(2) by (rule sink_insort)
    have m: "mset (sink s i) = mset s"
      unfolding k by (subst (3) id_take_nth_drop [OF True]) simp
    have "sorted (take (i + 1) (sink s i))"
      unfolding k using True 1(2) by (simp add: sorted_insort)
    then have "sort_from i s = sort (sink s i)" using 1(1) [OF True] True by (subst sort_from.simps) simp
    then show ?thesis using m by (metis mset_sort properties_for_sort sorted_sort)
  next
    case False
    then show ?thesis using 1(2) by (subst sort_from.simps) (simp add: sorted_sort_id)
  qed
qed

text \<open>
  The hand-written insertion sort of the catalogue ends on every list and is
  sorting: the same keys, in byte order.
\<close>
theorem sort_strings_sorts: "sort_strings xs = sort xs"
proof (cases xs)
  case (Cons x ys)
  then show ?thesis unfolding sort_strings_def by (intro sort_from_sort) simp
qed (simp add: sort_strings_def sort_from.simps)

section \<open>The table\<close>

definition row_key :: "product \<Rightarrow> string \<Rightarrow> catalog_row \<Rightarrow> bool" where
  "row_key p k r = (cr_product r = p \<and> cr_key r = k)"

definition refreshed :: "permission_spec \<Rightarrow> nat \<Rightarrow> time \<Rightarrow> catalog_row \<Rightarrow> catalog_row" where
  "refreshed sp i t r = r\<lparr>cr_feature := spec_feature sp, cr_group := spec_group sp, cr_label := spec_label sp,
     cr_sort_order := i, cr_active := True, cr_synced := Some t\<rparr>"

definition sync_key :: "product \<Rightarrow> string \<Rightarrow> permission_spec \<Rightarrow> nat \<Rightarrow> time \<Rightarrow> catalog_row list \<Rightarrow> catalog_row list" where
  "sync_key p k sp i t =
     sql_upsert (row_key p k) (refreshed sp i t)
       \<lparr>cr_key = k, cr_product = p, cr_feature = spec_feature sp, cr_group = spec_group sp,
        cr_label = spec_label sp, cr_override = None, cr_sort_order = i, cr_active = True, cr_synced = Some t\<rparr>"

text \<open>The loop over the keys of one product; the i-th statement runs at clock (n + i).\<close>

fun sync_keys :: "(nat \<Rightarrow> time) \<Rightarrow> nat \<Rightarrow> product \<Rightarrow> nat \<Rightarrow> string list \<Rightarrow> catalog_row list \<Rightarrow> catalog_row list" where
  "sync_keys clock n p i [] tbl = tbl"
| "sync_keys clock n p i (k # ks) tbl =
     sync_keys clock n p (Suc i) ks (sync_key p k (the (map_of (catalog_for p) k)) i (clock (n + i)) tbl)"

definition retire_keys :: "product \<Rightarrow> time \<Rightarrow> catalog_row list \<Rightarrow> catalog_row list" where
  "retire_keys p t =
     sql_update (\<lambda>r. cr_product r = p \<and> cr_active r \<and>
         (case cr_synced r of None \<Rightarrow> True | Some u \<Rightarrow> u < t - second))
       (\<lambda>r. r\<lparr>cr_active := False\<rparr>)"

definition declared_keys :: "product \<Rightarrow> string list" where
  "declared_keys p = sort_strings (map fst (catalog_for p))"

definition sync_product :: "(nat \<Rightarrow> time) \<Rightarrow> nat \<Rightarrow> product \<Rightarrow> catalog_row list \<Rightarrow> catalog_row list" where
  "sync_product clock n p tbl =
     retire_keys p (clock (n + length (declared_keys p))) (sync_keys clock n p 0 (declared_keys p) tbl)"

definition sync_catalogue :: "env \<Rightarrow> (nat \<Rightarrow> time) \<Rightarrow> sys \<Rightarrow> svc_error + sys" where
  "sync_catalogue env clock s =
     (if db_down env OpCatalog then Inl (ErrDB OpCatalog)
      else Inr (s\<lparr>catalog_table :=
         sync_product clock (Suc (length (declared_keys product_tms))) product_fms
           (sync_product clock 0 product_tms (catalog_table s))\<rparr>))"

record catalog_entry =
  ce_key :: string
  ce_product :: product
  ce_feature :: string
  ce_group :: string
  ce_label :: string
  ce_default_label :: string
  ce_overridden :: bool
  ce_sort_order :: nat
  ce_active :: bool

definition entry_of :: "catalog_row \<Rightarrow> catalog_entry" where
  "entry_of r =
     (let ov = (case cr_override r of None \<Rightarrow> [] | Some v \<Rightarrow> v)
      in \<lparr>ce_key = cr_key r, ce_product = cr_product r, ce_feature = cr_feature r, ce_group = cr_group r,
          ce_label = (if ov \<noteq> [] then ov else cr_label r), ce_default_label = cr_label r,
          ce_overridden = (ov \<noteq> []), ce_sort_order = cr_sort_order r, ce_active = cr_active r\<rparr>)"

definition list_catalogue :: "env \<Rightarrow> product \<Rightarrow> bool \<Rightarrow> sys \<Rightarrow> svc_error + catalog_entry list" where
  "list_catalogue env p include_inactive s =
     (if db_down env OpCatalog then Inl (ErrDB OpCatalog)
      else Inr (map entry_of (sort_key cr_group (sort_key cr_sort_order (sort_key cr_key
         (filter (\<lambda>r. cr_product r = p \<and> (include_inactive \<or> cr_active r)) (catalog_table s)))))))"

definition set_label :: "env \<Rightarrow> product \<Rightarrow> string \<Rightarrow> string \<Rightarrow> sys \<Rightarrow> svc_error + sys" where
  "set_label env p k label s =
     (if db_down env OpCatalog then Inl (ErrDB OpCatalog)
      else if sql_count (row_key p k) (catalog_table s) = 0 then Inl ErrNotFound
      else Inr (s\<lparr>catalog_table := sql_update (row_key p k)
             (\<lambda>r. r\<lparr>cr_override := nil_if_empty label\<rparr>) (catalog_table s)\<rparr>))"

section \<open>The handler\<close>

text \<open>Groups in the order their first entry has, each with its entries in order.\<close>

fun add_to_group :: "catalog_entry \<Rightarrow> (string \<times> catalog_entry list) list \<Rightarrow> (string \<times> catalog_entry list) list" where
  "add_to_group e [] = [(ce_group e, [e])]"
| "add_to_group e ((g, es) # gs) = (if g = ce_group e then (g, es @ [e]) # gs else (g, es) # add_to_group e gs)"

definition grouped :: "catalog_entry list \<Rightarrow> (string \<times> catalog_entry list) list" where
  "grouped es = fold add_to_group es []"

definition catalogue_list ::
  "env \<Rightarrow> string option \<Rightarrow> string \<Rightarrow> sys \<Rightarrow> (product \<times> (string \<times> catalog_entry list) list \<times> nat) reply" where
  "catalogue_list env q include s =
     (let p = (case q of None \<Rightarrow> service_product env | Some v \<Rightarrow> v) in
      if catalog_for p = [] then bad_request (''Unknown product: '' @ p @ ''. Expected tms or fms.'')
      else case list_catalogue env p (include = ''true'') s of
        Inl _ \<Rightarrow> internal_error ''Could not load the permission catalogue.''
      | Inr es \<Rightarrow> ok_reply (p, grouped es, length es))"

text \<open>The body: product and label.\<close>

definition label_handler ::
  "env \<Rightarrow> string \<Rightarrow> (string \<times> string) option \<Rightarrow> sys \<Rightarrow> (string \<times> string) reply \<times> sys" where
  "label_handler env key req s =
     (case req of
        None \<Rightarrow> (bad_request ''Send a JSON body with a label.'', s)
      | Some b \<Rightarrow>
          (case set_label env (if fst b = [] then service_product env else fst b) key (snd b) s of
             Inl e \<Rightarrow> (if e = ErrNotFound then not_found ''No such permission in this product''
                       else internal_error ''Could not update the label.'', s)
           | Inr s1 \<Rightarrow> (ok_reply (key, snd b), s1)))"

section \<open>What a sync leaves\<close>

lemma set_sync_key:
  "r \<in> set (sync_key p k sp i t tbl) \<Longrightarrow> (r \<in> set tbl \<and> \<not> row_key p k r) \<or>
     (row_key p k r \<and> cr_feature r = spec_feature sp \<and> cr_active r \<and> cr_synced r = Some t \<and>
      (cr_override r = None \<or> (\<exists>q \<in> set tbl. row_key p k q \<and> cr_override q = cr_override r)))"
  by (auto simp: sync_key_def sql_upsert_def sql_update_def list_ex_iff refreshed_def row_key_def split: if_splits)

lemma sync_key_keeps:
  "r \<in> set tbl \<Longrightarrow> \<exists>q \<in> set (sync_key p k sp i t tbl). cr_product q = cr_product r \<and> cr_key q = cr_key r \<and>
     cr_override q = cr_override r"
  unfolding sync_key_def
  using upsert_keeps [of r tbl "\<lambda>q. (cr_product q, cr_key q, cr_override q)" "refreshed sp i t" "row_key p k"]
  by (auto simp: refreshed_def)

lemma sync_key_has:
  "\<exists>r \<in> set (sync_key p k sp i t tbl). row_key p k r"
proof (cases "\<exists>r \<in> set tbl. row_key p k r")
  case True
  then show ?thesis using sync_key_keeps [of _ tbl p k sp i t] by (fastforce simp: row_key_def)
next
  case False
  then show ?thesis by (auto simp: sync_key_def sql_upsert_def list_ex_iff row_key_def)
qed

text \<open>What holds of every row after the loop over the keys ks.\<close>

lemma sync_keys_rows:
  assumes "distinct ks" "mono clock"
  shows "r \<in> set (sync_keys clock n p i ks tbl) \<Longrightarrow>
     (r \<in> set tbl \<and> \<not> (cr_product r = p \<and> cr_key r \<in> set ks)) \<or>
     (cr_product r = p \<and> cr_key r \<in> set ks \<and> cr_active r \<and>
      cr_feature r = spec_feature (the (map_of (catalog_for p) (cr_key r))) \<and>
      (\<exists>t. cr_synced r = Some t \<and> clock (n + i) \<le> t))"
  using assms(1)
proof (induction ks arbitrary: i tbl)
  case (Cons k ks)
  let ?tbl = "sync_key p k (the (map_of (catalog_for p) k)) i (clock (n + i)) tbl"
  from Cons.prems(1) have "r \<in> set (sync_keys clock n p (Suc i) ks ?tbl)" by simp
  then have "(r \<in> set ?tbl \<and> \<not> (cr_product r = p \<and> cr_key r \<in> set ks)) \<or>
     (cr_product r = p \<and> cr_key r \<in> set ks \<and> cr_active r \<and>
      cr_feature r = spec_feature (the (map_of (catalog_for p) (cr_key r))) \<and>
      (\<exists>t. cr_synced r = Some t \<and> clock (n + Suc i) \<le> t))"
    using Cons.IH [of "Suc i" ?tbl] Cons.prems(2) by simp
  moreover have "clock (n + i) \<le> clock (n + Suc i)" using assms(2) by (simp add: mono_def)
  ultimately show ?case
    using set_sync_key [of r p k "the (map_of (catalog_for p) k)" i "clock (n + i)" tbl] Cons.prems(2)
    by (auto simp: row_key_def intro: order_trans)
qed simp

lemma sync_keys_has:
  "k \<in> set ks \<or> (\<exists>r \<in> set tbl. row_key p k r) \<Longrightarrow> \<exists>r \<in> set (sync_keys clock n p i ks tbl). row_key p k r"
proof (induction ks arbitrary: i tbl)
  case (Cons k' ks)
  let ?tbl = "sync_key p k' (the (map_of (catalog_for p) k')) i (clock (n + i)) tbl"
  have "k \<in> set ks \<or> (\<exists>r \<in> set ?tbl. row_key p k r)"
    using Cons.prems sync_key_has sync_key_keeps by (fastforce simp: row_key_def)
  then show ?case using Cons.IH [where i = "Suc i" and tbl = ?tbl] by simp
qed simp

lemma sync_keys_keeps:
  "r \<in> set tbl \<Longrightarrow> \<exists>q \<in> set (sync_keys clock n p i ks tbl). cr_product q = cr_product r \<and> cr_key q = cr_key r \<and>
     cr_override q = cr_override r"
proof (induction ks arbitrary: i tbl r)
  case (Cons k ks)
  obtain q where "q \<in> set (sync_key p k (the (map_of (catalog_for p) k)) i (clock (n + i)) tbl)"
    "cr_product q = cr_product r" "cr_key q = cr_key r" "cr_override q = cr_override r"
    using sync_key_keeps [OF Cons.prems] by blast
  then show ?case using Cons.IH [of q _ "Suc i"] by auto
qed auto

definition stale :: "product \<Rightarrow> time \<Rightarrow> catalog_row list \<Rightarrow> bool" where
  "stale p t tbl \<longleftrightarrow>
     list_all (\<lambda>r. cr_product r \<noteq> p \<or> (case cr_synced r of None \<Rightarrow> True | Some u \<Rightarrow> u < t - second)) tbl"

definition active_rows :: "product \<Rightarrow> catalog_row list \<Rightarrow> catalog_row set" where
  "active_rows p tbl = {r \<in> set tbl. cr_product r = p \<and> cr_active r}"

definition mirrors :: "product \<Rightarrow> catalog_row list \<Rightarrow> bool" where
  "mirrors p tbl \<longleftrightarrow> cr_key ` active_rows p tbl = fst ` set (catalog_for p) \<and>
     (\<forall>r \<in> active_rows p tbl. feature_for p (cr_key r) = (cr_feature r, True))"

lemma sql_update_keeps:
  assumes "r \<in> set t" "\<And>x. g (f x) = g x"
  shows "\<exists>q \<in> set (sql_update hit f t). g q = g r"
  using assms by (intro bexI [of _ "if hit r then f r else r"]) (simp_all add: set_sql_update)

lemma sync_product_keeps:
  assumes "r \<in> set tbl"
  shows "\<exists>q \<in> set (sync_product clock n p tbl). cr_product q = cr_product r \<and> cr_key q = cr_key r \<and>
     cr_override q = cr_override r"
proof -
  obtain w where w: "w \<in> set (sync_keys clock n p 0 (declared_keys p) tbl)"
    "cr_product w = cr_product r" "cr_key w = cr_key r" "cr_override w = cr_override r"
    using sync_keys_keeps [OF assms] by blast
  then show ?thesis unfolding sync_product_def retire_keys_def
    using sql_update_keeps [of w _ "\<lambda>q. (cr_product q, cr_key q, cr_override q)" "\<lambda>r. r\<lparr>cr_active := False\<rparr>"] by simp
qed

lemma declared_keys_set: "set (declared_keys p) = fst ` set (catalog_for p)" "distinct (declared_keys p)"
  using catalog_for_distinct by (simp_all add: declared_keys_def sort_strings_sorts)

lemma sync_product_mirrors:
  assumes "mono clock" "clock (n + length (declared_keys p)) - clock n \<le> second" "stale p (clock n) tbl"
  shows "mirrors p (sync_product clock n p tbl)"
proof -
  let ?t = "sync_keys clock n p 0 (declared_keys p) tbl" and ?T = "clock (n + length (declared_keys p))"
  note rows = sync_keys_rows [OF declared_keys_set(2) assms(1), where n = n and i = 0 and tbl = tbl and p1 = p]
  have "clock n \<le> ?T" using assms(1) by (simp add: mono_def)
  have act: "cr_key r \<in> set (declared_keys p) \<and> feature_for p (cr_key r) = (cr_feature r, True)"
    if r: "r \<in> set (sync_product clock n p tbl)" "cr_product r = p" "cr_active r" for r
  proof -
    obtain w where w: "w \<in> set ?t" "cr_product w = p" "cr_active w" "r = w"
        "\<not> (case cr_synced w of None \<Rightarrow> True | Some u \<Rightarrow> u < ?T - second)"
    proof -
      obtain w where w: "w \<in> set ?t" "r = (if cr_product w = p \<and> cr_active w \<and>
          (case cr_synced w of None \<Rightarrow> True | Some u \<Rightarrow> u < ?T - second) then w\<lparr>cr_active := False\<rparr> else w)"
        using r(1) unfolding sync_product_def retire_keys_def by (rule sql_update_row) blast
      then show ?thesis using r(2,3) that [of w] by (auto split: if_splits)
    qed
    have "\<not> w \<in> set tbl"
    proof
      assume "w \<in> set tbl"
      then show False using assms(3) w(2,5) \<open>clock n \<le> ?T\<close> by (auto simp: stale_def list_all_iff split: option.splits)
    qed
    then have k: "cr_key w \<in> set (declared_keys p)" "cr_feature w = spec_feature (the (map_of (catalog_for p) (cr_key w)))"
      using rows [OF w(1)] by auto
    then obtain sp where "(cr_key w, sp) \<in> set (catalog_for p)" by (auto simp: declared_keys_set)
    then have "map_of (catalog_for p) (cr_key w) = Some sp" by (simp add: catalog_for_distinct)
    then show ?thesis using k w(4) by (simp add: feature_for_def)
  qed
  have has: "\<exists>r \<in> set (sync_product clock n p tbl). cr_product r = p \<and> cr_active r \<and> cr_key r = k"
    if k: "k \<in> set (declared_keys p)" for k
  proof -
    obtain w where w: "w \<in> set ?t" "row_key p k w" using sync_keys_has [of k "declared_keys p"] k by blast
    then have "cr_active w" "\<exists>t. cr_synced w = Some t \<and> clock n \<le> t"
      using rows [OF w(1)] k by (auto simp: row_key_def)
    then have "w \<in> set (sync_product clock n p tbl)"
      using w(1) assms(2) by (auto simp: sync_product_def retire_keys_def set_sql_update intro!: rev_image_eqI [of w])
    then show ?thesis using w(2) \<open>cr_active w\<close> by (auto simp: row_key_def)
  qed
  let ?A = "active_rows p (sync_product clock n p tbl)"
  have "cr_key ` ?A \<subseteq> set (declared_keys p)" using act by (auto simp: active_rows_def)
  moreover have "set (declared_keys p) \<subseteq> cr_key ` ?A"
  proof
    fix k assume "k \<in> set (declared_keys p)"
    then obtain r where "r \<in> ?A" "cr_key r = k" using has by (auto simp: active_rows_def)
    then show "k \<in> cr_key ` ?A" by blast
  qed
  moreover have "\<forall>r \<in> ?A. feature_for p (cr_key r) = (cr_feature r, True)" using act by (simp add: active_rows_def)
  ultimately show ?thesis unfolding mirrors_def declared_keys_set by (intro conjI subset_antisym)
qed

lemma sync_product_other:
  assumes "r \<in> set (sync_product clock n p tbl)" "cr_product r \<noteq> p" "mono clock"
  shows "r \<in> set tbl"
proof -
  obtain w where w: "w \<in> set (sync_keys clock n p 0 (declared_keys p) tbl)" "r = w"
    using assms(1,2) unfolding sync_product_def retire_keys_def by (elim sql_update_row) (auto split: if_splits)
  then show ?thesis
    using sync_keys_rows [OF declared_keys_set(2) assms(3) w(1)] assms(2) by simp
qed

lemma sync_keys_keeps_other:
  "r \<in> set tbl \<Longrightarrow> cr_product r \<noteq> p \<Longrightarrow> r \<in> set (sync_keys clock n p i ks tbl)"
proof (induction ks arbitrary: i tbl)
  case (Cons k ks)
  then have "r \<in> set (sync_key p k (the (map_of (catalog_for p) k)) i (clock (n + i)) tbl)"
    by (auto simp: sync_key_def sql_upsert_def set_sql_update row_key_def intro!: rev_image_eqI [of r])
  then show ?case using Cons by simp
qed simp

lemma sync_product_same:
  assumes "cr_product r \<noteq> p" "mono clock"
  shows "r \<in> set (sync_product clock n p tbl) \<longleftrightarrow> r \<in> set tbl"
proof
  assume "r \<in> set tbl"
  then have "r \<in> set (sync_keys clock n p 0 (declared_keys p) tbl)" using assms(1) by (rule sync_keys_keeps_other)
  then show "r \<in> set (sync_product clock n p tbl)"
    using assms(1) by (auto simp: sync_product_def retire_keys_def set_sql_update intro!: rev_image_eqI [of r])
qed (rule sync_product_other [OF _ assms])

lemma mirrors_other:
  assumes "p \<noteq> p'" "mono clock"
  shows "mirrors p' (sync_product clock n p tbl) = mirrors p' tbl"
proof -
  have "active_rows p' (sync_product clock n p tbl) = active_rows p' tbl"
    using sync_product_same [OF _ assms(2)] assms(1) by (auto simp: active_rows_def)
  then show ?thesis by (simp add: mirrors_def)
qed

text \<open>
  After a start-up sync whose statements follow each other within a second per
  product, the active rows of a product are exactly the keys the code declares, each
  with the feature that gates it, and every wording an operator chose is still there,
  also on rows of keys no longer declared.
\<close>
theorem catalogue_sync_exact:
  assumes "sync_catalogue env clock s = Inr s'" "mono clock"
    and "stale product_tms (clock 0) (catalog_table s)" "stale product_fms (clock 0) (catalog_table s)"
    and "clock (length (declared_keys product_tms)) - clock 0 \<le> second"
    and "clock (Suc (length (declared_keys product_tms)) + length (declared_keys product_fms)) -
           clock (Suc (length (declared_keys product_tms))) \<le> second"
  shows "mirrors product_tms (catalog_table s') \<and> mirrors product_fms (catalog_table s') \<and>
     list_all (\<lambda>r. list_ex (\<lambda>q. cr_product q = cr_product r \<and> cr_key q = cr_key r \<and> cr_override q = cr_override r)
        (catalog_table s')) (catalog_table s)"
proof -
  let ?n = "Suc (length (declared_keys product_tms))"
  let ?t1 = "sync_product clock 0 product_tms (catalog_table s)"
  have s': "catalog_table s' = sync_product clock ?n product_fms ?t1"
    using assms(1) by (auto simp: sync_catalogue_def split: if_splits)
  have ne: "product_tms \<noteq> product_fms" by (simp add: product_tms_def product_fms_def)
  have le: "clock 0 \<le> clock ?n" using assms(2) by (simp add: mono_def)
  have "stale product_fms (clock ?n) ?t1"
    using assms(4) sync_product_same [OF _ assms(2)] ne le
    by (fastforce simp: stale_def list_all_iff split: option.splits)
  then have "mirrors product_fms (catalog_table s')"
    unfolding s' using assms(2,6) by (intro sync_product_mirrors)
  moreover have "mirrors product_tms ?t1"
    using sync_product_mirrors [OF assms(2) _ assms(3)] assms(5) by simp
  then have "mirrors product_tms (catalog_table s')" unfolding s' using mirrors_other ne assms(2) by metis
  moreover have "\<exists>q \<in> set (catalog_table s'). cr_product q = cr_product r \<and> cr_key q = cr_key r \<and> cr_override q = cr_override r"
    if r: "r \<in> set (catalog_table s)" for r
  proof -
    obtain w where "w \<in> set ?t1" "cr_product w = cr_product r" "cr_key w = cr_key r" "cr_override w = cr_override r"
      using sync_product_keeps [OF r] by blast
    then show ?thesis unfolding s' using sync_product_keeps [of w ?t1] by fastforce
  qed
  ultimately show ?thesis by (simp add: list_all_iff list_ex_iff)
qed

definition demo_catalog :: sys where
  "demo_catalog = empty_sys\<lparr>catalog_table := [\<lparr>cr_key = ''order.read'', cr_product = product_tms, cr_feature = ''order'',
     cr_group = ''Orders'', cr_label = ''View orders'', cr_override = Some ''Lihat pesanan'', cr_sort_order = 0,
     cr_active = True, cr_synced = None\<rparr>]\<rparr>"

theorem catalogue_sync_exact_witness:
  "mirrors product_tms (catalog_table (projr (sync_catalogue demo_env (\<lambda>_. now demo_env) demo_catalog)))"
proof -
  let ?s = "projr (sync_catalogue demo_env (\<lambda>_. now demo_env) demo_catalog)"
  have "sync_catalogue demo_env (\<lambda>_. now demo_env) demo_catalog = Inr ?s"
    by (simp add: sync_catalogue_def)
  moreover have "mono (\<lambda>_ :: nat. now demo_env)" by (simp add: mono_def)
  moreover have "stale p (now demo_env) (catalog_table demo_catalog)" for p
    by (simp add: stale_def demo_catalog_def)
  ultimately show ?thesis
    using catalogue_sync_exact [of demo_env "\<lambda>_. now demo_env" demo_catalog ?s] by (simp add: second_def)
qed

text \<open>
  A sync that takes longer than a second per product retires keys the code declares.
  Twelve keys at 100 ms each: the first two are inactive afterwards, so a role editor
  no longer offers them, although the code honours them.
\<close>
lemma slow_sync_retires_declared:
  "map cr_active (retire_keys product_tms (12 * (second div 10))
     (sync_keys (\<lambda>n. int n * (second div 10)) 0 product_tms 0 (take 12 (map fst tms_catalog)) [])) =
   [False, False, True, True, True, True, True, True, True, True, True, True]"
  by code_simp

end
