(* ===== verification/Routes.thy ===== *)
theory Routes
  imports CatalogStore
begin

text \<open>
  internal/routes/routes.go: which handler serves which route, behind which guards.
  A request is a route gin has matched, with its path and query parameters and what
  the JSON decoder made of the body.  The validator behind the guard is the
  authentication service itself (localValidator in cmd/server/main.go), and the
  handlers of drivers and entitlements are always wired there.
\<close>

section \<open>Requests\<close>

datatype request =
    RqPreviewClaim string                                      \<comment> \<open>GET /claim/:token\<close>
  | RqClaim string "claim_input option"                        \<comment> \<open>POST /claim/:token\<close>
  | RqLogin "login_request option"                             \<comment> \<open>POST /auth/login\<close>
  | RqRegister "register_request option"                       \<comment> \<open>POST /auth/register\<close>
  | RqRegisterDriver "driver_request option"                   \<comment> \<open>POST /auth/register-driver\<close>
  | RqRefresh "string option" "string option"                  \<comment> \<open>POST /auth/refresh: body, cookie\<close>
  | RqAvailable string string                                  \<comment> \<open>GET /auth/check-available/:kind\<close>
  | RqMe                                                       \<comment> \<open>GET /auth/me\<close>
  | RqLogout string                                            \<comment> \<open>POST /auth/logout\<close>
  | RqLogoutAll                                                \<comment> \<open>POST /auth/logout-all\<close>
  | RqChangePassword "(string \<times> string) option"               \<comment> \<open>POST /auth/change-password\<close>
  | RqRegisterMember "member_request option"                   \<comment> \<open>POST /auth/register-member\<close>
  | RqListRoles "string option"                                \<comment> \<open>GET /roles\<close>
  | RqCreateRole "string option" "role_request option"         \<comment> \<open>POST /roles\<close>
  | RqUpdateRole string "string option" "role_request option"  \<comment> \<open>PUT /roles/:id\<close>
  | RqDeleteRole string                                        \<comment> \<open>DELETE /roles/:id\<close>
  | RqCatalog "string option" string                           \<comment> \<open>GET /permissions/catalog\<close>
  | RqSetLabel string "(string \<times> string) option"              \<comment> \<open>PUT /permissions/catalog/:key/label\<close>
  | RqListDrivers                                              \<comment> \<open>GET /drivers/accounts\<close>
  | RqLookupDriver string                                      \<comment> \<open>GET /drivers/accounts/lookup\<close>
  | RqCreateDriver "create_driver_request option"              \<comment> \<open>POST /drivers/accounts\<close>
  | RqAdoptDriver string                                       \<comment> \<open>POST /drivers/accounts/:id/adopt\<close>
  | RqTransporters                                             \<comment> \<open>GET /transporters\<close>
  | RqShippers                                                 \<comment> \<open>GET /shippers\<close>
  | RqCreateShipper "create_shipper_input option"              \<comment> \<open>POST /shippers\<close>
  | RqClaimLink string                                         \<comment> \<open>POST /shippers/:id/claim-link\<close>
  | RqMyCompany                                                \<comment> \<open>GET /companies/me\<close>
  | RqUpdateMyCompany "profile_request option"                 \<comment> \<open>PUT /companies/me\<close>
  | RqMerge string "string option"                             \<comment> \<open>POST /companies/:id/merge\<close>
  | RqListUsers list_request                                   \<comment> \<open>GET /users\<close>
  | RqGetUser string                                           \<comment> \<open>GET /users/:id\<close>
  | RqUpdateMe "json_body option"                              \<comment> \<open>PUT /users/me\<close>
  | RqDevice "device_request option"                           \<comment> \<open>POST /users/me/devices\<close>
  | RqUpdateUser string "json_body option"                     \<comment> \<open>PUT /users/:id\<close>
  | RqSuspend string "bool option"                             \<comment> \<open>PUT /users/:id/suspend\<close>
  | RqDeleteUser string                                        \<comment> \<open>DELETE /users/:id\<close>
  | RqAssignRole string "string option"                        \<comment> \<open>PUT /users/:id/role\<close>
  | RqSetPermission string "permission_request option"         \<comment> \<open>PUT /users/:id/permission\<close>
  | RqListAccess string                                        \<comment> \<open>GET /users/:id/access\<close>
  | RqSetAccess string "access_request option"                 \<comment> \<open>PUT /users/:id/access\<close>
  | RqRevokeAccess string product                              \<comment> \<open>DELETE /users/:id/access/:product\<close>
  | RqFeatures "string option"                                 \<comment> \<open>GET /admin/features\<close>
  | RqCompanies list_request string                            \<comment> \<open>GET /admin/companies\<close>
  | RqUpdateCompany string "profile_request option"            \<comment> \<open>PUT /admin/companies/:id\<close>
  | RqEntitlements string                                      \<comment> \<open>GET /admin/companies/:id/entitlements\<close>
  | RqGrant string "grant_request option"                      \<comment> \<open>PUT the same\<close>
  | RqHistory string string                                    \<comment> \<open>GET .../history\<close>
  | RqEffective string "string option"                         \<comment> \<open>GET .../effective\<close>
  | RqRevoke string product string                             \<comment> \<open>DELETE .../:product/:module\<close>

datatype guard = Module string | Staff

text \<open>registerPublic: served without a token.\<close>

definition public_route :: "request \<Rightarrow> bool" where
  "public_route rq = (case rq of
      RqPreviewClaim _ \<Rightarrow> True | RqClaim _ _ \<Rightarrow> True | RqLogin _ \<Rightarrow> True | RqRegister _ \<Rightarrow> True
    | RqRegisterDriver _ \<Rightarrow> True | RqRefresh _ _ \<Rightarrow> True | RqAvailable _ _ \<Rightarrow> True
    | _ \<Rightarrow> False)"

text \<open>registerProtected and registerAdmin: the guards after RequireAuth.\<close>

definition guards :: "request \<Rightarrow> guard list" where
  "guards rq = (case rq of
      RqRegisterMember _ \<Rightarrow> [Module ''collaboration.inviteMember'']
    | RqListRoles _ \<Rightarrow> [Module ''collaboration.manageMember'']
    | RqCreateRole _ _ \<Rightarrow> [Module ''collaboration.manageMember'']
    | RqUpdateRole _ _ _ \<Rightarrow> [Module ''collaboration.manageMember'']
    | RqDeleteRole _ \<Rightarrow> [Module ''collaboration.manageMember'']
    | RqSetLabel _ _ \<Rightarrow> [Module ''collaboration.inviteMember'']
    | RqListDrivers \<Rightarrow> [Module ''collaboration.manageMember'']
    | RqLookupDriver _ \<Rightarrow> [Module ''collaboration.inviteMember'']
    | RqCreateDriver _ \<Rightarrow> [Module ''collaboration.inviteMember'']
    | RqAdoptDriver _ \<Rightarrow> [Module ''collaboration.inviteMember'']
    | RqCreateShipper _ \<Rightarrow> [Module ''collaboration.inviteMember'']
    | RqClaimLink _ \<Rightarrow> [Module ''collaboration.inviteMember'']
    | RqUpdateMyCompany _ \<Rightarrow> [Module ''collaboration.manageMember'']
    | RqMerge _ _ \<Rightarrow> [Staff]
    | RqUpdateUser _ _ \<Rightarrow> [Module ''collaboration.manageMember'']
    | RqSuspend _ _ \<Rightarrow> [Module ''collaboration.removeMember'']
    | RqDeleteUser _ \<Rightarrow> [Module ''collaboration.removeMember'']
    | RqAssignRole _ _ \<Rightarrow> [Module ''collaboration.manageMember'']
    | RqSetPermission _ _ \<Rightarrow> [Module ''collaboration.manageMember'']
    | RqListAccess _ \<Rightarrow> [Module ''collaboration.read'']
    | RqSetAccess _ _ \<Rightarrow> [Module ''collaboration.manageMember'']
    | RqRevokeAccess _ _ \<Rightarrow> [Module ''collaboration.manageMember'']
    | RqFeatures _ \<Rightarrow> [Staff]
    | RqCompanies _ _ \<Rightarrow> [Staff]
    | RqUpdateCompany _ _ \<Rightarrow> [Staff]
    | RqEntitlements _ \<Rightarrow> [Staff]
    | RqGrant _ _ \<Rightarrow> [Staff]
    | RqHistory _ _ \<Rightarrow> [Staff]
    | RqEffective _ _ \<Rightarrow> [Staff]
    | RqRevoke _ _ _ \<Rightarrow> [Staff]
    | _ \<Rightarrow> [])"

section \<open>Dispatch\<close>

datatype payload =
    PText string | PIdentity identity | PLogin "token_pair \<times> identity" | PUser user | PPair token_pair
  | PCount nat | PBool bool | PRole role | PRoles "role list \<times> permission_spec list"
  | PCatalog "product \<times> (string \<times> catalog_entry list) list \<times> nat" | PLabel "string \<times> string"
  | PDrivers "driver_account list" | PDriver driver_account | PCreated "driver_account \<times> message list"
  | PCompanies "company list" | PCompany company | PShipper create_shipper_result
  | PLink "string \<times> time" | PClaim claim_result | PMerge merge_result
  | PMembers "member_summary list \<times> meta" | PAccess "extra_access list"
  | PFeatures "feature list" | PDirectory "(company \<times> product list) list \<times> meta"
  | PModules "company_module list" | PModule company_module | PEvents "module_event list"
  | PEffective effective_entitlement | PUnit unit

definition map_reply :: "('a \<Rightarrow> payload) \<Rightarrow> 'a reply \<Rightarrow> payload reply" where
  "map_reply f r = \<lparr>rp_status = rp_status r, rp_message = rp_message r,
     rp_body = map_option f (rp_body r), rp_cookie = rp_cookie r\<rparr>"

definition reads :: "('a \<Rightarrow> payload) \<Rightarrow> 'a reply \<Rightarrow> sys \<Rightarrow> payload reply \<times> sys" where
  "reads f r s = (map_reply f r, s)"

definition writes :: "('a \<Rightarrow> payload) \<Rightarrow> 'a reply \<times> sys \<Rightarrow> payload reply \<times> sys" where
  "writes f run = (map_reply f (fst run), snd run)"

text \<open>The wired dependencies, and the parameters of the handlers that stand for code outside the repository.\<close>

record server =
  sv_config :: config
  sv_revocations :: "revocation_checker option"
  sv_user_sql :: "user engine"
  sv_company_sql :: "company engine"
  sv_scanner :: scanner
  sv_binder :: column_binder
  sv_date :: "string \<Rightarrow> time option"
  sv_nextval :: int
  sv_long_text :: "svc_error \<Rightarrow> bool"

primrec handle :: "server \<Rightarrow> env \<Rightarrow> call \<Rightarrow> request \<Rightarrow> sys \<Rightarrow> payload reply \<times> sys" where
  "handle sv env cx (RqPreviewClaim t) s = reads PText (preview_handler env t s) s"
| "handle sv env cx (RqClaim t b) s = writes PClaim (claim_handler env t b s)"
| "handle sv env cx (RqLogin b) s = writes PLogin (login_handler (sv_config sv) env cx b s)"
| "handle sv env cx (RqRegister b) s = writes PUser (register_handler env b s)"
| "handle sv env cx (RqRegisterDriver b) s = writes PUser (register_driver_handler env b s)"
| "handle sv env cx (RqRefresh b ck) s = writes PPair (refresh_handler (sv_config sv) env b ck s)"
| "handle sv env cx (RqAvailable k v) s = reads PBool (check_availability env k v s) s"
| "handle sv env cx RqMe s = reads PIdentity (me_handler env cx s) s"
| "handle sv env cx (RqLogout d) s = writes PUnit (logout_handler (sv_config sv) env cx d s)"
| "handle sv env cx RqLogoutAll s = writes PCount (logout_all_handler (sv_config sv) env cx s)"
| "handle sv env cx (RqChangePassword b) s = writes PUnit (change_password_handler env cx b s)"
| "handle sv env cx (RqRegisterMember b) s = writes PUser (register_member_handler env cx b s)"
| "handle sv env cx (RqListRoles q) s = reads PRoles (role_list env cx q s) s"
| "handle sv env cx (RqCreateRole q b) s = writes PRole (role_create env cx q b s)"
| "handle sv env cx (RqUpdateRole i q b) s = writes PRole (role_update env cx i q b s)"
| "handle sv env cx (RqDeleteRole i) s = writes PUnit (role_delete env cx i s)"
| "handle sv env cx (RqCatalog q inc) s = reads PCatalog (catalogue_list env q inc s) s"
| "handle sv env cx (RqSetLabel k b) s = writes PLabel (label_handler env k b s)"
| "handle sv env cx RqListDrivers s = reads PDrivers (driver_list (sv_long_text sv) env (sv_user_sql sv) cx s) s"
| "handle sv env cx (RqLookupDriver u) s = reads PDriver (driver_lookup (sv_long_text sv) env cx u s) s"
| "handle sv env cx (RqCreateDriver b) s = writes PCreated (driver_create (sv_long_text sv) env cx b s)"
| "handle sv env cx (RqAdoptDriver i) s = writes PDriver (driver_adopt (sv_long_text sv) env cx i s)"
| "handle sv env cx RqTransporters s = reads PCompanies (transporter_list env cx s) s"
| "handle sv env cx RqShippers s = reads PCompanies (shipper_list env cx s) s"
| "handle sv env cx (RqCreateShipper b) s = writes PShipper (shipper_create env cx b s)"
| "handle sv env cx (RqClaimLink i) s = writes PLink (claim_link_handler env cx i s)"
| "handle sv env cx RqMyCompany s = reads PCompany (company_me env cx s) s"
| "handle sv env cx (RqUpdateMyCompany b) s = writes PCompany (company_update_me env cx b s)"
| "handle sv env cx (RqMerge i b) s = writes PMerge (merge_handler env cx i b s)"
| "handle sv env cx (RqListUsers q) s = reads PMembers (user_list env (sv_user_sql sv) (sv_scanner sv) cx q s) s"
| "handle sv env cx (RqGetUser i) s = reads PUser (user_get env cx i s) s"
| "handle sv env cx (RqUpdateMe b) s = writes PUnit (update_me env (sv_binder sv) cx b s)"
| "handle sv env cx (RqDevice b) s = writes PUnit (register_device True env cx b s)"
| "handle sv env cx (RqUpdateUser i b) s = writes PUnit (user_update env (sv_binder sv) cx i b s)"
| "handle sv env cx (RqSuspend i b) s = writes PUnit (suspend_handler env cx i b s)"
| "handle sv env cx (RqDeleteUser i) s = writes PUnit (delete_handler env cx i s)"
| "handle sv env cx (RqAssignRole i b) s = writes PUnit (assign_role_handler env cx i b s)"
| "handle sv env cx (RqSetPermission i b) s = writes PUnit (set_permission_handler env cx i b s)"
| "handle sv env cx (RqListAccess i) s = writes PAccess (list_access env cx i s)"
| "handle sv env cx (RqSetAccess i b) s = writes PUnit (set_access env cx i b s)"
| "handle sv env cx (RqRevokeAccess i p) s = writes PUnit (revoke_access env cx i p s)"
| "handle sv env cx (RqFeatures q) s = reads PFeatures (feature_catalogue q) s"
| "handle sv env cx (RqCompanies q side) s =
     reads PDirectory (company_list env (sv_company_sql sv) (sv_scanner sv) q side s) s"
| "handle sv env cx (RqUpdateCompany i b) s = writes PCompany (company_update env i b s)"
| "handle sv env cx (RqEntitlements i) s = reads PModules (entitlement_list env i s) s"
| "handle sv env cx (RqGrant i b) s =
     writes PModule (entitlement_grant_handler (sv_date sv) env cx (sv_nextval sv) i b s)"
| "handle sv env cx (RqHistory i n) s = reads PEvents (entitlement_history env i n s) s"
| "handle sv env cx (RqEffective i q) s = reads PEffective (entitlement_effective env i q s) s"
| "handle sv env cx (RqRevoke i p m) s = writes PUnit (entitlement_revoke_handler env cx i p m s)"

section \<open>Guards\<close>

definition run_guard :: "env \<Rightarrow> guard \<Rightarrow> principal option \<Rightarrow> guard_result" where
  "run_guard env g ctx = (case g of
      Module k \<Rightarrow> require_module (service_product env) k ctx
    | Staff \<Rightarrow> require_platform_staff ctx)"

fun run_guards :: "env \<Rightarrow> guard list \<Rightarrow> principal option \<Rightarrow> guard_result" where
  "run_guards env [] ctx = Next ctx"
| "run_guards env (g # gs) ctx =
     (case run_guard env g ctx of Abort code msg \<Rightarrow> Abort code msg | Next ctx' \<Rightarrow> run_guards env gs ctx')"

text \<open>localValidator, which may stamp the last use of an API key.\<close>

definition local_validator :: "env \<Rightarrow> sys \<Rightarrow> remote_validator" where
  "local_validator env s token = (case fst (validate_token env token s) of Inl _ \<Rightarrow> None | Inr pu \<Rightarrow> Some (fst pu))"

definition asks_validator :: "env \<Rightarrow> string \<Rightarrow> bool" where
  "asks_validator env token \<longleftrightarrow> token \<noteq> [] \<and>
     (case verify_with_issued_at (jwt env) token of Inl _ \<Rightarrow> True | Inr pi \<Rightarrow> single_device (fst pi))"

definition authenticate :: "server \<Rightarrow> env \<Rightarrow> http_request \<Rightarrow> sys \<Rightarrow> guard_result \<times> sys" where
  "authenticate sv env h s =
     (require_auth_with_revocations (jwt env) (Some (local_validator env s)) (sv_revocations sv) h,
      if asks_validator env (extract_token h) then snd (validate_token env (extract_token h) s) else s)"

record web_request = http_request +
  wr_acting :: string
  wr_agent :: string
  wr_ip :: string

definition call_of :: "web_request \<Rightarrow> principal option \<Rightarrow> call" where
  "call_of w ctx = \<lparr>cx_principal = ctx, cx_acting = wr_acting w, cx_agent = wr_agent w, cx_ip = wr_ip w\<rparr>"

definition serve :: "server \<Rightarrow> env \<Rightarrow> web_request \<Rightarrow> request \<Rightarrow> sys \<Rightarrow> payload reply \<times> sys" where
  "serve sv env w rq s =
     (if public_route rq then handle sv env (call_of w None) rq s
      else let auth = authenticate sv env (http_request.truncate w) s in
        case fst auth of
          Abort code msg \<Rightarrow> (answer code msg None, snd auth)
        | Next ctx \<Rightarrow>
            (case run_guards env (guards rq) ctx of
               Abort code msg \<Rightarrow> (answer code msg None, snd auth)
             | Next ctx' \<Rightarrow> handle sv env (call_of w ctx') rq (snd auth)))"

end
