(* ===== verification/Confinement.thy ===== *)
theory Confinement
  imports Routes
begin

text \<open>
  What no tenant can reach: platform staff and entitlements.  \<open>tame s s'\<close> relates
  states whose entitlement rows were kept, with at most the default TMS modules added
  for a company that was founded or claimed, and whose platform staff did not grow.
  Every operation behind a route that is not staff-only is tame; runs of requests that
  carry no staff principal therefore are.
\<close>

section \<open>Relations every operation preserves\<close>

locale preserved =
  fixes R :: "sys \<Rightarrow> sys \<Rightarrow> bool"
  assumes refl [simp, intro]: "R s s"
    and trans [trans]: "R s t \<Longrightarrow> R t u \<Longrightarrow> R s u"
begin

lemma in_transaction:
  "(\<And>v s'. f s = Inr (v, s') \<Longrightarrow> R s s') \<Longrightarrow> R s (snd (transaction env f s))"
  by (auto simp: transaction_def split: sum.splits)

lemma in_steps: "(\<And>s t. step s t \<Longrightarrow> R s t) \<Longrightarrow> step\<^sup>*\<^sup>* s t \<Longrightarrow> R s t"
  by (rotate_tac 1) (induction rule: rtranclp_induct, auto intro: trans)

lemma in_fold: "(\<And>x s. R s (f x s)) \<Longrightarrow> R s (fold f xs s)"
  by (induction xs arbitrary: s) (auto intro: trans)

end

section \<open>Tame changes\<close>

definition staff_ids :: "sys \<Rightarrow> uuid set" where
  "staff_ids s = us_id ` {u \<in> set (users s). us_platform_staff u}"

definition default_module :: "company_module \<Rightarrow> bool" where
  "default_module m \<longleftrightarrow> cm_product m = product_tms \<and> cm_module m \<in> set default_tms_features"

definition default_settings :: "product_settings \<Rightarrow> bool" where
  "default_settings p \<longleftrightarrow> ps_product p = product_tms \<and> ps_mode p = entitlement_grant"

definition tame :: "sys \<Rightarrow> sys \<Rightarrow> bool" where
  "tame s s' \<longleftrightarrow> module_events s' = module_events s \<and> staff_ids s' \<subseteq> staff_ids s \<and>
     (\<exists>ms. modules s' = modules s @ ms \<and> list_all default_module ms) \<and>
     (\<exists>ps. settings s' = settings s @ ps \<and> list_all default_settings ps)"

lemma tame_frame:
  "module_events s' = module_events s \<Longrightarrow> modules s' = modules s \<Longrightarrow> settings s' = settings s \<Longrightarrow>
     staff_ids s' \<subseteq> staff_ids s \<Longrightarrow> tame s s'"
  by (simp add: tame_def)

lemma appends_trans:
  assumes "\<exists>xs. b = a @ xs \<and> list_all P xs" "\<exists>ys. c = b @ ys \<and> list_all P ys"
  shows "\<exists>zs. c = a @ zs \<and> list_all P zs"
  using assms by (metis append_assoc list_all_append)

lemma tame_trans:
  assumes "tame s t" "tame t u"
  shows "tame s u"
proof -
  note d = assms [unfolded tame_def]
  show ?thesis
    unfolding tame_def
    using d appends_trans [of "modules t" "modules s" default_module "modules u"]
      appends_trans [of "settings t" "settings s" default_settings "settings u"]
    by (metis subset_trans)
qed

interpretation tame: preserved tame
proof
  show "tame s s" for s by (simp add: tame_def)
qed (rule tame_trans)

lemma tame_users_kept:
  "module_events s' = module_events s \<Longrightarrow> modules s' = modules s \<Longrightarrow> settings s' = settings s \<Longrightarrow>
     users s' = users s \<Longrightarrow> tame s s'"
  by (rule tame_frame) (simp_all add: staff_ids_def)

lemma tame_update_users:
  assumes "\<And>u. us_id (f u) = us_id u" "\<And>u. us_platform_staff (f u) = us_platform_staff u"
  shows "tame s (s\<lparr>users := sql_update hit f (users s)\<rparr>)"
proof (rule tame_frame)
  have "us_id v \<in> staff_ids s" if v: "v \<in> set (sql_update hit f (users s))" "us_platform_staff v" for v
  proof -
    obtain w where w: "w \<in> set (users s)" "v = (if hit w then f w else w)" using v(1) by (rule sql_update_row)
    then have "us_platform_staff w" "us_id v = us_id w" using v(2) assms by (simp_all split: if_splits)
    then show ?thesis using w(1) by (simp add: staff_ids_def)
  qed
  then show "staff_ids (s\<lparr>users := sql_update hit f (users s)\<rparr>) \<subseteq> staff_ids s"
    unfolding staff_ids_def [of "s\<lparr>users := _\<rparr>"] by auto
qed simp_all

lemma tame_add_user:
  "\<not> us_platform_staff u \<Longrightarrow> tame s (s\<lparr>users := users s @ [u], draws := d\<rparr>)"
  by (rule tame_frame) (auto simp: staff_ids_def)

section \<open>Repositories\<close>

lemma tame_write_audit: "tame s (write_audit env a s)"
  by (auto simp: write_audit_def write_audit_row_def intro!: tame_users_kept)

lemma tame_user_audit: "tame s (user_audit env a t e d s)"
  by (simp add: user_audit_def tame_write_audit)

lemma tame_announce: "tame s (announce env e s)"
  by (auto simp: announce_def intro!: tame_users_kept)

lemma tame_mark_revoked: "tame s (mark_revoked env p s)"
  by (auto simp: mark_revoked_def intro!: tame_users_kept)

lemma tame_attempts: "tame s (s\<lparr>attempts := a\<rparr>)" and tame_draws: "tame s (s\<lparr>draws := d\<rparr>)"
  and tame_sessions: "tame s (s\<lparr>sessions := e\<rparr>)" and tame_devices: "tame s (s\<lparr>devices := v\<rparr>)"
  and tame_roles: "tame s (s\<lparr>roles := r\<rparr>)" and tame_extras: "tame s (s\<lparr>extras := x\<rparr>)"
  and tame_companies: "tame s (s\<lparr>companies := c\<rparr>)" and tame_catalog: "tame s (s\<lparr>catalog_table := ct\<rparr>)"
  and tame_keys: "tame s (s\<lparr>api_keys := k\<rparr>)" and tame_links: "tame s (s\<lparr>links := l\<rparr>)"
  and tame_notices: "tame s (s\<lparr>notices := n\<rparr>)"
  by (simp_all add: tame_users_kept)

lemmas tame_fields = tame_attempts tame_draws tame_sessions tame_devices tame_roles tame_extras tame_companies
  tame_catalog tame_keys tame_links tame_notices tame_write_audit tame_user_audit tame_announce tame_mark_revoked

lemma tame_revoke_all: "revoke_all_for_user env uid s = Inr ns \<Longrightarrow> tame s (snd ns)"
  by (cases ns) (auto simp: revoke_all_Inr intro: tame_trans [OF tame_mark_revoked tame_announce])

lemma tame_revoke_session: "revoke_session env t s = Inr s' \<Longrightarrow> tame s s'"
  by (simp add: revoke_session_Inr tame_mark_revoked)

lemma tame_evict: "revoke_other_single_device env uid keep s = Inr s' \<Longrightarrow> tame s s'"
  by (auto simp: revoke_other_single_device_def Let_def split: if_splits
      intro!: tame_trans [OF tame_mark_revoked tame.in_fold] tame_announce)

lemma tame_update_user_fields:
  "update_user_fields env i f s = Inr s' \<Longrightarrow> (\<And>u. us_id (f u) = us_id u) \<Longrightarrow>
     (\<And>u. us_platform_staff (f u) = us_platform_staff u) \<Longrightarrow> tame s s'"
  by (drule update_user_Inr) (simp add: tame_update_users)

lemma tame_create_user: "create_user env u s = Inr us \<Longrightarrow> \<not> us_platform_staff u \<Longrightarrow> tame s (snd us)"
  by (auto simp: create_user_def Let_def split: if_splits intro!: tame_add_user)

lemma tame_create_company: "create_company env b c s = Inr cs \<Longrightarrow> tame s (snd cs)"
  by (auto simp: create_company_def announce_company_change_def Let_def split: if_splits intro!: tame_users_kept)

lemma tame_update_company: "update_company_fields env i f s = Inr s' \<Longrightarrow> tame s s'"
  by (auto simp: update_company_fields_def announce_company_change_def Let_def split: if_splits intro!: tame_users_kept)

lemma tame_upsert_administrator: "tame s (upsert_administrator env c s)"
  by (simp add: upsert_administrator_def tame_users_kept)

lemma tame_ensure_administrator: "ensure_administrator env c s = Inr rs \<Longrightarrow> tame s (snd rs)"
  by (auto simp: ensure_administrator_def Let_def tame_upsert_administrator split: if_splits sum.splits)

lemma tame_create_role: "create_role env r s = Inr rs \<Longrightarrow> tame s (snd rs)"
  by (auto simp: create_role_def Let_def split: if_splits intro!: tame_users_kept)

lemma tame_update_role: "update_role env c i f s = Inr s' \<Longrightarrow> tame s s'"
  by (drule update_role_Inr) (simp add: tame_roles)

lemma tame_delete_role: "delete_role env c i s = Inr s' \<Longrightarrow> tame s s'"
  by (auto simp: delete_role_def Let_def tame_roles split: if_splits)

lemma tame_grant_access: "grant_product_access env a s = Inr s' \<Longrightarrow> tame s s'"
  by (auto simp: grant_product_access_def tame_extras split: if_splits)

lemma tame_revoke_access: "revoke_product_access env u p s = Inr s' \<Longrightarrow> tame s s'"
  by (auto simp: revoke_product_access_def Let_def tame_extras split: if_splits)

lemma insert_defaults_appends:
  "\<exists>ns. insert_defaults c p ms t = t @ ns \<and> list_all (\<lambda>m. cm_product m = p \<and> cm_module m \<in> set ms) ns"
proof (induction ms arbitrary: t)
  case (Cons m ms)
  let ?t = "if list_ex (module_key c p m) t then t else t @ [\<lparr>cm_company = c, cm_product = p, cm_module = m,
    cm_enabled = True, cm_valid_from = None, cm_valid_until = None, cm_limits = [], cm_granted_by = None, cm_note = None\<rparr>]"
  obtain ns where "insert_defaults c p ms ?t = ?t @ ns"
    "list_all (\<lambda>m. cm_product m = p \<and> cm_module m \<in> set ms) ns" using Cons.IH [of ?t] by blast
  then show ?case by (auto simp: list_all_iff)
qed simp

lemma tame_defaults:
  assumes "set ms \<subseteq> set default_tms_features"
  shows "tame s (s\<lparr>modules := insert_defaults c product_tms ms (modules s)\<rparr>)"
proof -
  obtain ns where "insert_defaults c product_tms ms (modules s) = modules s @ ns"
    "list_all (\<lambda>m. cm_product m = product_tms \<and> cm_module m \<in> set ms) ns" using insert_defaults_appends by blast
  then show ?thesis
    using assms by (auto simp: tame_def staff_ids_def default_module_def list_all_iff)
qed

lemma tame_grant_defaults:
  "grant_defaults env c product_tms ms s = Inr s' \<Longrightarrow> set ms \<subseteq> set default_tms_features \<Longrightarrow> tame s s'"
  by (drule grant_defaults_Inr) (simp add: tame_defaults)

lemma tame_put_settings: "tame s (put_settings c s)"
  by (auto simp: put_settings_def tame_def staff_ids_def default_settings_def)

lemma claim_modules_default: "set claim_modules \<subseteq> set default_tms_features"
  by (simp add: claim_modules_def default_tms_features_def)


section \<open>Services\<close>

lemma tame_then_audit: "tame s t \<Longrightarrow> tame s (write_audit env a t)"
  by (rule tame_trans [OF _ tame_write_audit])

lemma tame_then_user_audit: "tame s t \<Longrightarrow> tame s (user_audit env a b e d t)"
  by (rule tame_trans [OF _ tame_user_audit])

lemma tame_audit_last: "tame s t \<Longrightarrow> tame t u \<Longrightarrow> tame s (write_audit env a u)"
  by (rule tame_then_audit) (rule tame_trans)

lemma tame_end_sessions: "tame s (snd (end_sessions env a t ev d s))"
  by (auto simp: end_sessions_def split: sum.splits dest!: tame_revoke_all intro: tame_trans [OF _ tame_user_audit])

lemma tame_is_rate_limited: "tame s (snd (is_rate_limited env i s))"
  using is_rate_limited_keeps [of env i s] by (metis prod.collapse tame_attempts)

lemma tame_clear_rate_limit: "tame s (clear_rate_limit env i s)"
  by (simp add: clear_rate_limit_def cache_delete_def tame_attempts)

lemma tame_create_session: "create_session env se s = Inr s' \<Longrightarrow> tame s s'"
  by (simp add: create_session_Inr tame_sessions)

lemma tame_generate: "generate_refresh_token env s = Inr ths \<Longrightarrow> tame s (snd (snd ths))"
  by (cases ths) (auto simp: generate_refresh_Inr tame_draws)

lemma tame_touch_login: "touch_last_login env i s = Inr s' \<Longrightarrow> tame s s'"
  by (auto simp: touch_last_login_def split: if_splits intro!: tame_update_users)

lemma tame_issue_session: "tame s (snd (issue_session env u inp s))"
proof -
  let ?s1 = "s\<lparr>draws := Suc (draws s)\<rparr>"
  have 1: "tame s ?s1" by (rule tame_draws)
  have 2: "tame s s2" if "generate_refresh_token env ?s1 = Inr (t, h, s2)" for t h s2
    using tame_generate [OF that] 1 by (auto intro: tame_trans)
  show ?thesis
    unfolding issue_session_def Let_def
    by (auto split: sum.splits prod.splits option.splits dest!: tame_create_session tame_evict
        intro: 1 2 tame_trans [OF 2] tame_trans)
qed

lemma tame_login: "tame s (snd (login env inp s))"
proof (cases "trim_space (in_identifier inp) = [] \<or> in_password inp = []")
  case False
  let ?i = "trim_space (in_identifier inp)"
  obtain l s1 where l: "is_rate_limited env ?i s = (l, s1)" by fastforce
  then have 1: "tame s s1" using tame_is_rate_limited [of s env ?i] by simp
  have 2: "tame s t" if "issue_session env u inp s1 = (x, t)" for u x t
    using tame_trans [OF 1 tame_issue_session [of s1 env u inp]] that by simp
  have 3: "tame s (clear_rate_limit env ?i t)" if "tame s t" for t
    using that tame_clear_rate_limit by (rule tame_trans)
  have 5: "tame s v" if "tame s t" "touch_last_login env i (clear_rate_limit env ?i t) = Inr v" for t i v
    using 3 [OF that(1)] tame_touch_login [OF that(2)] by (rule tame_trans)
  have 4: "tame s (record_login_failure env i n r s1)" for i n r
    unfolding record_login_failure_def by (rule tame_trans [OF 1 tame_write_audit])
  show ?thesis
    unfolding login_def Let_def l prod.case
    using False by (auto simp: 1 4 split: sum.splits prod.splits svc_error.splits
        intro: 2 tame_then_audit [OF 3 [OF 2]] tame_then_audit [OF 5 [OF 2]])
qed (simp add: login_def)

lemma tame_refresh: "tame s (snd (refresh env tok s))"
proof -
  have "tame t (snd (refresh_rotate env se u t))" for se u t
  proof -
    have 1: "tame t t2" if "generate_refresh_token env t = Inr (x, h, t1)" "t2 = t1\<lparr>draws := Suc (draws t1)\<rparr>" for x h t1 t2
      using tame_generate [OF that(1)] that(2) by (auto intro: tame_trans [OF _ tame_draws])
    show ?thesis
      unfolding refresh_rotate_def Let_def
      by (auto split: sum.splits prod.splits dest!: tame_create_session tame_revoke_session
          intro: 1 tame_trans [OF 1] tame_trans)
  qed
  then show ?thesis by (simp add: refresh_def split: sum.splits prod.splits)
qed

lemma tame_logout: "tame s (snd (logout env tid uid dev s))"
proof -
  have "deactivate_for_device env uid dev t = Inr t' \<Longrightarrow> tame t t'" for t t'
    by (auto simp: deactivate_for_device_def tame_devices split: if_splits)
  then show ?thesis
    unfolding logout_def Let_def
    by (auto split: sum.splits dest!: tame_revoke_session intro: tame_trans [OF _ tame_write_audit] tame_trans)
qed

lemma tame_logout_all: "tame s (snd (logout_all env uid s))"
  unfolding logout_all_def
  by (auto split: sum.splits dest!: tame_revoke_all intro: tame_trans [OF _ tame_write_audit])

lemma tame_change_password: "tame s (snd (change_password env uid old new s))"
proof -
  have 1: "tame s t" if "update_user_fields env uid (\<lambda>v. v\<lparr>us_password_hash := h\<rparr>) s = Inr t" for h t
    using tame_update_user_fields [OF that] by simp
  show ?thesis
    unfolding change_password_def Let_def
    by (auto split: sum.splits dest!: 1 tame_revoke_all intro: tame_write_audit tame_then_audit tame_audit_last)
qed

lemma tame_update_columns: "update_user_columns env bind i fs s = Inr s' \<Longrightarrow> tame s s'"
  by (elim update_columns_Inr) (use set_columns_powers in \<open>auto simp: powers_def intro!: tame_update_users\<close>)

lemma tame_update_profile: "update_profile env bind uid b s = Inr s' \<Longrightarrow> tame s s'"
  by (auto simp: update_profile_def Let_def split: if_splits dest: tame_update_columns)

lemma tame_admin_update: "admin_update env bind a t b s = Inr s' \<Longrightarrow> tame s s'"
  by (auto simp: admin_update_def Let_def split: if_splits sum.splits dest!: tame_update_columns intro: tame_then_user_audit)

lemma tame_then_end: "tame s t \<Longrightarrow> tame s (snd (end_sessions env a u ev d t))"
  by (rule tame_trans [OF _ tame_end_sessions])

lemma tame_set_permission: "tame s (snd (set_permission env a t p ks s))"
  by (auto simp: set_permission_def split: sum.splits if_splits dest!: tame_grant_access intro: tame_then_end)

lemma tame_set_access: "tame s (snd (set_product_access env a t p ks b s))"
  by (auto simp: set_product_access_def split: sum.splits if_splits prod.splits dest!: tame_grant_access intro: tame_then_end)

lemma tame_withdraw: "tame s (snd (withdraw_product_access env a t p s))"
  by (auto simp: withdraw_product_access_def split: sum.splits dest!: tame_revoke_access intro: tame_then_end)

lemma tame_assign_role: "tame s (snd (assign_role env a t rid s))"
proof -
  have 1: "tame s u" if "update_user_fields env t (\<lambda>u. u\<lparr>us_role := Some rid\<rparr>) s = Inr u" for u
    using tame_update_user_fields [OF that] by simp
  show ?thesis
    unfolding assign_role_def Let_def
    by (auto split: sum.splits option.splits if_splits dest!: 1 intro: tame_then_end)
qed

lemma tame_set_suspended: "tame s (snd (set_suspended env a t b s))"
proof -
  have 1: "tame s u" if "update_user_fields env t (\<lambda>u. u\<lparr>us_suspended := b\<rparr>) s = Inr u" for u b
    using tame_update_user_fields [OF that] by simp
  show ?thesis
    unfolding set_suspended_def
    by (auto split: sum.splits dest!: 1 intro: tame_then_end tame_then_user_audit)
qed

lemma tame_delete_user: "tame s (snd (delete_user env a t s))"
proof -
  have "tame s v" if "tame s u" "soft_delete_user env t u = Inr v" for u v
    using tame_trans [OF that(1), of v] soft_delete_Inr [OF that(2)] by (simp add: tame_update_users)
  then show ?thesis
    unfolding delete_user_def
    by (auto split: sum.splits dest!: tame_revoke_all intro: tame_then_user_audit)
qed

lemma tame_choose_role: "choose_role env inp c s = Inr rs \<Longrightarrow> tame s (snd rs)"
  by (auto simp: choose_role_def split: option.splits if_splits sum.splits dest!: tame_ensure_administrator)

lemma tame_set_role: "set_role env i rid s = Inr s' \<Longrightarrow> tame s s'"
  by (drule set_role_Inr) (simp add: tame_update_users)

lemma tame_give_role: "give_role env inp cid u s = Inr us \<Longrightarrow> tame s (snd us)"
  by (auto simp: give_role_def split: option.splits dest!: tame_choose_role tame_set_role intro: tame_trans)

lemma tame_give_extras: "give_extras env inp u s = Inr s' \<Longrightarrow> tame s s'"
  by (auto simp: give_extras_def split: if_splits dest: tame_grant_access)

lemma tame_found_company: "found_company env inp s = Inr cs \<Longrightarrow> tame s (snd cs)"
  by (auto simp: found_company_def split: if_splits dest!: tame_create_company)

lemma tame_create_account: "create_account env u s = Inr us \<Longrightarrow> \<not> us_platform_staff u \<Longrightarrow> tame s (snd us)"
  by (auto simp: create_account_def split: sum.splits dest: tame_create_user)

lemma registered_not_staff: "\<not> us_platform_staff (registered_user inp cid h)"
  by (simp add: registered_user_def blank_user_def)

lemma tame_register_tx:
  assumes "register_tx env inp h s = Inr (v, s')"
  shows "tame s s'"
proof -
  obtain cid s1 u s2 s3 s4 where c: "found_company env inp s = Inr (cid, s1)"
    "create_account env (registered_user inp cid h) s1 = Inr (u, s2)"
    "(case cid of Some c \<Rightarrow> if new_tenant inp
        then grant_defaults env c product_tms default_tms_features s2 else Inr s2 | None \<Rightarrow> Inr s2) = Inr s3"
    "give_role env inp cid u s3 = Inr (v, s4)" "give_extras env inp v s4 = Inr s'"
    using assms by (rule register_tx_Inr)
  have "tame s s1" using tame_found_company [OF c(1)] by simp
  also have "tame s1 s2" using tame_create_account [OF c(2) registered_not_staff] by simp
  also have "tame s2 s3" using c(3) by (auto split: option.splits if_splits dest: tame_grant_defaults)
  also have "tame s3 s4" using tame_give_role [OF c(4)] by simp
  also have "tame s4 s'" using tame_give_extras [OF c(5)] .
  finally show ?thesis .
qed

lemma tame_register: "tame s (snd (register env inp s))"
proof -
  obtain r s' where r: "register env inp s = (r, s')" by fastforce
  then show ?thesis by (cases rule: register_cases) (auto simp: r dest: tame_register_tx)
qed

section \<open>Shippers, claims and drivers\<close>

lemma tame_link: "link_shipper env t i a s = Inr s' \<Longrightarrow> tame s s'"
  by (auto simp: link_shipper_def tame_links split: if_splits)

lemma tame_create_shipper: "tame s (snd (create_shipper env t a inp s))"
proof -
  have "tame s s'" if "create_shipper_tx env t a i s = Inr (v, s')" for i v s'
    using that unfolding create_shipper_tx_def
    by (auto split: sum.splits option.splits prod.splits dest!: tame_create_company tame_link intro: tame_trans)
  then show ?thesis unfolding create_shipper_def Let_def by (auto intro: tame.in_transaction)
qed

lemma tame_issue_claim_link: "tame s (snd (issue_claim_link env i a s))"
proof -
  let ?s = "s\<lparr>draws := Suc (draws s)\<rparr>"
  have 1: "tame s t" if "transaction env f ?s = (r, t)" "\<And>v s'. f ?s = Inr (v, s') \<Longrightarrow> tame ?s s'" for f r t
    using tame_trans [OF tame_draws tame.in_transaction [where env = env and f = f, OF that(2)]] that(1) by simp
  show ?thesis
    unfolding issue_claim_link_def Let_def
    by (auto split: sum.splits prod.splits intro!: tame_then_audit elim!: 1 simp: tame_companies split: if_splits)
qed

lemma tame_claim: "tame s (snd (claim env inp s))"
proof -
  have tx: "tame s s'" if t: "claim_tx env inp h s = Inr (r, s')" for h r s'
  proof -
    obtain c dup s1 s2 q s3 u s4 where "claimed_company env (cl_token inp) s = Inr c" and c: "absorb_duplicate env (cl_npwp inp) (co_id c) s = Inr (dup, s1)"
      "write_companies OpClaim (\<lambda>d. co_id d = co_id c)
          (\<lambda>d. d\<lparr>co_npwp := Some (cl_npwp inp), co_claim_hash := None, co_claim_expires := None\<rparr>) s1 = Inr s2"
      "administrator_of env (co_id c) s2 = Inr (q, s3)"
      "create_user env (claimant env inp (co_id c) (ro_id q) h) s3 = Inr (u, s4)"
      "s' = put_settings (co_id c) (s4\<lparr>modules := insert_defaults (co_id c) product_tms claim_modules (modules s4)\<rparr>)"
      "r = \<lparr>cr_company = co_id c, cr_user = us_id u, cr_role = ro_id q, cr_duplicate = dup\<rparr>"
      using t by (rule claim_tx_Inr)
    have "tame s s1" using c(1)
      by (auto simp: absorb_duplicate_def tame_users_kept split: if_splits option.splits sum.splits dest!: fold_in_Inr)
    also have "tame s1 s2" using c(2) by (auto simp: write_companies_Inr tame_companies)
    also have "tame s2 s3" using administrator_of_Inr [OF c(3)] tame_upsert_administrator by simp
    also have "tame s3 s4" using tame_create_user [OF c(4)] by (simp add: claimant_def blank_user_def)
    also have "tame s4 (s4\<lparr>modules := insert_defaults (co_id c) product_tms claim_modules (modules s4)\<rparr>)"
      using claim_modules_default by (rule tame_defaults)
    also have "tame \<dots> s'" unfolding c(5) by (rule tame_put_settings)
    finally show ?thesis .
  qed
  have 1: "tame s t" if "transaction env (claim_tx env inp h) s = (r, t)" for h r t
    using tame.in_transaction [where f = "claim_tx env inp h" and s = s and env = env] tx that by auto
  show ?thesis
    unfolding claim_def by (auto split: sum.splits prod.splits intro: 1 tame_then_audit)
qed

lemma tame_ensure_driver_role: "ensure_driver_role env c s = Inr rs \<Longrightarrow> tame s (snd rs)"
  by (auto simp: ensure_driver_role_def Let_def split: sum.splits if_splits dest!: tame_update_role tame_create_role)

lemma tame_create_driver: "tame s (snd (create_driver env a c inp s))"
  unfolding create_driver_def Let_def
  by (auto split: sum.splits dest!: tame_ensure_driver_role intro: tame_trans [OF _ tame_register])

lemma tame_adopt_driver: "tame s (snd (adopt_driver env c i s))"
proof -
  have 1: "tame u t" if "update_user_fields env i (\<lambda>u. u\<lparr>us_company := x, us_role := y\<rparr>) u = Inr t" for u t x y
    using tame_update_user_fields [OF that] by simp
  show ?thesis
    unfolding adopt_driver_def Let_def
    by (auto split: sum.splits dest!: tame_ensure_driver_role 1 intro: tame_trans)
qed

section \<open>Handlers\<close>

lemma tame_login_handler: "tame s (snd (login_handler cf env cx b s))"
  by (auto simp: login_handler_def Let_def tame_login split: option.splits sum.splits)

lemma tame_register_handlers:
  "tame s (snd (register_handler env b s))" "tame s (snd (register_driver_handler env d s))"
  by (auto simp: register_handler_def register_driver_handler_def Let_def tame_register split: option.splits sum.splits)

lemma tame_register_member:
  assumes "\<And>p. cx_principal cx = Some p \<Longrightarrow> \<not> is_platform_staff p"
  shows "tame s (snd (register_member_handler env cx b s))"
  unfolding register_member_handler_def Let_def flag_staff_def
  using assms by (auto simp: tame_register split: option.splits sum.splits)

lemma tame_session_handlers:
  "tame s (snd (refresh_handler cf env b ck s))" "tame s (snd (logout_handler cf env cx d s))"
  "tame s (snd (logout_all_handler cf env cx s))" "tame s (snd (change_password_handler env cx pw s))"
  by (auto simp: refresh_handler_def logout_handler_def logout_all_handler_def change_password_handler_def Let_def
      tame_refresh tame_logout tame_logout_all tame_change_password split: option.splits sum.splits)

lemma tame_role_handlers:
  "tame s (snd (role_create env cx q b s))" "tame s (snd (role_update env cx i q b s))"
  "tame s (snd (role_delete env cx i s))"
  by (auto simp: role_create_def role_update_def role_delete_def
      split: option.splits sum.splits dest!: tame_create_role tame_update_role tame_delete_role)

lemma tame_label_handler: "tame s (snd (label_handler env k b s))"
  by (auto simp: label_handler_def set_label_def tame_catalog split: option.splits sum.splits if_splits)

lemma tame_driver_handlers:
  "tame s (snd (driver_create lt env cx b s))" "tame s (snd (driver_adopt lt env cx i s))"
  by (auto simp: driver_create_def driver_adopt_def Let_def tame_create_driver tame_adopt_driver
      split: option.splits sum.splits)

lemma tame_shipper_handlers:
  "tame s (snd (shipper_create env cx b s))" "tame s (snd (claim_link_handler env cx i s))"
  "tame s (snd (claim_handler env t cb s))"
  by (auto simp: shipper_create_def claim_link_handler_def claim_handler_def Let_def
      tame_create_shipper tame_issue_claim_link tame_claim split: option.splits sum.splits)

lemma tame_profile: "tame s (snd (update_company_profile env i b s))"
  by (auto simp: update_company_profile_def update_company_columns_def
      split: option.splits sum.splits if_splits dest!: tame_update_company)

lemma tame_company_update_me: "tame s (snd (company_update_me env cx b s))"
  by (simp add: company_update_me_def tame_profile split: sum.splits)

lemma tame_with_target:
  "(\<And>a t. tame s (snd (f a t s))) \<Longrightarrow> tame s (snd (with_target env cx raw f s))"
  "(\<And>a t. tame s (snd (f a t s))) \<Longrightarrow> tame s (snd (with_caller env cx raw f s))"
  by (auto simp: with_target_def with_caller_def split: sum.splits)

lemma tame_service_reply: "tame s (snd run) \<Longrightarrow> tame s (snd (service_reply msg run))"
  by (simp add: service_reply_def split: sum.splits)

lemma tame_user_handlers:
  "tame s (snd (update_me env bind cx b s))" "tame s (snd (register_device w env cx dv s))"
  "tame s (snd (user_update env bind cx i ub s))" "tame s (snd (suspend_handler env cx i sb s))"
  "tame s (snd (delete_handler env cx i s))" "tame s (snd (assign_role_handler env cx i rb s))"
  "tame s (snd (set_permission_handler env cx i pb s))" "tame s (snd (list_access env cx i s))"
  "tame s (snd (set_access env cx i ab s))" "tame s (snd (revoke_access env cx i p s))"
proof -
  note sp = option.splits sum.splits if_splits
  show "tame s (snd (update_me env bind cx b s))"
    by (auto simp: update_me_def split: sp dest!: tame_update_profile)
  show "tame s (snd (register_device w env cx dv s))"
    by (auto simp: register_device_def upsert_device_def tame_devices split: sp)
  show "tame s (snd (user_update env bind cx i ub s))"
    unfolding user_update_def by (rule tame_with_target) (auto split: sp dest!: tame_admin_update)
  show "tame s (snd (suspend_handler env cx i sb s))"
    unfolding suspend_handler_def by (rule tame_with_target) (auto split: sp intro: tame_service_reply tame_set_suspended)
  show "tame s (snd (delete_handler env cx i s))"
    unfolding delete_handler_def by (intro tame_with_target tame_service_reply tame_delete_user)
  show "tame s (snd (assign_role_handler env cx i rb s))"
    unfolding assign_role_handler_def by (rule tame_with_target) (auto split: sp intro: tame_service_reply tame_assign_role)
  show "tame s (snd (set_permission_handler env cx i pb s))"
    unfolding set_permission_handler_def by (rule tame_with_target) (auto split: sp intro: tame_service_reply tame_set_permission)
  show "tame s (snd (list_access env cx i s))"
    unfolding list_access_def by (rule tame_with_target) (auto split: sp)
  show "tame s (snd (set_access env cx i ab s))"
    unfolding set_access_def by (rule tame_with_target) (auto split: sp intro: tame_service_reply tame_set_access)
  show "tame s (snd (revoke_access env cx i p s))"
    unfolding revoke_access_def by (intro tame_with_target tame_service_reply tame_withdraw)
qed

section \<open>Requests\<close>

lemma tame_reads: "tame s (snd (reads f r s))" by (simp add: reads_def)
lemma tame_writes: "tame s (snd run) \<Longrightarrow> tame s (snd (writes f run))" by (simp add: writes_def)

lemmas tame_handlers = tame_login_handler tame_register_handlers tame_session_handlers tame_role_handlers
  tame_label_handler tame_driver_handlers tame_shipper_handlers tame_company_update_me tame_user_handlers

lemma tame_handle:
  assumes "\<And>p. cx_principal cx = Some p \<Longrightarrow> \<not> is_platform_staff p" "Staff \<notin> set (guards rq)"
  shows "tame s (snd (handle sv env cx rq s))"
  using assms(2)
  by (cases rq) (simp_all add: guards_def tame_reads tame_writes tame_handlers tame_register_member [OF assms(1)])

section \<open>Who is let in\<close>

definition bearer :: "web_request \<Rightarrow> string" where
  "bearer w = extract_token (http_request.truncate w)"

text \<open>The token stands for the principal: verified locally and not revoked, or vouched for by the service.\<close>

definition accepted :: "server \<Rightarrow> env \<Rightarrow> string \<Rightarrow> sys \<Rightarrow> principal \<Rightarrow> bool" where
  "accepted sv env token s p \<longleftrightarrow> token \<noteq> [] \<and>
     (if asks_validator env token then local_validator env s token = Some p
      else \<exists>iat. verify_with_issued_at (jwt env) token = Inr (p, iat) \<and>
        (case sv_revocations sv of None \<Rightarrow> True
         | Some chk \<Rightarrow> \<not> chk (token_id p) (user_id p) (company_id p) iat))"

definition may_pass :: "env \<Rightarrow> principal \<Rightarrow> guard \<Rightarrow> bool" where
  "may_pass env p g = (case g of
      Module k \<Rightarrow> has_permission p (service_product env) k
    | Staff \<Rightarrow> is_platform_staff p)"

definition after_token :: "env \<Rightarrow> web_request \<Rightarrow> sys \<Rightarrow> sys" where
  "after_token env w s = (if asks_validator env (bearer w) then snd (validate_token env (bearer w) s) else s)"

lemma accepted_iff:
  "fst (authenticate sv env (http_request.truncate w) s) = Next (Some p) \<longleftrightarrow> accepted sv env (bearer w) s p"
  unfolding authenticate_def fst_conv require_auth_admits_iff accepted_def asks_validator_def bearer_def
  by (auto split: sum.splits prod.splits option.splits)

lemma authenticate_outcome:
  "(\<exists>p. fst (authenticate sv env h s) = Next (Some p)) \<or> (\<exists>msg. fst (authenticate sv env h s) = Abort 401 msg)"
  unfolding authenticate_def require_auth_with_revocations_def Let_def
  by (auto split: sum.splits prod.splits option.splits if_splits)

lemma authenticate_state: "snd (authenticate sv env (http_request.truncate w) s) = after_token env w s"
  by (simp add: authenticate_def after_token_def bearer_def)

definition touches :: "env \<Rightarrow> sys \<Rightarrow> sys set" where
  "touches env s = insert s (range (\<lambda>i. touch_key env i s))"

lemma touches_intros [simp, intro]: "s \<in> touches env s" "touch_key env i s \<in> touches env s"
  by (simp_all add: touches_def)

lemma machine_key_touches: "snd (validate_machine_key env k s) \<in> touches env s"
  by (simp add: validate_machine_key_def split: option.splits sum.splits)

lemma api_key_touches: "snd (validate_api_key env key s) \<in> touches env s"
  by (simp add: validate_api_key_def Let_def machine_key_touches split: option.splits sum.splits)

lemma validate_touches: "snd (validate_token env token s) \<in> touches env s"
  unfolding validate_token_def Let_def by (simp add: api_key_touches split: option.splits sum.splits)

lemma after_token_touches: "after_token env w s = s \<or> (\<exists>i. after_token env w s = touch_key env i s)"
  using validate_touches [of env "bearer w" s] by (auto simp: after_token_def touches_def)

lemma guard_keys_dotted: "Module k \<in> set (guards rq) \<Longrightarrow> CHR ''.'' \<in> set k"
  by (cases rq) (auto simp: guards_def)

lemma run_guard_dotted:
  assumes "CHR ''.'' \<in> set k"
  shows "run_guard env (Module k) (Some p) =
    (if may_pass env p (Module k) then Next (Some p) else Abort 403 msg_denied)"
proof -
  obtain b a where c: "cut (CHR ''.'') k = (b, a, True)"
    using assms by (metis cut_append in_set_conv_decomp_first)
  then have "k = b @ ''.'' @ a" using cut_rebuild by fastforce
  then have "has_module (service_product env) p b a = has_permission p (service_product env) k"
    by (simp add: has_module_def)
  then show ?thesis by (simp add: run_guard_def require_module_def c may_pass_def)
qed

lemma run_guards_pass:
  "(\<And>k. Module k \<in> set gs \<Longrightarrow> CHR ''.'' \<in> set k) \<Longrightarrow>
     (if list_all (may_pass env p) gs then run_guards env gs (Some p) = Next (Some p)
      else \<exists>msg. run_guards env gs (Some p) = Abort 403 msg)"
proof (induction gs)
  case (Cons g gs)
  show ?case
  proof (cases g)
    case (Module k)
    then have "CHR ''.'' \<in> set k" using Cons.prems by simp
    then show ?thesis using Cons Module by (simp add: run_guard_dotted)
  next
    case Staff
    then show ?thesis using Cons by (simp add: run_guard_def require_platform_staff_def may_pass_def)
  qed
qed simp

lemma admission:
  assumes "\<not> public_route rq"
  shows "(if \<exists>p. accepted sv env (bearer w) s p
      then \<exists>p. accepted sv env (bearer w) s p \<and>
        (if list_all (may_pass env p) (guards rq)
         then serve sv env w rq s = handle sv env (call_of w (Some p)) rq (after_token env w s)
         else \<exists>msg. serve sv env w rq s = (answer 403 msg None, after_token env w s))
      else \<exists>msg. serve sv env w rq s = (answer 401 msg None, after_token env w s)) \<and>
    (after_token env w s = s \<or> (\<exists>i. after_token env w s = touch_key env i s))"
proof (rule conjI)
  show "if \<exists>p. accepted sv env (bearer w) s p
      then \<exists>p. accepted sv env (bearer w) s p \<and>
        (if list_all (may_pass env p) (guards rq)
         then serve sv env w rq s = handle sv env (call_of w (Some p)) rq (after_token env w s)
         else \<exists>msg. serve sv env w rq s = (answer 403 msg None, after_token env w s))
      else \<exists>msg. serve sv env w rq s = (answer 401 msg None, after_token env w s)"
  proof (cases "\<exists>p. fst (authenticate sv env (http_request.truncate w) s) = Next (Some p)")
    case True
    then obtain p where p: "fst (authenticate sv env (http_request.truncate w) s) = Next (Some p)" ..
    have a: "accepted sv env (bearer w) s p" using p by (simp add: accepted_iff)
    have g: "if list_all (may_pass env p) (guards rq) then run_guards env (guards rq) (Some p) = Next (Some p)
        else \<exists>msg. run_guards env (guards rq) (Some p) = Abort 403 msg"
      using guard_keys_dotted by (rule run_guards_pass)
    have s: "serve sv env w rq s = (case run_guards env (guards rq) (Some p) of
        Abort code msg \<Rightarrow> (answer code msg None, after_token env w s)
      | Next ctx \<Rightarrow> handle sv env (call_of w ctx) rq (after_token env w s))"
      unfolding serve_def Let_def authenticate_state using assms p by simp
    have "if list_all (may_pass env p) (guards rq)
         then serve sv env w rq s = handle sv env (call_of w (Some p)) rq (after_token env w s)
         else \<exists>msg. serve sv env w rq s = (answer 403 msg None, after_token env w s)"
      using g s by (auto split: if_splits)
    then have "\<exists>p. accepted sv env (bearer w) s p \<and>
        (if list_all (may_pass env p) (guards rq)
         then serve sv env w rq s = handle sv env (call_of w (Some p)) rq (after_token env w s)
         else \<exists>msg. serve sv env w rq s = (answer 403 msg None, after_token env w s))"
      using a by blast
    moreover have "\<exists>p. accepted sv env (bearer w) s p" using a by blast
    ultimately show ?thesis by (simp only: if_True)
  next
    case False
    then have "\<not> accepted sv env (bearer w) s p" for p using accepted_iff [of sv env w s p] by simp
    moreover obtain msg where "fst (authenticate sv env (http_request.truncate w) s) = Abort 401 msg"
      using authenticate_outcome False by blast
    then have "serve sv env w rq s = (answer 401 msg None, after_token env w s)"
      using assms by (simp add: serve_def Let_def authenticate_state)
    ultimately show ?thesis by auto
  qed
qed (rule after_token_touches)

text \<open>
  C31. A protected request reaches its handler exactly when its token stands for a
  principal and that principal passes every guard of the route, and then the handler
  runs with it.  Otherwise the answer is 401 without a principal and 403 without the
  permission, with no body, and nothing is written but the last use of an API key.
\<close>
theorem requests_admitted:
  assumes "\<not> public_route rq"
  shows "(if \<exists>p. accepted sv env (bearer w) s p
      then \<exists>p. accepted sv env (bearer w) s p \<and>
        (if list_all (may_pass env p) (guards rq)
         then serve sv env w rq s = handle sv env (call_of w (Some p)) rq (after_token env w s)
         else \<exists>msg. serve sv env w rq s = (answer 403 msg None, after_token env w s))
      else \<exists>msg. serve sv env w rq s = (answer 401 msg None, after_token env w s)) \<and>
    (after_token env w s = s \<or> (\<exists>i. after_token env w s = touch_key env i s))"
  using assms by (rule admission)

section \<open>Runs without staff\<close>

text \<open>No accepted principal of the request is platform staff; public routes carry none.\<close>

definition no_staff :: "server \<Rightarrow> env \<Rightarrow> web_request \<Rightarrow> request \<Rightarrow> sys \<Rightarrow> bool" where
  "no_staff sv env w rq s \<longleftrightarrow> public_route rq \<or>
     (case fst (authenticate sv env (http_request.truncate w) s) of
        Next (Some p) \<Rightarrow> \<not> is_platform_staff p
      | _ \<Rightarrow> True)"

text \<open>Requests one after the other, each at its own time and with whatever fails then.\<close>

inductive tenant_run :: "sys \<Rightarrow> sys \<Rightarrow> bool" where
  none: "tenant_run s s"
| request: "tenant_run s t \<Longrightarrow> no_staff sv env w rq t \<Longrightarrow> tenant_run s (snd (serve sv env w rq t))"

lemma tame_after_token: "tame s (after_token env w s)"
proof -
  have "tame s (touch_key env i s)" for i by (simp add: touch_key_def tame_keys)
  then show ?thesis using after_token_touches [of env w s] by auto
qed

lemma public_unguarded: "public_route rq \<Longrightarrow> guards rq = []"
  by (cases rq) (simp_all add: public_route_def guards_def)

lemma tame_serve:
  assumes "no_staff sv env w rq s"
  shows "tame s (snd (serve sv env w rq s))"
proof (cases "public_route rq")
  case True
  then show ?thesis using tame_handle [of "call_of w None" rq s sv env] by (simp add: serve_def call_of_def public_unguarded)
next
  case False
  show ?thesis
  proof (cases "\<exists>p. accepted sv env (bearer w) s p \<and> list_all (may_pass env p) (guards rq) \<and>
      serve sv env w rq s = handle sv env (call_of w (Some p)) rq (after_token env w s)")
    case True
    then obtain p where p: "accepted sv env (bearer w) s p" "list_all (may_pass env p) (guards rq)"
      "serve sv env w rq s = handle sv env (call_of w (Some p)) rq (after_token env w s)" by blast
    then have np: "\<not> is_platform_staff p"
      using assms False by (simp add: no_staff_def flip: accepted_iff)
    then have "Staff \<notin> set (guards rq)" using p(2) by (auto simp: list_all_iff may_pass_def)
    then have "tame (after_token env w s) (snd (serve sv env w rq s))"
      unfolding p(3) using np by (intro tame_handle) (simp_all add: call_of_def)
    then show ?thesis by (rule tame_trans [OF tame_after_token])
  next
    case nf: False
    then have "snd (serve sv env w rq s) = after_token env w s"
      using admission [OF False, of sv env w s] by (auto split: if_splits)
    then show ?thesis using tame_after_token by simp
  qed
qed

text \<open>
  C30. No sequence of requests without a platform-staff token, on any route, in any
  order and with any failures, changes what a company has bought or makes anybody
  platform staff: every entitlement row and mode that was there is there unchanged,
  rows added are the default TMS modules in grant mode a founded or claimed company
  starts with, the ledger of grants and revocations is the same, and nobody is staff
  who was not.
\<close>
theorem entitlements_out_of_reach:
  assumes "tenant_run s s'"
  shows "take (length (modules s)) (modules s') = modules s \<and>
    list_all (\<lambda>m. cm_product m = product_tms \<and> cm_module m \<in> set default_tms_features) (drop (length (modules s)) (modules s')) \<and>
    take (length (settings s)) (settings s') = settings s \<and>
    list_all (\<lambda>p. ps_mode p = entitlement_grant) (drop (length (settings s)) (settings s')) \<and>
    module_events s' = module_events s \<and>
    us_id ` {u \<in> set (users s'). us_platform_staff u} \<subseteq> us_id ` {u \<in> set (users s). us_platform_staff u}"
proof -
  have "tame s s'" using assms by induction (auto intro: tame_trans tame_serve)
  then show ?thesis
    by (auto simp: tame_def staff_ids_def default_module_def default_settings_def list_all_iff)
qed

section \<open>Concrete requests\<close>

definition demo_server :: server where
  "demo_server = \<lparr>sv_config = \<lparr>cf_cookies = True, cf_verifier = Some toy_jwt\<rparr>, sv_revocations = None,
     sv_user_sql = demo_engine, sv_company_sql = demo_engine, sv_scanner = (\<lambda>_. None), sv_binder = demo_binder,
     sv_date = (\<lambda>_. None), sv_nextval = 1, sv_long_text = (\<lambda>_. False)\<rparr>"

definition demo_web :: "string \<Rightarrow> web_request" where
  "demo_web tok = \<lparr>authorization = ''Bearer '' @ tok, query_token = [], wr_acting = [], wr_agent = [], wr_ip = []\<rparr>"

text \<open>A clerk, who may read orders, asks to delete an account.\<close>

theorem requests_admitted_witness:
  "\<exists>msg. serve demo_server demo_env (demo_web ''tok'') (RqDeleteUser ''u-ii'') demo_tenant = (answer 403 msg None, demo_tenant)"
proof -
  have b: "bearer (demo_web ''tok'') = ''tok''"
    by (simp add: bearer_def extract_token_def demo_web_def http_request.truncate_def) code_simp
  have v: "verify_with_issued_at (jwt demo_env) ''tok'' = Inr (clerk, 0)"
    by (simp add: demo_env_def verify_with_issued_at_def parse_claims_def toy_jwt_def toy_claims_def clerk_def)
  have n: "\<not> asks_validator demo_env ''tok''" by (simp add: asks_validator_def v clerk_def)
  have a: "accepted demo_server demo_env ''tok'' demo_tenant p \<longleftrightarrow> p = clerk" for p
    by (auto simp: accepted_def n v demo_server_def)
  have t: "after_token demo_env (demo_web ''tok'') demo_tenant = demo_tenant" by (simp add: after_token_def b n)
  have g: "guards (RqDeleteUser ''u-ii'') = [Module ''collaboration.removeMember'']" "\<not> public_route (RqDeleteUser ''u-ii'')"
    by (simp_all add: guards_def public_route_def)
  have "\<not> may_pass demo_env clerk (Module ''collaboration.removeMember'')"
    by (simp add: may_pass_def demo_env_def) code_simp
  then show ?thesis
    using requests_admitted [OF g(2), of demo_server demo_env "demo_web ''tok''" demo_tenant] by (simp add: a b t g(1))
qed

definition demo_signup :: register_request where
  "demo_signup = \<lparr>rg_username = '' Ani '', rg_email = [], rg_phone = [], rg_password = ''secret9'', rg_full_name = ''Ani'',
     rg_role = ''shipper'', rg_company_name = ''Maju'', rg_company_abbreviation = ''mju''\<rparr>"

text \<open>A shipper signs up.\<close>

theorem entitlements_out_of_reach_witness:
  "case serve demo_server demo_env (demo_web []) (RqRegister (Some demo_signup)) demo_tenant of (r, s') \<Rightarrow>
     rp_status r = 201 \<and> take 1 (modules s') = modules demo_tenant \<and>
     us_id ` {u \<in> set (users s'). us_platform_staff u} = {}"
proof -
  let ?run = "serve demo_server demo_env (demo_web []) (RqRegister (Some demo_signup)) demo_tenant"
  have p: "public_route (RqRegister b)" for b by (simp add: public_route_def)
  have r: "tenant_run demo_tenant (snd ?run)" by (rule tenant_run.request [OF tenant_run.none]) (simp add: no_staff_def p)
  obtain u s' where "register demo_env demo_founder demo_tenant = (Inr u, s')"
    using founder_registers by (cases "register demo_env demo_founder demo_tenant") (auto simp: is_ok_iff)
  then have "rp_status (fst ?run) = 201"
    by (simp add: serve_def p writes_def map_reply_def register_handler_def bind_json_def demo_signup_def demo_founder_def
        created_def answer_def)
  moreover have "length (modules demo_tenant) = 1" by (simp add: demo_tenant_def)
  moreover have "us_id ` {u \<in> set (users demo_tenant). us_platform_staff u} = {}"
    by (auto simp: demo_tenant_def blank_user_def)
  ultimately show ?thesis using entitlements_out_of_reach [OF r] by (simp only: case_prod_beta) simp
qed

end
