(* ===== verification/GrpcServer.thy ===== *)
theory GrpcServer
  imports Drivers
begin

text \<open>
  internal/grpcserver/server.go: the contract other services call.  A call answers a
  message or a status; requests are the decoded messages, uuids and times aside.
  The updated_at columns are not modelled.
\<close>

section \<open>Messages\<close>

datatype code = InvalidArgument | NotFoundCode | Internal

type_synonym status = "code \<times> string"

record proto_user =
  pu_id :: string
  pu_username :: string
  pu_email :: string
  pu_phone :: string
  pu_full_name :: string
  pu_suspended :: bool
  pu_verified :: bool
  pu_deleted :: bool
  pu_language :: string
  pu_access :: "product \<rightharpoonup> product_access"
  pu_staff :: bool
  pu_created :: time
  pu_company :: string
  pu_fms_tenant :: int

text \<open>u.Company is there only when the query preloaded it.\<close>

definition to_proto_user :: "env \<Rightarrow> user \<Rightarrow> company option \<Rightarrow> (product \<rightharpoonup> product_access) \<Rightarrow> proto_user" where
  "to_proto_user env u co acc =
     \<lparr>pu_id = uuid_string env (us_id u), pu_username = text_or_empty (us_username u),
      pu_email = text_or_empty (us_email u), pu_phone = text_or_empty (us_phone u),
      pu_full_name = text_or_empty (us_full_name u), pu_suspended = us_suspended u,
      pu_verified = us_verified u, pu_deleted = (us_deleted u \<noteq> None),
      pu_language = text_or_empty (map_of (us_profile u) ''language''), pu_access = acc,
      pu_staff = us_platform_staff u, pu_created = us_created u,
      pu_company = (case us_company u of None \<Rightarrow> [] | Some c \<Rightarrow> uuid_string env c),
      pu_fms_tenant = (case co of None \<Rightarrow> 0 | Some c \<Rightarrow> (case co_fms_tenant c of None \<Rightarrow> 0 | Some t \<Rightarrow> t))\<rparr>"

record proto_settings =
  pt_cancel_validate :: bool
  pt_geofencing :: bool
  pt_verified_only :: bool
  pt_ppn :: "64 word"
  pt_pph23 :: "64 word"
  pt_strict :: bool
  pt_max_driver :: int32
  pt_tolls :: bool

record proto_company =
  pc_id :: string
  pc_name :: string
  pc_role :: string
  pc_abbreviation :: string
  pc_legal_name :: string
  pc_slug :: string
  pc_suspended :: bool
  pc_fms_tenant :: int
  pc_npwp :: string
  pc_address :: string
  pc_settings :: proto_settings

definition deref_int64 :: "int option \<Rightarrow> int" where
  "deref_int64 v = (case v of None \<Rightarrow> 0 | Some n \<Rightarrow> n)"

definition to_proto_company :: "env \<Rightarrow> company \<Rightarrow> proto_company" where
  "to_proto_company env c =
     \<lparr>pc_id = uuid_string env (co_id c), pc_name = co_name c, pc_role = co_role c,
      pc_abbreviation = text_or_empty (co_abbreviation c),
      pc_legal_name = text_or_empty (map_of (co_columns c) ''legal_name''),
      pc_slug = text_or_empty (map_of (co_columns c) ''slug''), pc_suspended = co_is_suspended c,
      pc_fms_tenant = deref_int64 (co_fms_tenant c), pc_npwp = text_or_empty (co_npwp c),
      pc_address = text_or_empty (co_address c),
      pc_settings =
        \<lparr>pt_cancel_validate = tg_cancel_validate (co_toggles c), pt_geofencing = co_geofencing c,
         pt_verified_only = tg_verified_only (co_toggles c), pt_ppn = tg_ppn (co_toggles c),
         pt_pph23 = tg_pph23 (co_toggles c), pt_strict = tg_strict (co_toggles c),
         pt_max_driver = non_negative_int32 (tg_max_driver (co_toggles c)),
         pt_tolls = tg_tolls (co_toggles c)\<rparr>\<rparr>"

section \<open>Validation and users\<close>

definition reason_for :: "svc_error \<Rightarrow> string" where
  "reason_for e =
     (case e of
        ErrSessionRevoked \<Rightarrow> ''Harap login kembali''
      | ErrAccountSuspended \<Rightarrow> ''Akun anda telah dihapus atau di non-aktifkan''
      | ErrAccountDeleted \<Rightarrow> ''Akun anda telah dihapus atau di non-aktifkan''
      | _ \<Rightarrow> ''Silahkan untuk login ulang'')"

datatype token_kind = KindJwt | KindStatic

record validation =
  vr_valid :: bool
  vr_reason :: string
  vr_user :: "proto_user option"
  vr_kind :: "token_kind option"

definition validate_token_rpc :: "env \<Rightarrow> string \<Rightarrow> sys \<Rightarrow> validation \<times> sys" where
  "validate_token_rpc env token s =
     (let run = validate_token env token s in
      (case fst run of
         Inl e \<Rightarrow> \<lparr>vr_valid = False, vr_reason = reason_for e, vr_user = None, vr_kind = None\<rparr>
       | Inr pu \<Rightarrow> \<lparr>vr_valid = True, vr_reason = [],
           vr_user = Some (to_proto_user env (snd pu) (company_of s (snd pu)) (access (fst pu))),
           vr_kind = Some (if token_id (fst pu) = [] then KindStatic else KindJwt)\<rparr>,
       snd run))"

text \<open>FindByID preloads the company, FindByIDIncludingDeleted and FindByIDs do not.\<close>

definition get_user_rpc :: "env \<Rightarrow> string \<Rightarrow> bool \<Rightarrow> sys \<Rightarrow> status + proto_user" where
  "get_user_rpc env raw include_deleted s =
     (case uuid_parse env raw of
        None \<Rightarrow> Inl (InvalidArgument, ''malformed user id'')
      | Some i \<Rightarrow>
          (case (if include_deleted then find_user_including_deleted env s i else find_user_by_id env s i) of
             Inl e \<Rightarrow> Inl (if e = ErrNotFound then (NotFoundCode, ''user not found'')
                           else (Internal, ''failed to load user''))
           | Inr u \<Rightarrow>
               (case build_access env s (us_id u) (us_company u) of
                  Inl _ \<Rightarrow> Inl (Internal, ''failed to load product access'')
                | Inr acc \<Rightarrow>
                    Inr (to_proto_user env u (if include_deleted then None else company_of s u) acc))))"

definition find_users_by_ids :: "env \<Rightarrow> uuid list \<Rightarrow> bool \<Rightarrow> sys \<Rightarrow> svc_error + user list" where
  "find_users_by_ids env ids include_deleted s =
     (if ids = [] then Inr []
      else if db_down env OpFindUser then Inl (ErrDB OpFindUser)
      else Inr (filter (\<lambda>u. us_id u \<in> set ids \<and> (include_deleted \<or> user_live u)) (users s)))"

fun with_access :: "env \<Rightarrow> sys \<Rightarrow> user list \<Rightarrow> status + proto_user list" where
  "with_access env s [] = Inr []"
| "with_access env s (u # us) =
     (case build_access env s (us_id u) (us_company u) of
        Inl _ \<Rightarrow> Inl (Internal, ''failed to load product access'')
      | Inr acc \<Rightarrow>
          (case with_access env s us of
             Inl e \<Rightarrow> Inl e
           | Inr ps \<Rightarrow> Inr (to_proto_user env u None acc # ps)))"

text \<open>Ids that do not parse are skipped.\<close>

definition parsed_ids :: "env \<Rightarrow> string list \<Rightarrow> uuid list" where
  "parsed_ids env raws = List.map_filter (uuid_parse env) raws"

definition get_users_rpc :: "env \<Rightarrow> string list \<Rightarrow> bool \<Rightarrow> sys \<Rightarrow> status + proto_user list" where
  "get_users_rpc env raws include_deleted s =
     (let ids = parsed_ids env raws in
      if length ids = 0 then Inr []
      else case find_users_by_ids env ids include_deleted s of
        Inl _ \<Rightarrow> Inl (Internal, ''failed to load users'')
      | Inr us \<Rightarrow> with_access env s us)"

definition check_permission_rpc :: "env \<Rightarrow> string \<Rightarrow> string \<Rightarrow> string \<Rightarrow> sys \<Rightarrow> status + bool" where
  "check_permission_rpc env raw m action s =
     (case uuid_parse env raw of
        None \<Rightarrow> Inl (InvalidArgument, ''malformed user id'')
      | Some i \<Rightarrow>
          (case check_permission env s i m action of
             Inl e \<Rightarrow> if e = ErrNotFound then Inr False else Inl (Internal, ''permission check failed'')
           | Inr b \<Rightarrow> Inr b))"

section \<open>Companies and members\<close>

definition get_company_rpc :: "env \<Rightarrow> string \<Rightarrow> sys \<Rightarrow> status + proto_company" where
  "get_company_rpc env raw s =
     (case uuid_parse env raw of
        None \<Rightarrow> Inl (InvalidArgument, ''malformed company id'')
      | Some i \<Rightarrow>
          (case find_company env s i of
             Inl e \<Rightarrow> Inl (if e = ErrNotFound then (NotFoundCode, ''company not found'')
                           else (Internal, ''failed to load company''))
           | Inr c \<Rightarrow> Inr (to_proto_company env c)))"

text \<open>The page and the size the request asks for, clamped; \<open>since\<close> is its filter on updated_at.\<close>

definition list_companies_rpc ::
  "env \<Rightarrow> int32 \<Rightarrow> int32 \<Rightarrow> bool \<Rightarrow> (company \<Rightarrow> bool) \<Rightarrow> sys \<Rightarrow> status + (proto_company list \<times> int64)" where
  "list_companies_rpc env page0 size0 only_fms since s =
     (let page = (if sint page0 < 0 then 0 else word_of_int (sint page0));
          sz1 = (if sint size0 \<le> 0 then 100 else sint size0);
          sz = (if sz1 > 500 then 500 else sz1)
      in case list_for_sync env page (word_of_int sz) only_fms since s of
           Inl _ \<Rightarrow> Inl (Internal, ''failed to list companies'')
         | Inr cs \<Rightarrow> Inr (map (to_proto_company env) (fst cs), snd cs))"

definition list_members_rpc ::
  "env \<Rightarrow> user engine \<Rightarrow> string \<Rightarrow> string list \<Rightarrow> proto_query option \<Rightarrow> sys \<Rightarrow> status + (proto_user list \<times> page_info)" where
  "list_members_rpc env db raw wanted q s =
     (case uuid_parse env raw of
        None \<Rightarrow> Inl (InvalidArgument, ''malformed company id'')
      | Some cid \<Rightarrow>
          (let ps = from_proto q user_list_fields in
           case list_by_company env db cid wanted ps s of
             Inl _ \<Rightarrow> Inl (Internal, ''failed to list members'')
           | Inr page \<Rightarrow>
               (case with_access env s (fst page) of
                  Inl e \<Rightarrow> Inl e
                | Inr us \<Rightarrow> Inr (us, page_info_of ps (snd page)))))"

section \<open>Delivery targets\<close>

record target =
  dg_user :: string
  dg_email :: string
  dg_phone :: string
  dg_language :: string
  dg_extra :: "string list"
  dg_push :: string

definition active_for_users :: "env \<Rightarrow> uuid list \<Rightarrow> sys \<Rightarrow> svc_error + device_token list" where
  "active_for_users env ids s =
     (if ids = [] then Inr []
      else if db_down env OpDevice then Inl (ErrDB OpDevice)
      else Inr (filter (\<lambda>t. dt_user t \<in> set ids \<and> dt_active t) (devices s)))"

definition tokens_of :: "device_token list \<Rightarrow> uuid \<Rightarrow> string list" where
  "tokens_of ts i = map dt_push (filter (\<lambda>t. dt_user t = i) ts)"

definition new_target :: "env \<Rightarrow> user \<Rightarrow> string list \<Rightarrow> string \<Rightarrow> target" where
  "new_target env u extra push =
     \<lparr>dg_user = uuid_string env (us_id u), dg_email = text_or_empty (us_email u),
      dg_phone = text_or_empty (us_phone u), dg_language = text_or_empty (map_of (us_profile u) ''language''),
      dg_extra = extra, dg_push = push\<rparr>"

text \<open>The recipients of a company and the map that remembers them.\<close>

definition extra_recipients ::
  "env \<Rightarrow> sys \<Rightarrow> uuid option \<Rightarrow> (uuid \<rightharpoonup> string list) \<Rightarrow> string list \<times> (uuid \<rightharpoonup> string list)" where
  "extra_recipients env s co seen =
     (case co of
        None \<Rightarrow> ([], seen)
      | Some c \<Rightarrow>
          (case seen c of
             Some xs \<Rightarrow> (xs, seen)
           | None \<Rightarrow>
               (case find_company env s c of
                  Inl _ \<Rightarrow> ([], seen)
                | Inr row \<Rightarrow> (co_recipients row, seen(c \<mapsto> co_recipients row)))))"

fun targets_of :: "env \<Rightarrow> sys \<Rightarrow> device_token list \<Rightarrow> (uuid \<rightharpoonup> string list) \<Rightarrow> user list \<Rightarrow> target list" where
  "targets_of env s ts seen [] = []"
| "targets_of env s ts seen (u # us) =
     (let ex = extra_recipients env s (us_company u) seen;
          toks = tokens_of ts (us_id u)
      in (if length toks = 0 then [new_target env u (fst ex) []] else map (new_target env u (fst ex)) toks)
         @ targets_of env s ts (snd ex) us)"

definition resolve_targets_rpc :: "env \<Rightarrow> string list \<Rightarrow> sys \<Rightarrow> status + target list" where
  "resolve_targets_rpc env raws s =
     (let ids = parsed_ids env raws in
      if length ids = 0 then Inr []
      else case find_users_by_ids env ids False s of
        Inl _ \<Rightarrow> Inl (Internal, ''failed to load users'')
      | Inr us \<Rightarrow>
          (case active_for_users env ids s of
             Inl _ \<Rightarrow> Inl (Internal, ''failed to load device tokens'')
           | Inr ts \<Rightarrow> Inr (targets_of env s ts Map.empty us)))"

section \<open>Who is reached\<close>

text \<open>What the remembered recipients are worth: the answer of a fresh lookup.\<close>

definition recipients :: "env \<Rightarrow> sys \<Rightarrow> uuid option \<Rightarrow> string list" where
  "recipients env s co = (case co of None \<Rightarrow> []
     | Some c \<Rightarrow> (case find_company env s c of Inl _ \<Rightarrow> [] | Inr row \<Rightarrow> co_recipients row))"

definition remembers :: "env \<Rightarrow> sys \<Rightarrow> (uuid \<rightharpoonup> string list) \<Rightarrow> bool" where
  "remembers env s seen \<longleftrightarrow> (\<forall>c xs. seen c = Some xs \<longrightarrow> xs = recipients env s (Some c))"

lemma extra_recipients_fresh:
  "remembers env s seen \<Longrightarrow> fst (extra_recipients env s co seen) = recipients env s co \<and>
     remembers env s (snd (extra_recipients env s co seen))"
  by (auto simp: extra_recipients_def recipients_def remembers_def split: option.splits sum.splits)

lemma targets_of_fresh:
  "remembers env s seen \<Longrightarrow> targets_of env s ts seen us =
     concat (map (\<lambda>u. map (new_target env u (recipients env s (us_company u)))
       (if tokens_of ts (us_id u) = [] then [[]] else tokens_of ts (us_id u))) us)"
  by (induction us arbitrary: seen) (simp_all add: Let_def extra_recipients_fresh)

text \<open>
  Resolving delivery targets, when it answers, reaches exactly the live accounts
  among the ids that parse: each with one target per active device of theirs, or one
  without a device, so nobody is dropped; every target carries its own account's
  address and language and the extra recipients of its own company, read afresh or
  remembered, and no target is for anybody else.
\<close>
theorem delivery_targets_complete:
  assumes "resolve_targets_rpc env raws s = Inr ts"
  shows "set ts = (\<Union>u \<in> {u \<in> set (users s). user_live u \<and> Some (us_id u) \<in> uuid_parse env ` set raws}.
     new_target env u (recipients env s (us_company u)) `
       (if \<exists>d \<in> set (devices s). dt_user d = us_id u \<and> dt_active d
        then {dt_push d | d. d \<in> set (devices s) \<and> dt_user d = us_id u \<and> dt_active d} else {[]}))"
proof -
  let ?ids = "parsed_ids env raws"
  let ?us = "filter (\<lambda>u. us_id u \<in> set ?ids \<and> user_live u) (users s)"
  let ?ds = "filter (\<lambda>t. dt_user t \<in> set ?ids \<and> dt_active t) (devices s)"
  have ids: "i \<in> set ?ids \<longleftrightarrow> Some i \<in> uuid_parse env ` set raws" for i
    by (induction raws) (auto simp: parsed_ids_def List.map_filter_simps split: option.splits)
  have toks: "set (tokens_of ?ds (us_id u)) = {dt_push d | d. d \<in> set (devices s) \<and> dt_user d = us_id u \<and> dt_active d}"
    "tokens_of ?ds (us_id u) = [] \<longleftrightarrow> \<not> (\<exists>d \<in> set (devices s). dt_user d = us_id u \<and> dt_active d)"
    if "u \<in> set ?us" for u
    using that by (auto simp: tokens_of_def filter_empty_conv)
  show ?thesis
  proof (cases "?ids = []")
    case True
    then have "ts = []" "\<not> Some i \<in> uuid_parse env ` set raws" for i
      using assms ids [of i] by (auto simp: resolve_targets_rpc_def)
    then show ?thesis by auto
  next
    case False
    then have "ts = targets_of env s ?ds Map.empty ?us"
      using assms by (auto simp: resolve_targets_rpc_def Let_def find_users_by_ids_def active_for_users_def
          split: if_splits sum.splits)
    then have "ts = concat (map (\<lambda>u. map (new_target env u (recipients env s (us_company u)))
       (if tokens_of ?ds (us_id u) = [] then [[]] else tokens_of ?ds (us_id u))) ?us)"
      by (simp add: targets_of_fresh remembers_def)
    then have "set ts = (\<Union>u \<in> set ?us. new_target env u (recipients env s (us_company u)) `
       set (if tokens_of ?ds (us_id u) = [] then [[]] else tokens_of ?ds (us_id u)))" by simp
    also have "\<dots> = (\<Union>u \<in> set ?us. new_target env u (recipients env s (us_company u)) `
       (if \<exists>d \<in> set (devices s). dt_user d = us_id u \<and> dt_active d
        then {dt_push d | d. d \<in> set (devices s) \<and> dt_user d = us_id u \<and> dt_active d} else {[]}))"
      using toks by (intro SUP_cong refl arg_cong2 [where f = image]) (simp, blast)
    finally show ?thesis by (simp add: ids conj_commute)
  qed
qed

definition demo_reach :: sys where
  "demo_reach = demo_tenant\<lparr>companies := [(blank_company 5 ''Jaya'')\<lparr>co_fms_tenant := Some 41, co_recipients := [''ops@jaya'']\<rparr>],
     users := [(blank_user 2 (Some 5))\<lparr>us_phone := Some ''62''\<rparr>, blank_user 7 (Some 5), blank_user 8 None],
     devices := [\<lparr>dt_user = 2, dt_push = ''p1'', dt_platform = None, dt_device = None, dt_active = True, dt_failed = None\<rparr>,
       \<lparr>dt_user = 2, dt_push = ''p2'', dt_platform = None, dt_device = None, dt_active = False, dt_failed = None\<rparr>]\<rparr>"

theorem delivery_targets_complete_witness:
  "(\<lambda>t. (dg_user t, dg_extra t, dg_push t)) ` set (projr (resolve_targets_rpc demo_env [''u-ii'', ''nobody'', ''u-iiiiiii''] demo_reach)) =
     {(''u-ii'', [''ops@jaya''], ''p1''), (''u-iiiiiii'', [''ops@jaya''], [])} \<and>
   set (projr (resolve_targets_rpc demo_env [''u-ii'', ''nobody'', ''u-iiiiiii''] demo_reach)) =
     (\<Union>u \<in> {u \<in> set (users demo_reach). user_live u \<and> Some (us_id u) \<in> uuid_parse demo_env ` {''u-ii'', ''nobody'', ''u-iiiiiii''}}.
     new_target demo_env u (recipients demo_env demo_reach (us_company u)) `
       (if \<exists>d \<in> set (devices demo_reach). dt_user d = us_id u \<and> dt_active d
        then {dt_push d | d. d \<in> set (devices demo_reach) \<and> dt_user d = us_id u \<and> dt_active d} else {[]}))"
proof
  have "is_ok (resolve_targets_rpc demo_env [''u-ii'', ''nobody'', ''u-iiiiiii''] demo_reach)" by code_simp
  then have "resolve_targets_rpc demo_env [''u-ii'', ''nobody'', ''u-iiiiiii''] demo_reach =
      Inr (projr (resolve_targets_rpc demo_env [''u-ii'', ''nobody'', ''u-iiiiiii''] demo_reach))"
    by (auto simp: is_ok_iff)
  from delivery_targets_complete [OF this]
  show "set (projr (resolve_targets_rpc demo_env [''u-ii'', ''nobody'', ''u-iiiiiii''] demo_reach)) =
     (\<Union>u \<in> {u \<in> set (users demo_reach). user_live u \<and> Some (us_id u) \<in> uuid_parse demo_env ` {''u-ii'', ''nobody'', ''u-iiiiiii''}}.
     new_target demo_env u (recipients demo_env demo_reach (us_company u)) `
       (if \<exists>d \<in> set (devices demo_reach). dt_user d = us_id u \<and> dt_active d
        then {dt_push d | d. d \<in> set (devices demo_reach) \<and> dt_user d = us_id u \<and> dt_active d} else {[]}))"
    by simp
qed code_simp

section \<open>Where the contract differs by endpoint\<close>

lemma with_access_no_tenant:
  "with_access env s us = Inr ps \<Longrightarrow> list_all (\<lambda>p. pu_fms_tenant p = 0) ps"
  by (induction us arbitrary: ps) (auto simp: to_proto_user_def split: sum.splits)

text \<open>
  The same account: GetUser carries the FMS tenant of its company, GetUsers, the
  member listing and GetUser with deleted accounts do not.
\<close>
lemma batch_drops_tenant:
  "map_sum id pu_fms_tenant (get_user_rpc demo_env ''u-ii'' False demo_reach) = Inr 41"
  "map_sum id pu_fms_tenant (get_user_rpc demo_env ''u-ii'' True demo_reach) = Inr 0"
  "map_sum id (map pu_fms_tenant) (get_users_rpc demo_env [''u-ii''] False demo_reach) = Inr [0]"
  by code_simp+

end
