(* ===== verification/ImportPlan.thy ===== *)
theory ImportPlan
  imports Catalog Models "HOL-Library.Multiset"
begin

text \<open>
  cmd/import: mapping.go and the building half of plan.go.  A legacy row is the map
  from column to text the CSV reader made of it (absent columns are empty).  Times,
  floats, JSON text and the unstable sort.Slice are parameters of \<open>reader\<close>; the settings
  document is kept as a record.
\<close>

section \<open>Rows\<close>

type_synonym row = "string \<Rightarrow> string"

record reader =
  rd_time :: "string \<Rightarrow> time option"           \<comment> \<open>the four layouts of row.time, in UTC\<close>
  rd_float :: "string \<Rightarrow> 64 word option"        \<comment> \<open>strconv.ParseFloat\<close>
  rd_scan :: "string \<Rightarrow> 64 word option"         \<comment> \<open>fmt.Sscanf with %g\<close>
  rd_int :: "64 word \<Rightarrow> int"                   \<comment> \<open>int(f)\<close>
  rd_bits :: "string \<Rightarrow> 64 word"               \<comment> \<open>a float literal of the source\<close>
  rd_object :: "(string \<times> string) list \<Rightarrow> string"  \<comment> \<open>json.Marshal of a map of strings\<close>
  rd_list :: "string list \<Rightarrow> string"         \<comment> \<open>json.Marshal of a slice of strings\<close>
  rd_now :: time
  rd_uuid :: "nat \<Rightarrow> uuid"                     \<comment> \<open>the n-th uuid.New\<close>
  rd_sort :: "(string \<times> time) list \<Rightarrow> (string \<times> time) list"   \<comment> \<open>sort.Slice by time\<close>

definition sanitise :: "string \<Rightarrow> string" where
  "sanitise s = trim_space (filter (\<lambda>c. c \<noteq> CHR 0x00) s)"

definition row_get :: "row \<Rightarrow> string \<Rightarrow> string" where
  "row_get r k = sanitise (r k)"

definition boolean :: "row \<Rightarrow> string \<Rightarrow> bool" where
  "boolean r k = (let v = to_lower (row_get r k) in v = ''true'' \<or> v = ''1'')"

definition time_of :: "reader \<Rightarrow> row \<Rightarrow> string \<Rightarrow> time option" where
  "time_of rd r k = (let raw = row_get r k in if raw = [] then None else rd_time rd raw)"

definition number_of :: "reader \<Rightarrow> row \<Rightarrow> string \<Rightarrow> 64 word option" where
  "number_of rd r k = (let raw = row_get r k in if raw = [] then None else rd_float rd raw)"

section \<open>Roles and permissions\<close>

fun compound_role :: "string \<Rightarrow> string list \<Rightarrow> string \<times> bool" where
  "compound_role clean [] = ([], False)"
| "compound_role clean (suffix # ss) =
     (if has_suffix clean suffix \<and> clean \<noteq> suffix then (suffix, has_prefix clean ''admin'')
      else compound_role clean ss)"

definition canonical_role :: "string \<Rightarrow> string \<times> bool" where
  "canonical_role raw =
     (let clean = to_lower (trim_space (sanitise raw)) in
      if clean = ''shipper'' then (''shipper'', False)
      else if clean = ''transporter'' then (''transporter'', False)
      else if clean = ''driver'' then (''driver'', False)
      else if clean = ''warehousepic'' \<or> clean = ''pic'' then (''warehousePic'', False)
      else if clean = ''manager'' then (''manager'', False)
      else if clean = ''merchant'' then (''merchant'', False)
      else if clean = ''investor'' then (''investor'', False)
      else if clean = ''admin'' \<or> clean = ''superadmin'' then (''admin'', True)
      else compound_role clean [''manager'', ''transporter'', ''shipper'', ''driver''])"

definition legacy_permissions :: "(string \<times> string) list" where
  "legacy_permissions = [
     (''permission.order.create'', ''order.create''), (''permission.order.read'', ''order.read''),
     (''permission.order.update'', ''order.update''), (''permission.order.cancel'', ''order.cancel''),
     (''permission.order.approval'', ''order.approve''), (''permission.order.assignDriver'', ''order.assignDriver''),
     (''permission.order.readyToPlan'', ''order.readyToPlan''),
     (''permission.order.requestPickDriverToTransporter'', ''order.requestDriver''),
     (''permission.agreement.create'', ''agreement.create''), (''permission.agreement.read'', ''agreement.read''),
     (''permission.agreement.update'', ''agreement.update''), (''permission.agreement.approve'', ''agreement.approve''),
     (''permission.invoice.read'', ''invoice.read''), (''permission.invoice.update'', ''invoice.update''),
     (''permission.invoice.submitInvoice'', ''invoice.create''), (''permission.invoice.cancel'', ''invoice.update''),
     (''permission.truck.create'', ''truck.create''), (''permission.truck.read'', ''truck.read''),
     (''permission.truck.update'', ''truck.update''), (''permission.truck.delete'', ''truck.delete''),
     (''permission.truck.addDriver'', ''truck.addDriver''), (''permission.truck.deleteDriver'', ''truck.deleteDriver''),
     (''permission.warehouse.create'', ''warehouse.create''), (''permission.warehouse.read'', ''warehouse.read''),
     (''permission.warehouse.update'', ''warehouse.update''), (''permission.warehouse.delete'', ''warehouse.delete''),
     (''permission.warehouseManager.read'', ''shipment.read''), (''permission.warehouseManager.update'', ''shipment.update''),
     (''permission.warehouseManager.verify'', ''shipment.verifyLoading''),
     (''permission.collaboration.read'', ''collaboration.read''),
     (''permission.collaboration.inviteMember'', ''collaboration.inviteMember''),
     (''permission.collaboration.removeMember'', ''collaboration.removeMember''),
     (''permission.dashboard.read'', ''dashboard.read''), (''permission.report.read'', ''dashboard.read'')]"

definition placeholder_phones :: "string list" where
  "placeholder_phones = [''08123456789'', ''081234567890'', ''0812345678'', ''0000000000'', ''00000000000'',
     ''000000000000'', ''1234567890'', ''12345678900'', ''-'', ''0'']"

text \<open>Map iteration has no order; the result is sorted, so none matters.\<close>

definition legacy_keys_of :: "row \<Rightarrow> string list" where
  "legacy_keys_of r = sort (dedupe_from [] (map snd (filter (\<lambda>ck. boolean r (fst ck)) legacy_permissions)))"

section \<open>Helpers\<close>

definition clamp :: "string \<Rightarrow> nat \<Rightarrow> string" where
  "clamp v n = (if length v \<le> n then v else trim_space (take n v))"

definition clamp_optional :: "string \<Rightarrow> nat \<Rightarrow> string option" where
  "clamp_optional v n = (if v = [] then None else Some (clamp v n))"

definition optional :: "string \<Rightarrow> string option" where
  "optional v = (if v = [] then None else Some v)"

fun first_non_empty_of :: "string list \<Rightarrow> string" where
  "first_non_empty_of [] = []"
| "first_non_empty_of (v # vs) = (if v \<noteq> [] then v else first_non_empty_of vs)"

definition or_now :: "reader \<Rightarrow> time option \<Rightarrow> time" where
  "or_now rd t = (case t of None \<Rightarrow> rd_now rd | Some u \<Rightarrow> u)"

definition float_or :: "reader \<Rightarrow> string \<Rightarrow> 64 word \<Rightarrow> 64 word" where
  "float_or rd v def = (if v = [] then def else case rd_scan rd v of None \<Rightarrow> def | Some f \<Rightarrow> f)"

definition int_of :: "reader \<Rightarrow> string \<Rightarrow> int" where
  "int_of rd v = rd_int rd (float_or rd v (rd_bits rd ''0''))"

definition language_of :: "string \<Rightarrow> string" where
  "language_of v = (if to_lower v = ''en'' then ''en'' else ''id'')"

definition alternative_phones :: "reader \<Rightarrow> row \<Rightarrow> string" where
  "alternative_phones rd r = rd_list rd (filter (\<lambda>v. v \<noteq> [])
     (map (row_get r) [''alternativePhone[0].phoneNumber'', ''alternativePhone[1].phoneNumber'']))"

definition deleted_at :: "reader \<Rightarrow> row \<Rightarrow> time option" where
  "deleted_at rd r = (if boolean r ''deleted'' then Some (or_now rd (time_of rd r ''updatedAt'')) else None)"

section \<open>Companies\<close>

record legacy_settings =
  ls_cancel_validate :: bool
  ls_geofencing :: bool
  ls_verified_only :: bool
  ls_strict :: bool
  ls_ppn :: "64 word"
  ls_pph23 :: "64 word"
  ls_unloading_pic :: bool
  ls_radius :: "64 word"

record company_row =
  cw_id :: uuid
  cw_legacy :: string
  cw_name :: string
  cw_role :: string
  cw_npwp :: "string option"
  cw_address :: "string option"
  cw_city :: "string option"
  cw_profile :: "string option"
  cw_settings :: legacy_settings
  cw_bank :: "string option"
  cw_verified :: bool
  cw_deleted :: "time option"
  cw_created :: time

definition company_role_of :: "string \<Rightarrow> string" where
  "company_role_of raw =
     (let role = fst (canonical_role raw) in
      if role = ''transporter'' \<or> role = ''driver'' then ''transporter''
      else if role = ''shipper'' \<or> role = ''warehousePic'' \<or> role = ''manager'' then ''shipper''
      else if role = [] then ''shipper'' else role)"

definition build_company :: "reader \<Rightarrow> uuid \<Rightarrow> row \<Rightarrow> company_row" where
  "build_company rd i r =
     \<lparr>cw_id = i, cw_legacy = row_get r ''_id'',
      cw_name = clamp (first_non_empty_of [row_get r ''fullName'', row_get r ''username'', row_get r ''_id'']) 255,
      cw_role = company_role_of (row_get r ''role''), cw_npwp = clamp_optional (row_get r ''noNpwp'') 32,
      cw_address = optional (row_get r ''address''), cw_city = clamp_optional (row_get r ''city'') 64,
      cw_profile = optional (row_get r ''companyProfile''),
      cw_settings =
        \<lparr>ls_cancel_validate = boolean r ''setting.isCancelWithValidate'',
         ls_geofencing = boolean r ''setting.isFinishWithGeofencing'',
         ls_verified_only = boolean r ''setting.activeAgreementVerifiedOnly'',
         ls_strict = boolean r ''useStrictAgreement'',
         ls_ppn = float_or rd (row_get r ''setting.ppnPercentage'') (rd_bits rd ''0.02''),
         ls_pph23 = float_or rd (row_get r ''setting.pph23Percentage'') (rd_bits rd ''0.11''),
         ls_unloading_pic = boolean r ''setting.orderUnloadingVerifyPic'',
         ls_radius = float_or rd (row_get r ''setting.detectLocationRadius'') (rd_bits rd ''0'')\<rparr>,
      cw_bank = (let name = first_non_empty_of [row_get r ''bankAccount.name'', row_get r ''bankAccount:.name''] in
        if name \<noteq> [] then Some (rd_object rd [(''name'', name),
          (''number'', first_non_empty_of [row_get r ''bankAccount.number'', row_get r ''bankAccount:.number'']),
          (''behalfOf'', first_non_empty_of [row_get r ''bankAccount.behalfOf'', row_get r ''bankAccount:.behalfOf''])])
          else None),
      cw_verified = boolean r ''verifiedProfile'', cw_deleted = deleted_at rd r,
      cw_created = or_now rd (time_of rd r ''createdAt'')\<rparr>"

text \<open>Pass 1: an account without a parent is a company; the n-th uuid goes to the n-th of them.\<close>

definition roots :: "row list \<Rightarrow> row list" where
  "roots rows = filter (\<lambda>r. row_get r ''parent'' = []) rows"

definition built_companies :: "reader \<Rightarrow> row list \<Rightarrow> company_row list" where
  "built_companies rd rows = map (\<lambda>(n, r). build_company rd (rd_uuid rd n) r) (enumerate 0 (roots rows))"

text \<open>The maps a loop fills: a later row with the same id replaces an earlier one.\<close>

definition company_ids :: "reader \<Rightarrow> row list \<Rightarrow> string \<rightharpoonup> uuid" where
  "company_ids rd rows = map_of (rev (map (\<lambda>c. (cw_legacy c, cw_id c)) (built_companies rd rows)))"

definition by_legacy :: "row list \<Rightarrow> string \<rightharpoonup> row" where
  "by_legacy rows = map_of (rev (map (\<lambda>r. (row_get r ''_id'', r)) rows))"

section \<open>The root of a chain\<close>

definition parent_of :: "row list \<Rightarrow> string \<Rightarrow> string" where
  "parent_of rows i = (case by_legacy rows i of None \<Rightarrow> [] | Some r \<Rightarrow> row_get r ''parent'')"

definition warn_circular :: string where "warn_circular = ''parent chain is circular''"
definition warn_missing :: string where "warn_missing = ''parent id missing from the export''"

lemma finite_by_legacy: "finite (dom (by_legacy rows))"
  by (simp add: by_legacy_def finite_dom_map_of)

text \<open>The loop of pass 2, with the ids seen so far.\<close>

function walk :: "row list \<Rightarrow> string list \<Rightarrow> string \<Rightarrow> string \<times> string list" where
  "walk rows seen cur =
     (if cur \<in> set seen then (cur, [warn_circular])
      else let parent = parent_of rows cur in
        if parent = [] then (cur, [])
        else if Option.is_none (by_legacy rows parent) then (cur, [warn_missing])
        else walk rows (cur # seen) parent)"
  by pat_completeness auto
termination
proof (relation "measure (\<lambda>(rows, seen, cur). 2 * card (dom (by_legacy rows) - set seen) +
    (if cur \<in> dom (by_legacy rows) then 0 else 1))")
  fix rows :: "row list" and seen :: "string list" and cur parent :: string
  assume c: "cur \<notin> set seen" "\<not> Option.is_none (by_legacy rows parent)"
  let ?D = "dom (by_legacy rows)"
  have "card (?D - set (cur # seen)) \<le> card (?D - set seen)"
    using finite_by_legacy by (intro card_mono) auto
  moreover have "card (?D - set (cur # seen)) < card (?D - set seen)" if "cur \<in> ?D"
    using that c finite_by_legacy by (intro psubset_card_mono) auto
  ultimately show "((rows, cur # seen, parent), rows, seen, cur) \<in> measure (\<lambda>(rows, seen, cur).
      2 * card (dom (by_legacy rows) - set seen) + (if cur \<in> dom (by_legacy rows) then 0 else 1))"
    using c(2) by (auto simp: Option.is_none_def)
qed simp

declare walk.simps [simp del]

definition root_of :: "row list \<Rightarrow> string \<Rightarrow> string" where
  "root_of rows i = fst (walk rows [] i)"

section \<open>Duplicate identifiers\<close>

text \<open>Pass 3: the entries of a column, lower-cased, with the account and its age.\<close>

definition entries :: "reader \<Rightarrow> row list \<Rightarrow> string \<Rightarrow> bool \<Rightarrow> (string \<times> string \<times> time) list" where
  "entries rd rows col drop_placeholders =
     filter (\<lambda>e. fst e \<noteq> [] \<and> \<not> (drop_placeholders \<and> fst e \<in> set placeholder_phones))
       (map (\<lambda>r. (to_lower (row_get r col), row_get r ''_id'', or_now rd (time_of rd r ''createdAt''))) rows)"

definition sharing :: "(string \<times> string \<times> time) list \<Rightarrow> string \<Rightarrow> (string \<times> time) list" where
  "sharing es v = map snd (filter (\<lambda>e. fst e = v) es)"

definition resolve_duplicates :: "reader \<Rightarrow> row list \<Rightarrow> string \<Rightarrow> bool \<Rightarrow> string list" where
  "resolve_duplicates rd rows col drop_placeholders =
     (let es = entries rd rows col drop_placeholders
      in map (\<lambda>v. fst (hd (rd_sort rd (sharing es v)))) (dedupe_from [] (map fst es)))"

text \<open>How often the warning of the column is raised.\<close>

definition lost_identifiers :: "reader \<Rightarrow> row list \<Rightarrow> string \<Rightarrow> bool \<Rightarrow> nat" where
  "lost_identifiers rd rows col drop_placeholders =
     (let es = entries rd rows col drop_placeholders
      in sum_list (map (\<lambda>v. length (sharing es v) - 1) (dedupe_from [] (map fst es))))"

section \<open>Accounts\<close>

record user_row =
  uw_id :: uuid
  uw_legacy :: string
  uw_company_legacy :: string
  uw_company :: "uuid option"
  uw_parent :: string
  uw_username :: "string option"
  uw_email :: "string option"
  uw_phone :: "string option"
  uw_password_hash :: string
  uw_full_name :: "string option"
  uw_role :: string
  uw_admin :: bool
  uw_address :: "string option"
  uw_city :: "string option"
  uw_photo :: "string option"
  uw_language :: string
  uw_alt_phones :: string
  uw_email_ok :: bool
  uw_phone_ok :: bool
  uw_verified :: bool
  uw_suspended :: bool
  uw_staff :: bool
  uw_rating :: "64 word option"
  uw_rating_count :: int
  uw_deleted :: "time option"
  uw_created :: time
  uw_updated :: time

record access_row =
  aw_user :: string
  aw_role :: string
  aw_permissions :: "string list"

definition row_role :: "row \<Rightarrow> string" where
  "row_role r = (let role = fst (canonical_role (row_get r ''role'')) in if role = [] then ''shipper'' else role)"

record kept_ids =
  kp_email :: "string list"
  kp_username :: "string list"
  kp_phone :: "string list"

definition kept :: "reader \<Rightarrow> row list \<Rightarrow> kept_ids" where
  "kept rd rows = \<lparr>kp_email = resolve_duplicates rd rows ''email'' False,
     kp_username = resolve_duplicates rd rows ''username'' False,
     kp_phone = resolve_duplicates rd rows ''phone'' True\<rparr>"

definition build_user :: "reader \<Rightarrow> row list \<Rightarrow> kept_ids \<Rightarrow> uuid \<Rightarrow> row \<Rightarrow> user_row" where
  "build_user rd rows kp uid r =
     (let i = row_get r ''_id'';
          root = root_of rows i;
          cid = company_ids rd rows root
      in \<lparr>uw_id = uid, uw_legacy = i,
          uw_company_legacy = (if cid = None then [] else root), uw_company = cid,
          uw_parent = row_get r ''parent'',
          uw_username = (if row_get r ''username'' \<noteq> [] \<and> i \<in> set (kp_username kp)
                         then Some (row_get r ''username'') else None),
          uw_email = (if row_get r ''email'' \<noteq> [] \<and> i \<in> set (kp_email kp)
                      then Some (to_lower (row_get r ''email'')) else None),
          uw_phone = (if row_get r ''phone'' \<noteq> [] \<and> i \<in> set (kp_phone kp)
                      then clamp_optional (row_get r ''phone'') 32 else None),
          uw_password_hash = row_get r ''password'', uw_full_name = clamp_optional (row_get r ''fullName'') 255,
          uw_role = row_role r, uw_admin = (row_get r ''parent'' = []),
          uw_address = optional (row_get r ''address''), uw_city = clamp_optional (row_get r ''city'') 64,
          uw_photo = optional (row_get r ''fotoProfile''), uw_language = language_of (row_get r ''lang''),
          uw_alt_phones = alternative_phones rd r, uw_email_ok = boolean r ''isEmailVerified'',
          uw_phone_ok = boolean r ''isPhoneVerified'', uw_verified = boolean r ''isVerified'',
          uw_suspended = boolean r ''isSuspend'', uw_staff = snd (canonical_role (row_get r ''role'')),
          uw_rating = number_of rd r ''ratingSummary.average'',
          uw_rating_count = int_of rd (row_get r ''ratingSummary.totalReviews''),
          uw_deleted = deleted_at rd r, uw_created = or_now rd (time_of rd r ''createdAt''),
          uw_updated = or_now rd (time_of rd r ''updatedAt'')\<rparr>)"

definition build_access_row :: "row \<Rightarrow> access_row" where
  "build_access_row r = \<lparr>aw_user = row_get r ''_id'', aw_role = row_role r,
     aw_permissions = (if row_get r ''parent'' = [] then [] else legacy_keys_of r)\<rparr>"

record plan =
  pl_companies :: "company_row list"
  pl_users :: "user_row list"
  pl_access :: "access_row list"
  pl_warnings :: "string list"             \<comment> \<open>one entry per count\<close>

definition build :: "reader \<Rightarrow> row list \<Rightarrow> plan" where
  "build rd rows =
     (let first_user = length (roots rows); kp = kept rd rows in
      \<lparr>pl_companies = built_companies rd rows,
       pl_users = map (\<lambda>(n, r). build_user rd rows kp (rd_uuid rd n) r) (enumerate first_user rows),
       pl_access = map build_access_row rows,
       pl_warnings = concat (map (\<lambda>r. snd (walk rows [] (row_get r ''_id''))) rows) @
         concat (map (\<lambda>cd. replicate (lost_identifiers rd rows (fst cd) (snd cd))
             (fst cd @ '' shared by several accounts; kept the oldest''))
           [(''email'', False), (''username'', False), (''phone'', True)]) @
         concat (map (\<lambda>r. if fst (canonical_role (row_get r ''role'')) = []
             then [''no usable role, imported as shipper''] else []) rows)\<rparr>)"

section \<open>Who keeps an identifier\<close>

lemma lower_char_idem [simp]: "lower_char (lower_char c) = lower_char c"
  by (auto simp: lower_char_def is_upper_def in_range_def)

lemma to_lower_idem [simp]: "to_lower (to_lower v) = to_lower v"
  by (simp add: to_lower_def)

text \<open>What sort.Slice promises of the comparison used: a permutation in order of age.\<close>

definition sorts_by_age :: "((string \<times> time) list \<Rightarrow> (string \<times> time) list) \<Rightarrow> bool" where
  "sorts_by_age f \<longleftrightarrow> (\<forall>l. mset (f l) = mset l \<and> sorted (map snd (f l)))"

definition legacy_id :: "row \<Rightarrow> string" where
  "legacy_id r = row_get r ''_id''"

definition born :: "reader \<Rightarrow> row \<Rightarrow> time" where
  "born rd r = or_now rd (time_of rd r ''createdAt'')"

lemma to_lower_Nil [simp]: "to_lower v = [] \<longleftrightarrow> v = []"
  by (simp add: to_lower_def)

definition carries :: "string \<Rightarrow> bool \<Rightarrow> string \<Rightarrow> row \<Rightarrow> bool" where
  "carries col drop_placeholders v r \<longleftrightarrow>
     to_lower (row_get r col) = v \<and> v \<noteq> [] \<and> \<not> (drop_placeholders \<and> v \<in> set placeholder_phones)"

lemma set_entries:
  "set (entries rd rows col d) = {(v, legacy_id r, born rd r) | v r. r \<in> set rows \<and> carries col d v r}"
  by (auto simp: entries_def carries_def legacy_id_def born_def image_iff)

lemma set_sharing:
  "set (sharing (entries rd rows col d) v) = {(legacy_id r, born rd r) | r. r \<in> set rows \<and> carries col d v r}"
proof -
  have "set (sharing es v) = {e. (v, e) \<in> set es}" for es
    by (force simp: sharing_def)
  then show ?thesis by (auto simp: set_entries)
qed

text \<open>The winner of a value: an account that carries it, none of the others older.\<close>

lemma oldest_of:
  assumes "sorts_by_age f" "l \<noteq> []"
  shows "hd (f l) \<in> set l" "\<And>e. e \<in> set l \<Longrightarrow> snd (hd (f l)) \<le> snd e"
proof -
  have m: "mset (f l) = mset l" and s: "sorted (map snd (f l))" using assms(1) by (auto simp: sorts_by_age_def)
  then have set: "set (f l) = set l" by (metis set_mset_mset)
  with assms(2) have ne: "f l \<noteq> []" by force
  then show "hd (f l) \<in> set l" using set hd_in_set by metis
  fix e assume "e \<in> set l"
  with set have "e \<in> set (f l)" by simp
  with s ne show "snd (hd (f l)) \<le> snd e" by (cases "f l") auto
qed

lemma resolved:
  assumes s: "sorts_by_age (rd_sort rd)" and r: "r \<in> set rows" "carries col d v r"
  obtains w where "w \<in> set rows" "carries col d v w" "born rd w \<le> born rd r"
    "fst (hd (rd_sort rd (sharing (entries rd rows col d) v))) = legacy_id w"
proof -
  let ?l = "sharing (entries rd rows col d) v"
  have in_l: "(legacy_id r, born rd r) \<in> set ?l" using r by (auto simp: set_sharing)
  then have ne: "?l \<noteq> []" by auto
  from oldest_of(1) [OF s ne] obtain w where w: "w \<in> set rows" "carries col d v w"
    "hd (rd_sort rd ?l) = (legacy_id w, born rd w)" by (auto simp: set_sharing)
  have "born rd w \<le> born rd r" using oldest_of(2) [OF s ne in_l] w(3) by simp
  with w that show thesis by simp
qed

lemma set_resolve_duplicates:
  "set (resolve_duplicates rd rows col d) =
     {fst (hd (rd_sort rd (sharing (entries rd rows col d) v))) | v. \<exists>r \<in> set rows. carries col d v r}"
  by (auto simp: resolve_duplicates_def Let_def set_dedupe_from set_entries image_iff) blast+

lemma same_row:
  "distinct (map legacy_id rows) \<Longrightarrow> x \<in> set rows \<Longrightarrow> y \<in> set rows \<Longrightarrow> legacy_id x = legacy_id y \<Longrightarrow> x = y"
  by (auto simp: distinct_map inj_on_def)

lemma kept_wins:
  assumes s: "sorts_by_age (rd_sort rd)" and d: "distinct (map legacy_id rows)"
    and w: "w \<in> set rows" "legacy_id w \<in> set (resolve_duplicates rd rows col d)"
  obtains v where "carries col d v w" "fst (hd (rd_sort rd (sharing (entries rd rows col d) v))) = legacy_id w"
proof -
  from w(2) obtain v q where q: "q \<in> set rows" "carries col d v q"
    "legacy_id w = fst (hd (rd_sort rd (sharing (entries rd rows col d) v)))"
    by (auto simp: set_resolve_duplicates)
  from resolved [OF s q(1,2)] obtain x where x: "x \<in> set rows" "carries col d v x"
    "fst (hd (rd_sort rd (sharing (entries rd rows col d) v))) = legacy_id x" .
  with q(3) same_row [OF d w(1), of x] have "carries col d v w" by simp
  with q(3) that show thesis by simp
qed

lemma kept_once:
  assumes s: "sorts_by_age (rd_sort rd)" and d: "distinct (map legacy_id rows)" and r: "r \<in> set rows" "carries col d v r"
  shows "\<exists>w \<in> set rows. carries col d v w \<and> legacy_id w \<in> set (resolve_duplicates rd rows col d) \<and> born rd w \<le> born rd r \<and>
    (\<forall>w' \<in> set rows. carries col d v w' \<and> legacy_id w' \<in> set (resolve_duplicates rd rows col d) \<longrightarrow> w' = w)"
proof -
  from resolved [OF s r] obtain w where w: "w \<in> set rows" "carries col d v w" "born rd w \<le> born rd r"
    "fst (hd (rd_sort rd (sharing (entries rd rows col d) v))) = legacy_id w" .
  have win: "legacy_id w \<in> set (resolve_duplicates rd rows col d)" using w r by (force simp: set_resolve_duplicates)
  have "w' = w" if w': "w' \<in> set rows" "carries col d v w'" "legacy_id w' \<in> set (resolve_duplicates rd rows col d)" for w'
  proof -
    from kept_wins [OF s d w'(1,3)] obtain v' where v': "carries col d v' w'"
      "fst (hd (rd_sort rd (sharing (entries rd rows col d) v'))) = legacy_id w'" .
    with w'(2) have "v' = v" by (simp add: carries_def)
    with v'(2) w(4) show ?thesis using same_row [OF d w'(1) w(1)] by simp
  qed
  with w win show ?thesis by blast
qed

text \<open>The accounts of the plan, row by row.\<close>

definition planned :: "reader \<Rightarrow> row list \<Rightarrow> user_row \<Rightarrow> row \<Rightarrow> bool" where
  "planned rd rows u r \<longleftrightarrow> r \<in> set rows \<and> (\<exists>n < length rows. rows ! n = r \<and>
     u = build_user rd rows (kept rd rows) (rd_uuid rd (length (roots rows) + n)) r)"

lemma set_planned: "u \<in> set (pl_users (build rd rows)) \<longleftrightarrow> (\<exists>r. planned rd rows u r)"
  by (force simp: build_def Let_def planned_def enumerate_eq_zip in_set_zip set_zip in_set_conv_nth)

lemma planned_unique:
  assumes "distinct (map legacy_id rows)" "planned rd rows u r" "planned rd rows u' r"
  shows "u = u'"
proof -
  from assms(1) have "distinct rows" by (simp add: distinct_map)
  with assms(2,3) show ?thesis by (auto simp: planned_def nth_eq_iff_index_eq)
qed

lemma planned_exists: "r \<in> set rows \<Longrightarrow> \<exists>u. planned rd rows u r"
  by (auto simp: planned_def in_set_conv_nth)

lemma distinct_singleton: "distinct xs \<Longrightarrow> set xs = {x} \<Longrightarrow> xs = [x]"
  by (cases xs; cases "tl xs") auto

lemma legacy_of_users: "map uw_legacy (pl_users (build rd rows)) = map legacy_id rows"
  by (rule nth_equalityI) (simp_all add: build_def Let_def build_user_def legacy_id_def nth_enumerate_eq)

lemma distinct_users: "distinct (map legacy_id rows) \<Longrightarrow> distinct (pl_users (build rd rows))"
  by (rule distinct_map [THEN iffD1, THEN conjunct1, of uw_legacy]) (simp only: legacy_of_users)

text \<open>An identifier that an account is given when it is kept is held by one account of the plan.\<close>

lemma one_holder:
  assumes s: "sorts_by_age (rd_sort rd)" and d: "distinct (map legacy_id rows)" and r: "r \<in> set rows" "carries col d v r"
    and sel: "\<And>u w. planned rd rows u w \<Longrightarrow>
      P u \<longleftrightarrow> carries col d v w \<and> legacy_id w \<in> set (resolve_duplicates rd rows col d)"
  shows "\<exists>u. filter P (pl_users (build rd rows)) = [u] \<and> uw_created u \<le> born rd r"
proof -
  from kept_once [OF s d r] obtain w where w: "w \<in> set rows" "carries col d v w" "born rd w \<le> born rd r"
      "legacy_id w \<in> set (resolve_duplicates rd rows col d)"
    and only: "\<And>w'. w' \<in> set rows \<Longrightarrow> carries col d v w' \<Longrightarrow>
      legacy_id w' \<in> set (resolve_duplicates rd rows col d) \<Longrightarrow> w' = w" by blast
  from planned_exists [OF w(1)] obtain u where u: "planned rd rows u w" ..
  have "u' \<in> set (pl_users (build rd rows)) \<and> P u' \<longleftrightarrow> u' = u" for u'
  proof
    assume "u' \<in> set (pl_users (build rd rows)) \<and> P u'"
    then obtain w' where w': "planned rd rows u' w'" "P u'" by (auto simp: set_planned)
    moreover from w' sel have "w' = w" by (intro only) (auto simp: planned_def)
    ultimately show "u' = u" using planned_unique [OF d] u by blast
  next
    assume "u' = u"
    with u w sel show "u' \<in> set (pl_users (build rd rows)) \<and> P u'" by (auto simp: set_planned)
  qed
  then have members: "u' \<in> set (pl_users (build rd rows)) \<and> P u' \<longleftrightarrow> u' = u" for u' .
  have "uw_created u \<le> born rd r" using u w(3) by (auto simp: planned_def build_user_def Let_def born_def)
  from members have "set (filter P (pl_users (build rd rows))) = {u}" by auto
  with distinct_users [OF d] have "filter P (pl_users (build rd rows)) = [u]" by (intro distinct_singleton) simp_all
  with \<open>uw_created u \<le> born rd r\<close> show ?thesis by blast
qed

lemma planned_identifiers:
  assumes "planned rd rows u w"
  shows "uw_email u = (if row_get w ''email'' \<noteq> [] \<and> legacy_id w \<in> set (resolve_duplicates rd rows ''email'' False)
      then Some (to_lower (row_get w ''email'')) else None)"
    "uw_username u = (if row_get w ''username'' \<noteq> [] \<and> legacy_id w \<in> set (resolve_duplicates rd rows ''username'' False)
      then Some (row_get w ''username'') else None)"
    "uw_phone u = (if row_get w ''phone'' \<noteq> [] \<and> legacy_id w \<in> set (resolve_duplicates rd rows ''phone'' True)
      then clamp_optional (row_get w ''phone'') 32 else None)"
  using assms by (auto simp: planned_def build_user_def kept_def Let_def legacy_id_def)

lemma email_selected:
  assumes "planned rd rows u w"
  shows "map_option to_lower (uw_email u) = Some v \<longleftrightarrow>
    carries ''email'' False v w \<and> legacy_id w \<in> set (resolve_duplicates rd rows ''email'' False)"
  unfolding planned_identifiers(1) [OF assms] by (auto simp: carries_def)

lemma username_selected:
  assumes "planned rd rows u w"
  shows "map_option to_lower (uw_username u) = Some v \<longleftrightarrow>
    carries ''username'' False v w \<and> legacy_id w \<in> set (resolve_duplicates rd rows ''username'' False)"
  unfolding planned_identifiers(2) [OF assms] by (auto simp: carries_def)

text \<open>A phone number loses its tail when it is longer than its column; shorter ones are kept whole.\<close>

lemma phone_selected:
  assumes "planned rd rows u w" "sorts_by_age (rd_sort rd)" "distinct (map legacy_id rows)"
    and "list_all (\<lambda>q. length (row_get q ''phone'') \<le> 32) rows"
  shows "map_option to_lower (uw_phone u) = Some v \<longleftrightarrow>
    carries ''phone'' True v w \<and> legacy_id w \<in> set (resolve_duplicates rd rows ''phone'' True)"
proof -
  from assms have short: "length (row_get w ''phone'') \<le> 32" by (auto simp: planned_def list_all_iff)
  have "legacy_id w \<notin> set (resolve_duplicates rd rows ''phone'' True)"
    if "to_lower (row_get w ''phone'') \<in> set placeholder_phones"
  proof
    assume kept: "legacy_id w \<in> set (resolve_duplicates rd rows ''phone'' True)"
    have "w \<in> set rows" using assms(1) by (simp add: planned_def)
    from kept_wins [OF assms(2,3) this kept] obtain v' where "carries ''phone'' True v' w" .
    with that show False by (auto simp: carries_def)
  qed
  then show ?thesis unfolding planned_identifiers(3) [OF assms(1)] using short
    by (auto simp: carries_def clamp_optional_def clamp_def)
qed

definition held_once :: "reader \<Rightarrow> row list \<Rightarrow> (user_row \<Rightarrow> string option) \<Rightarrow> string \<Rightarrow> row \<Rightarrow> bool" where
  "held_once rd rows sel v r \<longleftrightarrow>
     (case filter (\<lambda>u. map_option to_lower (sel u) = Some v) (pl_users (build rd rows)) of
        [u] \<Rightarrow> uw_created u \<le> born rd r | _ \<Rightarrow> False)"

lemma held_onceI:
  assumes "sorts_by_age (rd_sort rd)" "distinct (map legacy_id rows)" "r \<in> set rows" "carries col d v r"
    and "\<And>u w. planned rd rows u w \<Longrightarrow> map_option to_lower (sel u) = Some v \<longleftrightarrow>
      carries col d v w \<and> legacy_id w \<in> set (resolve_duplicates rd rows col d)"
  shows "held_once rd rows sel v r"
  using one_holder [OF assms(1-4), of "\<lambda>u. map_option to_lower (sel u) = Some v"] assms(5)
  by (auto simp: held_once_def)

text \<open>
  C32. However many legacy accounts share an e-mail address, a user name or a phone
  number, letter case aside, exactly one account of the plan holds it and no account
  that carried it is older: nothing is lost, and the unique indexes cannot refuse
  the import. The numbers people typed to fill a required field are held by nobody.
  (The legacy ids are unique and no phone is longer than its column.)
\<close>
theorem import_identifiers_resolved:
  assumes "sorts_by_age (rd_sort rd)" "distinct (map legacy_id rows)" "list_all (\<lambda>q. length (row_get q ''phone'') \<le> 32) rows"
    and "r \<in> set rows"
  shows "(row_get r ''email'' \<noteq> [] \<longrightarrow> held_once rd rows uw_email (to_lower (row_get r ''email'')) r) \<and>
    (row_get r ''username'' \<noteq> [] \<longrightarrow> held_once rd rows uw_username (to_lower (row_get r ''username'')) r) \<and>
    (row_get r ''phone'' \<noteq> [] \<longrightarrow>
      (if to_lower (row_get r ''phone'') \<in> set placeholder_phones
       then filter (\<lambda>u. map_option to_lower (uw_phone u) = Some (to_lower (row_get r ''phone''))) (pl_users (build rd rows)) = []
       else held_once rd rows uw_phone (to_lower (row_get r ''phone'')) r))"
proof (intro conjI impI)
  assume "row_get r ''email'' \<noteq> []"
  then show "held_once rd rows uw_email (to_lower (row_get r ''email'')) r"
    using assms by (intro held_onceI [OF _ _ _ _ email_selected]) (auto simp: carries_def)
next
  assume "row_get r ''username'' \<noteq> []"
  then show "held_once rd rows uw_username (to_lower (row_get r ''username'')) r"
    using assms by (intro held_onceI [OF _ _ _ _ username_selected]) (auto simp: carries_def)
next
  assume p: "row_get r ''phone'' \<noteq> []"
  note sel = phone_selected [OF _ assms(1,2,3)]
  show "if to_lower (row_get r ''phone'') \<in> set placeholder_phones
       then filter (\<lambda>u. map_option to_lower (uw_phone u) = Some (to_lower (row_get r ''phone''))) (pl_users (build rd rows)) = []
       else held_once rd rows uw_phone (to_lower (row_get r ''phone'')) r"
  proof (cases "to_lower (row_get r ''phone'') \<in> set placeholder_phones")
    case True
    then have "\<not> carries ''phone'' True (to_lower (row_get r ''phone'')) w" for w by (auto simp: carries_def)
    then have "map_option to_lower (uw_phone u) \<noteq> Some (to_lower (row_get r ''phone''))"
      if "planned rd rows u w" for u w using sel [OF that] by blast
    then show ?thesis unfolding if_P [OF True] filter_empty_conv using set_planned [of _ rd rows] by blast
  next
    case False
    with p assms show ?thesis by (auto intro!: held_onceI [OF _ _ _ _ sel] simp: carries_def)
  qed
qed

definition demo_legacy :: "string \<Rightarrow> string \<Rightarrow> string \<Rightarrow> string \<Rightarrow> row" where
  "demo_legacy i parent email created = (\<lambda>_. [])(''_id'' := i, ''parent'' := parent, ''email'' := email,
     ''createdAt'' := created)"

fun insert_by_age :: "string \<times> time \<Rightarrow> (string \<times> time) list \<Rightarrow> (string \<times> time) list" where
  "insert_by_age x [] = [x]"
| "insert_by_age x (y # ys) = (if snd x \<le> snd y then x # y # ys else y # insert_by_age x ys)"

definition demo_reader :: reader where
  "demo_reader = \<lparr>rd_time = (\<lambda>t. Some (int (length t))), rd_float = (\<lambda>_. None), rd_scan = (\<lambda>_. None),
     rd_int = sint, rd_bits = (\<lambda>_. 0),
     rd_object = (\<lambda>_. ''{}''), rd_list = (\<lambda>_. ''[]''), rd_now = 1000, rd_uuid = (\<lambda>n. 10 + n), rd_sort = (\<lambda>l. foldr insert_by_age l [])\<rparr>"

definition demo_rows :: "row list" where
  "demo_rows = [demo_legacy ''r'' [] ''A@x'' ''yyy'', demo_legacy ''b'' ''r'' [] [],
     demo_legacy ''p'' ''b'' ''a@X'' ''yy'', demo_legacy ''l'' ''l'' [] []]"

lemma insert_by_age_sorts: "mset (insert_by_age x l) = add_mset x (mset l)"
    "sorted (map snd l) \<Longrightarrow> sorted (map snd (insert_by_age x l))"
proof -
  show m: "mset (insert_by_age x l) = add_mset x (mset l)" for l by (induction l) auto
  have "set (insert_by_age x l) = insert x (set l)" for l using m [of l] by (metis set_mset_add_mset_insert set_mset_mset)
  then show "sorted (map snd l) \<Longrightarrow> sorted (map snd (insert_by_age x l))" by (induction l) auto
qed

lemma demo_reader_sorts: "sorts_by_age (rd_sort demo_reader)"
proof -
  have "mset (foldr insert_by_age l []) = mset l \<and> sorted (map snd (foldr insert_by_age l []))" for l
    by (induction l) (auto simp: insert_by_age_sorts)
  then show ?thesis by (simp add: sorts_by_age_def demo_reader_def)
qed

theorem import_identifiers_resolved_witness:
  "map (\<lambda>u. (uw_legacy u, uw_email u)) (pl_users (build demo_reader demo_rows)) =
     [(''r'', None), (''b'', None), (''p'', Some ''a@x''), (''l'', None)] \<and>
   held_once demo_reader demo_rows uw_email ''a@x'' (hd demo_rows)"
proof
  have "distinct (map legacy_id demo_rows)" "list_all (\<lambda>q. length (row_get q ''phone'') \<le> 32) demo_rows" by code_simp+
  moreover have "hd demo_rows \<in> set demo_rows" by (simp add: demo_rows_def)
  moreover have "to_lower (row_get (hd demo_rows) ''email'') = ''a@x''" "row_get (hd demo_rows) ''email'' \<noteq> []" by code_simp+
  ultimately show "held_once demo_reader demo_rows uw_email ''a@x'' (hd demo_rows)"
    using import_identifiers_resolved [OF demo_reader_sorts, of demo_rows "hd demo_rows"] by simp
qed code_simp

section \<open>Whose tenant\<close>

text \<open>The edge from an account to its parent, where the parent is in the export.\<close>

definition parents :: "row list \<Rightarrow> (string \<times> string) set" where
  "parents rows = {(i, parent_of rows i) | i. parent_of rows i \<noteq> [] \<and> by_legacy rows (parent_of rows i) \<noteq> None}"

lemma parents_iff:
  "(i, j) \<in> parents rows \<longleftrightarrow> j = parent_of rows i \<and> parent_of rows i \<noteq> [] \<and> by_legacy rows (parent_of rows i) \<noteq> None"
  by (auto simp: parents_def)

text \<open>From a circle no row without a parent is reached.\<close>

lemma circle_closed:
  assumes "(x, c) \<in> (parents rows)\<^sup>*" "(x, x) \<in> (parents rows)\<^sup>+"
  shows "(c, c) \<in> (parents rows)\<^sup>+"
  using assms
proof (induction rule: rtrancl_induct)
  case (step y z)
  from step have "(y, y) \<in> (parents rows)\<^sup>+" by simp
  then obtain w where "(y, w) \<in> parents rows" "(w, y) \<in> (parents rows)\<^sup>*" by (meson tranclD)
  moreover from this step(2) have "w = z" by (simp add: parents_iff)
  ultimately show ?case using step(2) by auto
qed simp

lemma walk_reaches: "(cur, fst (walk rows seen cur)) \<in> (parents rows)\<^sup>*"
proof (induction rows seen cur rule: walk.induct)
  case (1 rows seen cur)
  show ?case
  proof (cases "cur \<in> set seen \<or> parent_of rows cur = [] \<or> by_legacy rows (parent_of rows cur) = None")
    case True
    then show ?thesis by (subst walk.simps) (auto simp: Let_def Option.is_none_def)
  next
    case False
    then have "(parent_of rows cur, fst (walk rows (cur # seen) (parent_of rows cur))) \<in> (parents rows)\<^sup>*"
      using 1 by (simp add: Option.is_none_def)
    moreover have "(cur, parent_of rows cur) \<in> parents rows" using False by (simp add: parents_iff)
    ultimately show ?thesis using False
      by (subst walk.simps) (auto simp: Let_def Option.is_none_def intro: converse_rtrancl_into_rtrancl)
  qed
qed

lemma walk_stops_at_root:
  assumes "(cur, c) \<in> (parents rows)\<^sup>*" "parent_of rows c = []" "\<And>x. x \<in> set seen \<Longrightarrow> (x, cur) \<in> (parents rows)\<^sup>+"
  shows "fst (walk rows seen cur) = c"
  using assms
proof (induction rows seen cur rule: walk.induct)
  case (1 rows seen cur)
  have fresh: "cur \<notin> set seen"
  proof
    assume "cur \<in> set seen"
    then have "(c, c) \<in> (parents rows)\<^sup>+" using 1 circle_closed by blast
    then obtain w where "(c, w) \<in> parents rows" by (meson tranclD)
    with 1 show False by (simp add: parents_iff)
  qed
  from 1(2) show ?case
  proof (cases rule: converse_rtranclE)
    case base
    with 1(3) fresh show ?thesis by (subst walk.simps) simp
  next
    case (step y)
    then have y: "y = parent_of rows cur" "y \<noteq> []" "by_legacy rows y \<noteq> None" by (auto simp: parents_iff)
    have "(x, y) \<in> (parents rows)\<^sup>+" if "x \<in> set (cur # seen)" for x
      using that 1(4) step(1) by (auto intro: trancl_into_trancl)
    then have "fst (walk rows (cur # seen) y) = c"
      using 1(1) [OF fresh y(1)] y 1(3) step(2) by (simp add: Option.is_none_def)
    with fresh y show ?thesis by (subst walk.simps) (auto simp: Let_def Option.is_none_def)
  qed
qed

lemma by_legacy_row:
  "distinct (map legacy_id rows) \<Longrightarrow> by_legacy rows i = Some r \<longleftrightarrow> r \<in> set rows \<and> legacy_id r = i"
proof -
  assume d: "distinct (map legacy_id rows)"
  then have "distinct (map fst (rev (map (\<lambda>r. (legacy_id r, r)) rows)))" by (simp add: rev_map [symmetric] comp_def)
  from map_of_eq_Some_iff [OF this] show "by_legacy rows i = Some r \<longleftrightarrow> r \<in> set rows \<and> legacy_id r = i"
    unfolding by_legacy_def legacy_id_def by auto
qed

lemma parent_of_row:
  "distinct (map legacy_id rows) \<Longrightarrow> r \<in> set rows \<Longrightarrow> parent_of rows (legacy_id r) = row_get r ''parent''"
  using by_legacy_row [of rows "legacy_id r" r] by (simp add: parent_of_def)

lemma planned_companies:
  "map cw_legacy (built_companies rd rows) = map legacy_id (roots rows)"
  by (rule nth_equalityI) (simp_all add: built_companies_def build_company_def legacy_id_def nth_enumerate_eq)

lemma company_ids_iff:
  assumes "distinct (map legacy_id rows)"
  shows "company_ids rd rows i = Some k \<longleftrightarrow> (\<exists>c \<in> set (built_companies rd rows). cw_legacy c = i \<and> cw_id c = k)"
proof -
  have "distinct (map legacy_id (roots rows))" using assms by (simp add: roots_def distinct_map_filter)
  then have "distinct (map cw_legacy (built_companies rd rows))" by (simp add: planned_companies)
  then have "distinct (map fst (rev (map (\<lambda>c. (cw_legacy c, cw_id c)) (built_companies rd rows))))"
    by (simp add: rev_map [symmetric] comp_def)
  from map_of_eq_Some_iff [OF this] show ?thesis unfolding company_ids_def by auto
qed

lemma company_of_root:
  assumes d: "distinct (map legacy_id rows)" and r: "r \<in> set rows" and c: "c \<in> set (built_companies rd rows)"
  shows "(legacy_id r, cw_legacy c) \<in> (parents rows)\<^sup>* \<longleftrightarrow> root_of rows (legacy_id r) = cw_legacy c"
proof
  assume "(legacy_id r, cw_legacy c) \<in> (parents rows)\<^sup>*"
  moreover have "cw_legacy c \<in> legacy_id ` set (roots rows)"
    using c planned_companies [of rd rows] by (metis image_eqI list.set_map)
  then have "parent_of rows (cw_legacy c) = []" using parent_of_row [OF d] by (auto simp: roots_def)
  ultimately show "root_of rows (legacy_id r) = cw_legacy c" unfolding root_of_def by (intro walk_stops_at_root) auto
next
  assume "root_of rows (legacy_id r) = cw_legacy c"
  with walk_reaches [of "legacy_id r" rows "[]"] show "(legacy_id r, cw_legacy c) \<in> (parents rows)\<^sup>*"
    by (simp add: root_of_def)
qed

lemma planned_place:
  assumes "planned rd rows u r"
  shows "uw_legacy u = legacy_id r" "uw_company u = company_ids rd rows (root_of rows (legacy_id r))"
    "uw_company_legacy u = (if uw_company u = None then [] else root_of rows (legacy_id r))"
    "uw_admin u \<longleftrightarrow> row_get r ''parent'' = []"
  using assms by (auto simp: planned_def build_user_def legacy_id_def Let_def)

text \<open>
  An account is imported into the company at the top of its chain of parents, and
  into none when its chain has no top in the export (a circle, or a parent that is
  missing).
\<close>
theorem import_joins_root_company:
  assumes "distinct (map legacy_id rows)" "u \<in> set (pl_users (build rd rows))"
  shows "map cw_id (filter (\<lambda>c. (uw_legacy u, cw_legacy c) \<in> (parents rows)\<^sup>*) (pl_companies (build rd rows))) =
    (case uw_company u of None \<Rightarrow> [] | Some i \<Rightarrow> [i])"
proof -
  from assms(2) obtain r where r: "r \<in> set rows" "uw_legacy u = legacy_id r"
    "uw_company u = company_ids rd rows (root_of rows (legacy_id r))"
    using planned_place(1,2) set_planned planned_def by metis
  let ?cs = "filter (\<lambda>c. cw_legacy c = root_of rows (legacy_id r)) (built_companies rd rows)"
  have "distinct (map cw_legacy (built_companies rd rows))"
    using assms(1) by (simp add: planned_companies roots_def distinct_map_filter)
  then have one: "c = c'" if "c \<in> set ?cs" "c' \<in> set ?cs" for c c' using that by (auto simp: distinct_map inj_on_def)
  have dist: "distinct ?cs" using \<open>distinct (map cw_legacy _)\<close> by (simp add: distinct_map)
  have "filter (\<lambda>c. (uw_legacy u, cw_legacy c) \<in> (parents rows)\<^sup>*) (pl_companies (build rd rows)) = ?cs"
    unfolding build_def Let_def plan.simps
    by (rule filter_cong [OF refl]) (simp only: r(2) company_of_root [OF assms(1) r(1)] eq_commute [of "root_of rows (legacy_id r)"])
  moreover have "map cw_id ?cs = (case company_ids rd rows (root_of rows (legacy_id r)) of None \<Rightarrow> [] | Some i \<Rightarrow> [i])"
  proof (cases "company_ids rd rows (root_of rows (legacy_id r))")
    case None
    then have "?cs = []" using company_ids_iff [OF assms(1), of rd "root_of rows (legacy_id r)"] by (auto simp: filter_empty_conv)
    with None show ?thesis by simp
  next
    case (Some i)
    then obtain c where c: "c \<in> set ?cs" "cw_id c = i" using company_ids_iff [OF assms(1)] by auto
    then have "?cs = [c]" using one dist by (intro distinct_singleton) blast+
    with Some c show ?thesis by simp
  qed
  ultimately show ?thesis using r(3) by simp
qed

theorem import_joins_root_company_witness:
  "map (\<lambda>u. (uw_legacy u, uw_company u)) (pl_users (build demo_reader demo_rows)) =
     [(''r'', Some 10), (''b'', Some 10), (''p'', Some 10), (''l'', None)] \<and>
   map cw_id (filter (\<lambda>c. (uw_legacy (pl_users (build demo_reader demo_rows) ! 2), cw_legacy c) \<in> (parents demo_rows)\<^sup>*)
     (pl_companies (build demo_reader demo_rows))) = [10]"
proof
  let ?u = "pl_users (build demo_reader demo_rows) ! 2"
  have d: "distinct (map legacy_id demo_rows)" by code_simp
  have "length (pl_users (build demo_reader demo_rows)) = 4" by (simp add: build_def Let_def demo_rows_def)
  then have "?u \<in> set (pl_users (build demo_reader demo_rows))" by (intro nth_mem) simp
  moreover have "uw_company ?u = Some 10" by code_simp
  ultimately show "map cw_id (filter (\<lambda>c. (uw_legacy ?u, cw_legacy c) \<in> (parents demo_rows)\<^sup>*)
     (pl_companies (build demo_reader demo_rows))) = [10]"
    using import_joins_root_company [OF d, of ?u] by simp
qed code_simp

end
