(* ===== verification/ImportApply.thy ===== *)
theory ImportApply
  imports ImportPlan StringArray Drivers
begin

text \<open>
  cmd/import/plan.go, apply: the plan written in one transaction.  The columns that tie
  rows to the legacy collection (companies.derived_from_legacy_user_id, users.legacy_id,
  both unique) are maps beside the tables of \<open>sys\<close>; companies.is_verified and the
  time stamps of companies are not part of it.  Postgres reads a text[] literal as the
  service's own reader does.
\<close>

section \<open>The database\<close>

record import_db =
  im_sys :: sys
  im_root :: "uuid \<rightharpoonup> string"         \<comment> \<open>companies.derived_from_legacy_user_id by id\<close>
  im_legacy :: "uuid \<rightharpoonup> string"       \<comment> \<open>users.legacy_id by id\<close>

section \<open>Companies\<close>

definition import_settings :: "legacy_settings \<Rightarrow> company \<Rightarrow> company" where
  "import_settings l c =
     c\<lparr>co_toggles := \<lparr>tg_cancel_validate = ls_cancel_validate l, tg_verified_only = ls_verified_only l,
         tg_ppn = ls_ppn l, tg_pph23 = ls_pph23 l, tg_strict = ls_strict l, tg_max_driver = 0,
         tg_tolls = False\<rparr>,
       co_geofencing := ls_geofencing l, co_trip_allowance := None\<rparr>"

text \<open>The columns the statement does not name keep their defaults.\<close>

definition imported_company :: "company_row \<Rightarrow> company" where
  "imported_company w =
     (import_settings (cw_settings w) (blank_company (cw_id w) (cw_name w)))
       \<lparr>co_role := cw_role w, co_npwp := cw_npwp w, co_address := cw_address w, co_city_id := cw_city w,
        co_columns := set_profile ''company_profile'' (cw_profile w) [(''country'', ''ID'')],
        co_bank_account := (case cw_bank w of None \<Rightarrow> None | Some b \<Rightarrow> if b = [] then None else Some b),
        co_deleted := cw_deleted w\<rparr>"

definition update_imported :: "company_row \<Rightarrow> company \<Rightarrow> company" where
  "update_imported w c =
     (import_settings (cw_settings w) c)
       \<lparr>co_name := cw_name w, co_role := cw_role w, co_npwp := cw_npwp w, co_address := cw_address w,
        co_deleted := cw_deleted w\<rparr>"

text \<open>INSERT ... ON CONFLICT (derived_from_legacy_user_id) DO UPDATE ... RETURNING id.\<close>

definition write_company :: "env \<Rightarrow> company_row \<Rightarrow> import_db \<Rightarrow> svc_error + (uuid \<times> import_db)" where
  "write_company env w db =
     (let s = im_sys db; hit = (\<lambda>c. im_root db (co_id c) = Some (cw_legacy w)) in
      if db_down env OpCreateCompany then Inl (ErrDB OpCreateCompany)
      else case sql_first hit (companies s) of
        Some c \<Rightarrow>
          if list_ex (\<lambda>d. co_id d \<noteq> co_id c \<and> companies_clash (update_imported w c) d) (companies s)
          then Inl (ErrDB OpCreateCompany)
          else Inr (co_id c, db\<lparr>im_sys := s\<lparr>companies :=
                 sql_update (\<lambda>d. co_id d = co_id c) (update_imported w) (companies s)\<rparr>\<rparr>)
      | None \<Rightarrow>
          if list_ex (\<lambda>d. co_id d = cw_id w \<or> companies_clash (imported_company w) d) (companies s)
          then Inl (ErrDB OpCreateCompany)
          else Inr (cw_id w, db\<lparr>im_sys := s\<lparr>companies := companies s @ [imported_company w]\<rparr>,
                 im_root := (im_root db)(cw_id w \<mapsto> cw_legacy w)\<rparr>))"

text \<open>The map from legacy id to the id the row ended up with.\<close>

fun import_companies ::
  "env \<Rightarrow> (string \<rightharpoonup> uuid) \<Rightarrow> company_row list \<Rightarrow> import_db \<Rightarrow> svc_error + ((string \<rightharpoonup> uuid) \<times> import_db)" where
  "import_companies env m [] db = Inr (m, db)"
| "import_companies env m (w # ws) db =
     (case write_company env w db of
        Inl e \<Rightarrow> Inl e
      | Inr r \<Rightarrow>
          (case uuid_parse env (uuid_string env (fst r)) of
             None \<Rightarrow> Inl (ErrMsg ''company returned an unreadable id'')
           | Some got \<Rightarrow> import_companies env (m(cw_legacy w \<mapsto> got)) ws (snd r)))"

section \<open>Accounts\<close>

definition remapped_company :: "(string \<rightharpoonup> uuid) \<Rightarrow> user_row \<Rightarrow> uuid option" where
  "remapped_company m u =
     (if uw_company_legacy u \<noteq> [] \<and> m (uw_company_legacy u) \<noteq> None then m (uw_company_legacy u)
      else uw_company u)"

definition imported_user :: "user_row \<Rightarrow> uuid option \<Rightarrow> user" where
  "imported_user u c =
     (blank_user (uw_id u) c)
       \<lparr>us_username := uw_username u, us_email := uw_email u, us_phone := uw_phone u,
        us_password_hash := uw_password_hash u, us_full_name := uw_full_name u,
        us_profile := set_profile ''address'' (uw_address u) (set_profile ''city_id'' (uw_city u)
          (set_profile ''photo_url'' (uw_photo u)
            [(''language'', uw_language u), (''alternative_phones'', uw_alt_phones u)])),
        us_email_verified := uw_email_ok u, us_phone_verified := uw_phone_ok u, us_verified := uw_verified u,
        us_suspended := uw_suspended u, us_platform_staff := uw_staff u,
        us_deleted := uw_deleted u, us_created := uw_created u\<rparr>"

text \<open>users.company_id references companies.\<close>

definition company_exists :: "sys \<Rightarrow> uuid option \<Rightarrow> bool" where
  "company_exists s c = (case c of None \<Rightarrow> True | Some i \<Rightarrow> list_ex (\<lambda>d. co_id d = i) (companies s))"

definition write_user :: "env \<Rightarrow> (string \<rightharpoonup> uuid) \<Rightarrow> user_row \<Rightarrow> import_db \<Rightarrow> svc_error + import_db" where
  "write_user env m u db =
     (let s = im_sys db; c = remapped_company m u;
          hit = (\<lambda>x. im_legacy db (us_id x) = Some (uw_legacy u)) in
      if db_down env OpCreateUser \<or> \<not> company_exists s c then Inl (ErrDB OpCreateUser)
      else if list_ex hit (users s)
      then Inr (db\<lparr>im_sys := s\<lparr>users := sql_update hit (\<lambda>x. x\<lparr>us_company := c\<rparr>) (users s)\<rparr>\<rparr>)
      else if list_ex (\<lambda>x. us_id x = uw_id u \<or> users_clash (imported_user u c) x) (users s)
      then Inl (ErrDB OpCreateUser)
      else Inr (db\<lparr>im_sys := s\<lparr>users := users s @ [imported_user u c]\<rparr>,
             im_legacy := (im_legacy db)(uw_id u \<mapsto> uw_legacy u)\<rparr>))"

fun import_users :: "env \<Rightarrow> (string \<rightharpoonup> uuid) \<Rightarrow> user_row list \<Rightarrow> import_db \<Rightarrow> svc_error + import_db" where
  "import_users env m [] db = Inr db"
| "import_users env m (u # us) db =
     (case write_user env m u db of Inl e \<Rightarrow> Inl e | Inr db' \<Rightarrow> import_users env m us db')"

definition user_by_legacy :: "user_row list \<Rightarrow> string \<rightharpoonup> user_row" where
  "user_by_legacy us = map_of (rev (map (\<lambda>u. (uw_legacy u, u)) us))"

section \<open>Entitlement and administrators\<close>

definition import_modules :: "string list" where
  "import_modules = [''order'', ''agreement'', ''invoice'', ''shipment'', ''truck'', ''warehouse'', ''customer'',
     ''dashboard'', ''notification'']"

text \<open>WHERE derived_from_legacy_user_id IS NOT NULL.\<close>

definition legacy_companies :: "import_db \<Rightarrow> uuid list" where
  "legacy_companies db = filter (\<lambda>i. im_root db i \<noteq> None) (map co_id (companies (im_sys db)))"

definition insert_grant_mode :: "uuid \<Rightarrow> product_settings list \<Rightarrow> product_settings list" where
  "insert_grant_mode c t =
     (if list_ex (\<lambda>r. ps_company r = c \<and> ps_product r = product_tms) t then t
      else t @ [\<lparr>ps_company = c, ps_product = product_tms, ps_mode = entitlement_grant\<rparr>])"

definition entitle_companies :: "env \<Rightarrow> import_db \<Rightarrow> svc_error + import_db" where
  "entitle_companies env db =
     (let s = im_sys db; cs = legacy_companies db in
      if db_down env OpDefaults then Inl (ErrDB OpDefaults)
      else if db_down env OpEnsureAdmin then Inl (ErrDB OpEnsureAdmin)
      else Inr (db\<lparr>im_sys := fold (upsert_administrator env) cs
             (s\<lparr>modules := fold (\<lambda>c. insert_defaults c product_tms import_modules) cs (modules s),
                settings := fold insert_grant_mode cs (settings s)\<rparr>)\<rparr>))"

section \<open>Job roles\<close>

text \<open>%d of a natural number.\<close>

fun decimal :: "nat \<Rightarrow> string" where
  "decimal n = (if n < 10 then [digit_char n] else decimal (n div 10) @ [digit_char (n mod 10)])"

declare decimal.simps [simp del]

text \<open>The n-th name tried: the base, then numbered from 2.\<close>

definition name_at :: "string \<Rightarrow> nat \<Rightarrow> string" where
  "name_at base n = (if n = 0 then base else base @ '' ('' @ decimal (n + 1) @ '')'')"

lemma decimal_ne [simp]: "decimal n \<noteq> []" "[] \<noteq> decimal n"
  by (subst decimal.simps; simp)+

lemma decimal_inj: "decimal m = decimal n \<Longrightarrow> m = n"
proof (induction m arbitrary: n rule: less_induct)
  case (less m)
  have digit: "last (decimal k) = digit_char (k mod 10)" "butlast (decimal k) = (if k < 10 then [] else decimal (k div 10))" for k
    by (subst decimal.simps; simp)+
  from digit(1) [of m] digit(1) [of n] less.prems have low: "m mod 10 = n mod 10" by (simp add: digit_char_inj)
  have high: "(if m < 10 then [] else decimal (m div 10)) = (if n < 10 then [] else decimal (n div 10))"
    using digit(2) [of m] digit(2) [of n] less.prems by simp
  show ?case
  proof (cases "m < 10")
    case True
    then have "n < 10" using high by (simp split: if_splits)
    with True low show ?thesis by simp
  next
    case False
    then have "\<not> n < 10" using high by (auto split: if_splits)
    with False high less.IH [of "m div 10" "n div 10"] have "m div 10 = n div 10" by simp
    with low show ?thesis by (metis div_mult_mod_eq)
  qed
qed

lemma name_at_inj [simp]: "name_at base m = name_at base n \<longleftrightarrow> m = n"
  by (auto simp: name_at_def dest: decimal_inj split: if_splits)

function next_name :: "string list \<Rightarrow> string \<Rightarrow> string \<Rightarrow> nat \<Rightarrow> string" where
  "next_name used c base n =
     (if c @ ''|'' @ name_at base n \<in> set used then next_name used c base (n + 1) else name_at base n)"
  by pat_completeness auto
termination
proof (relation "measure (\<lambda>(used, c, base, n). card (set used \<inter> {c @ ''|'' @ name_at base k | k. n \<le> k}))")
  fix used :: "string list" and c base :: string and n :: nat
  assume used: "c @ ''|'' @ name_at base n \<in> set used"
  let ?from = "\<lambda>n. set used \<inter> {c @ ''|'' @ name_at base k | k. n \<le> k}"
  have "?from (n + 1) \<subseteq> ?from n" by auto
  moreover have "c @ ''|'' @ name_at base n \<in> ?from n" using used by blast
  moreover have "c @ ''|'' @ name_at base n \<notin> ?from (n + 1)" by auto
  ultimately have "?from (n + 1) \<subset> ?from n" by blast
  then have "card (?from (n + 1)) < card (?from n)" by (intro psubset_card_mono) simp_all
  then show "((used, c, base, n + 1), used, c, base, n) \<in>
      measure (\<lambda>(used, c, base, n). card (set used \<inter> {c @ ''|'' @ name_at base k | k. n \<le> k}))" by simp
qed simp

declare next_name.simps [simp del]

definition pg_array :: "string list \<Rightarrow> string" where
  "pg_array vs =
     (if vs = [] then ''{}''
      else ''{'' @ join '','' (map (\<lambda>v. [CHR 0x22] @
             concat (map (\<lambda>c. if c = CHR 0x22 then [CHR 0x5C, c] else [c]) v) @ [CHR 0x22]) vs) @ ''}'')"

definition tms_keys :: "string list \<Rightarrow> string list" where
  "tms_keys = map (\<lambda>k. ''tms:'' @ k)"

definition migrated_description :: string where
  "migrated_description = ''Migrated from the permissions this group already held.''"

text \<open>roles.company_id references companies; a missing key of companyID is uuid.Nil.\<close>

definition company_id_of :: "(string \<rightharpoonup> uuid) \<Rightarrow> string \<Rightarrow> uuid" where
  "company_id_of m c = (case m c of None \<Rightarrow> uuid_nil | Some i \<Rightarrow> i)"

definition write_job_role :: "env \<Rightarrow> uuid \<Rightarrow> string \<Rightarrow> string list \<Rightarrow> import_db \<Rightarrow> svc_error + import_db" where
  "write_job_role env c name keys db =
     (let s = im_sys db in
      if db_down env OpCreateRole \<or> \<not> company_exists s (Some c) then Inl (ErrDB OpCreateRole)
      else case parse_pg_array (pg_array keys) of
        None \<Rightarrow> Inl (ErrDB OpCreateRole)
      | Some ps \<Rightarrow>
          Inr (db\<lparr>im_sys := s\<lparr>roles := sql_upsert (\<lambda>r. ro_company r = c \<and> ro_name r = name)
                 (\<lambda>r. r\<lparr>ro_permissions := ps\<rparr>)
                 \<lparr>ro_id = gen_uuid env (draws s), ro_company = c, ro_name = name,
                  ro_description = Some migrated_description, ro_permissions = ps,
                  ro_grants_all = False, ro_is_system = False, ro_created_by = None\<rparr> (roles s),
               draws := Suc (draws s)\<rparr>\<rparr>))"

text \<open>roleNames by company and joined permission set, and the names in use.\<close>

type_synonym role_names = "string \<times> string \<rightharpoonup> string"

definition role_key :: "user_row \<Rightarrow> access_row \<Rightarrow> string \<times> string" where
  "role_key u a = (uw_company_legacy u, join [CHR 0x00] (aw_permissions a))"

fun job_roles ::
  "env \<Rightarrow> (string \<rightharpoonup> uuid) \<Rightarrow> user_row list \<Rightarrow> access_row list \<Rightarrow> role_names \<Rightarrow> string list \<Rightarrow> import_db \<Rightarrow>
     svc_error + (role_names \<times> import_db)" where
  "job_roles env m us [] nm used db = Inr (nm, db)"
| "job_roles env m us (a # as) nm used db =
     (case user_by_legacy us (aw_user a) of
        None \<Rightarrow> job_roles env m us as nm used db
      | Some u \<Rightarrow>
          if uw_company_legacy u = [] \<or> uw_admin u \<or> nm (role_key u a) \<noteq> None
          then job_roles env m us as nm used db
          else
            let base = (if aw_role a = [] then ''Member'' else aw_role a);
                name = next_name used (uw_company_legacy u) base 0 in
            case write_job_role env (company_id_of m (uw_company_legacy u)) name (tms_keys (aw_permissions a)) db of
              Inl e \<Rightarrow> Inl e
            | Inr db' \<Rightarrow> job_roles env m us as (nm(role_key u a \<mapsto> name))
                          ((uw_company_legacy u @ ''|'' @ name) # used) db')"

text \<open>UPDATE users SET role_id = (SELECT id ...) WHERE legacy_id = ...: no such role is NULL.\<close>

definition hand_role :: "env \<Rightarrow> uuid \<Rightarrow> string \<Rightarrow> string \<Rightarrow> import_db \<Rightarrow> svc_error + import_db" where
  "hand_role env c name legacy db =
     (if db_down env OpSetRole then Inl (ErrDB OpSetRole)
      else let s = im_sys db;
               rid = map_option ro_id (sql_first (\<lambda>r. ro_company r = c \<and> ro_name r = name) (roles s)) in
        Inr (db\<lparr>im_sys := s\<lparr>users := sql_update (\<lambda>x. im_legacy db (us_id x) = Some legacy)
               (\<lambda>x. x\<lparr>us_role := rid\<rparr>) (users s)\<rparr>\<rparr>))"

definition role_for :: "role_names \<Rightarrow> user_row \<Rightarrow> access_row \<Rightarrow> string" where
  "role_for nm u a = (if uw_admin u then administrator_role_name
     else case nm (role_key u a) of None \<Rightarrow> [] | Some n \<Rightarrow> n)"

fun assign_roles ::
  "env \<Rightarrow> (string \<rightharpoonup> uuid) \<Rightarrow> user_row list \<Rightarrow> role_names \<Rightarrow> access_row list \<Rightarrow> import_db \<Rightarrow> svc_error + import_db" where
  "assign_roles env m us nm [] db = Inr db"
| "assign_roles env m us nm (a # as) db =
     (case user_by_legacy us (aw_user a) of
        None \<Rightarrow> assign_roles env m us nm as db
      | Some u \<Rightarrow>
          if uw_company_legacy u = [] \<or> role_for nm u a = [] then assign_roles env m us nm as db
          else case hand_role env (company_id_of m (uw_company_legacy u)) (role_for nm u a) (aw_user a) db of
            Inl e \<Rightarrow> Inl e
          | Inr db' \<Rightarrow> assign_roles env m us nm as db')"

section \<open>The transaction\<close>

definition write_plan :: "env \<Rightarrow> plan \<Rightarrow> import_db \<Rightarrow> svc_error + import_db" where
  "write_plan env p db =
     (case import_companies env Map.empty (pl_companies p) db of
        Inl e \<Rightarrow> Inl e
      | Inr (m, db1) \<Rightarrow>
          (case import_users env m (pl_users p) db1 of
             Inl e \<Rightarrow> Inl e
           | Inr db2 \<Rightarrow>
               (case entitle_companies env db2 of
                  Inl e \<Rightarrow> Inl e
                | Inr db3 \<Rightarrow>
                    (case job_roles env m (pl_users p) (pl_access p) Map.empty [] db3 of
                       Inl e \<Rightarrow> Inl e
                     | Inr (nm, db4) \<Rightarrow> assign_roles env m (pl_users p) nm (pl_access p) db4))))"

definition apply_plan :: "env \<Rightarrow> plan \<Rightarrow> import_db \<Rightarrow> (svc_error + unit) \<times> import_db" where
  "apply_plan env p db =
     (case write_plan env p db of
        Inl e \<Rightarrow> (Inl e, db)
      | Inr db' \<Rightarrow> if db_down env OpCommit then (Inl (ErrDB OpCommit), db) else (Inr (), db'))"

section \<open>Roles by name\<close>

text \<open>roles (company_id, name) is unique: the role a company calls by a name.\<close>

definition named :: "sys \<Rightarrow> uuid \<Rightarrow> string \<Rightarrow> role option" where
  "named s c n = sql_first (\<lambda>r. ro_company r = c \<and> ro_name r = n) (roles s)"

text \<open>Role ids are unique and those the database will draw are not in use.\<close>

definition role_ids_ok :: "env \<Rightarrow> sys \<Rightarrow> bool" where
  "role_ids_ok env s \<longleftrightarrow> distinct (map ro_id (roles s)) \<and> (\<forall>r \<in> set (roles s). \<forall>n \<ge> draws s. ro_id r \<noteq> gen_uuid env n)"

definition upsert_named :: "env \<Rightarrow> (role \<Rightarrow> role) \<Rightarrow> role \<Rightarrow> sys \<Rightarrow> sys" where
  "upsert_named env f r s = s\<lparr>roles := sql_upsert (\<lambda>x. ro_company x = ro_company r \<and> ro_name x = ro_name r) f
     (r\<lparr>ro_id := gen_uuid env (draws s)\<rparr>) (roles s), draws := Suc (draws s)\<rparr>"

lemma sql_first_keep:
  assumes "\<And>x. q x \<Longrightarrow> p (f x) \<longleftrightarrow> p x"
  shows "sql_first p (sql_update q f t) = map_option (\<lambda>x. if q x then f x else x) (sql_first p t)"
  using assms by (induction t) (auto simp: sql_first_def sql_update_def)

lemma sql_first_snoc:
  "sql_first p (t @ [x]) = (case sql_first p t of None \<Rightarrow> if p x then Some x else None | Some y \<Rightarrow> Some y)"
  by (induction t) (auto simp: sql_first_def)

lemma named_upsert:
  assumes "\<And>x. ro_company (f x) = ro_company x \<and> ro_name (f x) = ro_name x"
  shows "named (upsert_named env f r s) c n =
    (if c = ro_company r \<and> n = ro_name r
     then Some (case named s c n of None \<Rightarrow> r\<lparr>ro_id := gen_uuid env (draws s)\<rparr> | Some x \<Rightarrow> f x)
     else named s c n)"
proof (cases "list_ex (\<lambda>x. ro_company x = ro_company r \<and> ro_name x = ro_name r) (roles s)")
  case True
  let ?p = "\<lambda>x. ro_company x = c \<and> ro_name x = n"
  have "named (upsert_named env f r s) c n = map_option
      (\<lambda>x. if ro_company x = ro_company r \<and> ro_name x = ro_name r then f x else x) (named s c n)"
    using True assms by (simp add: named_def upsert_named_def sql_upsert_def sql_first_keep)
  moreover have "named s (ro_company r) (ro_name r) \<noteq> None"
    using True by (auto simp: named_def sql_first_None list_ex_iff)
  moreover have "ro_company x = c \<and> ro_name x = n" if "named s c n = Some x" for x
    using that sql_first_Some [of ?p "roles s" x] by (simp add: named_def)
  ultimately show ?thesis by (cases "named s c n") auto
next
  case False
  then have "named s (ro_company r) (ro_name r) = None"
    by (auto simp: named_def sql_first_None list_ex_iff)
  with False show ?thesis
    by (auto simp: named_def upsert_named_def sql_upsert_def sql_first_snoc split: option.splits)
qed

lemma role_ids_upsert:
  assumes "role_ids_ok env s" "inj (gen_uuid env)" "\<And>x. ro_id (f x) = ro_id x"
  shows "role_ids_ok env (upsert_named env f r s)"
proof -
  have later: "gen_uuid env (draws s) \<noteq> gen_uuid env n" if "Suc (draws s) \<le> n" for n
    using assms(2) that by (auto simp: inj_eq)
  show ?thesis
  proof (cases "list_ex (\<lambda>x. ro_company x = ro_company r \<and> ro_name x = ro_name r) (roles s)")
    case True
    let ?t = "sql_update (\<lambda>x. ro_company x = ro_company r \<and> ro_name x = ro_name r) f (roles s)"
    have ids: "map ro_id ?t = map ro_id (roles s)" by (rule map_sql_update) (simp add: assms(3))
    then have "ro_id ` set ?t = ro_id ` set (roles s)" by (metis list.set_map)
    moreover have "\<forall>i \<in> ro_id ` set (roles s). \<forall>n \<ge> Suc (draws s). i \<noteq> gen_uuid env n"
      using assms(1) by (auto simp: role_ids_ok_def)
    ultimately have "\<forall>x \<in> set ?t. \<forall>n \<ge> Suc (draws s). ro_id x \<noteq> gen_uuid env n" by blast
    with True ids assms(1) show ?thesis by (simp add: role_ids_ok_def upsert_named_def sql_upsert_def)
  next
    case False
    with assms(1) later show ?thesis
      by (force simp: role_ids_ok_def upsert_named_def sql_upsert_def)
  qed
qed

lemma upsert_administrator_named:
  "upsert_administrator env c = upsert_named env (\<lambda>r. r\<lparr>ro_grants_all := True, ro_is_system := True\<rparr>)
     \<lparr>ro_id = 0, ro_company = c, ro_name = administrator_role_name, ro_description = Some administrator_description,
      ro_permissions = [], ro_grants_all = True, ro_is_system = True, ro_created_by = None\<rparr>"
  by (simp add: fun_eq_iff upsert_administrator_def upsert_named_def)

lemma parse_pg_array: "\<forall>k \<in> set ks. CHR 0x5C \<notin> set k \<Longrightarrow> parse_pg_array (pg_array ks) = Some ks"
proof -
  assume "\<forall>k \<in> set ks. CHR 0x5C \<notin> set k"
  then have "map quoted ks = map (\<lambda>v. [CHR 0x22] @
      concat (map (\<lambda>c. if c = CHR 0x22 then [CHR 0x5C, c] else [c]) v) @ [CHR 0x22]) ks"
    by (auto simp: quoted_def escape_array_elem_def special_def intro!: arg_cong [of _ _ concat])
  then have "pg_array ks = array_value (Some ks)"
    by (cases "ks = []") (simp_all add: pg_array_def array_value_def del: map_eq_conv)
  then show ?thesis by (simp add: array_value_out parse_array_out)
qed

section \<open>The first run\<close>

text \<open>
  A database with no imported row yet, its keys sound (users.id and roles.id are primary
  keys, roles.company_id references companies), ids that are not drawn twice and uuids that
  read back.
\<close>

definition first_run :: "env \<Rightarrow> import_db \<Rightarrow> bool" where
  "first_run env db \<longleftrightarrow> im_root db = Map.empty \<and> im_legacy db = Map.empty \<and>
     role_ids_ok env (im_sys db) \<and> inj (gen_uuid env) \<and>
     ro_company ` set (roles (im_sys db)) \<subseteq> co_id ` set (companies (im_sys db)) \<and>
     (\<forall>i. uuid_parse env (uuid_string env i) = Some i)"

text \<open>Every row is inserted under the id it was planned with.\<close>

definition companies_added :: "company_row list \<Rightarrow> (string \<rightharpoonup> uuid) \<Rightarrow> import_db \<Rightarrow> (string \<rightharpoonup> uuid) \<Rightarrow> import_db \<Rightarrow> bool" where
  "companies_added ws m db m' db' \<longleftrightarrow>
     im_sys db' = (im_sys db)\<lparr>companies := companies (im_sys db) @ map imported_company ws\<rparr> \<and>
     im_legacy db' = im_legacy db \<and> dom (im_root db') = dom (im_root db) \<union> cw_id ` set ws \<and>
     (\<forall>w \<in> set ws. m' (cw_legacy w) = Some (cw_id w)) \<and> (\<forall>k. k \<notin> cw_legacy ` set ws \<longrightarrow> m' k = m k) \<and>
     cw_id ` set ws \<inter> co_id ` set (companies (im_sys db)) = {} \<and> distinct (map cw_id ws)"

lemma co_id_imported [simp]: "co_id (imported_company w) = cw_id w"
  by (simp add: imported_company_def import_settings_def blank_company_def)

lemma write_company_fresh:
  assumes "write_company env w db = Inr (i, db')" "\<And>i. im_root db i \<noteq> Some (cw_legacy w)"
  shows "i = cw_id w \<and> cw_id w \<notin> co_id ` set (companies (im_sys db)) \<and>
    db' = db\<lparr>im_sys := (im_sys db)\<lparr>companies := companies (im_sys db) @ [imported_company w]\<rparr>,
      im_root := (im_root db)(cw_id w \<mapsto> cw_legacy w)\<rparr>"
proof -
  have "sql_first (\<lambda>c. im_root db (co_id c) = Some (cw_legacy w)) (companies (im_sys db)) = None"
    using assms(2) by (simp add: sql_first_None)
  with assms(1) show ?thesis by (auto simp: write_company_def Let_def list_ex_iff split: if_splits)
qed

lemma import_companies_fresh:
  assumes "import_companies env m ws db = Inr (m', db')" "distinct (map cw_legacy ws)"
    "\<And>i w. w \<in> set ws \<Longrightarrow> im_root db i \<noteq> Some (cw_legacy w)" "\<And>i. uuid_parse env (uuid_string env i) = Some i"
  shows "companies_added ws m db m' db'"
  using assms(1-3)
proof (induction ws arbitrary: m db)
  case Nil
  then show ?case by (simp add: companies_added_def)
next
  case (Cons w ws)
  from Cons.prems(1) obtain i db1 where w: "write_company env w db = Inr (i, db1)"
    "import_companies env (m(cw_legacy w \<mapsto> i)) ws db1 = Inr (m', db')"
    using assms(4) by (auto split: sum.splits)
  from write_company_fresh [OF w(1)] Cons.prems(3)
  have db1: "i = cw_id w" "cw_id w \<notin> co_id ` set (companies (im_sys db))"
    "db1 = db\<lparr>im_sys := (im_sys db)\<lparr>companies := companies (im_sys db) @ [imported_company w]\<rparr>,
      im_root := (im_root db)(cw_id w \<mapsto> cw_legacy w)\<rparr>" by simp_all
  have "companies_added ws (m(cw_legacy w \<mapsto> i)) db1 m' db'"
  proof (rule Cons.IH [OF w(2)])
    show "distinct (map cw_legacy ws)" using Cons.prems(2) by simp
    show "im_root db1 j \<noteq> Some (cw_legacy x)" if "x \<in> set ws" for j x
    proof -
      have "cw_legacy x \<noteq> cw_legacy w" using imageI [OF that, of cw_legacy] Cons.prems(2) by auto
      with Cons.prems(3) [of x j] that show ?thesis by (simp add: db1(3))
    qed
  qed
  with db1 Cons.prems(2) show ?case
    unfolding companies_added_def by (auto simp: db1(3))
qed

definition users_added :: "(string \<rightharpoonup> uuid) \<Rightarrow> user_row list \<Rightarrow> import_db \<Rightarrow> import_db \<Rightarrow> bool" where
  "users_added m us db db' \<longleftrightarrow>
     im_sys db' = (im_sys db)\<lparr>users := users (im_sys db) @ map (\<lambda>u. imported_user u (remapped_company m u)) us\<rparr> \<and>
     im_root db' = im_root db \<and> (\<forall>u \<in> set us. im_legacy db' (uw_id u) = Some (uw_legacy u)) \<and>
     (\<forall>i. i \<notin> uw_id ` set us \<longrightarrow> im_legacy db' i = im_legacy db i) \<and>
     uw_id ` set us \<inter> us_id ` set (users (im_sys db)) = {} \<and> distinct (map uw_id us)"

lemma us_id_imported [simp]: "us_id (imported_user u c) = uw_id u"
  by (simp add: imported_user_def blank_user_def)

lemma write_user_fresh:
  assumes "write_user env m u db = Inr db'" "\<And>i. im_legacy db i \<noteq> Some (uw_legacy u)"
  shows "uw_id u \<notin> us_id ` set (users (im_sys db)) \<and>
    db' = db\<lparr>im_sys := (im_sys db)\<lparr>users := users (im_sys db) @ [imported_user u (remapped_company m u)]\<rparr>,
      im_legacy := (im_legacy db)(uw_id u \<mapsto> uw_legacy u)\<rparr>"
proof -
  have "\<not> list_ex (\<lambda>x. im_legacy db (us_id x) = Some (uw_legacy u)) (users (im_sys db))"
    using assms(2) by (simp add: list_ex_iff)
  with assms(1) show ?thesis by (auto simp: write_user_def Let_def list_ex_iff split: if_splits)
qed

lemma import_users_fresh:
  assumes "import_users env m us db = Inr db'" "distinct (map uw_legacy us)"
    "\<And>i u. u \<in> set us \<Longrightarrow> im_legacy db i \<noteq> Some (uw_legacy u)"
  shows "users_added m us db db'"
  using assms
proof (induction us arbitrary: db)
  case Nil
  then show ?case by (simp add: users_added_def)
next
  case (Cons u us)
  from Cons.prems(1) obtain db1 where w: "write_user env m u db = Inr db1" "import_users env m us db1 = Inr db'"
    by (auto split: sum.splits)
  from write_user_fresh [OF w(1)] Cons.prems(3)
  have db1: "uw_id u \<notin> us_id ` set (users (im_sys db))"
    "db1 = db\<lparr>im_sys := (im_sys db)\<lparr>users := users (im_sys db) @ [imported_user u (remapped_company m u)]\<rparr>,
      im_legacy := (im_legacy db)(uw_id u \<mapsto> uw_legacy u)\<rparr>" by simp_all
  have "users_added m us db1 db'"
  proof (rule Cons.IH [OF w(2)])
    show "distinct (map uw_legacy us)" using Cons.prems(2) by simp
    show "im_legacy db1 j \<noteq> Some (uw_legacy x)" if "x \<in> set us" for j x
    proof -
      have "uw_legacy x \<noteq> uw_legacy u" using imageI [OF that, of uw_legacy] Cons.prems(2) by auto
      with Cons.prems(3) [of x j] that show ?thesis by (simp add: db1(2))
    qed
  qed
  with db1 Cons.prems(2) show ?case
    unfolding users_added_def by (auto simp: db1(2))
qed

section \<open>Administrators and modules\<close>

lemma fold_administrators:
  "users (fold (upsert_administrator env) cs s) = users s \<and> companies (fold (upsert_administrator env) cs s) = companies s"
  by (induction cs arbitrary: s) (simp_all add: upsert_administrator_def)

lemma fold_administrators_ids:
  "role_ids_ok env s \<Longrightarrow> inj (gen_uuid env) \<Longrightarrow> role_ids_ok env (fold (upsert_administrator env) cs s)"
  by (induction cs arbitrary: s) (simp_all add: upsert_administrator_named role_ids_upsert)

definition is_administrator :: "role \<Rightarrow> bool" where
  "is_administrator r \<longleftrightarrow> ro_name r = administrator_role_name \<and> ro_grants_all r \<and> ro_permissions r = []"

lemma upsert_administrator_at:
  "named (upsert_administrator env c s) i n =
    (if i = c \<and> n = administrator_role_name
     then Some (case named s i n of
         None \<Rightarrow> \<lparr>ro_id = gen_uuid env (draws s), ro_company = c, ro_name = administrator_role_name,
           ro_description = Some administrator_description, ro_permissions = [], ro_grants_all = True,
           ro_is_system = True, ro_created_by = None\<rparr>
       | Some r \<Rightarrow> r\<lparr>ro_grants_all := True, ro_is_system := True\<rparr>)
     else named s i n)"
  unfolding upsert_administrator_named
  by (cases "named s i n") (auto simp: named_upsert [where f = "\<lambda>r. r\<lparr>ro_grants_all := True, ro_is_system := True\<rparr>"])

lemma fold_administrators_named:
  assumes "\<And>c r. c \<in> set cs \<Longrightarrow> named s c administrator_role_name = Some r \<Longrightarrow> is_administrator r"
  shows "(\<forall>c \<in> set cs. \<exists>r. named (fold (upsert_administrator env) cs s) c administrator_role_name = Some r \<and> is_administrator r) \<and>
    (\<forall>c n. c \<notin> set cs \<or> n \<noteq> administrator_role_name \<longrightarrow> named (fold (upsert_administrator env) cs s) c n = named s c n)"
  using assms
proof (induction cs arbitrary: s)
  case (Cons c cs)
  let ?s = "upsert_administrator env c s"
  have here: "\<exists>r. named ?s c administrator_role_name = Some r \<and> is_administrator r"
    using Cons.prems [of c]
    by (cases "named s c administrator_role_name") (simp_all add: upsert_administrator_at is_administrator_def)
  have adm: "is_administrator r" if "i \<in> set cs" "named ?s i administrator_role_name = Some r" for i r
    using that here Cons.prems [of i r] by (cases "i = c") (auto simp: upsert_administrator_at)
  have IH0: "(\<forall>i \<in> set cs. \<exists>r. named (fold (upsert_administrator env) cs ?s) i administrator_role_name = Some r \<and> is_administrator r) \<and>
      (\<forall>i n. i \<notin> set cs \<or> n \<noteq> administrator_role_name \<longrightarrow> named (fold (upsert_administrator env) cs ?s) i n = named ?s i n)"
    by (rule Cons.IH) (rule adm)
  then have IH: "\<forall>i \<in> set cs. \<exists>r. named (fold (upsert_administrator env) cs ?s) i administrator_role_name = Some r \<and> is_administrator r"
    "\<And>i n. i \<notin> set cs \<or> n \<noteq> administrator_role_name \<Longrightarrow> named (fold (upsert_administrator env) cs ?s) i n = named ?s i n"
    by blast+
  have "\<exists>r. named (fold (upsert_administrator env) cs ?s) c administrator_role_name = Some r \<and> is_administrator r"
    using IH(1) IH(2) [of c administrator_role_name] here by (cases "c \<in> set cs") auto
  moreover have "named (fold (upsert_administrator env) cs ?s) i n = named s i n"
    if "i \<notin> set (c # cs) \<or> n \<noteq> administrator_role_name" for i n
    using that IH(2) [of i n] by (auto simp: upsert_administrator_at)
  ultimately show ?case using IH(1) by auto
qed simp

lemma entitle_companies_effect:
  assumes "entitle_companies env db = Inr db'" "role_ids_ok env (im_sys db)" "inj (gen_uuid env)"
    and none: "\<forall>c \<in> set (legacy_companies db). \<forall>n. named (im_sys db) c n = None"
  shows "users (im_sys db') = users (im_sys db)" "companies (im_sys db') = companies (im_sys db)"
    "im_legacy db' = im_legacy db" "role_ids_ok env (im_sys db')"
    "\<And>c. c \<in> set (legacy_companies db) \<Longrightarrow>
      \<exists>r. named (im_sys db') c administrator_role_name = Some r \<and> is_administrator r"
    "\<And>c n. c \<in> set (legacy_companies db) \<Longrightarrow> n \<noteq> administrator_role_name \<Longrightarrow> named (im_sys db') c n = None"
proof -
  let ?cs = "legacy_companies db"
  define s0 where "s0 = (im_sys db)\<lparr>modules := fold (\<lambda>c. insert_defaults c product_tms import_modules) ?cs (modules (im_sys db)),
     settings := fold insert_grant_mode ?cs (settings (im_sys db))\<rparr>"
  have db': "db' = db\<lparr>im_sys := fold (upsert_administrator env) ?cs s0\<rparr>"
    using assms(1) by (simp add: entitle_companies_def s0_def Let_def split: if_splits)
  have named0: "named s0 c n = named (im_sys db) c n" for c n by (simp add: s0_def named_def)
  show "users (im_sys db') = users (im_sys db)" "companies (im_sys db') = companies (im_sys db)" "im_legacy db' = im_legacy db"
    using fold_administrators [of env ?cs s0] by (simp_all add: db') (simp_all add: s0_def)
  have "role_ids_ok env s0" using assms(2) by (simp add: s0_def role_ids_ok_def)
  then show "role_ids_ok env (im_sys db')" using assms(3) by (simp add: db' fold_administrators_ids)
  have "is_administrator r" if "c \<in> set ?cs" "named s0 c administrator_role_name = Some r" for c r
    using that none by (simp add: named0)
  from fold_administrators_named [of ?cs s0 env, OF this]
  show "\<And>c. c \<in> set ?cs \<Longrightarrow> \<exists>r. named (im_sys db') c administrator_role_name = Some r \<and> is_administrator r"
    "\<And>c n. c \<in> set ?cs \<Longrightarrow> n \<noteq> administrator_role_name \<Longrightarrow> named (im_sys db') c n = None"
    using none by (simp_all add: db' named0)
qed

section \<open>Names of job roles\<close>

definition legal_keys :: "string list \<Rightarrow> bool" where
  "legal_keys ks \<longleftrightarrow> (\<forall>k \<in> set ks. k \<noteq> [] \<and> CHR 0x00 \<notin> set k \<and> CHR 0x5C \<notin> set k)"

lemma join_legal_inj:
  assumes "legal_keys ks" "legal_keys ls" "join [CHR 0x00] ks = join [CHR 0x00] ls"
  shows "ks = ls"
proof -
  have ne: "join [CHR 0x00] xs = [] \<longleftrightarrow> xs = []" if "legal_keys xs" for xs
    using that by (cases xs; cases "tl xs") (auto simp: legal_keys_def)
  show ?thesis
  proof (cases "ks = []")
    case True
    then show ?thesis using ne [OF assms(2)] assms(3) by simp
  next
    case False
    then have "ls \<noteq> []" using ne [OF assms(1)] ne [OF assms(2)] assms(3) by auto
    have "split_on (CHR 0x00) (join [CHR 0x00] ks) = ks"
      using False assms(1) by (intro split_join) (auto simp: legal_keys_def)
    moreover have "split_on (CHR 0x00) (join [CHR 0x00] ls) = ls"
      using \<open>ls \<noteq> []\<close> assms(2) by (intro split_join) (auto simp: legal_keys_def)
    ultimately show ?thesis unfolding assms(3) by (rule trans [OF sym])
  qed
qed

lemma next_name_fresh: "c @ ''|'' @ next_name used c base n \<notin> set used"
proof (induction used c base n rule: next_name.induct)
  case (1 used c base n)
  then show ?case by (cases "c @ ''|'' @ name_at base n \<in> set used") (simp_all add: next_name.simps [of used c base n])
qed

lemma next_name_shape: "\<exists>k. next_name used c base n = name_at base k"
proof (induction used c base n rule: next_name.induct)
  case (1 used c base n)
  then show ?case by (cases "c @ ''|'' @ name_at base n \<in> set used") (auto simp: next_name.simps [of used c base n])
qed

lemma hd_name_at: "base \<noteq> [] \<Longrightarrow> name_at base k \<noteq> [] \<and> hd (name_at base k) = hd base"
  by (simp add: name_at_def)

text \<open>No job role takes the name of the administrator's.\<close>

definition job_title :: "string \<Rightarrow> bool" where
  "job_title b \<longleftrightarrow> b = [] \<or> hd b \<noteq> CHR ''A''"

lemma next_name_job:
  assumes "job_title b"
  shows "next_name used c (if b = [] then ''Member'' else b) n \<notin> {[], administrator_role_name}"
proof -
  obtain k where k: "next_name used c (if b = [] then ''Member'' else b) n = name_at (if b = [] then ''Member'' else b) k"
    using next_name_shape by blast
  have "hd administrator_role_name = CHR ''A''" by (simp add: administrator_role_name_def)
  then show ?thesis using assms hd_name_at [of "if b = [] then ''Member'' else b" k] unfolding k job_title_def
    by (auto split: if_splits)
qed

section \<open>Job roles\<close>

definition jobs_ok :: "(string \<rightharpoonup> uuid) \<Rightarrow> role_names \<Rightarrow> string list \<Rightarrow> sys \<Rightarrow> bool" where
  "jobs_ok m nm used s \<longleftrightarrow>
     (\<forall>c j n. nm (c, j) = Some n \<longrightarrow> c \<in> dom m \<and> c @ ''|'' @ n \<in> set used \<and> n \<notin> {[], administrator_role_name} \<and>
        (\<exists>r ks. named s (company_id_of m c) n = Some r \<and> \<not> ro_grants_all r \<and> legal_keys ks \<and>
           j = join [CHR 0x00] ks \<and> ro_permissions r = tms_keys ks)) \<and>
     (\<forall>c n. c \<in> dom m \<and> n \<noteq> administrator_role_name \<and> named s (company_id_of m c) n \<noteq> None \<longrightarrow>
        c @ ''|'' @ n \<in> set used)"

definition job_row :: "uuid \<Rightarrow> string \<Rightarrow> string list \<Rightarrow> role" where
  "job_row c name ps = \<lparr>ro_id = 0, ro_company = c, ro_name = name, ro_description = Some migrated_description,
     ro_permissions = ps, ro_grants_all = False, ro_is_system = False, ro_created_by = None\<rparr>"

lemma write_job_role_Inr:
  assumes "write_job_role env c name (tms_keys ks) db = Inr db'" "legal_keys ks"
  shows "db' = db\<lparr>im_sys := upsert_named env (\<lambda>r. r\<lparr>ro_permissions := tms_keys ks\<rparr>) (job_row c name (tms_keys ks)) (im_sys db)\<rparr>"
proof -
  have "parse_pg_array (pg_array (tms_keys ks)) = Some (tms_keys ks)"
    using assms(2) by (intro parse_pg_array) (auto simp: tms_keys_def legal_keys_def)
  with assms(1) show ?thesis
    by (auto simp: write_job_role_def Let_def upsert_named_def job_row_def split: if_splits)
qed

text \<open>The role of a fresh name is a new one, and it disturbs no other.\<close>

lemma job_role_step:
  assumes ok: "jobs_ok m nm used (im_sys db)" and inj: "inj_on m (dom m)" and c: "c \<in> dom m"
    and keys: "legal_keys ks" and n: "c @ ''|'' @ n \<notin> set used" "n \<notin> {[], administrator_role_name}"
    and w: "write_job_role env (company_id_of m c) n (tms_keys ks) db = Inr db'"
  shows "jobs_ok m (nm((c, join [CHR 0x00] ks) \<mapsto> n)) ((c @ ''|'' @ n) # used) (im_sys db')"
    "named (im_sys db') i administrator_role_name = named (im_sys db) i administrator_role_name"
proof -
  note db' = write_job_role_Inr [OF w keys]
  let ?s = "im_sys db" and ?cid = "company_id_of m"
  have none: "named ?s (?cid c) n = None" using ok c n unfolding jobs_ok_def by blast
  have at: "named (im_sys db') i x = (if i = ?cid c \<and> x = n
      then Some ((job_row (?cid c) n (tms_keys ks))\<lparr>ro_id := gen_uuid env (draws ?s)\<rparr>) else named ?s i x)" for i x
    using none by (auto simp: db' named_upsert job_row_def)
  have same: "d = c" if "d \<in> dom m" "?cid d = ?cid c" for d
    using that c inj by (auto simp: company_id_of_def inj_on_def dom_def split: option.splits)
  show "named (im_sys db') i administrator_role_name = named ?s i administrator_role_name" using n(2) by (auto simp: at)
  have old: "\<exists>r ls. named (im_sys db') (?cid d) x = Some r \<and> \<not> ro_grants_all r \<and> legal_keys ls \<and>
      j = join [CHR 0x00] ls \<and> ro_permissions r = tms_keys ls"
    if "nm (d, j) = Some x" for d j x
  proof -
    have "d \<in> dom m" "d @ ''|'' @ x \<in> set used" using ok that by (auto simp: jobs_ok_def)
    then have "\<not> (?cid d = ?cid c \<and> x = n)" using same n(1) by blast
    then have "named (im_sys db') (?cid d) x = named ?s (?cid d) x" unfolding at by (rule if_not_P)
    then show ?thesis using ok that unfolding jobs_ok_def by metis
  qed
  have new: "\<exists>r ls. named (im_sys db') (?cid c) n = Some r \<and> \<not> ro_grants_all r \<and> legal_keys ls \<and>
      join [CHR 0x00] ks = join [CHR 0x00] ls \<and> ro_permissions r = tms_keys ls"
    using keys by (auto simp: at job_row_def)
  have "d @ ''|'' @ x \<in> set ((c @ ''|'' @ n) # used)"
    if "d \<in> dom m" "x \<noteq> administrator_role_name" "named (im_sys db') (?cid d) x \<noteq> None" for d x
    using that same ok by (auto simp: at jobs_ok_def split: if_splits)
  then show "jobs_ok m (nm((c, join [CHR 0x00] ks) \<mapsto> n)) ((c @ ''|'' @ n) # used) (im_sys db')"
    using ok old new c n(2) unfolding jobs_ok_def [of m "nm((c, join [CHR 0x00] ks) \<mapsto> n)"]
    by (auto simp: jobs_ok_def split: if_splits)
qed

lemma write_job_role_keeps:
  assumes "write_job_role env c name (tms_keys ks) db = Inr db'" "legal_keys ks"
    and "role_ids_ok env (im_sys db)" "inj (gen_uuid env)"
  shows "users (im_sys db') = users (im_sys db)" "im_legacy db' = im_legacy db" "role_ids_ok env (im_sys db')"
  unfolding write_job_role_Inr [OF assms(1,2)] using assms(3,4)
  by (simp_all add: role_ids_upsert) (simp_all add: upsert_named_def)

text \<open>What the loop over the accounts leaves behind.\<close>

definition jobs_done ::
  "env \<Rightarrow> (string \<rightharpoonup> uuid) \<Rightarrow> user_row list \<Rightarrow> access_row list \<Rightarrow> role_names \<Rightarrow> import_db \<Rightarrow> role_names \<Rightarrow> import_db \<Rightarrow> bool" where
  "jobs_done env m us acc nm db nm' db' \<longleftrightarrow>
     (\<exists>used'. jobs_ok m nm' used' (im_sys db')) \<and> role_ids_ok env (im_sys db') \<and>
     users (im_sys db') = users (im_sys db) \<and> im_legacy db' = im_legacy db \<and>
     (\<forall>k n. nm k = Some n \<longrightarrow> nm' k = Some n) \<and>
     (\<forall>i. named (im_sys db') i administrator_role_name = named (im_sys db) i administrator_role_name) \<and>
     (\<forall>a \<in> set acc. \<forall>u. user_by_legacy us (aw_user a) = Some u \<longrightarrow> uw_company_legacy u \<noteq> [] \<longrightarrow> \<not> uw_admin u \<longrightarrow>
        nm' (role_key u a) \<noteq> None)"

text \<open>The steps of the loop: an account that needs no new role, and one that does.\<close>

lemma jobs_done_skip:
  assumes "jobs_done env m us acc nm db nm' db'"
    and "\<And>u. user_by_legacy us (aw_user a) = Some u \<Longrightarrow> uw_company_legacy u = [] \<or> uw_admin u \<or> nm (role_key u a) \<noteq> None"
  shows "jobs_done env m us (a # acc) nm db nm' db'"
proof -
  have "nm' (role_key u a) \<noteq> None"
    if "user_by_legacy us (aw_user a) = Some u" "uw_company_legacy u \<noteq> []" "\<not> uw_admin u" for u
  proof -
    from assms(2) [OF that(1)] that obtain x where "nm (role_key u a) = Some x" by blast
    with assms(1) have "nm' (role_key u a) = Some x" unfolding jobs_done_def by blast
    then show ?thesis by simp
  qed
  then show ?thesis using assms(1) by (auto simp: jobs_done_def)
qed

lemma jobs_done_new:
  assumes "jobs_done env m us acc (nm(role_key u a \<mapsto> n)) db1 nm' db'" "nm (role_key u a) = None"
    "user_by_legacy us (aw_user a) = Some u" "users (im_sys db1) = users (im_sys db)" "im_legacy db1 = im_legacy db"
    "\<And>i. named (im_sys db1) i administrator_role_name = named (im_sys db) i administrator_role_name"
  shows "jobs_done env m us (a # acc) nm db nm' db'"
proof -
  have later: "nm' k = Some x" if "(nm(role_key u a \<mapsto> n)) k = Some x" for k x
    using that assms(1) unfolding jobs_done_def by blast
  have "nm' (role_key u a) = Some n" by (rule later) simp
  moreover have "nm' k = Some x" if "nm k = Some x" for k x
    using later [of k x] that assms(2) by (cases "k = role_key u a") simp_all
  ultimately show ?thesis using assms(1,3-6) unfolding jobs_done_def
    by (auto simp del: split_paired_All split_paired_Ex)
qed

lemma job_roles_done:
  assumes "job_roles env m us acc nm used db = Inr (nm', db')" "jobs_ok m nm used (im_sys db)"
    "role_ids_ok env (im_sys db)" "inj (gen_uuid env)" "inj_on m (dom m)"
    "\<And>a. a \<in> set acc \<Longrightarrow> legal_keys (aw_permissions a) \<and> job_title (aw_role a)"
    "\<And>i u. user_by_legacy us i = Some u \<Longrightarrow> uw_company_legacy u \<noteq> [] \<Longrightarrow> uw_company_legacy u \<in> dom m"
  shows "jobs_done env m us acc nm db nm' db'"
  using assms(1-3,6)
proof (induction acc arbitrary: nm used db)
  case Nil
  then show ?case by (auto simp: jobs_done_def)
next
  case (Cons a acc)
  have rest: "\<And>b. b \<in> set acc \<Longrightarrow> legal_keys (aw_permissions b) \<and> job_title (aw_role b)"
    using Cons.prems(4) by simp
  show ?case
  proof (cases "\<exists>u. user_by_legacy us (aw_user a) = Some u \<and> uw_company_legacy u \<noteq> [] \<and> \<not> uw_admin u \<and> nm (role_key u a) = None")
    case False
    then have "job_roles env m us acc nm used db = Inr (nm', db')"
      using Cons.prems(1) by (auto split: option.splits if_splits)
    from Cons.IH [OF this Cons.prems(2,3) rest] have d: "jobs_done env m us acc nm db nm' db'" .
    have "\<And>u. user_by_legacy us (aw_user a) = Some u \<Longrightarrow> uw_company_legacy u = [] \<or> uw_admin u \<or> nm (role_key u a) \<noteq> None"
      using False by auto
    with d show ?thesis by (rule jobs_done_skip)
  next
    case True
    then obtain u where u: "user_by_legacy us (aw_user a) = Some u" "uw_company_legacy u \<noteq> []" "\<not> uw_admin u" "nm (role_key u a) = None"
      by blast
    let ?c = "uw_company_legacy u" and ?ks = "aw_permissions a"
    define n where "n = next_name used ?c (if aw_role a = [] then ''Member'' else aw_role a) 0"
    have a: "legal_keys ?ks" "job_title (aw_role a)" using Cons.prems(4) by simp_all
    from Cons.prems(1) u obtain db1 where w: "write_job_role env (company_id_of m ?c) n (tms_keys ?ks) db = Inr db1"
      "job_roles env m us acc (nm(role_key u a \<mapsto> n)) ((?c @ ''|'' @ n) # used) db1 = Inr (nm', db')"
      by (auto simp: n_def Let_def split: sum.splits if_splits)
    have fresh: "?c @ ''|'' @ n \<notin> set used" "n \<notin> {[], administrator_role_name}"
      using next_name_fresh next_name_job [OF a(2)] by (simp_all add: n_def)
    note step = job_role_step [OF Cons.prems(2) assms(5) assms(7) [OF u(1,2)] a(1) fresh w(1)]
    note keep = write_job_role_keeps [OF w(1) a(1) Cons.prems(3) assms(4)]
    from step(1) have "jobs_ok m (nm(role_key u a \<mapsto> n)) ((?c @ ''|'' @ n) # used) (im_sys db1)"
      by (simp add: role_key_def)
    from Cons.IH [OF w(2) this keep(3) rest] show ?thesis
      using u(4,1) keep(1,2) step(2) by (rule jobs_done_new)
  qed
qed

section \<open>Assignment\<close>

definition user_at :: "sys \<Rightarrow> uuid \<Rightarrow> user option" where
  "user_at s i = sql_first (\<lambda>u. us_id u = i) (users s)"

lemma user_at_id: "user_at s i = Some x \<Longrightarrow> us_id x = i"
  using sql_first_Some [of "\<lambda>u. us_id u = i"] by (auto simp: user_at_def)

lemma assign_role_effect:
  assumes "hand_role env c n legacy db = Inr db'"
  shows "roles (im_sys db') = roles (im_sys db)" "im_legacy db' = im_legacy db"
    "user_at (im_sys db') i = map_option (\<lambda>x. if im_legacy db i = Some legacy
       then x\<lparr>us_role := map_option ro_id (named (im_sys db) c n)\<rparr> else x) (user_at (im_sys db) i)"
proof -
  have db': "db' = db\<lparr>im_sys := (im_sys db)\<lparr>users := sql_update (\<lambda>x. im_legacy db (us_id x) = Some legacy)
      (\<lambda>x. x\<lparr>us_role := map_option ro_id (named (im_sys db) c n)\<rparr>) (users (im_sys db))\<rparr>\<rparr>"
    using assms by (simp add: hand_role_def named_def Let_def split: if_splits)
  show "roles (im_sys db') = roles (im_sys db)" "im_legacy db' = im_legacy db" by (simp_all add: db')
  show "user_at (im_sys db') i = map_option (\<lambda>x. if im_legacy db i = Some legacy
       then x\<lparr>us_role := map_option ro_id (named (im_sys db) c n)\<rparr> else x) (user_at (im_sys db) i)"
    using user_at_id [of "im_sys db" i] by (cases "user_at (im_sys db) i") (auto simp: db' user_at_def sql_first_keep)
qed

lemma named_roles_cong: "roles s = roles s' \<Longrightarrow> named s = named s'"
  by (simp add: named_def fun_eq_iff)

text \<open>An account gets the role of its entry; entries of other accounts leave it alone.\<close>

lemma assign_roles_effect:
  assumes "assign_roles env m us nm acc db = Inr db'" "distinct (map aw_user acc)" "im_legacy db i = Some l"
  shows "roles (im_sys db') = roles (im_sys db) \<and> im_legacy db' = im_legacy db \<and>
    (l \<notin> aw_user ` set acc \<longrightarrow> user_at (im_sys db') i = user_at (im_sys db) i) \<and>
    (\<forall>a u. a \<in> set acc \<longrightarrow> aw_user a = l \<longrightarrow> user_by_legacy us l = Some u \<longrightarrow> uw_company_legacy u \<noteq> [] \<longrightarrow> role_for nm u a \<noteq> [] \<longrightarrow>
       user_at (im_sys db') i = map_option (\<lambda>x. x\<lparr>us_role := map_option ro_id
         (named (im_sys db) (company_id_of m (uw_company_legacy u)) (role_for nm u a))\<rparr>) (user_at (im_sys db) i))"
  using assms
proof (induction acc arbitrary: db)
  case (Cons a acc)
  have d: "distinct (map aw_user acc)" "aw_user a \<notin> aw_user ` set acc" using Cons.prems(2) by auto
  consider "user_by_legacy us (aw_user a) = None"
    | u where "user_by_legacy us (aw_user a) = Some u" "uw_company_legacy u = [] \<or> role_for nm u a = []"
    | u where "user_by_legacy us (aw_user a) = Some u" "uw_company_legacy u \<noteq> []" "role_for nm u a \<noteq> []"
    by (cases "user_by_legacy us (aw_user a)") auto
  then show ?case
  proof cases
    case 1
    with Cons.prems(1) have "assign_roles env m us nm acc db = Inr db'" by simp
    from Cons.IH [OF this d(1) Cons.prems(3)] 1 show ?thesis by auto
  next
    case (2 u)
    with Cons.prems(1) have "assign_roles env m us nm acc db = Inr db'" by simp
    from Cons.IH [OF this d(1) Cons.prems(3)] 2 show ?thesis by auto
  next
    case (3 u)
    with Cons.prems(1) obtain db1 where
      db1: "hand_role env (company_id_of m (uw_company_legacy u)) (role_for nm u a) (aw_user a) db = Inr db1"
      "assign_roles env m us nm acc db1 = Inr db'" by (auto split: sum.splits)
    note eff = assign_role_effect [OF db1(1)]
    have l1: "im_legacy db1 i = Some l" using eff(2) Cons.prems(3) by simp
    from Cons.IH [OF db1(2) d(1) l1]
    have IH: "roles (im_sys db') = roles (im_sys db)" "im_legacy db' = im_legacy db"
      "l \<notin> aw_user ` set acc \<Longrightarrow> user_at (im_sys db') i = user_at (im_sys db1) i"
      "\<And>b v. b \<in> set acc \<Longrightarrow> aw_user b = l \<Longrightarrow> user_by_legacy us l = Some v \<Longrightarrow> uw_company_legacy v \<noteq> [] \<Longrightarrow>
        role_for nm v b \<noteq> [] \<Longrightarrow> user_at (im_sys db') i = map_option (\<lambda>x. x\<lparr>us_role := map_option ro_id
          (named (im_sys db) (company_id_of m (uw_company_legacy v)) (role_for nm v b))\<rparr>) (user_at (im_sys db1) i)"
      using eff(1,2) named_roles_cong [OF eff(1)] by auto
    show ?thesis
    proof (cases "aw_user a = l")
      case True
      then have "user_at (im_sys db') i = map_option (\<lambda>x. x\<lparr>us_role := map_option ro_id
          (named (im_sys db) (company_id_of m (uw_company_legacy u)) (role_for nm u a))\<rparr>) (user_at (im_sys db) i)"
        using IH(3) d(2) eff(3) [of i] Cons.prems(3) by simp
      moreover have "b = a" if "b \<in> set (a # acc)" "aw_user b = l" for b
        using that True d(2) imageI [of b "set acc" aw_user] by auto
      ultimately show ?thesis using True 3(1) IH(1,2) by auto
    next
      case False
      then have "user_at (im_sys db1) i = user_at (im_sys db) i"
        using eff(3) [of i] Cons.prems(3) by (cases "user_at (im_sys db) i") simp_all
      with False IH show ?thesis by auto
    qed
  qed
qed simp

section \<open>Access after the import\<close>

lemma legal_legacy_keys: "legal_keys (legacy_keys_of r)"
proof -
  have "legal_keys (map snd legacy_permissions)" by code_simp
  moreover have "set (legacy_keys_of r) \<subseteq> snd ` set legacy_permissions"
    by (auto simp: legacy_keys_of_def set_dedupe_from)
  ultimately show ?thesis unfolding legal_keys_def set_map by blast
qed

lemma job_title_row_role: "job_title (row_role r)"
proof -
  have "fst (compound_role x ys) \<in> insert [] (set ys)" for x ys by (induction x ys rule: compound_role.induct) auto
  from this [of "to_lower (trim_space (sanitise (row_get r ''role'')))" "[''manager'', ''transporter'', ''shipper'', ''driver'']"]
  have "fst (canonical_role (row_get r ''role'')) \<in> {[], ''shipper'', ''transporter'', ''driver'', ''warehousePic'', ''manager'',
      ''merchant'', ''investor'', ''admin''}"
    unfolding canonical_role_def Let_def by (auto split: if_splits)
  then show ?thesis unfolding row_role_def Let_def job_title_def by auto
qed

lemma user_by_legacy_iff:
  assumes "distinct (map uw_legacy us)"
  shows "user_by_legacy us i = Some u \<longleftrightarrow> u \<in> set us \<and> uw_legacy u = i"
proof -
  have "distinct (map fst (rev (map (\<lambda>u. (uw_legacy u, u)) us)))" using assms by (simp add: rev_map [symmetric] comp_def)
  from map_of_eq_Some_iff [OF this] show ?thesis unfolding user_by_legacy_def by auto
qed

lemma user_at_append:
  "user_at s i = None \<Longrightarrow> distinct (map us_id us) \<Longrightarrow> x \<in> set us \<Longrightarrow> us_id x = i \<Longrightarrow>
     user_at (s\<lparr>users := users s @ us\<rparr>) i = Some x"
proof -
  assume a: "user_at s i = None" "distinct (map us_id us)" "x \<in> set us" "us_id x = i"
  have "sql_first p t = None \<Longrightarrow> sql_first p (t @ us) = sql_first p us" for p and t :: "user list"
    by (induction t) (auto simp: sql_first_def split: if_splits)
  moreover have "sql_first (\<lambda>u. us_id u = i) us = Some x" using sql_first_unique [OF a(2,3)] a(4) by simp
  ultimately show ?thesis using a(1) by (simp add: user_at_def)
qed

lemma load_role_assigned:
  assumes "user_at s i = Some x" "us_role x = Some (ro_id q)" "named s c n = Some q" "distinct (map ro_id (roles s))"
  shows "load_role s i = (role_access q, us_platform_staff x)"
proof -
  have "q \<in> set (roles s)" 
    using assms(3) sql_first_Some [of "\<lambda>r. ro_company r = c \<and> ro_name r = n" "roles s" q] by (simp add: named_def)
  from sql_first_unique [OF assms(4) this] have "sql_first (\<lambda>r. ro_id r = ro_id q) (roles s) = Some q" .
  with assms(1,2) show ?thesis by (simp add: load_role_def user_at_def)
qed

lemma codes_of_added:
  assumes "companies_added ws Map.empty db m db1"
  shows "k \<in> dom m \<longleftrightarrow> k \<in> cw_legacy ` set ws"
    "k \<in> dom m \<Longrightarrow> \<exists>x \<in> set ws. k = cw_legacy x \<and> m k = Some (cw_id x) \<and> company_id_of m k = cw_id x"
    "inj_on m (dom m)"
proof -
  have c: "\<And>x. x \<in> set ws \<Longrightarrow> m (cw_legacy x) = Some (cw_id x)" "\<And>k. k \<notin> cw_legacy ` set ws \<Longrightarrow> m k = None" "distinct (map cw_id ws)"
    using assms unfolding companies_added_def by simp_all
  show dom: "k \<in> dom m \<longleftrightarrow> k \<in> cw_legacy ` set ws" for k using c(1,2) by (cases "k \<in> cw_legacy ` set ws") auto
  show at: "k \<in> dom m \<Longrightarrow> \<exists>x \<in> set ws. k = cw_legacy x \<and> m k = Some (cw_id x) \<and> company_id_of m k = cw_id x" for k
    using dom [of k] c(1) by (auto simp: company_id_of_def)
  show "inj_on m (dom m)"
  proof (rule inj_onI)
    fix k l assume k: "k \<in> dom m" "l \<in> dom m" "m k = m l"
    from at [OF k(1)] at [OF k(2)] obtain x y where "x \<in> set ws" "y \<in> set ws" "k = cw_legacy x" "l = cw_legacy y" "cw_id x = cw_id y"
      using k(3) by auto
    with c(3) show "k = l" by (auto simp: distinct_map inj_on_def)
  qed
qed

lemma planned_in_company:
  assumes "companies_added (built_companies rd rows) Map.empty db m db1" "distinct (map legacy_id rows)"
    "planned rd rows x r" "uw_company_legacy x \<noteq> []"
  shows "uw_company_legacy x \<in> dom m" "remapped_company m x = uw_company x"
proof -
  from planned_place [OF assms(3)] assms(4) obtain k where k: "uw_company x = Some k"
    "company_ids rd rows (uw_company_legacy x) = Some k" by (auto split: if_splits)
  from k(2) obtain y where y: "y \<in> set (built_companies rd rows)" "cw_legacy y = uw_company_legacy x" "cw_id y = k"
    by (auto simp: company_ids_iff [OF assms(2)])
  then have "m (cw_legacy y) = Some (cw_id y)" using assms(1) unfolding companies_added_def by blast
  then show "uw_company_legacy x \<in> dom m" "remapped_company m x = uw_company x"
    using y k(1) assms(4) by (auto simp: remapped_company_def)
qed

lemma jobs_ok_start:
  assumes "\<And>c n. c \<in> dom m \<Longrightarrow> n \<noteq> administrator_role_name \<Longrightarrow> named s (company_id_of m c) n = None"
  shows "jobs_ok m Map.empty [] s"
  using assms unfolding jobs_ok_def by (metis option.distinct(1))

lemma no_roles_yet:
  assumes "ro_company ` set (roles s) \<subseteq> A" "i \<notin> A"
  shows "named s i n = None"
  using assms by (auto simp: named_def sql_first_None)

text \<open>The stages of a first run up to the administrators' roles.\<close>

lemma first_run_prepared:
  assumes w: "import_companies env Map.empty (pl_companies (build rd rows)) db = Inr (m, db1)"
      "import_users env m (pl_users (build rd rows)) db1 = Inr db2" "entitle_companies env db2 = Inr db3"
    and fr: "first_run env db" and d: "distinct (map legacy_id rows)"
  shows "inj_on m (dom m)" "role_ids_ok env (im_sys db3)" "jobs_ok m Map.empty [] (im_sys db3)"
    "\<And>c. c \<in> dom m \<Longrightarrow> \<exists>q. named (im_sys db3) (company_id_of m c) administrator_role_name = Some q \<and> is_administrator q"
    "\<And>u r. planned rd rows u r \<Longrightarrow> uw_company_legacy u \<noteq> [] \<Longrightarrow>
       uw_company_legacy u \<in> dom m \<and> remapped_company m u = uw_company u"
    "\<And>u r. planned rd rows u r \<Longrightarrow> im_legacy db3 (uw_id u) = Some (legacy_id r) \<and>
       user_at (im_sys db3) (uw_id u) = Some (imported_user u (remapped_company m u))"
proof -
  let ?p = "build rd rows" and ?ws = "built_companies rd rows"
  have ws: "pl_companies ?p = ?ws" by (simp add: build_def Let_def)
  from fr have fr: "im_root db = Map.empty" "im_legacy db = Map.empty" "role_ids_ok env (im_sys db)"
    "inj (gen_uuid env)" "ro_company ` set (roles (im_sys db)) \<subseteq> co_id ` set (companies (im_sys db))"
    "\<And>i. uuid_parse env (uuid_string env i) = Some i" by (simp_all add: first_run_def)
  have added: "companies_added ?ws Map.empty db m db1"
    by (rule import_companies_fresh [OF w(1) [unfolded ws]])
      (use d fr in \<open>simp_all add: planned_companies roots_def distinct_map_filter\<close>)
  note codes = codes_of_added [OF added]
  show "inj_on m (dom m)" by (rule codes(3))
  show "\<And>x r. planned rd rows x r \<Longrightarrow> uw_company_legacy x \<noteq> [] \<Longrightarrow>
      uw_company_legacy x \<in> dom m \<and> remapped_company m x = uw_company x"
    using planned_in_company [OF added d] by blast
  have c: "im_sys db1 = (im_sys db)\<lparr>companies := companies (im_sys db) @ map imported_company ?ws\<rparr>"
    "im_legacy db1 = Map.empty" "dom (im_root db1) = cw_id ` set ?ws" "cw_id ` set ?ws \<inter> co_id ` set (companies (im_sys db)) = {}"
    using added unfolding companies_added_def using fr(1,2) by simp_all
  have "users_added m (pl_users ?p) db1 db2"
    by (rule import_users_fresh [OF w(2)]) (use d in \<open>simp_all add: legacy_of_users c(2)\<close>)
  then have u: "im_sys db2 = (im_sys db1)\<lparr>users := users (im_sys db1) @ map (\<lambda>u. imported_user u (remapped_company m u)) (pl_users ?p)\<rparr>"
    "im_root db2 = im_root db1" "\<And>x. x \<in> set (pl_users ?p) \<Longrightarrow> im_legacy db2 (uw_id x) = Some (uw_legacy x)"
    "uw_id ` set (pl_users ?p) \<inter> us_id ` set (users (im_sys db1)) = {}" "distinct (map uw_id (pl_users ?p))"
    unfolding users_added_def by simp_all
  have leg: "set (legacy_companies db2) = cw_id ` set ?ws"
    using c(3,4) by (auto simp: legacy_companies_def u(1,2) c(1) dom_def image_iff)
  have "ro_company ` set (roles (im_sys db2)) \<subseteq> co_id ` set (companies (im_sys db))" using fr(5) by (simp add: u(1) c(1))
  then have none: "\<forall>i \<in> set (legacy_companies db2). \<forall>n. named (im_sys db2) i n = None"
    using leg c(4) by (intro ballI allI) (erule no_roles_yet, blast)
  have ids: "role_ids_ok env (im_sys db2)" using fr(3) by (simp add: role_ids_ok_def u(1) c(1))
  note e = entitle_companies_effect [OF w(3) ids fr(4) none]
  show "role_ids_ok env (im_sys db3)" by (rule e(4))
  have in_leg: "company_id_of m k \<in> set (legacy_companies db2)" if "k \<in> dom m" for k
    using codes(2) [OF that] leg by auto
  show "jobs_ok m Map.empty [] (im_sys db3)" by (rule jobs_ok_start) (rule e(6) [OF in_leg])
  show "\<exists>q. named (im_sys db3) (company_id_of m k) administrator_role_name = Some q \<and> is_administrator q" if "k \<in> dom m" for k
    by (rule e(5)) (rule in_leg [OF that])
  show "im_legacy db3 (uw_id x) = Some (legacy_id r) \<and> user_at (im_sys db3) (uw_id x) = Some (imported_user x (remapped_company m x))"
    if "planned rd rows x r" for x r
  proof
    have x: "x \<in> set (pl_users ?p)" using that by (auto simp: set_planned)
    then show "im_legacy db3 (uw_id x) = Some (legacy_id r)" using u(3) planned_place(1) [OF that] e(3) by simp
    have "user_at (im_sys db1) (uw_id x) = None" using u(4) x by (auto simp: user_at_def sql_first_None)
    then have "user_at (im_sys db2) (uw_id x) = Some (imported_user x (remapped_company m x))"
      unfolding u(1) using x u(5) by (intro user_at_append) (simp_all add: comp_def)
    then show "user_at (im_sys db3) (uw_id x) = Some (imported_user x (remapped_company m x))"
      using e(1) by (simp add: user_at_def)
  qed
qed

text \<open>The role an account is about to be given, once the job roles exist.\<close>

lemma role_for_named:
  assumes "jobs_ok m nm used s" "uw_admin u = (row_get r ''parent'' = [])"
    "row_get r ''parent'' = [] \<Longrightarrow> \<exists>q. named s (company_id_of m (uw_company_legacy u)) administrator_role_name = Some q \<and> is_administrator q"
    "row_get r ''parent'' \<noteq> [] \<Longrightarrow> nm (role_key u (build_access_row r)) \<noteq> None"
  shows "\<exists>q. role_for nm u (build_access_row r) \<noteq> [] \<and>
    named s (company_id_of m (uw_company_legacy u)) (role_for nm u (build_access_row r)) = Some q \<and>
    ro_grants_all q = (row_get r ''parent'' = []) \<and>
    ro_permissions q = (if row_get r ''parent'' = [] then [] else tms_keys (legacy_keys_of r))"
proof (cases "row_get r ''parent'' = []")
  case True
  then have "role_for nm u (build_access_row r) = administrator_role_name" using assms(2) by (simp add: role_for_def)
  then show ?thesis using True assms(3) by (auto simp: is_administrator_def administrator_role_name_def)
next
  case False
  then obtain n where nm: "nm (role_key u (build_access_row r)) = Some n" using assms(4) by auto
  from assms(1) nm obtain q ks where q: "named s (company_id_of m (uw_company_legacy u)) n = Some q" "\<not> ro_grants_all q"
    "legal_keys ks" "join [CHR 0x00] (aw_permissions (build_access_row r)) = join [CHR 0x00] ks"
    "ro_permissions q = tms_keys ks" "n \<noteq> []"
    unfolding jobs_ok_def role_key_def by blast
  have "aw_permissions (build_access_row r) = legacy_keys_of r" using False by (simp add: build_access_row_def)
  with q(3,4) legal_legacy_keys join_legal_inj have "ks = legacy_keys_of r" by metis
  with q assms(2) nm False show ?thesis by (simp add: role_for_def)
qed

lemma before_assignment:
  assumes "apply_plan env (build rd rows) db = (Inr (), db')" "first_run env db" "distinct (map legacy_id rows)"
    and "planned rd rows u r" "uw_company_legacy u \<noteq> []"
  obtains m nm db4 q where
    "assign_roles env m (pl_users (build rd rows)) nm (pl_access (build rd rows)) db4 = Inr db'"
    "role_for nm u (build_access_row r) \<noteq> []"
    "named (im_sys db4) (company_id_of m (uw_company_legacy u)) (role_for nm u (build_access_row r)) = Some q"
    "ro_grants_all q = (row_get r ''parent'' = [])"
    "ro_permissions q = (if row_get r ''parent'' = [] then [] else tms_keys (legacy_keys_of r))"
    "role_ids_ok env (im_sys db4)" "im_legacy db4 (uw_id u) = Some (uw_legacy u)"
    "user_at (im_sys db4) (uw_id u) = Some (imported_user u (uw_company u))"
proof -
  let ?p = "build rd rows" and ?a = "build_access_row r"
  have acc: "pl_access ?p = map build_access_row rows" by (simp add: build_def Let_def)
  from assms(1) obtain m db1 db2 db3 nm db4 where
    w: "import_companies env Map.empty (pl_companies ?p) db = Inr (m, db1)" "import_users env m (pl_users ?p) db1 = Inr db2"
      "entitle_companies env db2 = Inr db3" "job_roles env m (pl_users ?p) (pl_access ?p) Map.empty [] db3 = Inr (nm, db4)"
      "assign_roles env m (pl_users ?p) nm (pl_access ?p) db4 = Inr db'"
    by (auto simp: apply_plan_def write_plan_def split: sum.splits prod.splits if_splits)
  note prep = first_run_prepared [OF w(1-3) assms(2,3)] and place = planned_place [OF assms(4)]
  have uu: "distinct (map uw_legacy (pl_users ?p))" using assms(3) by (simp add: legacy_of_users)
  have mem: "u \<in> set (pl_users ?p)" "r \<in> set rows" using assms(4) by (auto simp: set_planned planned_def)
  have inj: "inj (gen_uuid env)" using assms(2) by (simp add: first_run_def)
  have "jobs_done env m (pl_users ?p) (pl_access ?p) Map.empty db3 nm db4"
  proof (rule job_roles_done [OF w(4) prep(3,2) inj prep(1)])
    have "legal_keys []" by (simp add: legal_keys_def)
    then show "legal_keys (aw_permissions a) \<and> job_title (aw_role a)" if "a \<in> set (pl_access ?p)" for a
      using that legal_legacy_keys job_title_row_role by (auto simp: acc build_access_row_def)
    show "uw_company_legacy x \<in> dom m" if "user_by_legacy (pl_users ?p) i = Some x" "uw_company_legacy x \<noteq> []" for i x
      using that prep(5) by (auto simp: user_by_legacy_iff [OF uu] set_planned)
  qed
  then obtain used' where j: "jobs_ok m nm used' (im_sys db4)" "role_ids_ok env (im_sys db4)"
    "users (im_sys db4) = users (im_sys db3)" "im_legacy db4 = im_legacy db3"
    "\<And>i. named (im_sys db4) i administrator_role_name = named (im_sys db3) i administrator_role_name"
    "\<And>a x. a \<in> set (pl_access ?p) \<Longrightarrow> user_by_legacy (pl_users ?p) (aw_user a) = Some x \<Longrightarrow> uw_company_legacy x \<noteq> [] \<Longrightarrow>
       \<not> uw_admin x \<Longrightarrow> nm (role_key x a) \<noteq> None" unfolding jobs_done_def by blast
  have a: "?a \<in> set (pl_access ?p)" "aw_user ?a = uw_legacy u" "user_by_legacy (pl_users ?p) (uw_legacy u) = Some u"
    using mem place(1) by (simp_all add: acc user_by_legacy_iff [OF uu] build_access_row_def legacy_id_def)
  have c: "uw_company_legacy u \<in> dom m" "remapped_company m u = uw_company u" using prep(5) [OF assms(4,5)] by simp_all
  have "nm (role_key u ?a) \<noteq> None" if "row_get r ''parent'' \<noteq> []" using that j(6) [OF a(1)] a(2,3) assms(5) place(4) by simp
  with role_for_named [OF j(1)] place(4) prep(4) [OF c(1)] j(5) obtain q where "role_for nm u ?a \<noteq> []"
    "named (im_sys db4) (company_id_of m (uw_company_legacy u)) (role_for nm u ?a) = Some q"
    "ro_grants_all q = (row_get r ''parent'' = [])"
    "ro_permissions q = (if row_get r ''parent'' = [] then [] else tms_keys (legacy_keys_of r))" by metis
  moreover have "im_legacy db4 (uw_id u) = Some (uw_legacy u)" "user_at (im_sys db4) (uw_id u) = Some (imported_user u (uw_company u))"
    using prep(6) [OF assms(4)] j(3,4) place(1) c(2) by (simp_all add: user_at_def)
  ultimately show thesis using that w(5) j(2) by blast
qed

text \<open>
  C33. A first import keeps everybody's access. When it commits, an account of a
  company is in that company, and the role its tokens are built from is a
  grants-all Administrator when the account was the top of its tenant, and otherwise
  carries exactly the permissions the legacy row had, qualified with the product:
  one role serves all who held the same set, and no two sets share one.
\<close>
theorem import_keeps_access:
  assumes "apply_plan env (build rd rows) db = (Inr (), db')" "first_run env db" "distinct (map legacy_id rows)"
    and "planned rd rows u r" "uw_company_legacy u \<noteq> []"
  shows "map_option us_company (user_at (im_sys db') (uw_id u)) = Some (uw_company u) \<and>
    (\<exists>n. load_role (im_sys db') (uw_id u) =
      (\<lparr>ar_name = n, ar_grants_all = (row_get r ''parent'' = []),
        ar_permissions = (if row_get r ''parent'' = [] then [] else map (\<lambda>k. ''tms:'' @ k) (legacy_keys_of r))\<rparr>,
       uw_staff u))"
proof -
  let ?p = "build rd rows" and ?a = "build_access_row r"
  have acc: "pl_access ?p = map build_access_row rows" by (simp add: build_def Let_def)
  have uu: "distinct (map uw_legacy (pl_users ?p))" using assms(3) by (simp add: legacy_of_users)
  have a: "?a \<in> set (pl_access ?p)" "aw_user ?a = uw_legacy u" "user_by_legacy (pl_users ?p) (uw_legacy u) = Some u"
    using assms(4) planned_place(1) [OF assms(4)]
    by (auto simp: acc user_by_legacy_iff [OF uu] build_access_row_def legacy_id_def set_planned) (auto simp: planned_def)
  have "distinct (map aw_user (pl_access ?p))" using assms(3) by (simp add: acc comp_def build_access_row_def legacy_id_def [abs_def])
  obtain m nm db4 q where w: "assign_roles env m (pl_users ?p) nm (pl_access ?p) db4 = Inr db'"
    and q: "role_for nm u ?a \<noteq> []" "named (im_sys db4) (company_id_of m (uw_company_legacy u)) (role_for nm u ?a) = Some q"
      "ro_grants_all q = (row_get r ''parent'' = [])"
      "ro_permissions q = (if row_get r ''parent'' = [] then [] else tms_keys (legacy_keys_of r))"
    and db4: "role_ids_ok env (im_sys db4)" "im_legacy db4 (uw_id u) = Some (uw_legacy u)"
      "user_at (im_sys db4) (uw_id u) = Some (imported_user u (uw_company u))"
    using before_assignment [OF assms] .
  from assign_roles_effect [OF w \<open>distinct (map aw_user (pl_access ?p))\<close> db4(2)] a assms(5) q(1,2)
  have eff: "roles (im_sys db') = roles (im_sys db4)"
    "user_at (im_sys db') (uw_id u) = Some ((imported_user u (uw_company u))\<lparr>us_role := Some (ro_id q)\<rparr>)"
    using db4(3) by auto
  have "load_role (im_sys db') (uw_id u) = (role_access q, us_platform_staff ((imported_user u (uw_company u))\<lparr>us_role := Some (ro_id q)\<rparr>))"
    using db4(1) eff(1) named_roles_cong [OF eff(1)] q(2) by (intro load_role_assigned [OF eff(2)]) (auto simp: role_ids_ok_def)
  with eff(2) q(3,4) show ?thesis by (simp add: role_access_def tms_keys_def imported_user_def blank_user_def)
qed

definition demo_family :: "row list" where
  "demo_family = [demo_legacy ''r'' [] [] ''y'',
     (demo_legacy ''p'' ''r'' [] ''y'')(''role'' := ''manager'', ''permission.order.read'' := ''true'')]"

definition demo_import :: import_db where
  "demo_import = \<lparr>im_sys = empty_sys, im_root = Map.empty, im_legacy = Map.empty\<rparr>"

lemma demo_first_run: "first_run demo_env demo_import"
  by (auto simp: first_run_def demo_import_def role_ids_ok_def empty_sys_def demo_env_def inj_def)

lemma demo_import_runs:
  "fst (apply_plan demo_env (build demo_reader demo_family) demo_import) = Inr ()"
  by code_simp

theorem import_keeps_access_witness:
  "load_role (im_sys (snd (apply_plan demo_env (build demo_reader demo_family) demo_import))) 12 =
     (\<lparr>ar_name = ''manager'', ar_grants_all = False, ar_permissions = [''tms:order.read'']\<rparr>, False) \<and>
   (\<exists>n. load_role (im_sys (snd (apply_plan demo_env (build demo_reader demo_family) demo_import)))
       (uw_id (pl_users (build demo_reader demo_family) ! 1)) =
     (\<lparr>ar_name = n, ar_grants_all = False, ar_permissions = map (\<lambda>k. ''tms:'' @ k) (legacy_keys_of (demo_family ! 1))\<rparr>,
      uw_staff (pl_users (build demo_reader demo_family) ! 1)))"
proof
  let ?u = "pl_users (build demo_reader demo_family) ! 1" and ?r = "demo_family ! 1"
  have run: "apply_plan demo_env (build demo_reader demo_family) demo_import =
      (Inr (), snd (apply_plan demo_env (build demo_reader demo_family) demo_import))"
    using demo_import_runs by (metis prod.collapse)
  have d: "distinct (map legacy_id demo_family)" by code_simp
  have p: "planned demo_reader demo_family ?u ?r"
    by (auto simp: planned_def build_def Let_def demo_family_def enumerate_eq_zip intro!: exI [of _ 1])
  have c: "uw_company_legacy ?u = ''r''" by code_simp
  have par: "row_get ?r ''parent'' \<noteq> []" by code_simp
  have "uw_company_legacy ?u \<noteq> []" using c by simp
  from conjunct2 [OF import_keeps_access [OF run demo_first_run d p this]]
  show "\<exists>n. load_role (im_sys (snd (apply_plan demo_env (build demo_reader demo_family) demo_import))) (uw_id ?u) =
     (\<lparr>ar_name = n, ar_grants_all = False, ar_permissions = map (\<lambda>k. ''tms:'' @ k) (legacy_keys_of ?r)\<rparr>, uw_staff ?u)"
    by (simp only: par if_False)
qed code_simp

section \<open>What a migrated company is missing\<close>

text \<open>
  Nine modules are granted where a new company gets thirteen. The collaboration
  permissions are gated by one of the four left out: after the import not even the
  administrator of a company may invite or remove a member of it.
\<close>
lemma import_withholds_collaboration:
  "set import_modules \<subset> set default_tms_features"
  "feature_for product_tms ''collaboration.inviteMember'' = (''collaboration'', True)" "''collaboration'' \<notin> set import_modules"
  "ar_grants_all (fst (load_role (im_sys (snd (apply_plan demo_env (build demo_reader demo_family) demo_import))) 11))"
  "map_sum id (\<lambda>acc. has_permission (clerk\<lparr>access := acc\<rparr>) product_tms ''collaboration.inviteMember'')
     (build_access demo_env (im_sys (snd (apply_plan demo_env (build demo_reader demo_family) demo_import))) 11 (Some 10)) = Inr False"
  by code_simp+

text \<open>A second run puts the legacy settings back over what the company has configured since.\<close>

lemma rerun_resets_settings:
  "co_trip_allowance (update_imported w c) = None" "co_geofencing (update_imported w c) = ls_geofencing (cw_settings w)"
  by (simp_all add: update_imported_def import_settings_def)

section \<open>The guard of the command line\<close>

text \<open>strings.Contains, strings.Index and strings.LastIndex.\<close>

definition contains :: "string \<Rightarrow> string \<Rightarrow> bool" where
  "contains s sub = list_ex (\<lambda>k. has_prefix (drop k s) sub) [0..<Suc (length s)]"

definition str_index :: "string \<Rightarrow> string \<Rightarrow> nat option" where
  "str_index s sub = List.find (\<lambda>k. has_prefix (drop k s) sub) [0..<Suc (length s)]"

definition str_last_index :: "string \<Rightarrow> string \<Rightarrow> nat option" where
  "str_last_index s sub = List.find (\<lambda>k. has_prefix (drop k s) sub) (rev [0..<Suc (length s)])"

definition looks_local :: "string \<Rightarrow> bool" where
  "looks_local dsn = (contains dsn ''localhost'' \<or> contains dsn ''127.0.0.1'' \<or> contains dsn ''postgres-auth'')"

definition redact :: "string \<Rightarrow> string" where
  "redact dsn = (case str_last_index dsn ''@'' of
      None \<Rightarrow> dsn
    | Some at_pos \<Rightarrow> (case str_index dsn ''://'' of
        None \<Rightarrow> dsn
      | Some k \<Rightarrow> if k + 3 < at_pos then take (k + 3) dsn @ ''***'' @ drop at_pos dsn else dsn))"

text \<open>
  Any part of the connection string counts, not the host; and a password is hidden
  in the URL form only, not in the key-value form config.go itself renders.
\<close>
lemma guard_reads_whole_dsn:
  "looks_local ''postgres://a:b@db.prod/auth?application_name=localhost-import''"
  "redact ''postgres://a:b@db.prod/auth'' = ''postgres://***@db.prod/auth''"
  "redact ''host=db.prod user=a password=b'' = ''host=db.prod user=a password=b''"
  by code_simp+

end
