(* ===== verification/Coldstore.thy ===== *)
theory Coldstore
  imports Repository
begin

text \<open>
  internal/platform/coldstore: rows as Parquet files in a cold bucket.  A value is what
  the database driver put in a map[string]any; the Parquet writer, the text forms of the
  standard library and the bucket are parameters.  Integers keep the width of their Go
  type; floats are the bits of a float64.
\<close>

section \<open>Values and kinds\<close>

datatype kind = KString | KBool | KInt | KDouble

datatype int_type = TInt | TInt8 | TInt16 | TInt32 | TInt64 | TUint8 | TUint16 | TUint32

text \<open>Anything else is a value that JSON may or may not render.\<close>

datatype any =
    ANil | ABool bool | AInt int_type int | AFloat32 "64 word" | AFloat64 "64 word"
  | AText string | ABytes string | ATime time | AStringer string | AOther "string option"

datatype cell = CNull | CBool bool | CInt int | CDouble "64 word" | CText string

record texts =
  tx_stamp :: "time \<Rightarrow> string"           \<comment> \<open>UTC().Format(time.RFC3339Nano)\<close>
  tx_bool :: "bool \<Rightarrow> string"            \<comment> \<open>fmt.Sprint\<close>
  tx_int :: "int \<Rightarrow> string"
  tx_float32 :: "64 word \<Rightarrow> string"
  tx_float64 :: "64 word \<Rightarrow> string"

definition kind_of_postgres :: "string \<Rightarrow> kind" where
  "kind_of_postgres t =
     (if t = ''boolean'' then KBool
      else if t \<in> {''smallint'', ''integer'', ''bigint''} then KInt
      else if t \<in> {''real'', ''double precision''} then KDouble
      else KString)"

definition kind_of_value :: "any \<Rightarrow> kind" where
  "kind_of_value v = (case v of ABool _ \<Rightarrow> KBool | AInt _ _ \<Rightarrow> KInt | AFloat32 _ \<Rightarrow> KDouble | AFloat64 _ \<Rightarrow> KDouble
     | _ \<Rightarrow> KString)"

text \<open>None is the error.  A narrower integer or float widens without loss.\<close>

definition coerce :: "texts \<Rightarrow> any \<Rightarrow> kind \<Rightarrow> cell option" where
  "coerce tx v k =
     (if v = ANil then Some CNull
      else case k of
        KBool \<Rightarrow> (case v of ABool b \<Rightarrow> Some (CBool b) | _ \<Rightarrow> None)
      | KInt \<Rightarrow> (case v of AInt _ n \<Rightarrow> Some (CInt n) | _ \<Rightarrow> None)
      | KDouble \<Rightarrow> (case v of AFloat64 f \<Rightarrow> Some (CDouble f) | AFloat32 f \<Rightarrow> Some (CDouble f) | _ \<Rightarrow> None)
      | KString \<Rightarrow>
          (case v of
             AText s \<Rightarrow> Some (CText s)
           | ABytes s \<Rightarrow> Some (CText s)
           | ATime t \<Rightarrow> Some (CText (tx_stamp tx t))
           | AStringer s \<Rightarrow> Some (CText s)
           | ABool b \<Rightarrow> Some (CText (tx_bool tx b))
           | AInt _ n \<Rightarrow> Some (CText (tx_int tx n))
           | AFloat32 f \<Rightarrow> Some (CText (tx_float32 tx f))
           | AFloat64 f \<Rightarrow> Some (CText (tx_float64 tx f))
           | AOther j \<Rightarrow> map_option CText j
           | ANil \<Rightarrow> Some CNull))"

section \<open>Files\<close>

text \<open>The columns in file order (parquet-go sorts the fields of a group by name) and their kinds.\<close>

record schema =
  sc_names :: "string list"
  sc_kinds :: "string \<rightharpoonup> kind"

definition new_schema :: "(string \<times> kind) list \<Rightarrow> schema" where
  "new_schema cols = \<lparr>sc_names = sort (remdups (map fst cols)), sc_kinds = map_of (rev cols)\<rparr>"

definition kind_at :: "schema \<Rightarrow> string \<Rightarrow> kind" where
  "kind_at sc n = (case sc_kinds sc n of None \<Rightarrow> KString | Some k \<Rightarrow> k)"

text \<open>A column absent from the row is null.\<close>

fun encode_row :: "texts \<Rightarrow> schema \<Rightarrow> string list \<Rightarrow> (string \<rightharpoonup> any) \<Rightarrow> cell list option" where
  "encode_row tx sc [] m = Some []"
| "encode_row tx sc (n # ns) m =
     (case coerce tx (case m n of None \<Rightarrow> ANil | Some v \<Rightarrow> v) (kind_at sc n) of
        None \<Rightarrow> None
      | Some c \<Rightarrow> map_option ((#) c) (encode_row tx sc ns m))"

text \<open>
  The writer takes rows in batches of 256: batches written so far, the batch being filled.
\<close>

fun write_batches ::
  "texts \<Rightarrow> schema \<Rightarrow> cell list list list \<Rightarrow> cell list list \<Rightarrow> (string \<rightharpoonup> any) list \<Rightarrow> cell list list list option" where
  "write_batches tx sc written batch [] = Some (if batch = [] then written else written @ [batch])"
| "write_batches tx sc written batch (m # ms) =
     (case encode_row tx sc (sc_names sc) m of
        None \<Rightarrow> None
      | Some row \<Rightarrow>
          (let full = batch @ [row] in
           if length full = 256 then write_batches tx sc (written @ [full]) [] ms
           else write_batches tx sc written full ms))"

type_synonym parquet = "schema \<Rightarrow> cell list list list \<Rightarrow> string option"

definition encode_file :: "texts \<Rightarrow> parquet \<Rightarrow> schema \<Rightarrow> (string \<rightharpoonup> any) list \<Rightarrow> string option" where
  "encode_file tx pq sc ms =
     (case write_batches tx sc [] [] ms of None \<Rightarrow> None | Some bs \<Rightarrow> pq sc bs)"

definition object_key :: "(time \<Rightarrow> string) \<Rightarrow> string \<Rightarrow> string \<Rightarrow> time \<Rightarrow> string \<Rightarrow> string" where
  "object_key day_text prefix table d run_id =
     prefix @ ''/'' @ table @ ''/dt='' @ day_text d @ ''/'' @ run_id @ ''.parquet''"

section \<open>The bucket\<close>

datatype cold_error = ErrNotConfigured | ErrPutObject string

record bucket =
  bk_name :: string
  bk_accepts :: "string \<Rightarrow> string \<Rightarrow> bool"        \<comment> \<open>whether PutObject succeeds\<close>
  bk_objects :: "string \<rightharpoonup> string"

definition configured :: "bucket \<Rightarrow> bool" where
  "configured b = (bk_name b \<noteq> [])"

definition put_cold :: "string \<Rightarrow> string \<Rightarrow> bucket \<Rightarrow> cold_error + bucket" where
  "put_cold key body b =
     (if \<not> configured b then Inl ErrNotConfigured
      else if \<not> bk_accepts b key body then Inl (ErrPutObject key)
      else Inr (b\<lparr>bk_objects := (bk_objects b)(key \<mapsto> body)\<rparr>))"

section \<open>What a file holds\<close>

text \<open>
  The batches are the rows, in order and none twice, and no batch but the last is short:
  the buffering is invisible.
\<close>

lemma write_batches_rows:
  assumes "write_batches tx sc written batch ms = Some bs" "length batch < 256"
  shows "\<exists>rows. map (\<lambda>m. encode_row tx sc (sc_names sc) m) ms = map Some rows \<and> concat bs = concat written @ batch @ rows"
  using assms
proof (induction tx sc written batch ms rule: write_batches.induct)
  case (1 tx sc written batch)
  then show ?case by (auto split: if_splits)
next
  case (2 tx sc written batch m ms)
  from 2(3) obtain row where row: "encode_row tx sc (sc_names sc) m = Some row" by (auto split: option.splits)
  show ?case
  proof (cases "length (batch @ [row]) = 256")
    case True
    with 2(3) row have "write_batches tx sc (written @ [batch @ [row]]) [] ms = Some bs" by simp
    from 2(1) [OF row refl True this] obtain rows where
      "map (\<lambda>m. encode_row tx sc (sc_names sc) m) ms = map Some rows" "concat bs = concat (written @ [batch @ [row]]) @ [] @ rows"
      by auto
    with row show ?thesis by (intro exI [of _ "row # rows"]) simp
  next
    case False
    with 2(3) row have "write_batches tx sc written (batch @ [row]) ms = Some bs" by simp
    moreover have "length (batch @ [row]) < 256" using False 2(4) by simp
    ultimately obtain rows where
      "map (\<lambda>m. encode_row tx sc (sc_names sc) m) ms = map Some rows" "concat bs = concat written @ (batch @ [row]) @ rows"
      using 2(2) [OF row refl False] by blast
    with row show ?thesis by (intro exI [of _ "row # rows"]) simp
  qed
qed

lemma encode_file_rows:
  assumes "encode_file tx pq sc ms = Some bytes"
  shows "\<exists>bs. pq sc bs = Some bytes \<and> map Some (concat bs) = map (encode_row tx sc (sc_names sc)) ms"
proof -
  from assms obtain bs where bs: "write_batches tx sc [] [] ms = Some bs" "pq sc bs = Some bytes"
    by (auto simp: encode_file_def split: option.splits)
  from write_batches_rows [OF bs(1)] obtain rows where "map (encode_row tx sc (sc_names sc)) ms = map Some rows" "concat bs = rows"
    by auto
  with bs(2) show ?thesis by auto
qed

text \<open>
  A column of a Postgres table always takes its own values: what the driver returns for a
  type is of the kind the schema gives it, so encoding a row of the table cannot fail on it.
\<close>

lemma coerce_own_kind: "kind_of_value v = k \<Longrightarrow> v \<noteq> AOther None \<Longrightarrow> coerce tx v k \<noteq> None"
  by (cases v) (auto simp: kind_of_value_def coerce_def)

text \<open>A column typed String takes everything JSON can render.\<close>

lemma coerce_text: "v \<noteq> AOther None \<Longrightarrow> coerce tx v KString \<noteq> None"
  by (cases v) (auto simp: coerce_def)

lemma object_key_day: "object_key f p t d r = object_key f p t d' r \<longleftrightarrow> f d = f d'"
  by (simp add: object_key_def)

end
