(* ===== verification/Archive.thy ===== *)
theory Archive
  imports Coldstore Principal
begin

text \<open>
  internal/archive and cmd/server/archive.go: cold audit rows move to the bucket, one
  file per day, and dead sessions are deleted.  A log row is its id, its created_at and
  the other columns.  Other transactions go on writing to the log during a run:
  \<open>rn_arrivals d\<close> are the rows inserted while the file of day d is built.
\<close>

section \<open>Options and state\<close>

record options =
  op_audit_retain :: time
  op_session_retain :: time
  op_batch :: int
  op_keep :: bool
  op_dry :: bool
  op_prefix :: string

definition new_options :: "options \<Rightarrow> options" where
  "new_options o1 = o1
     \<lparr>op_audit_retain := (if op_audit_retain o1 \<le> 0 then 30 * 24 * hour else op_audit_retain o1),
      op_session_retain := (if op_session_retain o1 \<le> 0 then 30 * 24 * hour else op_session_retain o1),
      op_batch := (if op_batch o1 \<le> 0 then 100000 else op_batch o1),
      op_prefix := (if op_prefix o1 = [] then ''archive'' else op_prefix o1)\<rparr>"

record log_row =
  lr_id :: int
  lr_at :: time
  lr_columns :: "string \<rightharpoonup> any"

definition row_values :: "log_row \<Rightarrow> string \<rightharpoonup> any" where
  "row_values r = (lr_columns r)(''id'' \<mapsto> AInt TInt64 (lr_id r), ''created_at'' \<mapsto> ATime (lr_at r))"

record archive_state =
  as_log :: "log_row list"
  as_sessions :: "session list"
  as_bucket :: bucket

record summary =
  sm_rows :: nat
  sm_files :: nat
  sm_bytes :: nat
  sm_sessions :: nat

datatype archive_error =
  ErrReading | ErrSchema | ErrNoColumns | ErrEncoding | ErrStore cold_error | ErrDeletingRows | ErrDeletingSessions | ErrNoBucket

text \<open>The clock, the database and the libraries as one run meets them.\<close>

record run_env =
  rn_now :: time
  rn_texts :: texts
  rn_parquet :: parquet
  rn_day :: "time \<Rightarrow> string"               \<comment> \<open>UTC().Format("2006-01-02")\<close>
  rn_stamp :: "time \<Rightarrow> string"             \<comment> \<open>UTC().Format("20060102T150405Z")\<close>
  rn_order :: "log_row list \<Rightarrow> log_row list"  \<comment> \<open>ORDER BY created_at\<close>
  rn_read_ok :: bool
  rn_columns :: "(string \<times> string) list option"   \<comment> \<open>information_schema.columns\<close>
  rn_delete_ok :: "time \<Rightarrow> bool"
  rn_arrivals :: "time \<Rightarrow> log_row list"
  rn_sessions_ok :: bool

definition audit_table :: string where "audit_table = ''auth_audit_log''"

definition schema_for :: "run_env \<Rightarrow> archive_error + schema" where
  "schema_for rn =
     (case rn_columns rn of
        None \<Rightarrow> Inl ErrSchema
      | Some cols \<Rightarrow>
          if cols = [] then Inl ErrNoColumns
          else Inr (new_schema (map (\<lambda>c. (fst c, kind_of_postgres (snd c))) cols)))"

section \<open>Moving a day\<close>

type_synonym progress = "summary \<times> archive_state"

definition day_key :: "run_env \<Rightarrow> options \<Rightarrow> time \<Rightarrow> string" where
  "day_key rn op d = object_key (rn_day rn) (op_prefix op) audit_table d (rn_stamp rn (rn_now rn))"

definition counted :: "log_row list \<Rightarrow> string \<Rightarrow> summary \<Rightarrow> summary" where
  "counted rows data sm = sm\<lparr>sm_rows := sm_rows sm + length rows, sm_files := sm_files sm + 1, sm_bytes := sm_bytes sm + length data\<rparr>"

text \<open>DELETE ... WHERE id <= maxID AND created_at >= day AND created_at < day + 24h, after the arrivals.\<close>

definition delete_written :: "run_env \<Rightarrow> time \<Rightarrow> int \<Rightarrow> archive_state \<Rightarrow> archive_state" where
  "delete_written rn d max_id st =
     st\<lparr>as_log := sql_delete (\<lambda>r. lr_id r \<le> max_id \<and> d \<le> lr_at r \<and> lr_at r < d + 24 * hour) (as_log st)\<rparr>"

definition flush :: "run_env \<Rightarrow> options \<Rightarrow> schema \<Rightarrow> time \<Rightarrow> log_row list \<Rightarrow> int \<Rightarrow> progress \<Rightarrow> archive_error option \<times> progress" where
  "flush rn op sc d rows max_id pg =
     (if rows = [] then (None, pg)
      else case encode_file (rn_texts rn) (rn_parquet rn) sc (map row_values rows) of
        None \<Rightarrow> (Some ErrEncoding, pg)
      | Some data \<Rightarrow>
          let sm = fst pg; st = (snd pg)\<lparr>as_log := as_log (snd pg) @ rn_arrivals rn d\<rparr> in
          if op_dry op then (None, counted rows data sm, st)
          else (case put_cold (day_key rn op d) data (as_bucket st) of
              Inl e \<Rightarrow> (Some (ErrStore e), sm, st)
            | Inr b \<Rightarrow>
                let st1 = st\<lparr>as_bucket := b\<rparr> in
                if op_keep op then (None, counted rows data sm, st1)
                else if \<not> rn_delete_ok rn d then (Some ErrDeletingRows, sm, st1)
                else (None, counted rows data sm, delete_written rn d max_id st1)))"

text \<open>The loop over the rows: the day being collected, its rows, the highest id among them.\<close>

fun move_rows ::
  "run_env \<Rightarrow> options \<Rightarrow> schema \<Rightarrow> time \<Rightarrow> log_row list \<Rightarrow> int \<Rightarrow> log_row list \<Rightarrow> progress \<Rightarrow> archive_error option \<times> progress" where
  "move_rows rn op sc d rows max_id [] pg = flush rn op sc d rows max_id pg"
| "move_rows rn op sc d rows max_id (r # rs) pg =
     (if to_date (lr_at r) \<noteq> d
      then case flush rn op sc d rows max_id pg of
          (Some e, pg') \<Rightarrow> (Some e, pg')
        | (None, pg') \<Rightarrow> move_rows rn op sc (to_date (lr_at r)) [r] (max 0 (lr_id r)) rs pg'
      else move_rows rn op sc d (rows @ [r]) (max max_id (lr_id r)) rs pg)"

section \<open>A run\<close>

definition cold_rows :: "run_env \<Rightarrow> options \<Rightarrow> log_row list \<Rightarrow> log_row list" where
  "cold_rows rn op log = take (nat (op_batch op)) (rn_order rn (filter (\<lambda>r. lr_at r < rn_now rn - op_audit_retain op) log))"

definition dead_session :: "time \<Rightarrow> session \<Rightarrow> bool" where
  "dead_session cutoff se =
     ((case se_revoked se of None \<Rightarrow> False | Some t \<Rightarrow> t < cutoff) \<or> se_expires se < cutoff)"

definition purge_sessions :: "run_env \<Rightarrow> options \<Rightarrow> progress \<Rightarrow> archive_error option \<times> progress" where
  "purge_sessions rn op pg =
     (let cutoff = rn_now rn - op_session_retain op; sm = fst pg; st = snd pg;
          n = sql_count (dead_session cutoff) (as_sessions st) in
      if op_dry op then (None, sm\<lparr>sm_sessions := n\<rparr>, st)
      else if \<not> rn_sessions_ok rn then (Some ErrDeletingSessions, sm, st)
      else (None, sm\<lparr>sm_sessions := n\<rparr>, st\<lparr>as_sessions := sql_delete (dead_session cutoff) (as_sessions st)\<rparr>))"

definition empty_summary :: summary where
  "empty_summary = \<lparr>sm_rows = 0, sm_files = 0, sm_bytes = 0, sm_sessions = 0\<rparr>"

definition move_audit :: "run_env \<Rightarrow> options \<Rightarrow> archive_state \<Rightarrow> archive_error option \<times> progress" where
  "move_audit rn op st =
     (let rows = cold_rows rn op (as_log st) in
      if \<not> rn_read_ok rn then (Some ErrReading, empty_summary, st)
      else if rows = [] then (None, empty_summary, st)
      else case schema_for rn of
        Inl e \<Rightarrow> (Some e, empty_summary, st)
      | Inr sc \<Rightarrow> move_rows rn op sc zero_time [] 0 rows (empty_summary, st))"

definition run_archive :: "run_env \<Rightarrow> options \<Rightarrow> archive_state \<Rightarrow> archive_error option \<times> progress" where
  "run_archive rn op0 st =
     (let op = new_options op0 in
      case move_audit rn op st of
        (Some e, pg) \<Rightarrow> (Some e, pg)
      | (None, pg) \<Rightarrow> purge_sessions rn op pg)"

text \<open>The subcommand refuses to run without a bucket.\<close>

definition archive_command :: "run_env \<Rightarrow> options \<Rightarrow> archive_state \<Rightarrow> archive_error option \<times> progress" where
  "archive_command rn op st =
     (if \<not> configured (as_bucket st) then (Some ErrNoBucket, empty_summary, st) else run_archive rn op st)"

section \<open>Nothing is lost\<close>

text \<open>The row is in a file of the bucket.\<close>

definition in_file :: "run_env \<Rightarrow> options \<Rightarrow> schema \<Rightarrow> archive_state \<Rightarrow> log_row \<Rightarrow> bool" where
  "in_file rn op sc st r \<longleftrightarrow> (\<exists>rows. r \<in> set rows \<and>
     bk_objects (as_bucket st) (day_key rn op (to_date (lr_at r))) =
       encode_file (rn_texts rn) (rn_parquet rn) sc (map row_values rows) \<and>
     bk_objects (as_bucket st) (day_key rn op (to_date (lr_at r))) \<noteq> None)"

text \<open>
  The assumption on the clocks: ids follow time strictly, among the rows of the log and
  those that arrive; ids start at 1 and no row is older than the year 1.
\<close>

definition ids_follow_time :: "log_row set \<Rightarrow> bool" where
  "ids_follow_time S \<longleftrightarrow> (\<forall>a \<in> S. lr_id a > 0 \<and> zero_time \<le> lr_at a) \<and> (\<forall>a \<in> S. \<forall>b \<in> S. lr_id a \<le> lr_id b \<longrightarrow> a = b \<or> lr_at a < lr_at b)"

definition orders_by_time :: "(log_row list \<Rightarrow> log_row list) \<Rightarrow> bool" where
  "orders_by_time f \<longleftrightarrow> (\<forall>l. set (f l) = set l \<and> length (f l) = length l \<and> sorted (map lr_at (f l)))"

definition arrivals :: "run_env \<Rightarrow> log_row set" where
  "arrivals rn = (\<Union>d. set (rn_arrivals rn d))"

lemma in_day: "to_date t \<le> t \<and> t < to_date t + 24 * hour"
proof -
  have "0 < day" by (simp add: day_def hour_def minute_def second_def)
  then show ?thesis
    using pos_mod_bound [of day t] pos_mod_sign [of day t] by (simp add: to_date_def day_def)
qed

lemma in_day_iff: "to_date d = d \<Longrightarrow> d \<le> t \<and> t < d + 24 * hour \<longleftrightarrow> to_date t = d"
proof
  assume d: "to_date d = d" and t: "d \<le> t \<and> t < d + 24 * hour"
  have p: "0 < day" by (simp add: day_def hour_def minute_def second_def)
  have "d mod day = 0" using d by (simp add: to_date_def)
  have "t mod day = (d mod day + (t - d)) mod day" unfolding mod_add_left_eq by simp
  also have "\<dots> = (t - d) mod day" using \<open>d mod day = 0\<close> by simp
  also have "\<dots> = t - d" using t p by (intro mod_pos_pos_trivial) (auto simp: day_def)
  finally show "to_date t = d" by (simp add: to_date_def)
next
  assume "to_date t = d"
  then show "d \<le> t \<and> t < d + 24 * hour" using in_day [of t] by simp
qed

lemma to_date_idem [simp]: "to_date (to_date t) = to_date t"
  by (simp add: to_date_def minus_mod_eq_mult_div)

lemma put_cold_Inr:
  "put_cold k body b = Inr b' \<Longrightarrow> bk_objects b' = (bk_objects b)(k \<mapsto> body)"
  by (auto simp: put_cold_def split: if_splits)

text \<open>What a flush may delete: only what it wrote, when no other row of the day is at or below the highest id.\<close>

definition deletes_only :: "time \<Rightarrow> log_row list \<Rightarrow> int \<Rightarrow> log_row set \<Rightarrow> bool" where
  "deletes_only d rows max_id S \<longleftrightarrow> to_date d = d \<and>
     (\<forall>x \<in> S. lr_id x \<le> max_id \<and> to_date (lr_at x) = d \<longrightarrow> x \<in> set rows) \<and>
     (\<forall>x \<in> set rows. lr_id x \<le> max_id \<and> to_date (lr_at x) = d)"

lemma flush_cases:
  assumes "flush rn op sc d rows max_id (sm, st) = (e, sm', st')" "rows \<noteq> []"
  obtains (encoding) "e = Some ErrEncoding" "st' = st"
  | (kept) bk where "as_log st' = as_log st @ rn_arrivals rn d" "as_bucket st' = bk" "as_sessions st' = as_sessions st"
      "op_dry op \<and> bk = as_bucket st \<or> op_keep op \<or> e \<noteq> None"
      "bk_objects bk = bk_objects (as_bucket st) \<or> (\<exists>data. bk_objects bk = (bk_objects (as_bucket st))(day_key rn op d \<mapsto> data))"
  | (moved) data where "e = None" "encode_file (rn_texts rn) (rn_parquet rn) sc (map row_values rows) = Some data"
      "as_log st' = filter (\<lambda>r. \<not> (lr_id r \<le> max_id \<and> d \<le> lr_at r \<and> lr_at r < d + 24 * hour)) (as_log st @ rn_arrivals rn d)"
      "bk_objects (as_bucket st') = (bk_objects (as_bucket st))(day_key rn op d \<mapsto> data)" "as_sessions st' = as_sessions st"
      "\<not> op_dry op" "\<not> op_keep op" "sm' = counted rows data sm"
proof (cases "encode_file (rn_texts rn) (rn_parquet rn) sc (map row_values rows)")
  case None
  with assms encoding show thesis by (auto simp: flush_def)
next
  case (Some data)
  let ?st = "st\<lparr>as_log := as_log st @ rn_arrivals rn d\<rparr>"
  show thesis
  proof (cases "op_dry op")
    case True
    with assms Some have "e = None" "st' = ?st" by (auto simp: flush_def Let_def)
    with True show thesis by (intro kept [of "as_bucket st"]) simp_all
  next
    case False
    show thesis
    proof (cases "put_cold (day_key rn op d) data (as_bucket st)")
      case (Inl x)
      with assms Some False have "e = Some (ErrStore x)" "st' = ?st" by (auto simp: flush_def Let_def)
      then show thesis by (intro kept [of "as_bucket st"]) simp_all
    next
      case (Inr b)
      note objects = put_cold_Inr [OF Inr]
      consider "op_keep op" | "\<not> op_keep op" "\<not> rn_delete_ok rn d" | "\<not> op_keep op" "rn_delete_ok rn d" by blast
      then show thesis
      proof cases
        case 1
        with assms Some False Inr have "st' = ?st\<lparr>as_bucket := b\<rparr>" by (auto simp: flush_def Let_def)
        with 1 objects show thesis by (intro kept [of b]) auto
      next
        case 2
        with assms Some False Inr have "e = Some ErrDeletingRows" "st' = ?st\<lparr>as_bucket := b\<rparr>" by (auto simp: flush_def Let_def)
        with objects show thesis by (intro kept [of b]) auto
      next
        case 3
        with assms Some False Inr have "e = None" "st' = delete_written rn d max_id (?st\<lparr>as_bucket := b\<rparr>)" "sm' = counted rows data sm"
          by (auto simp: flush_def Let_def)
        with 3 False objects Some show thesis by (intro moved [of data]) (simp_all add: delete_written_def sql_delete_def)
      qed
    qed
  qed
qed

lemma flush_safe:
  assumes "flush rn op sc d rows max_id (sm, st) = (e, sm', st')" "rows \<noteq> []"
    "deletes_only d rows max_id (set (as_log st) \<union> set (rn_arrivals rn d))" "set rows \<inter> set (rn_arrivals rn d) = {}"
  shows "set (as_log st') \<subseteq> set (as_log st) \<union> set (rn_arrivals rn d)"
    "\<And>x. x \<in> set (as_log st) \<Longrightarrow> x \<in> set (as_log st') \<or> x \<in> set rows \<and> in_file rn op sc st' x"
    "\<And>k. k \<noteq> day_key rn op d \<Longrightarrow> bk_objects (as_bucket st') k = bk_objects (as_bucket st) k"
    "e = None \<Longrightarrow> \<not> op_dry op \<Longrightarrow> \<not> op_keep op \<Longrightarrow>
      set (as_log st') = set (as_log st) - set rows \<union> set (rn_arrivals rn d) \<and> sm_rows sm' = sm_rows sm + length rows"
    "as_sessions st' = as_sessions st"
proof -
  have d: "to_date d = d" using assms(3) by (simp add: deletes_only_def)
  have gone: "lr_id x \<le> max_id \<and> d \<le> lr_at x \<and> lr_at x < d + 24 * hour \<longleftrightarrow> x \<in> set rows"
    if "x \<in> set (as_log st) \<union> set (rn_arrivals rn d) \<union> set rows" for x
    using assms(3) that in_day_iff [OF d, of "lr_at x"] by (auto simp: deletes_only_def)
  have "set (as_log st') \<subseteq> set (as_log st) \<union> set (rn_arrivals rn d) \<and>
    (\<forall>x \<in> set (as_log st). x \<in> set (as_log st') \<or> x \<in> set rows \<and> in_file rn op sc st' x) \<and>
    (\<forall>k. k \<noteq> day_key rn op d \<longrightarrow> bk_objects (as_bucket st') k = bk_objects (as_bucket st) k) \<and>
    (e = None \<and> \<not> op_dry op \<and> \<not> op_keep op \<longrightarrow>
      set (as_log st') = set (as_log st) - set rows \<union> set (rn_arrivals rn d) \<and> sm_rows sm' = sm_rows sm + length rows) \<and>
    as_sessions st' = as_sessions st"
    using assms(1,2)
  proof (cases rule: flush_cases)
    case encoding
    then show ?thesis by simp
  next
    case (kept bk)
    then show ?thesis by auto
  next
    case (moved data)
    have log: "set (as_log st') = (set (as_log st) \<union> set (rn_arrivals rn d)) - set rows"
      using gone by (auto simp: moved(3))
    have "in_file rn op sc st' x" if "x \<in> set rows" for x
      using that assms(3) moved(2,4) by (auto simp: in_file_def deletes_only_def)
    moreover have "to_date (lr_at x) = d" if "x \<in> set rows" for x using that assms(3) by (simp add: deletes_only_def)
    ultimately show ?thesis using log moved(4,5,8) assms(4) by (auto simp: counted_def)
  qed
  then show "set (as_log st') \<subseteq> set (as_log st) \<union> set (rn_arrivals rn d)"
    "\<And>x. x \<in> set (as_log st) \<Longrightarrow> x \<in> set (as_log st') \<or> x \<in> set rows \<and> in_file rn op sc st' x"
    "\<And>k. k \<noteq> day_key rn op d \<Longrightarrow> bk_objects (as_bucket st') k = bk_objects (as_bucket st) k"
    "e = None \<Longrightarrow> \<not> op_dry op \<Longrightarrow> \<not> op_keep op \<Longrightarrow>
      set (as_log st') = set (as_log st) - set rows \<union> set (rn_arrivals rn d) \<and> sm_rows sm' = sm_rows sm + length rows"
    "as_sessions st' = as_sessions st" by blast+
qed

section \<open>The loop\<close>

text \<open>Between rows: the day's rows so far and what is left hold every older row of the log that has not been moved.\<close>

definition loop_ok :: "log_row set \<Rightarrow> time \<Rightarrow> log_row list \<Rightarrow> int \<Rightarrow> log_row list \<Rightarrow> bool" where
  "loop_ok S d rows max_id rest \<longleftrightarrow> ids_follow_time S \<and> set (rows @ rest) \<subseteq> S \<and> sorted (map lr_at (rows @ rest)) \<and>
     to_date d = d \<and> (\<forall>x \<in> set rows. to_date (lr_at x) = d \<and> lr_id x \<le> max_id) \<and> (\<forall>x \<in> set rest. d \<le> to_date (lr_at x)) \<and>
     (if rows = [] then max_id = 0 else max_id \<in> lr_id ` set rows) \<and>
     (\<forall>y \<in> set (rows @ rest). \<forall>x \<in> S. lr_at x < lr_at y \<longrightarrow> d \<le> to_date (lr_at x) \<longrightarrow> x \<in> set (rows @ rest))"

lemma loop_ok_collect:
  assumes "loop_ok S d rows max_id (r # rest)" "to_date (lr_at r) = d"
  shows "loop_ok S d (rows @ [r]) (max max_id (lr_id r)) rest"
proof -
  have "lr_id r > 0" using assms(1) by (auto simp: loop_ok_def ids_follow_time_def)
  then have "max max_id (lr_id r) \<in> lr_id ` set (rows @ [r])"
    using assms(1) by (cases "rows = []") (auto simp: loop_ok_def max_def)
  with assms show ?thesis by (auto simp: loop_ok_def)
qed

lemma loop_ok_next:
  assumes "loop_ok S d rows max_id (r # rest)" "to_date (lr_at r) \<noteq> d"
  shows "loop_ok S (to_date (lr_at r)) [r] (max 0 (lr_id r)) rest" "d < to_date (lr_at r)"
proof -
  show later: "d < to_date (lr_at r)" using assms by (auto simp: loop_ok_def)
  have pos: "lr_id r > 0" using assms(1) by (auto simp: loop_ok_def ids_follow_time_def)
  have "to_date (lr_at r) \<le> to_date (lr_at x)" if "x \<in> set rest" for x
    using assms(1) that by (intro to_date_mono) (auto simp: loop_ok_def sorted_append)
  moreover have "x \<in> set (r # rest)"
    if "y \<in> set (r # rest)" "x \<in> S" "lr_at x < lr_at y" "to_date (lr_at r) \<le> to_date (lr_at x)" for x y
  proof -
    have "\<forall>y \<in> set (rows @ r # rest). \<forall>x \<in> S. lr_at x < lr_at y \<longrightarrow> d \<le> to_date (lr_at x) \<longrightarrow> x \<in> set (rows @ r # rest)"
      using assms(1) unfolding loop_ok_def by blast
    moreover have "y \<in> set (rows @ r # rest)" "d \<le> to_date (lr_at x)" using that(1,4) later by auto
    ultimately have "x \<in> set (rows @ r # rest)" using that(2,3) by blast
    moreover have "x \<notin> set rows" using assms(1) that(4) later by (auto simp: loop_ok_def)
    ultimately show ?thesis by simp
  qed
  ultimately show "loop_ok S (to_date (lr_at r)) [r] (max 0 (lr_id r)) rest"
    using assms(1) pos by (auto simp: loop_ok_def sorted_append)
qed

lemma loop_ok_deletes:
  assumes "loop_ok S d rows max_id rest" "rows \<noteq> []" "rest = [] \<or> to_date (lr_at (hd rest)) \<noteq> d" "T \<subseteq> S"
  shows "deletes_only d rows max_id T"
proof -
  have "x \<in> set rows" if x: "x \<in> T" "lr_id x \<le> max_id" "to_date (lr_at x) = d" for x
  proof -
    obtain y where y: "y \<in> set rows" "lr_id y = max_id" using assms(1,2) by (auto simp: loop_ok_def)
    then have "x = y \<or> lr_at x < lr_at y"
      using assms(1,4) x unfolding loop_ok_def ids_follow_time_def by (metis Un_iff set_append subsetD)
    then have "x \<in> set (rows @ rest)" using assms(1,4) x y unfolding loop_ok_def by (auto 0 3)
    moreover have "x \<notin> set rest"
    proof
      assume "x \<in> set rest"
      then obtain z zs where rest: "rest = z # zs" by (cases rest) auto
      with \<open>x \<in> set rest\<close> assms(1) have "lr_at z \<le> lr_at x" by (auto simp: loop_ok_def sorted_append)
      then have "to_date (lr_at z) \<le> d" using to_date_mono x(3) by metis
      moreover have "d \<le> to_date (lr_at z)" using assms(1) rest by (simp add: loop_ok_def)
      ultimately show False using assms(3) rest by simp
    qed
    ultimately show ?thesis by simp
  qed
  with assms(1) show ?thesis by (auto simp: deletes_only_def loop_ok_def)
qed

definition days_named :: "run_env \<Rightarrow> bool" where
  "days_named rn \<longleftrightarrow> (\<forall>a b. to_date a = a \<longrightarrow> to_date b = b \<longrightarrow> rn_day rn a = rn_day rn b \<longrightarrow> a = b)"

lemma day_key_inj: "days_named rn \<Longrightarrow> to_date a = a \<Longrightarrow> to_date b = b \<Longrightarrow> day_key rn op a = day_key rn op b \<Longrightarrow> a = b"
  by (simp add: days_named_def day_key_def object_key_day)

text \<open>What the loop did: nothing lost, nothing old overwritten, and on success exactly its rows are gone.\<close>

definition moved_safely ::
  "run_env \<Rightarrow> options \<Rightarrow> schema \<Rightarrow> time \<Rightarrow> log_row list \<Rightarrow> progress \<Rightarrow> archive_error option \<times> progress \<Rightarrow> bool" where
  "moved_safely rn op sc d rows pg res \<longleftrightarrow>
     (let st = snd pg; st' = snd (snd res) in
      set (as_log st') \<subseteq> set (as_log st) \<union> arrivals rn \<and>
      (\<forall>x \<in> set (as_log st). x \<in> set (as_log st') \<or> x \<in> set rows \<and> in_file rn op sc st' x) \<and>
      (\<forall>k. (\<forall>d'. d \<le> d' \<longrightarrow> to_date d' = d' \<longrightarrow> k \<noteq> day_key rn op d') \<longrightarrow>
         bk_objects (as_bucket st') k = bk_objects (as_bucket st) k) \<and>
      (fst res = None \<longrightarrow> \<not> op_dry op \<longrightarrow> \<not> op_keep op \<longrightarrow>
         set (as_log st') = set (as_log st) - set rows \<union> (\<Union>r \<in> set rows. set (rn_arrivals rn (to_date (lr_at r)))) \<and>
         sm_rows (fst (snd res)) = sm_rows (fst pg) + length rows) \<and>
      as_sessions st' = as_sessions st)"

lemma flush_moved:
  assumes "loop_ok S d rows max_id rest" "rest = [] \<or> to_date (lr_at (hd rest)) \<noteq> d"
    "set (as_log (snd pg)) \<union> arrivals rn \<subseteq> S" "set rows \<inter> arrivals rn = {}"
  shows "moved_safely rn op sc d rows pg (flush rn op sc d rows max_id pg)"
proof (cases "rows = []")
  case True
  then show ?thesis by (simp add: moved_safely_def flush_def)
next
  case False
  obtain sm st where pg: "pg = (sm, st)" by (cases pg)
  obtain e sm' st' where f: "flush rn op sc d rows max_id (sm, st) = (e, sm', st')" by (cases "flush rn op sc d rows max_id (sm, st)") auto
  have arr: "set (rn_arrivals rn d) \<subseteq> arrivals rn" by (auto simp: arrivals_def)
  have del: "deletes_only d rows max_id (set (as_log st) \<union> set (rn_arrivals rn d))"
    by (rule loop_ok_deletes [OF assms(1) False assms(2)]) (use assms(3) arr pg in auto)
  have "set rows \<inter> set (rn_arrivals rn d) = {}" using assms(4) arr by auto
  note fs = flush_safe [OF f False del this]
  have days: "(\<Union>r \<in> set rows. set (rn_arrivals rn (to_date (lr_at r)))) = set (rn_arrivals rn d)"
    using del False by (auto simp: deletes_only_def)
  have d: "to_date d = d" using del by (simp add: deletes_only_def)
  show ?thesis
    unfolding moved_safely_def Let_def pg f fst_conv snd_conv days
    using fs(1,2,4,5) fs(3) arr d by (intro conjI ballI allI impI) auto
qed

text \<open>A run that stops after one day has lost nothing either, and days follow one another.\<close>

lemma moved_safely_stops:
  "moved_safely rn op sc d rows pg (Some e, pg1) \<Longrightarrow> moved_safely rn op sc d (rows @ rest) pg (Some e, pg1)"
  by (auto simp: moved_safely_def Let_def)

lemma moved_log:
  assumes "A \<inter> set rest = {}" "l1 = l0 - set rows \<union> A" "l2 = l1 - set rest \<union> B"
  shows "l2 = l0 - set (rows @ rest) \<union> (A \<union> B)"
  unfolding assms(2,3) set_append using assms(1) by blast

lemma moved_safely_next:
  assumes "moved_safely rn op sc d rows pg (None, pg1)" "moved_safely rn op sc d2 rest pg1 res" "d < d2"
    "to_date d = d" "\<forall>x \<in> set rows. to_date (lr_at x) = d" "set rest \<inter> arrivals rn = {}" "days_named rn"
  shows "moved_safely rn op sc d (rows @ rest) pg res"
proof -
  let ?st = "snd pg" and ?st1 = "snd pg1" and ?st2 = "snd (snd res)"
  let ?A = "\<Union>q \<in> set rows. set (rn_arrivals rn (to_date (lr_at q)))"
  let ?B = "\<Union>q \<in> set rest. set (rn_arrivals rn (to_date (lr_at q)))"
  have one: "set (as_log ?st1) \<subseteq> set (as_log ?st) \<union> arrivals rn"
    "\<forall>x \<in> set (as_log ?st). x \<in> set (as_log ?st1) \<or> x \<in> set rows \<and> in_file rn op sc ?st1 x"
    "\<forall>k. (\<forall>d'. d \<le> d' \<longrightarrow> to_date d' = d' \<longrightarrow> k \<noteq> day_key rn op d') \<longrightarrow> bk_objects (as_bucket ?st1) k = bk_objects (as_bucket ?st) k"
    "\<not> op_dry op \<Longrightarrow> \<not> op_keep op \<Longrightarrow> set (as_log ?st1) = set (as_log ?st) - set rows \<union> ?A \<and> sm_rows (fst pg1) = sm_rows (fst pg) + length rows"
    "as_sessions ?st1 = as_sessions ?st"
    using assms(1) unfolding moved_safely_def Let_def by auto
  have two: "set (as_log ?st2) \<subseteq> set (as_log ?st1) \<union> arrivals rn"
    "\<forall>x \<in> set (as_log ?st1). x \<in> set (as_log ?st2) \<or> x \<in> set rest \<and> in_file rn op sc ?st2 x"
    "\<forall>k. (\<forall>d'. d2 \<le> d' \<longrightarrow> to_date d' = d' \<longrightarrow> k \<noteq> day_key rn op d') \<longrightarrow> bk_objects (as_bucket ?st2) k = bk_objects (as_bucket ?st1) k"
    "fst res = None \<Longrightarrow> \<not> op_dry op \<Longrightarrow> \<not> op_keep op \<Longrightarrow>
       set (as_log ?st2) = set (as_log ?st1) - set rest \<union> ?B \<and> sm_rows (fst (snd res)) = sm_rows (fst pg1) + length rest"
    "as_sessions ?st2 = as_sessions ?st1"
    using assms(2) unfolding moved_safely_def Let_def by auto
  have "bk_objects (as_bucket ?st2) (day_key rn op d) = bk_objects (as_bucket ?st1) (day_key rn op d)"
    using two(3) assms(3,4) day_key_inj [OF assms(7)] by fastforce
  then have stays: "in_file rn op sc ?st2 x" if "x \<in> set rows" "in_file rn op sc ?st1 x" for x
    using that assms(5) by (simp add: in_file_def)
  have "?A \<inter> set rest = {}" using assms(6) by (auto simp: arrivals_def)
  note gone = moved_log [OF this]
  show ?thesis
    unfolding moved_safely_def Let_def
  proof (intro conjI impI)
    show "set (as_log ?st2) \<subseteq> set (as_log ?st) \<union> arrivals rn" using one(1) two(1) by blast
    show "\<forall>x \<in> set (as_log ?st). x \<in> set (as_log ?st2) \<or> x \<in> set (rows @ rest) \<and> in_file rn op sc ?st2 x"
      using one(2) two(2) stays unfolding set_append by blast
    show "\<forall>k. (\<forall>d' \<ge> d. to_date d' = d' \<longrightarrow> k \<noteq> day_key rn op d') \<longrightarrow> bk_objects (as_bucket ?st2) k = bk_objects (as_bucket ?st) k"
      using one(3) two(3) assms(3) by (metis less_le_not_le order_trans)
    assume r: "fst res = None" "\<not> op_dry op" "\<not> op_keep op"
    show "set (as_log ?st2) = set (as_log ?st) - set (rows @ rest) \<union> (\<Union>q \<in> set (rows @ rest). set (rn_arrivals rn (to_date (lr_at q))))"
      using gone [OF conjunct1 [OF one(4) [OF r(2,3)]] conjunct1 [OF two(4) [OF r]]] by simp
    show "sm_rows (fst (snd res)) = sm_rows (fst pg) + length (rows @ rest)" using one(4) two(4) r by simp
  qed (use one(5) two(5) in simp)
qed

lemma move_rows_safe:
  assumes "loop_ok S d rows max_id rest" "set (as_log (snd pg)) \<union> arrivals rn \<subseteq> S" "set (rows @ rest) \<inter> arrivals rn = {}"
    "days_named rn"
  shows "moved_safely rn op sc d (rows @ rest) pg (move_rows rn op sc d rows max_id rest pg)"
  using assms(1-3)
proof (induction rest arbitrary: d rows max_id pg)
  case Nil
  then show ?case using flush_moved [OF Nil(1) _ Nil(2)] by simp
next
  case (Cons r rest)
  show ?case
  proof (cases "to_date (lr_at r) = d")
    case True
    have "loop_ok S d (rows @ [r]) (max max_id (lr_id r)) rest" using loop_ok_collect [OF Cons.prems(1) True] .
    from Cons.IH [OF this Cons.prems(2)] Cons.prems(3) True show ?thesis by simp
  next
    case False
    note nx = loop_ok_next [OF Cons.prems(1) False]
    have d: "to_date d = d" "\<forall>x \<in> set rows. to_date (lr_at x) = d" using Cons.prems(1) by (simp_all add: loop_ok_def)
    have dis: "set rows \<inter> arrivals rn = {}" "set (r # rest) \<inter> arrivals rn = {}" using Cons.prems(3) by auto
    obtain e pg1 where f: "flush rn op sc d rows max_id pg = (e, pg1)" by (cases "flush rn op sc d rows max_id pg")
    have moved: "moved_safely rn op sc d rows pg (e, pg1)"
      using flush_moved [OF Cons.prems(1) _ Cons.prems(2) dis(1), of op sc] False unfolding f by simp
    show ?thesis
    proof (cases e)
      case (Some x)
      then show ?thesis using moved_safely_stops moved f False by simp
    next
      case None
      have "set (as_log (snd pg1)) \<union> arrivals rn \<subseteq> S" using moved Cons.prems(2) by (auto simp: moved_safely_def Let_def)
      from Cons.IH [OF nx(1) this] dis(2)
      have "moved_safely rn op sc (to_date (lr_at r)) (r # rest) pg1 (move_rows rn op sc (to_date (lr_at r)) [r] (max 0 (lr_id r)) rest pg1)"
        by simp
      from moved_safely_next [OF _ this nx(2) d dis(2) assms(4)] moved None f False show ?thesis by simp
    qed
  qed
qed

section \<open>A run as a whole\<close>

definition sound_run :: "run_env \<Rightarrow> options \<Rightarrow> archive_state \<Rightarrow> bool" where
  "sound_run rn op st \<longleftrightarrow> ids_follow_time (set (as_log st) \<union> arrivals rn) \<and> orders_by_time (rn_order rn) \<and> days_named rn \<and>
     (\<forall>x \<in> arrivals rn. rn_now rn - op_audit_retain op \<le> lr_at x)"

lemma zero_time_day: "to_date zero_time = zero_time"
  by code_simp

lemma prefix_closed:
  assumes "sorted (map f l)" "y \<in> set (take n l)" "x \<in> set l" "f x < (f y :: int)"
  shows "x \<in> set (take n l)"
proof (rule ccontr)
  assume "x \<notin> set (take n l)"
  then have "x \<in> set (drop n l)" using assms(3) by (metis Un_iff append_take_drop_id set_append)
  moreover have "sorted (map f (take n l) @ map f (drop n l))" using assms(1) by (simp add: take_map [symmetric] drop_map [symmetric])
  ultimately have "f y \<le> f x" using assms(2) by (auto simp: sorted_append)
  with assms(4) show False by simp
qed

lemma cold_rows_facts:
  assumes "orders_by_time (rn_order rn)"
  shows "set (cold_rows rn op log) \<subseteq> {x \<in> set log. lr_at x < rn_now rn - op_audit_retain op}"
    "sorted (map lr_at (cold_rows rn op log))"
    "y \<in> set (cold_rows rn op log) \<Longrightarrow> x \<in> set log \<Longrightarrow> lr_at x < lr_at y \<Longrightarrow> x \<in> set (cold_rows rn op log)"
proof -
  let ?f = "filter (\<lambda>r. lr_at r < rn_now rn - op_audit_retain op) log"
  have o: "set (rn_order rn ?f) = set ?f" "sorted (map lr_at (rn_order rn ?f))" using assms by (simp_all add: orders_by_time_def)
  show sub: "set (cold_rows rn op log) \<subseteq> {x \<in> set log. lr_at x < rn_now rn - op_audit_retain op}"
    using o(1) set_take_subset [of "nat (op_batch op)" "rn_order rn ?f"] by (auto simp: cold_rows_def)
  show "sorted (map lr_at (cold_rows rn op log))" using o(2) by (simp add: cold_rows_def take_map [symmetric] sorted_wrt_take)
  assume y: "y \<in> set (cold_rows rn op log)" "x \<in> set log" "lr_at x < lr_at y"
  from sub y(1) have "lr_at y < rn_now rn - op_audit_retain op" by blast
  with y(2,3) have "x \<in> set (rn_order rn ?f)" unfolding o(1) by simp
  from prefix_closed [OF o(2) y(1) [unfolded cold_rows_def] this y(3)] show "x \<in> set (cold_rows rn op log)"
    unfolding cold_rows_def .
qed

lemma cold_rows_loop:
  assumes "sound_run rn op st"
  shows "loop_ok (set (as_log st) \<union> arrivals rn) zero_time [] 0 (cold_rows rn op (as_log st))"
    "set (cold_rows rn op (as_log st)) \<inter> arrivals rn = {}"
proof -
  note f = cold_rows_facts [where rn = rn and op = op and log = "as_log st"]
  have ord: "orders_by_time (rn_order rn)" using assms by (simp add: sound_run_def)
  have arr: "rn_now rn - op_audit_retain op \<le> lr_at x" if "x \<in> arrivals rn" for x using assms that by (simp add: sound_run_def)
  have "False" if "x \<in> set (cold_rows rn op (as_log st))" "x \<in> arrivals rn" for x
    using subsetD [OF f(1) [OF ord] that(1)] arr [OF that(2)] by simp
  then show "set (cold_rows rn op (as_log st)) \<inter> arrivals rn = {}" by blast
  have older: "x \<in> set (cold_rows rn op (as_log st))"
    if "y \<in> set (cold_rows rn op (as_log st))" "x \<in> set (as_log st) \<union> arrivals rn" "lr_at x < lr_at y" for x y
  proof -
    have "lr_at y < rn_now rn - op_audit_retain op" using subsetD [OF f(1) [OF ord] that(1)] by simp
    then have "x \<in> set (as_log st)" using that(2,3) arr [of x] by auto
    with that f(3) [OF ord] show ?thesis by blast
  qed
  have start: "zero_time \<le> to_date (lr_at x)" if "x \<in> set (cold_rows rn op (as_log st))" for x
  proof -
    have "x \<in> set (as_log st)" using subsetD [OF f(1) [OF ord] that] by simp
    then have "zero_time \<le> lr_at x" using assms by (simp add: sound_run_def ids_follow_time_def)
    from to_date_mono [OF this] show ?thesis by (simp add: zero_time_day)
  qed
  show "loop_ok (set (as_log st) \<union> arrivals rn) zero_time [] 0 (cold_rows rn op (as_log st))"
    unfolding loop_ok_def append_Nil
  proof (intro conjI)
    show "ids_follow_time (set (as_log st) \<union> arrivals rn)" using assms by (simp add: sound_run_def)
    show "set (cold_rows rn op (as_log st)) \<subseteq> set (as_log st) \<union> arrivals rn" using f(1) [OF ord] by blast
    show "sorted (map lr_at (cold_rows rn op (as_log st)))" by (rule f(2) [OF ord])
    show "\<forall>x \<in> set (cold_rows rn op (as_log st)). zero_time \<le> to_date (lr_at x)" by (rule ballI) (rule start)
    show "\<forall>y \<in> set (cold_rows rn op (as_log st)). \<forall>x \<in> set (as_log st) \<union> arrivals rn. lr_at x < lr_at y \<longrightarrow>
        zero_time \<le> to_date (lr_at x) \<longrightarrow> x \<in> set (cold_rows rn op (as_log st))"
      by (intro ballI impI) (rule older)
  qed (simp_all add: zero_time_day)
qed

lemma move_audit_safe:
  assumes "sound_run rn op st" "move_audit rn op st = (e, sm, st')"
  shows "(\<forall>x \<in> set (as_log st). x \<in> set (as_log st') \<or>
      x \<in> set (cold_rows rn op (as_log st)) \<and> (\<exists>sc. schema_for rn = Inr sc \<and> in_file rn op sc st' x)) \<and>
    (e = None \<longrightarrow> \<not> op_dry op \<longrightarrow> \<not> op_keep op \<longrightarrow>
      set (as_log st') = set (as_log st) - set (cold_rows rn op (as_log st)) \<union>
        (\<Union>r \<in> set (cold_rows rn op (as_log st)). set (rn_arrivals rn (to_date (lr_at r)))) \<and>
      sm_rows sm = length (cold_rows rn op (as_log st))) \<and>
    as_sessions st' = as_sessions st"
proof (cases "rn_read_ok rn \<and> cold_rows rn op (as_log st) \<noteq> [] \<and> (\<exists>sc. schema_for rn = Inr sc)")
  case False
  then show ?thesis using assms(2)
    by (auto simp: move_audit_def Let_def empty_summary_def split: if_splits sum.splits)
next
  case True
  then obtain sc where sc: "schema_for rn = Inr sc" by blast
  with True assms(2) have m: "move_rows rn op sc zero_time [] 0 (cold_rows rn op (as_log st)) (empty_summary, st) = (e, sm, st')"
    by (simp add: move_audit_def Let_def)
  have "moved_safely rn op sc zero_time ([] @ cold_rows rn op (as_log st)) (empty_summary, st)
      (move_rows rn op sc zero_time [] 0 (cold_rows rn op (as_log st)) (empty_summary, st))"
    using cold_rows_loop [OF assms(1)] assms(1) by (intro move_rows_safe) (auto simp: sound_run_def)
  then show ?thesis unfolding m using sc by (auto simp: moved_safely_def Let_def empty_summary_def)
qed

lemma new_options_positive: "op_session_retain (new_options op) > 0" "op_audit_retain (new_options op) > 0"
  by (auto simp: new_options_def hour_def minute_def second_def)


definition demo_row :: "int \<Rightarrow> time \<Rightarrow> log_row" where
  "demo_row i t = \<lparr>lr_id = i, lr_at = t, lr_columns = [''event'' \<mapsto> AText ''login.success'']\<rparr>"

definition demo_day_text :: "time \<Rightarrow> string" where
  "demo_day_text d = (if d \<ge> 0 then CHR ''p'' # replicate (nat (d div day)) (CHR ''i'')
     else CHR ''n'' # replicate (nat (- d div day)) (CHR ''i''))"

definition demo_run :: run_env where
  "demo_run = \<lparr>rn_now = 50 * day,
     rn_texts = \<lparr>tx_stamp = (\<lambda>_. ''t''), tx_bool = (\<lambda>_. ''b''), tx_int = (\<lambda>_. ''n''), tx_float32 = (\<lambda>_. ''f''), tx_float64 = (\<lambda>_. ''f'')\<rparr>,
     rn_parquet = (\<lambda>sc bs. Some (replicate (length (concat bs)) (CHR ''r''))), rn_day = demo_day_text, rn_stamp = (\<lambda>_. ''run''),
     rn_order = sort_key lr_at, rn_read_ok = True,
     rn_columns = Some [(''id'', ''bigint''), (''event'', ''character varying''), (''created_at'', ''timestamp with time zone'')],
     rn_delete_ok = (\<lambda>_. True), rn_arrivals = (\<lambda>d. if d = 2 * day then [demo_row 5 (50 * day)] else []), rn_sessions_ok = True\<rparr>"

definition demo_options :: options where
  "demo_options = \<lparr>op_audit_retain = 30 * day, op_session_retain = 0, op_batch = 10, op_keep = False, op_dry = False, op_prefix = []\<rparr>"

definition demo_bucket :: bucket where
  "demo_bucket = \<lparr>bk_name = ''cold'', bk_accepts = (\<lambda>_ _. True), bk_objects = Map.empty\<rparr>"

definition demo_archive :: archive_state where
  "demo_archive = \<lparr>as_log = [demo_row 4 (45 * day), demo_row 1 (2 * day + hour), demo_row 2 (2 * day + 2 * hour), demo_row 3 (5 * day)],
     as_sessions = [], as_bucket = demo_bucket\<rparr>"

lemma demo_days_named: "days_named demo_run"
proof -
  have "a = b" if "to_date a = a" "to_date b = b" "demo_day_text a = demo_day_text b" for a b
  proof -
    have p: "0 < day" by (simp add: day_def hour_def minute_def second_def)
    have a: "a = a div day * day" "b = b div day * day"
      using that(1,2) by (simp_all add: to_date_def minus_mod_eq_div_mult)
    have "a div day = b div day"
    proof (cases "a \<ge> 0")
      case True
      then have "b \<ge> 0" using that(3) by (simp add: demo_day_text_def split: if_splits)
      with True that(3) p show ?thesis
        by (simp add: demo_day_text_def pos_imp_zdiv_nonneg_iff eq_nat_nat_iff)
    next
      case False
      then have b: "\<not> b \<ge> 0" using that(3) by (auto simp: demo_day_text_def split: if_splits)
      have "- a div day = - b div day"
        using False b that(3) p by (simp add: demo_day_text_def pos_imp_zdiv_nonneg_iff eq_nat_nat_iff)
      moreover have "day dvd a" "day dvd b" using a by (metis dvd_triv_right)+
      ultimately show ?thesis by (simp add: dvd_neg_div)
    qed
    with a show ?thesis by simp
  qed
  then show ?thesis unfolding days_named_def demo_run_def by simp
qed

lemma demo_sound: "sound_run demo_run (new_options demo_options) demo_archive"
proof -
  have arr: "arrivals demo_run = {demo_row 5 (50 * day)}" by (auto simp: arrivals_def demo_run_def)
  show ?thesis unfolding sound_run_def arr
    by (simp add: demo_days_named)
      (auto simp: demo_run_def orders_by_time_def ids_follow_time_def demo_archive_def demo_row_def zero_time_def
        new_options_def demo_options_def day_def hour_def minute_def second_def)
qed


text \<open>
  The assumption on the clocks carries the promise: two instances whose clocks differ by a
  moment number two rows against their time stamps, a batch ends between them, and the row
  left for the next run is deleted without ever being written.
\<close>
lemma archive_loses_skewed_row:
  "map lr_id (as_log (snd (snd (run_archive demo_run (demo_options\<lparr>op_batch := 1\<rparr>)
     (demo_archive\<lparr>as_log := [demo_row 1 (2 * day + 2 * hour), demo_row 2 (2 * day + hour)]\<rparr>))))) = [5]"
  "map lr_id (cold_rows demo_run (new_options (demo_options\<lparr>op_batch := 1\<rparr>))
     [demo_row 1 (2 * day + 2 * hour), demo_row 2 (2 * day + hour)]) = [2]"
  by code_simp+

end
