(* ===== verification/Config.thy ===== *)
theory Config
  imports Query Principal
begin

text \<open>
  internal/config/config.go: the configuration the process starts with.  The environment
  is a map (os.LookupEnv); the .env file godotenv merges into it is part of the map.  The
  theorem is what the rest of the service relies on: nothing that is a security control
  is ever defaulted.
\<close>

section \<open>Reading variables\<close>

type_synonym vars = "string \<rightharpoonup> string"

definition getenv :: "vars \<Rightarrow> string \<Rightarrow> string" where
  "getenv v k = (case v k of None \<Rightarrow> [] | Some x \<Rightarrow> x)"

definition env_or :: "vars \<Rightarrow> string \<Rightarrow> string \<Rightarrow> string" where
  "env_or v k fallback = (case v k of None \<Rightarrow> fallback | Some x \<Rightarrow> if x \<noteq> [] then x else fallback)"

definition int_or :: "vars \<Rightarrow> string \<Rightarrow> int64 \<Rightarrow> int64" where
  "int_or v k fallback =
     (case v k of None \<Rightarrow> fallback | Some x \<Rightarrow> let (n, ok) = atoi x in if ok then n else fallback)"

definition split_or :: "vars \<Rightarrow> string \<Rightarrow> string list \<Rightarrow> string list" where
  "split_or v k fallback =
     (case v k of
        None \<Rightarrow> fallback
      | Some x \<Rightarrow>
          if trim_space x = [] then fallback
          else filter (\<lambda>p. p \<noteq> []) (map trim_space (split_on (CHR '','') x)))"

section \<open>Durations\<close>

text \<open>
  time.ParseDuration: [-+]?([0-9]*(\.[0-9]*)?[a-z]+)+ with the overflow checks of the
  library.  What a fraction adds is float64 arithmetic and the parameter \<open>frac\<close>: the
  digits after the point and the length of the unit.
\<close>

type_synonym fraction = "string \<Rightarrow> int \<Rightarrow> int"

definition max_duration :: int where "max_duration = 9223372036854775807"

definition unit_of :: "string \<Rightarrow> int option" where
  "unit_of u = map_of [(''ns'', 1), (''us'', 1000), ([CHR 0xC2, CHR 0xB5, CHR ''s''], 1000),
     ([CHR 0xCE, CHR 0xBC, CHR ''s''], 1000), (''ms'', 1000000), (''s'', second), (''m'', minute), (''h'', hour)] u"

fun leading_int :: "int \<Rightarrow> string \<Rightarrow> (int \<times> string) option" where
  "leading_int x [] = Some (x, [])"
| "leading_int x (c # cs) =
     (if \<not> is_digit c then Some (x, c # cs)
      else if x > (max_duration + 1) div 10 then None
      else let y = 10 * x + (of_char c - 48) in if y > max_duration + 1 then None else leading_int y cs)"

lemma leading_int_rest: "leading_int x s = Some (n, r) \<Longrightarrow> length r \<le> length s"
  by (induction x s rule: leading_int.induct) (auto simp: Let_def split: if_splits)

definition unit_char :: "char \<Rightarrow> bool" where
  "unit_char c = (c \<noteq> CHR ''.'' \<and> \<not> is_digit c)"

text \<open>One number with its unit: the nanoseconds, and what is left of the text.\<close>

definition duration_part :: "fraction \<Rightarrow> string \<Rightarrow> (int \<times> string) option" where
  "duration_part frac s =
     (if \<not> (has_prefix s ''.'' \<or> (s \<noteq> [] \<and> is_digit (s ! 0))) then None
      else case leading_int 0 s of
        None \<Rightarrow> None
      | Some (v, s1) \<Rightarrow>
          (let pre = s1 \<noteq> s;
               point = has_prefix s1 ''.'';
               digits = (if point then takeWhile is_digit (drop 1 s1) else []);
               s2 = (if point then dropWhile is_digit (drop 1 s1) else s1);
               u = takeWhile unit_char s2; s3 = dropWhile unit_char s2 in
           if \<not> pre \<and> digits = [] then None
           else case unit_of u of
             None \<Rightarrow> None
           | Some unit \<Rightarrow>
               if v > (max_duration + 1) div unit then None
               else let w = v * unit + (if digits = [] then 0 else frac digits unit) in
                 if w > max_duration + 1 then None else Some (w, s3)))"

lemma duration_part_shorter:
  assumes "duration_part frac s = Some (w, r)"
  shows "length r < length s"
proof -
  have nonempty: "takeWhile unit_char t \<noteq> []" if "unit_of (takeWhile unit_char t) \<noteq> None" for t
    using that by (auto simp: unit_of_def)
  have drop: "length (dropWhile unit_char t) < length t" if "takeWhile unit_char t \<noteq> []" for t
    using that by (cases t) (auto simp: le_imp_less_Suc length_dropWhile_le split: if_splits)
  obtain v s1 where s1: "leading_int 0 s = Some (v, s1)"
    using assms by (auto simp: duration_part_def split: option.splits if_splits)
  let ?s2 = "if has_prefix s1 ''.'' then dropWhile is_digit (drop 1 s1) else s1"
  have r: "r = dropWhile unit_char ?s2" "unit_of (takeWhile unit_char ?s2) \<noteq> None"
    using assms s1 by (auto simp: duration_part_def Let_def split: option.splits if_splits)
  have "length ?s2 \<le> length s"
    using leading_int_rest [OF s1] length_dropWhile_le [of is_digit "drop 1 s1"] by auto
  then show ?thesis using drop [OF nonempty [OF r(2)]] unfolding r(1) by linarith
qed

function duration_parts :: "fraction \<Rightarrow> int \<Rightarrow> string \<Rightarrow> int option" where
  "duration_parts frac d s =
     (if s = [] then Some d
      else case duration_part frac s of
        None \<Rightarrow> None
      | Some p \<Rightarrow> if d + fst p > max_duration + 1 then None else duration_parts frac (d + fst p) (snd p))"
  by pat_completeness auto
termination
  by (relation "measure (\<lambda>(frac, d, s). length s)") (auto dest: duration_part_shorter)

declare duration_parts.simps [simp del]

definition parse_duration :: "fraction \<Rightarrow> string \<Rightarrow> time option" where
  "parse_duration frac s0 =
     (let neg = has_prefix s0 ''-'';
          s = (if neg \<or> has_prefix s0 ''+'' then drop 1 s0 else s0) in
      if s = ''0'' then Some 0
      else if s = [] then None
      else case duration_parts frac 0 s of
        None \<Rightarrow> None
      | Some d \<Rightarrow> if neg then Some (- d) else if d > max_duration then None else Some d)"

definition duration_or :: "fraction \<Rightarrow> vars \<Rightarrow> string \<Rightarrow> time \<Rightarrow> time" where
  "duration_or frac v k fallback =
     (case v k of
        None \<Rightarrow> fallback
      | Some x \<Rightarrow> (case parse_duration frac x of None \<Rightarrow> fallback | Some d \<Rightarrow> d))"

section \<open>Loading\<close>

record database =
  db_host :: string
  db_port :: string
  db_user :: string
  db_password :: string
  db_name :: string
  db_sslmode :: string
  db_max_open :: int64
  db_max_idle :: int64
  db_lifetime :: time

text \<open>Config.  The archive options are the Options of internal/archive with their defaults not yet applied.\<close>

record configuration =
  cf_environment :: string
  cf_log_level :: string
  cf_archive_bucket :: string
  cf_archive_region :: string
  cf_archive_prefix :: string
  cf_archive_audit_retain :: time
  cf_archive_session_retain :: time
  cf_archive_batch :: int64
  cf_archive_keep :: bool
  cf_http_port :: string
  cf_grpc_port :: string
  cf_database :: database
  cf_access_ttl :: time
  cf_refresh_ttl :: time
  cf_bcrypt_cost :: int64
  cf_service_token :: string
  cf_accepted :: "string list"
  cf_notification_addr :: string
  cf_driver_link :: string
  cf_cors :: "string list"
  cf_proxies :: "string list"
  cf_rate_limit :: int64
  cf_rate_window :: time
  cf_cookie_domain :: string

datatype config_error = MissingVars "string list" | WeakCost int64

definition is_production_env :: "string \<Rightarrow> bool" where
  "is_production_env e = (to_lower (trim_space e) \<in> {''production'', ''prod''})"

definition ssl_default :: "string \<Rightarrow> string" where
  "ssl_default e = (if is_production_env e then ''require'' else ''disable'')"

definition dsn :: "database \<Rightarrow> string" where
  "dsn d = ''host='' @ db_host d @ '' port='' @ db_port d @ '' user='' @ db_user d @ '' password='' @ db_password d
     @ '' dbname='' @ db_name d @ '' sslmode='' @ db_sslmode d @ '' TimeZone=Asia/Jakarta''"

definition read_database :: "fraction \<Rightarrow> vars \<Rightarrow> string \<Rightarrow> database" where
  "read_database frac v e =
     \<lparr>db_host = env_or v ''DB_HOST'' ''localhost'', db_port = env_or v ''DB_PORT'' ''5432'',
      db_user = env_or v ''DB_USER'' ''karlo'', db_password = getenv v ''DB_PASSWORD'',
      db_name = env_or v ''DB_NAME'' ''karlo_auth'', db_sslmode = env_or v ''DB_SSLMODE'' (ssl_default e),
      db_max_open = int_or v ''DB_MAX_OPEN_CONNS'' 25, db_max_idle = int_or v ''DB_MAX_IDLE_CONNS'' 5,
      db_lifetime = duration_or frac v ''DB_CONN_MAX_LIFETIME'' hour\<rparr>"

definition read_config :: "fraction \<Rightarrow> vars \<Rightarrow> configuration" where
  "read_config frac v =
     (let e = env_or v ''ENVIRONMENT'' ''development'' in
      \<lparr>cf_environment = e, cf_log_level = env_or v ''LOG_LEVEL'' ''info'',
       cf_archive_bucket = env_or v ''ARCHIVE_BUCKET'' [],
       cf_archive_region = env_or v ''ARCHIVE_REGION'' (env_or v ''AWS_REGION'' ''ap-southeast-3''),
       cf_archive_prefix = env_or v ''ARCHIVE_PREFIX'' ''archive/auth'',
       cf_archive_audit_retain = duration_or frac v ''ARCHIVE_RETAIN_AUDIT'' (30 * 24 * hour),
       cf_archive_session_retain = duration_or frac v ''ARCHIVE_RETAIN_SESSIONS'' (30 * 24 * hour),
       cf_archive_batch = int_or v ''ARCHIVE_BATCH'' 100000,
       cf_archive_keep = (getenv v ''ARCHIVE_KEEP_AUDIT_ROWS'' = ''true''),
       cf_http_port = env_or v ''HTTP_PORT'' ''5001'', cf_grpc_port = env_or v ''GRPC_PORT'' ''6001'',
       cf_database = read_database frac v e,
       cf_access_ttl = duration_or frac v ''ACCESS_TOKEN_TTL'' (2 * hour),
       cf_refresh_ttl = duration_or frac v ''REFRESH_TOKEN_TTL'' (30 * 24 * hour),
       cf_bcrypt_cost = int_or v ''BCRYPT_COST'' 12,
       cf_service_token = getenv v ''SERVICE_TOKEN'',
       cf_accepted = split_or v ''ACCEPTED_SERVICE_TOKENS'' [],
       cf_notification_addr = env_or v ''NOTIFICATION_GRPC_ADDR'' ''localhost:6004'',
       cf_driver_link = env_or v ''DRIVER_APP_LINK'' ''https://play.google.com/store/apps/details?id=id.karlo.ktrip'',
       cf_cors = split_or v ''CORS_ALLOWED_ORIGINS'' [], cf_proxies = split_or v ''TRUSTED_PROXIES'' [],
       cf_rate_limit = int_or v ''LOGIN_RATE_LIMIT'' 5,
       cf_rate_window = duration_or frac v ''LOGIN_RATE_WINDOW'' (15 * minute),
       cf_cookie_domain = getenv v ''SESSION_COOKIE_DOMAIN''\<rparr>)"

definition missing_vars :: "configuration \<Rightarrow> string list" where
  "missing_vars c =
     (if db_password (cf_database c) = [] then [''DB_PASSWORD''] else []) @
     (if cf_service_token c = [] then [''SERVICE_TOKEN''] else []) @
     (if cf_accepted c = [] then [''ACCEPTED_SERVICE_TOKENS''] else []) @
     (if cf_cors c = [] then [''CORS_ALLOWED_ORIGINS''] else [])"

definition load :: "fraction \<Rightarrow> vars \<Rightarrow> config_error + configuration" where
  "load frac v =
     (let c = read_config frac v in
      if missing_vars c \<noteq> [] then Inl (MissingVars (missing_vars c))
      else if cf_bcrypt_cost c <s 10 then Inl (WeakCost (cf_bcrypt_cost c))
      else Inr c)"

section \<open>Connecting\<close>

text \<open>ConnectPostgres: the pool it leaves, once the driver has parsed the connection string and the server has answered.\<close>

record pool =
  pl_dsn :: string
  pl_log_statements :: bool
  pl_max_open :: int64
  pl_max_idle :: int64
  pl_lifetime :: time

datatype connect_error = ErrOpenDatabase | ErrPingDatabase string string

definition connect_postgres :: "(string \<Rightarrow> bool) \<Rightarrow> (string \<Rightarrow> bool) \<Rightarrow> configuration \<Rightarrow> connect_error + pool" where
  "connect_postgres opens pings cfg =
     (let d = cf_database cfg in
      if \<not> opens (dsn d) then Inl ErrOpenDatabase
      else if \<not> pings (dsn d) then Inl (ErrPingDatabase (db_host d) (db_port d))
      else Inr \<lparr>pl_dsn = dsn d, pl_log_statements = (\<not> is_production_env (cf_environment cfg)),
        pl_max_open = db_max_open d, pl_max_idle = db_max_idle d, pl_lifetime = db_lifetime d\<rparr>)"

section \<open>Nothing that guards the service is defaulted\<close>

lemma split_or_trimmed:
  "t \<in> set (split_or v k []) \<Longrightarrow> t \<noteq> [] \<and> trim_space t = t"
  by (auto simp: split_or_def trim_space_idem split: option.splits if_splits)

lemma load_Inr:
  assumes "load frac v = Inr c"
  shows "c = read_config frac v" "missing_vars c = []" "10 \<le>s cf_bcrypt_cost c"
  using assms by (auto simp: load_def Let_def word_sless_alt word_sle_eq split: if_splits)


definition demo_vars :: vars where
  "demo_vars = [''DB_PASSWORD'' \<mapsto> ''pw'', ''SERVICE_TOKEN'' \<mapsto> ''s1'', ''ACCEPTED_SERVICE_TOKENS'' \<mapsto> '' s1 , s2,'',
     ''CORS_ALLOWED_ORIGINS'' \<mapsto> ''https://tms.karlo.id'', ''ACCESS_TOKEN_TTL'' \<mapsto> ''15m'']"

definition no_fraction :: fraction where "no_fraction ds unit = 0"

lemma demo_loads: "load no_fraction demo_vars = Inr (read_config no_fraction demo_vars)"
  "cf_accepted (read_config no_fraction demo_vars) = [''s1'', ''s2'']"
  "cf_access_ttl (read_config no_fraction demo_vars) = 15 * minute"
proof -
  have "missing_vars (read_config no_fraction demo_vars) = []" "\<not> cf_bcrypt_cost (read_config no_fraction demo_vars) <s 10"
    by code_simp+
  then show "load no_fraction demo_vars = Inr (read_config no_fraction demo_vars)" by (simp add: load_def Let_def)
qed code_simp+


section \<open>What the checks let through\<close>

text \<open>A token padded in SERVICE_TOKEN is presented padded and is in nobody's list: no call of this service is accepted.\<close>

lemma padded_service_token:
  "load frac v = Inr c \<Longrightarrow> trim_space (getenv w ''SERVICE_TOKEN'') \<noteq> getenv w ''SERVICE_TOKEN'' \<Longrightarrow>
     getenv w ''SERVICE_TOKEN'' \<notin> set (cf_accepted c)"
  using split_or_trimmed [of "getenv w ''SERVICE_TOKEN''" v "''ACCEPTED_SERVICE_TOKENS''"] load_Inr(1) [of frac v c]
  by (auto simp: read_config_def Let_def)

text \<open>
  A wildcard origin, a hash cost bcrypt refuses and tokens that are born expired all load,
  and a malformed number falls back without a word.
\<close>
lemma loads_unusable_values:
  "missing_vars (read_config no_fraction (demo_vars(''CORS_ALLOWED_ORIGINS'' \<mapsto> ''*''))) = []"
  "load no_fraction (demo_vars(''BCRYPT_COST'' \<mapsto> ''40'')) = Inr (read_config no_fraction (demo_vars(''BCRYPT_COST'' \<mapsto> ''40'')))"
  "cf_access_ttl (read_config no_fraction (demo_vars(''ACCESS_TOKEN_TTL'' \<mapsto> ''-15m''))) = - (15 * minute)"
  "cf_access_ttl (read_config no_fraction (demo_vars(''ACCESS_TOKEN_TTL'' \<mapsto> ''15 m''))) = 2 * hour"
proof -
  let ?v = "demo_vars(''BCRYPT_COST'' \<mapsto> ''40'')"
  have "missing_vars (read_config no_fraction ?v) = []" "\<not> cf_bcrypt_cost (read_config no_fraction ?v) <s 10" by code_simp+
  then show "load no_fraction ?v = Inr (read_config no_fraction ?v)" by (simp add: load_def Let_def)
qed code_simp+

text \<open>Values are rendered unquoted, so the password can carry further settings of the connection.\<close>

lemma dsn_ambiguous:
  "dsn (d\<lparr>db_password := ''x dbname=other'', db_name := ''auth''\<rparr>) =
   dsn (d\<lparr>db_password := ''x'', db_name := ''other dbname=auth''\<rparr>)"
  by (simp add: dsn_def)

end
