(* ===== verification/Keys.thy ===== *)
theory Keys
  imports Config
begin

text \<open>
  internal/platform/authctx/verifier.go: how the signing key is loaded and published.
  RSA keys are a modulus and an exponent; the PEM parser, the files and the part of a
  private key nobody publishes are parameters.
\<close>

section \<open>Keys\<close>

record public_key =
  pk_modulus :: nat
  pk_exponent :: nat

record 'sec signer =
  sg_public :: public_key
  sg_secret :: 'sec
  sg_kid :: string

datatype key_error = EmptyKey | UnparsableKey | UnreadableKey string | NoKey

text \<open>strings.ReplaceAll(inline, "\\n", newline): a backslash and an n become a line feed.\<close>

fun unescape_newlines :: "string \<Rightarrow> string" where
  "unescape_newlines (a # b # cs) =
     (if a = CHR 0x5C \<and> b = CHR ''n'' then CHR 0x0A # unescape_newlines cs else a # unescape_newlines (b # cs))"
| "unescape_newlines cs = cs"

definition new_verifier :: "(string \<Rightarrow> public_key option) \<Rightarrow> string \<Rightarrow> key_error + public_key" where
  "new_verifier parse pem =
     (if pem = [] then Inl EmptyKey
      else case parse pem of None \<Rightarrow> Inl UnparsableKey | Some k \<Rightarrow> Inr k)"

definition new_signer ::
  "(string \<Rightarrow> (public_key \<times> 'sec) option) \<Rightarrow> string \<Rightarrow> string \<Rightarrow> key_error + 'sec signer" where
  "new_signer parse pem kid =
     (if pem = [] then Inl EmptyKey
      else case parse pem of
        None \<Rightarrow> Inl UnparsableKey
      | Some k \<Rightarrow> Inr \<lparr>sg_public = fst k, sg_secret = snd k, sg_kid = kid\<rparr>)"

text \<open>filepath.Clean on a slash-separated path: the elements kept, innermost first.\<close>

definition clean_step :: "bool \<Rightarrow> string \<Rightarrow> string list \<Rightarrow> string list" where
  "clean_step rooted c kept =
     (if c = [] \<or> c = ''.'' then kept
      else if c = ''..'' then
        (case kept of
           [] \<Rightarrow> if rooted then [] else [''..'']
         | k # ks \<Rightarrow> if k = ''..'' then ''..'' # k # ks else ks)
      else c # kept)"

definition path_clean :: "string \<Rightarrow> string" where
  "path_clean p =
     (let rooted = has_prefix p ''/''; kept = join ''/'' (rev (fold (clean_step rooted) (split_on (CHR ''/'') p) [])) in
      if rooted then ''/'' @ kept else if kept = [] then ''.'' else kept)"

definition read_key_file :: "(string \<Rightarrow> string option) \<Rightarrow> string \<Rightarrow> key_error + string" where
  "read_key_file files path = (case files (path_clean path) of None \<Rightarrow> Inl (UnreadableKey path) | Some b \<Rightarrow> Inr b)"

text \<open>The inline variable wins over the file; there is no default.\<close>

definition key_text :: "(string \<Rightarrow> string option) \<Rightarrow> vars \<Rightarrow> string \<Rightarrow> string \<Rightarrow> key_error + string" where
  "key_text files v inline file =
     (if getenv v inline \<noteq> [] then Inr (unescape_newlines (getenv v inline))
      else if getenv v file \<noteq> [] then read_key_file files (getenv v file)
      else Inl NoKey)"

definition new_verifier_from_env ::
  "(string \<Rightarrow> public_key option) \<Rightarrow> (string \<Rightarrow> string option) \<Rightarrow> vars \<Rightarrow> key_error + public_key" where
  "new_verifier_from_env parse files v =
     rbind (key_text files v ''JWT_PUBLIC_KEY'' ''JWT_PUBLIC_KEY_FILE'') (new_verifier parse)"

definition new_signer_from_env ::
  "(string \<Rightarrow> (public_key \<times> 'sec) option) \<Rightarrow> (string \<Rightarrow> string option) \<Rightarrow> vars \<Rightarrow> key_error + 'sec signer" where
  "new_signer_from_env parse files v =
     rbind (key_text files v ''JWT_PRIVATE_KEY'' ''JWT_PRIVATE_KEY_FILE'')
       (\<lambda>pem. new_signer parse pem (getenv v ''JWT_KEY_ID''))"

section \<open>The published key\<close>

text \<open>big.Int.Bytes: big-endian, no leading zero.\<close>

fun le_bytes :: "nat \<Rightarrow> nat list" where
  "le_bytes n = (if n = 0 then [] else n mod 256 # le_bytes (n div 256))"

declare le_bytes.simps [simp del]

definition be_bytes :: "nat \<Rightarrow> nat list" where "be_bytes n = rev (le_bytes n)"

text \<open>base64.RawURLEncoding: 64 characters, no padding.\<close>

definition alphabet :: string where
  "alphabet = ''ABCDEFGHIJKLMNOPQRSTUVWXYZabcdefghijklmnopqrstuvwxyz0123456789-_''"

definition sextet :: "nat \<Rightarrow> char" where "sextet k = alphabet ! k"

fun raw_url_encode :: "nat list \<Rightarrow> string" where
  "raw_url_encode (a # b # c # rest) =
     sextet (a div 4) # sextet (a mod 4 * 16 + b div 16) # sextet (b mod 16 * 4 + c div 64) # sextet (c mod 64) # raw_url_encode rest"
| "raw_url_encode [a, b] = [sextet (a div 4), sextet (a mod 4 * 16 + b div 16), sextet (b mod 16 * 4)]"
| "raw_url_encode [a] = [sextet (a div 4), sextet (a mod 4 * 16)]"
| "raw_url_encode [] = []"

definition jwk :: "'sec signer \<Rightarrow> (string \<times> string) list" where
  "jwk sg =
     [(''kty'', ''RSA''), (''use'', ''sig''), (''alg'', ''RS256''),
      (''n'', raw_url_encode (be_bytes (pk_modulus (sg_public sg)))),
      (''e'', raw_url_encode (be_bytes (pk_exponent (sg_public sg))))]
     @ (if sg_kid sg \<noteq> [] then [(''kid'', sg_kid sg)] else [])"

definition jwks :: "'sec signer \<Rightarrow> (string \<times> string) list list" where
  "jwks sg = [jwk sg]"

section \<open>Reading it back\<close>

text \<open>RFC 7518, section 6.3.1, as a consumer reads it.\<close>

fun raw_url_decode :: "nat list \<Rightarrow> nat list" where
  "raw_url_decode (p # q # r # s # rest) =
     (p * 4 + q div 16) # (q mod 16 * 16 + r div 4) # (r mod 4 * 64 + s) # raw_url_decode rest"
| "raw_url_decode [p, q, r] = [p * 4 + q div 16, q mod 16 * 16 + r div 4]"
| "raw_url_decode [p, q] = [p * 4 + q div 16]"
| "raw_url_decode _ = []"

definition char_value :: "char \<Rightarrow> nat" where
  "char_value c = length (takeWhile (\<lambda>x. x \<noteq> c) alphabet)"

definition be_value :: "nat list \<Rightarrow> nat" where
  "be_value bs = foldl (\<lambda>acc b. 256 * acc + b) 0 bs"

definition read_number :: "string \<Rightarrow> nat" where
  "read_number t = be_value (raw_url_decode (map char_value t))"

definition read_jwk :: "(string \<times> string) list \<Rightarrow> public_key option" where
  "read_jwk m =
     (if map_of m ''kty'' = Some ''RSA'' \<and> map_of m ''alg'' = Some ''RS256'' \<and> map_of m ''use'' = Some ''sig''
      then (case (map_of m ''n'', map_of m ''e'') of
          (Some n, Some e) \<Rightarrow> Some \<lparr>pk_modulus = read_number n, pk_exponent = read_number e\<rparr>
        | _ \<Rightarrow> None)
      else None)"

lemma alphabet_distinct: "distinct alphabet" "length alphabet = 64"
  by code_simp+

lemma char_value_sextet: "k < 64 \<Longrightarrow> char_value (sextet k) = k"
proof -
  assume k: "k < 64"
  have "takeWhile (\<lambda>x. x \<noteq> alphabet ! k) alphabet = take k alphabet"
    using k alphabet_distinct by (intro takeWhile_eq_take_P_nth) (auto simp: nth_eq_iff_index_eq)
  then show ?thesis using k alphabet_distinct(2) by (simp add: char_value_def sextet_def)
qed

lemma decode_encode:
  "list_all (\<lambda>b. b < 256) bs \<Longrightarrow> raw_url_decode (map char_value (raw_url_encode bs)) = bs"
proof (induction bs rule: raw_url_encode.induct)
  case (1 a b c rest)
  have "a mod 4 * 16 + b div 16 < 64" "b mod 16 * 4 + c div 64 < 64" "a div 4 < 64" "c mod 64 < 64"
    using 1(2) by auto
  moreover have "a div 4 * 4 + (a mod 4 * 16 + b div 16) div 16 = a" "(a mod 4 * 16 + b div 16) mod 16 * 16 + (b mod 16 * 4 + c div 64) div 4 = b"
    "(b mod 16 * 4 + c div 64) mod 4 * 64 + c mod 64 = c"
    using 1(2) by (auto simp: mult.commute)
  ultimately show ?case using 1 by (simp add: char_value_sextet)
next
  case (2 a b)
  have "a mod 4 * 16 + b div 16 < 64" "b mod 16 * 4 < 64" "a div 4 < 64" using 2 by auto
  moreover have "a div 4 * 4 + (a mod 4 * 16 + b div 16) div 16 = a" "(a mod 4 * 16 + b div 16) mod 16 * 16 + b mod 16 * 4 div 4 = b"
    using 2 by (auto simp: mult.commute)
  ultimately show ?case using 2 by (simp add: char_value_sextet)
next
  case (3 a)
  have "a mod 4 * 16 < 64" "a div 4 < 64" using 3 by auto
  then show ?case by (simp add: char_value_sextet)
qed simp

lemma le_bytes_small: "list_all (\<lambda>b. b < 256) (le_bytes n)"
  by (induction n rule: le_bytes.induct) (subst le_bytes.simps, auto)

lemma be_value_snoc: "be_value (bs @ [b]) = 256 * be_value bs + b"
  by (simp add: be_value_def)

lemma be_value_be_bytes: "be_value (be_bytes n) = n"
proof (induction n rule: le_bytes.induct)
  case (1 n)
  then show ?case by (subst be_bytes_def, subst le_bytes.simps) (simp add: be_value_snoc be_bytes_def, simp add: be_value_def)
qed

lemma read_number_encoded: "read_number (raw_url_encode (be_bytes n)) = n"
proof -
  have "list_all (\<lambda>b. b < 256) (be_bytes n)" using le_bytes_small [of n] by (simp add: be_bytes_def)
  then show ?thesis by (simp add: read_number_def decode_encode be_value_be_bytes)
qed

text \<open>
  C38. Whoever fetches the key set gets the key the service signs with: read back as the
  standard says, the one key published is the public half of the signer that was loaded.
\<close>
theorem published_key_is_the_signers:
  "map read_jwk (jwks sg) = [Some (sg_public sg)]"
  by (simp add: jwks_def jwk_def read_jwk_def read_number_encoded)

text \<open>Without a key in the environment there is neither a signer nor a verifier, and a key given inline needs no file.\<close>

lemma no_default_key:
  "getenv v ''JWT_PRIVATE_KEY'' = [] \<Longrightarrow> getenv v ''JWT_PRIVATE_KEY_FILE'' = [] \<Longrightarrow> new_signer_from_env parse files v = Inl NoKey"
  "getenv v ''JWT_PUBLIC_KEY'' = [] \<Longrightarrow> getenv v ''JWT_PUBLIC_KEY_FILE'' = [] \<Longrightarrow> new_verifier_from_env parse2 files v = Inl NoKey"
  "getenv v ''JWT_PRIVATE_KEY'' \<noteq> [] \<Longrightarrow> new_signer_from_env parse files v = new_signer_from_env parse files2 v"
  by (simp_all add: new_signer_from_env_def new_verifier_from_env_def key_text_def)

text \<open>A cleaned path from the root stays under it: no element that climbs is left.\<close>

lemma clean_step_rooted:
  "''..'' \<notin> set kept \<Longrightarrow> ''..'' \<notin> set (clean_step True c kept)"
  by (auto simp: clean_step_def split: list.splits)

lemma path_clean_rooted:
  "has_prefix p ''/'' \<Longrightarrow> \<exists>kept. path_clean p = ''/'' @ join ''/'' kept \<and> ''..'' \<notin> set kept"
proof -
  have "''..'' \<notin> set (fold (clean_step True) cs kept)" if "''..'' \<notin> set kept" for cs kept
    using that by (induction cs arbitrary: kept) (auto simp: clean_step_rooted)
  from this [of "[]" "split_on (CHR ''/'') p"] show "has_prefix p ''/'' \<Longrightarrow> ?thesis"
    by (intro exI [of _ "rev (fold (clean_step True) (split_on (CHR ''/'') p) [])"]) (simp add: path_clean_def Let_def)
qed

lemma path_clean_examples:
  "path_clean ''/run//secrets/./keys/../jwt.pem'' = ''/run/secrets/jwt.pem''"
  "path_clean ''../a/'' = ''../a''" "path_clean ''a/..'' = ''.''"
  by code_simp+

end
