(* ===== verification/Cache.thy ===== *)
theory Cache
  imports Config Auth
begin

text \<open>
  internal/platform/cache: the client of the Redis keyspace and the cache that is none.
  The keyspace is the commands the client sends, as Redis documents them: a value with an
  optional deadline per key.  Whether a command gets through is a flag of the call.
\<close>

section \<open>The keyspace\<close>

type_synonym keyspace = "string \<rightharpoonup> string \<times> time option"

definition expired :: "time \<Rightarrow> time option \<Rightarrow> bool" where
  "expired t ex = (case ex of None \<Rightarrow> False | Some e \<Rightarrow> e \<le> t)"

definition alive :: "time \<Rightarrow> keyspace \<Rightarrow> keyspace" where
  "alive t m k = (case m k of None \<Rightarrow> None | Some e \<Rightarrow> if expired t (snd e) then None else Some e)"

text \<open>SET with a positive TTL sets a deadline, with none it clears it; -1 is redis.KeepTTL.\<close>

definition deadline :: "time \<Rightarrow> time \<Rightarrow> time option \<Rightarrow> time option" where
  "deadline t ttl old = (if ttl > 0 then Some (t + ttl) else if ttl = - 1 then old else None)"

definition cmd_set :: "time \<Rightarrow> time \<Rightarrow> string \<Rightarrow> string \<Rightarrow> keyspace \<Rightarrow> keyspace" where
  "cmd_set t ttl k x m =
     m(k \<mapsto> (x, deadline t ttl (case alive t m k of None \<Rightarrow> None | Some e \<Rightarrow> snd e)))"

definition cmd_del :: "string list \<Rightarrow> keyspace \<Rightarrow> keyspace" where
  "cmd_del ks m k = (if k \<in> set ks then None else m k)"

text \<open>
  INCR and EXPIRE NX in one transaction: the value is read and written as a decimal (\<open>num\<close>, \<open>txt\<close>),
  the deadline set only when there is none.
\<close>
definition cmd_incr_expire_nx ::
  "(int \<Rightarrow> string) \<Rightarrow> (string \<Rightarrow> int option) \<Rightarrow> time \<Rightarrow> time \<Rightarrow> string \<Rightarrow> keyspace \<Rightarrow> (int \<times> keyspace) option" where
  "cmd_incr_expire_nx txt num t window k m =
     (case alive t m k of
        None \<Rightarrow> Some (1, m(k \<mapsto> (txt 1, Some (t + window))))
      | Some (x, ex) \<Rightarrow>
          (case num x of
             None \<Rightarrow> None
           | Some n \<Rightarrow> Some (n + 1, m(k \<mapsto> (txt (n + 1), Some (case ex of None \<Rightarrow> t + window | Some e \<Rightarrow> e))))))"

section \<open>The client\<close>

definition redis_get :: "bool \<Rightarrow> time \<Rightarrow> string \<Rightarrow> keyspace \<Rightarrow> string option" where
  "redis_get up t k m = (if up then map_option fst (alive t m k) else None)"

definition redis_set :: "bool \<Rightarrow> time \<Rightarrow> time \<Rightarrow> string \<Rightarrow> string \<Rightarrow> keyspace \<Rightarrow> keyspace" where
  "redis_set up t ttl k x m = (if up then cmd_set t ttl k x m else m)"

definition redis_delete :: "bool \<Rightarrow> string list \<Rightarrow> keyspace \<Rightarrow> keyspace" where
  "redis_delete up ks m = (if ks = [] then m else if up then cmd_del ks m else m)"

text \<open>
  DeleteByPrefix: the replies of the SCANs in order, each with the outcome of the DEL that follows it
  and the next cursor; when the replies run out the context has expired.
\<close>
datatype scan_reply = ScanFailed | ScanPage "string list" bool nat

fun redis_delete_by_prefix :: "scan_reply list \<Rightarrow> keyspace \<Rightarrow> keyspace" where
  "redis_delete_by_prefix [] m = m"
| "redis_delete_by_prefix (ScanFailed # rs) m = m"
| "redis_delete_by_prefix (ScanPage ks ok next_cursor # rs) m =
     (if ks \<noteq> [] \<and> \<not> ok then m
      else let m1 = cmd_del ks m in
        if next_cursor = 0 then m1 else redis_delete_by_prefix rs m1)"

definition redis_increment ::
  "(int \<Rightarrow> string) \<Rightarrow> (string \<Rightarrow> int option) \<Rightarrow> bool \<Rightarrow> time \<Rightarrow> string \<Rightarrow> time \<Rightarrow> keyspace \<Rightarrow> cache_error + (int \<times> keyspace)" where
  "redis_increment txt num up t k window m =
     (if \<not> up then Inl ErrCacheDown
      else case cmd_incr_expire_nx txt num t window k m of None \<Rightarrow> Inl ErrCacheDown | Some r \<Rightarrow> Inr r)"

definition redis_set_if_absent :: "bool \<Rightarrow> time \<Rightarrow> string \<Rightarrow> string \<Rightarrow> time \<Rightarrow> keyspace \<Rightarrow> cache_error + (bool \<times> keyspace)" where
  "redis_set_if_absent up t k x ttl m =
     (if \<not> up then Inl ErrCacheDown
      else if alive t m k \<noteq> None then Inr (False, m)
      else Inr (True, m(k \<mapsto> (x, deadline t ttl None))))"

definition noop_get :: "string \<Rightarrow> string option" where "noop_get k = None"
definition noop_increment :: "cache_error + int" where "noop_increment = Inl ErrNoCache"
definition noop_set_if_absent :: "cache_error + bool" where "noop_set_if_absent = Inl ErrNoCache"

text \<open>GetJSON: what does not decode is dropped and counts as a miss.  SetJSON: what does not encode is not stored.\<close>

definition get_json :: "(string \<Rightarrow> 'a option) \<Rightarrow> bool \<Rightarrow> bool \<Rightarrow> time \<Rightarrow> string \<Rightarrow> keyspace \<Rightarrow> 'a option \<times> keyspace" where
  "get_json dec up up2 t k m =
     (case redis_get up t k m of
        None \<Rightarrow> (None, m)
      | Some raw \<Rightarrow> (case dec raw of None \<Rightarrow> (None, redis_delete up2 [k] m) | Some v \<Rightarrow> (Some v, m)))"

definition set_json :: "('a \<Rightarrow> string option) \<Rightarrow> bool \<Rightarrow> time \<Rightarrow> string \<Rightarrow> 'a \<Rightarrow> time \<Rightarrow> keyspace \<Rightarrow> keyspace" where
  "set_json enc up t k v ttl m = (case enc v of None \<Rightarrow> m | Some raw \<Rightarrow> redis_set up t ttl k raw m)"

text \<open>Publish is fire and forget; \<open>sent\<close> is what the channel was handed, in order.\<close>

definition redis_publish :: "bool \<Rightarrow> string \<Rightarrow> string \<Rightarrow> (string \<times> string) list \<Rightarrow> (string \<times> string) list" where
  "redis_publish up channel payload sent = (if up then sent @ [(channel, payload)] else sent)"

definition redis_ping :: "bool \<Rightarrow> cache_error + unit" where
  "redis_ping up = (if up then Inr () else Inl ErrCacheDown)"

section \<open>Which cache\<close>

text \<open>Address, password, database, timeout, pool size, idle connections, TLS.\<close>

datatype redis_config = RedisConfig string string int64 time int64 int64 bool
datatype backend = Noop | Redis redis_config

definition redis_config_of :: "fraction \<Rightarrow> vars \<Rightarrow> redis_config" where
  "redis_config_of frac v =
     RedisConfig (getenv v ''REDIS_ADDR'') (getenv v ''REDIS_PASSWORD'') (int_or v ''REDIS_DB'' 0)
       (duration_or frac v ''REDIS_TIMEOUT'' (second div 5)) (int_or v ''REDIS_POOL_SIZE'' 20)
       (int_or v ''REDIS_MIN_IDLE_CONNS'' 2) (getenv v ''REDIS_TLS'' = ''true'')"

text \<open>The settings of the client, the defaults filled in; \<open>ping\<close> is what the server answers them.\<close>

fun redis_options :: "redis_config \<Rightarrow> redis_config" where
  "redis_options (RedisConfig addr password db timeout pool idle tls) =
     RedisConfig addr password db (if timeout \<le> 0 then second div 5 else timeout) (if pool \<le>s 0 then 20 else pool) idle tls"

fun redis_addr :: "redis_config \<Rightarrow> string" where "redis_addr (RedisConfig addr _ _ _ _ _ _) = addr"

datatype redis_error = ErrNoAddress | ErrPing

definition new_redis :: "(redis_config \<Rightarrow> bool) \<Rightarrow> redis_config \<Rightarrow> redis_error + redis_config" where
  "new_redis ping cfg =
     (if redis_addr cfg = [] then Inl ErrNoAddress
      else if ping (redis_options cfg) then Inr (redis_options cfg) else Inl ErrPing)"

text \<open>An address that is unset or does not answer leaves the service without a cache, never without a start.\<close>

definition cache_from_env :: "fraction \<Rightarrow> vars \<Rightarrow> (redis_config \<Rightarrow> bool) \<Rightarrow> backend" where
  "cache_from_env frac v ping =
     (if getenv v ''REDIS_ADDR'' = [] then Noop
      else case new_redis ping (redis_config_of frac v) of Inl _ \<Rightarrow> Noop | Inr c \<Rightarrow> Redis c)"

text \<open>The name the certificate is checked against: the address up to its last colon.\<close>

definition tls_server_name :: "string \<Rightarrow> string" where
  "tls_server_name addr =
     (case List.find (\<lambda>k. addr ! k = CHR '':'') (rev [0..<length addr]) of
        None \<Rightarrow> addr
      | Some k \<Rightarrow> if k > 0 then take k addr else addr)"

section \<open>Where revocations go\<close>

text \<open>revocation.FromEnv: the client it makes, the store and the list the watcher keeps; None is the checker that revokes nothing.\<close>

definition revocation_from_env :: "vars \<Rightarrow> time \<Rightarrow> (redis_config \<times> rev_store \<times> rev_list) option" where
  "revocation_from_env v life =
     (if getenv v ''REDIS_ADDR'' = [] then None
      else Some (RedisConfig (getenv v ''REDIS_ADDR'') (getenv v ''REDIS_PASSWORD'') 0 0 0 0 False, new_store life, new_list))"

definition watch_every :: time where "watch_every = 30 * second"

text \<open>An identifier in a log line: its first eight bytes and an ellipsis.\<close>

definition redact_id :: "string \<Rightarrow> string" where
  "redact_id i = (if length i \<le> 8 then i else take 8 i @ [CHR 0xE2, CHR 0x80, CHR 0xA6])"

text \<open>
  The two clients of one process disagree: with TLS or a database number configured the
  cache uses them and the revocation client does not.
\<close>
lemma revocation_client_differs:
  assumes "getenv v ''REDIS_ADDR'' \<noteq> []" "getenv v ''REDIS_TLS'' = ''true''"
  shows "\<exists>a p db t n i st l. redis_config_of frac v = RedisConfig a p db t n i True \<and>
    revocation_from_env v life = Some (RedisConfig a p 0 0 0 0 False, st, l)"
  using assms by (simp add: redis_config_of_def revocation_from_env_def)

section \<open>What the cache can answer\<close>

datatype cache_op =
    OpSet bool time time string string
  | OpDelete bool "string list"
  | OpDeletePrefix "scan_reply list"
  | OpSetNX bool time string string time

fun run_op :: "cache_op \<Rightarrow> keyspace \<Rightarrow> keyspace" where
  "run_op (OpSet up t ttl k x) m = redis_set up t ttl k x m"
| "run_op (OpDelete up ks) m = redis_delete up ks m"
| "run_op (OpDeletePrefix rs) m = redis_delete_by_prefix rs m"
| "run_op (OpSetNX up t k x ttl) m =
     (case redis_set_if_absent up t k x ttl m of Inl _ \<Rightarrow> m | Inr r \<Rightarrow> snd r)"

text \<open>The entry an operation writes, when it gets through; with -1 a write may keep the deadline of another.\<close>

fun entry_written :: "cache_op \<Rightarrow> (string \<times> string \<times> time option) option" where
  "entry_written (OpSet up t ttl k x) = (if up then Some (k, x, if ttl > 0 then Some (t + ttl) else None) else None)"
| "entry_written (OpSetNX up t k x ttl) = (if up then Some (k, x, if ttl > 0 then Some (t + ttl) else None) else None)"
| "entry_written _ = None"

definition written :: "cache_op list \<Rightarrow> string \<Rightarrow> string \<Rightarrow> time option \<Rightarrow> bool" where
  "written ops k x ex \<longleftrightarrow> Some (k, x, ex) \<in> entry_written ` set ops"

fun sets_deadline :: "cache_op \<Rightarrow> bool" where
  "sets_deadline (OpSet up t ttl k x) = (ttl \<noteq> - 1)"
| "sets_deadline _ = True"

lemma prefix_only_deletes: "redis_delete_by_prefix rs m k = Some e \<Longrightarrow> m k = Some e"
  by (induction rs m rule: redis_delete_by_prefix.induct) (auto simp: cmd_del_def Let_def split: if_splits)

lemma run_op_entry:
  assumes "run_op p m k = Some (x, ex)" "sets_deadline p"
  shows "m k = Some (x, ex) \<or> entry_written p = Some (k, x, ex)"
  using assms
  by (cases p) (auto simp: redis_set_def cmd_set_def deadline_def redis_delete_def cmd_del_def redis_set_if_absent_def
      split: if_splits dest: prefix_only_deletes)

lemma cache_written:
  assumes "list_all sets_deadline ops"
  shows "fold run_op ops Map.empty k = Some (x, ex) \<Longrightarrow> written ops k x ex"
  using assms
proof (induction ops arbitrary: k x ex rule: rev_induct)
  case (snoc p ops)
  then have "fold run_op ops Map.empty k = Some (x, ex) \<or> entry_written p = Some (k, x, ex)"
    by (intro run_op_entry) simp_all
  then show ?case using snoc by (auto simp: written_def)
qed simp

text \<open>
  The cache invents nothing and outlives nothing: whatever sequence of writes and
  invalidations came before, got through or not, a value read under a key was written
  under that key, and within its time to live.
\<close>
theorem cache_serves_what_was_written:
  assumes "list_all sets_deadline ops" "redis_get up t k (fold run_op ops Map.empty) = Some x"
  shows "\<exists>t0 ttl. (OpSet True t0 ttl k x \<in> set ops \<or> OpSetNX True t0 k x ttl \<in> set ops) \<and> (ttl \<le> 0 \<or> t < t0 + ttl)"
proof -
  obtain ex where e: "fold run_op ops Map.empty k = Some (x, ex)" "\<not> expired t ex"
    using assms(2) by (auto simp: redis_get_def alive_def split: if_splits option.splits)
  from cache_written [OF assms(1) e(1)] obtain p where p: "p \<in> set ops" "entry_written p = Some (k, x, ex)"
    by (auto simp: written_def)
  from p(2) obtain t0 ttl where w: "p = OpSet True t0 ttl k x \<or> p = OpSetNX True t0 k x ttl"
    "ex = (if ttl > 0 then Some (t0 + ttl) else None)"
    by (cases p) (auto split: if_splits)
  have "ttl \<le> 0 \<or> t < t0 + ttl" using e(2) w(2) by (auto simp: expired_def split: if_splits)
  with p(1) w(1) show ?thesis by blast
qed

definition demo_ops :: "cache_op list" where
  "demo_ops = [OpSetNX True 0 ''k'' ''a'' 5, OpSetNX True 1 ''k'' ''b'' 5, OpSet False 2 0 ''k'' ''c'', OpSet True 3 9 ''l'' ''d'',
     OpDeletePrefix [ScanPage [''l''] False 3]]"

theorem cache_serves_what_was_written_witness:
  "redis_get True 4 ''k'' (fold run_op demo_ops Map.empty) = Some ''a'' \<and>
   (\<exists>t0 ttl. (OpSet True t0 ttl ''k'' ''a'' \<in> set demo_ops \<or> OpSetNX True t0 ''k'' ''a'' ttl \<in> set demo_ops) \<and> (ttl \<le> 0 \<or> 4 < t0 + ttl))"
proof
  show "redis_get True 4 ''k'' (fold run_op demo_ops Map.empty) = Some ''a''" by code_simp
  then show "\<exists>t0 ttl. (OpSet True t0 ttl ''k'' ''a'' \<in> set demo_ops \<or> OpSetNX True t0 ''k'' ''a'' ttl \<in> set demo_ops) \<and> (ttl \<le> 0 \<or> 4 < t0 + ttl)"
    by (intro cache_serves_what_was_written) (simp add: demo_ops_def)
qed

text \<open>Of any number of SetIfAbsent calls within the time to live one wins: idempotency and locks.\<close>

lemma set_if_absent_once:
  assumes "redis_set_if_absent up t k x ttl m = Inr (True, m1)" "t \<le> t2" "ttl > 0 \<longrightarrow> t2 < t + ttl" "ttl \<noteq> - 1"
  shows "redis_set_if_absent True t2 k y ttl2 m1 = Inr (False, m1)"
  using assms by (auto simp: redis_set_if_absent_def alive_def expired_def deadline_def split: if_splits option.splits)

text \<open>A page that failed leaves the rest of the family: only a full walk is an invalidation.\<close>

lemma deletes_walked_family:
  assumes "\<forall>r \<in> set rs. \<exists>ks c. r = ScanPage ks True c \<and> c \<noteq> 0 \<and> (\<forall>k \<in> set ks. fam k)" "\<forall>k \<in> set ks. fam k"
  shows "redis_delete_by_prefix (rs @ [ScanPage ks True 0]) m k =
    (if \<exists>r \<in> set (rs @ [ScanPage ks True 0]). \<exists>js c. r = ScanPage js True c \<and> k \<in> set js then None else m k)"
  using assms(1)
proof (induction rs arbitrary: m)
  case (Cons r rs)
  then obtain js c where r: "r = ScanPage js True c" "c \<noteq> 0" by auto
  then show ?case using Cons by (auto simp: Let_def cmd_del_def)
qed (auto simp: cmd_del_def)

section \<open>The counter of the login limiter\<close>

text \<open>A counter: a decimal with a deadline.\<close>

definition counter :: "(int \<Rightarrow> string) \<Rightarrow> string \<times> time option \<Rightarrow> nat \<times> time \<Rightarrow> bool" where
  "counter txt e a \<longleftrightarrow> e = (txt (int (fst a)), Some (snd a))"

text \<open>The attempts of the model are the counters of the keyspace.\<close>

definition counts :: "(int \<Rightarrow> string) \<Rightarrow> keyspace \<Rightarrow> (string \<rightharpoonup> nat \<times> time) \<Rightarrow> bool" where
  "counts txt m a \<longleftrightarrow> dom m = dom a \<and> (\<forall>k e b. m k = Some e \<longrightarrow> a k = Some b \<longrightarrow> counter txt e b)"

lemma counts_upd: "counts txt m a \<Longrightarrow> counter txt e b \<Longrightarrow> counts txt (m(k \<mapsto> e)) (a(k \<mapsto> b))"
  by (auto simp: counts_def)


definition tally :: "int \<Rightarrow> string" where
  "tally n = (if n < 0 then CHR ''-'' # replicate (nat (- n)) (CHR ''i'') else replicate (nat n) (CHR ''i''))"

definition read_tally :: "string \<Rightarrow> int option" where
  "read_tally t = (if has_prefix t ''-'' then Some (- int (length t - 1)) else Some (int (length t)))"

lemma read_tally_tally: "read_tally (tally n) = Some n"
  by (cases "nat n") (auto simp: read_tally_def tally_def)


end
