(* ===== verification/Deploy.thy ===== *)
theory Deploy
  imports Keys Users ImportPlan
begin

text \<open>
  What runs before and beside the server: bootstrap.Run (the first platform administrator
  of an empty environment), dbmigrate.ensureDatabase, the dispatch of cmd/server/main.go
  on its arguments, and the hourly sweep of expired sessions.
\<close>

section \<open>Bootstrap\<close>

datatype boot_error =
    NoCredentials | ShortPassword | CheckingStaff svc_error | CreatingAdministrator svc_error
  | MarkingStaff svc_error | SettingAbbreviation svc_error

definition boot_env_or :: "vars \<Rightarrow> string \<Rightarrow> string \<Rightarrow> string" where
  "boot_env_or v k fallback = (let x = trim_space (getenv v k) in if x \<noteq> [] then x else fallback)"

definition administrator_input :: "vars \<Rightarrow> register_input" where
  "administrator_input v =
     \<lparr>ri_username = [], ri_email = trim_space (getenv v ''BOOTSTRAP_ADMIN_EMAIL''), ri_phone = [],
      ri_password = getenv v ''BOOTSTRAP_ADMIN_PASSWORD'',
      ri_full_name = boot_env_or v ''BOOTSTRAP_ADMIN_NAME'' ''Karlo Administrator'', ri_role = ''admin'',
      ri_parent = None, ri_company = None, ri_role_id = None,
      ri_company_name = boot_env_or v ''BOOTSTRAP_COMPANY_NAME'' ''Karlo Platform'',
      ri_company_abbreviation = [], ri_permissions = [], ri_unaffiliated = False\<rparr>"

text \<open>companies.abbreviation is VARCHAR(8); UpdateFields runs no hook.\<close>

definition set_abbreviation :: "env \<Rightarrow> string \<Rightarrow> user \<Rightarrow> sys \<Rightarrow> svc_error + sys" where
  "set_abbreviation env code u s =
     (case us_company u of
        None \<Rightarrow> Inr s
      | Some c \<Rightarrow>
          if length code > 8 then Inl (ErrDB OpUpdateCompany)
          else update_company_fields env c (\<lambda>x. x\<lparr>co_abbreviation := Some code\<rparr>) s)"

text \<open>Inr True: an administrator was created; Inr False: there was nothing to do.\<close>

definition bootstrap :: "env \<Rightarrow> vars \<Rightarrow> sys \<Rightarrow> (boot_error + bool) \<times> sys" where
  "bootstrap env v s =
     (let inp = administrator_input v in
      if ri_email inp = [] \<or> ri_password inp = [] then (Inl NoCredentials, s)
      else if length (ri_password inp) < 12 then (Inl ShortPassword, s)
      else case count_platform_staff env s of
        Inl e \<Rightarrow> (Inl (CheckingStaff e), s)
      | Inr n \<Rightarrow>
          if n > 0 then (Inr False, s)
          else case register env inp s of
            (Inl e, s1) \<Rightarrow> (Inl (CreatingAdministrator e), s1)
          | (Inr u, s1) \<Rightarrow>
              (case update_user_fields env (us_id u) (\<lambda>x. x\<lparr>us_platform_staff := True\<rparr>) s1 of
                 Inl e \<Rightarrow> (Inl (MarkingStaff e), s1)
               | Inr s2 \<Rightarrow>
                   (case set_abbreviation env (boot_env_or v ''BOOTSTRAP_COMPANY_ABBR'' ''KP'') u s2 of
                      Inl e \<Rightarrow> (Inl (SettingAbbreviation e), s2)
                    | Inr s3 \<Rightarrow> (Inr True, s3))))"

section \<open>Creating the database\<close>

text \<open>strings.Replace(s, old, new, 1).\<close>

definition replace_first :: "string \<Rightarrow> string \<Rightarrow> string \<Rightarrow> string" where
  "replace_first s old new =
     (case List.find (\<lambda>k. has_prefix (drop k s) old) [0..<Suc (length s)] of
        None \<Rightarrow> s
      | Some k \<Rightarrow> take k s @ new @ drop (k + length old) s)"

definition maintenance_dsn :: "string \<Rightarrow> string \<Rightarrow> string" where
  "maintenance_dsn d name = replace_first d (''dbname='' @ name) ''dbname=postgres''"

definition create_database_sql :: "string \<Rightarrow> string" where
  "create_database_sql name = ''CREATE DATABASE '' @ quote_ident name"

datatype migrate_error =
    ErrOpenMaintenance | ErrCheckDatabase | ErrCreateDatabase
  | ErrOpenTarget | ErrDriver | ErrSource string | ErrUp

text \<open>
  \<open>opens\<close>: whether a connection string is taken by the driver; \<open>answers\<close>: whether a query on it
  succeeds; \<open>existing\<close>: the databases there are; \<open>accepts\<close>: what the server says to a statement.
  The result is the statement that was run, none when the database exists.
\<close>
record db_server =
  ds_opens :: "string \<Rightarrow> bool"
  ds_answers :: "string \<Rightarrow> bool"
  ds_existing :: "string list"
  ds_accepts :: "string \<Rightarrow> bool"

definition ensure_database :: "db_server \<Rightarrow> string \<Rightarrow> string \<Rightarrow> migrate_error + string option" where
  "ensure_database srv d name =
     (if \<not> ds_opens srv (maintenance_dsn d name) then Inl ErrOpenMaintenance
      else if \<not> ds_answers srv (maintenance_dsn d name) then Inl ErrCheckDatabase
      else if name \<in> set (ds_existing srv) then Inr None
      else if \<not> ds_accepts srv (create_database_sql name) then Inl ErrCreateDatabase
      else Inr (Some (create_database_sql name)))"

text \<open>
  golang-migrate is a parameter: whether it takes the connection and finds the directory, the version
  the schema is at, and what Up does from there.
\<close>
datatype up_result = NoChange | UpFailed | UpTo nat

record migrations =
  mg_driver :: bool
  mg_source :: "string \<Rightarrow> bool"
  mg_version :: nat
  mg_up :: "nat \<Rightarrow> up_result"

text \<open>dbmigrate.Run: the version before and after.\<close>

definition migrate_run :: "db_server \<Rightarrow> migrations \<Rightarrow> string \<Rightarrow> string \<Rightarrow> string \<Rightarrow> migrate_error + nat \<times> nat" where
  "migrate_run srv mg d name dir =
     rbind (ensure_database srv d name) (\<lambda>_.
       if \<not> ds_opens srv d then Inl ErrOpenTarget
       else if \<not> mg_driver mg then Inl ErrDriver
       else if \<not> mg_source mg (''file://'' @ dir) then Inl (ErrSource dir)
       else case mg_up mg (mg_version mg) of
         NoChange \<Rightarrow> Inr (mg_version mg, mg_version mg)
       | UpFailed \<Rightarrow> Inl ErrUp
       | UpTo v \<Rightarrow> Inr (mg_version mg, v))"

section \<open>Starting\<close>

datatype action =
    MigrateDatabase string string string        \<comment> \<open>connection string, database, directory\<close>
  | ArchiveLog configuration bool                      \<comment> \<open>dry run\<close>
  | CreateAdministrator configuration
  | ServeRequests configuration

datatype start_error = BadConfig config_error | NoSigningKey key_error | NoDatabase connect_error | BadCatalogs

text \<open>run, once the archive job is out of the way: the catalogues, then the last job.\<close>

definition start_service :: "string list \<Rightarrow> configuration \<Rightarrow> start_error + action" where
  "start_service args cfg =
     (if validate_catalogs \<noteq> Inr () then Inl BadCatalogs
      else if ''bootstrap'' \<in> set args then Inr (CreateAdministrator cfg)
      else Inr (ServeRequests cfg))"

text \<open>run: what the arguments ask for, after the parts of the environment that job needs have answered.\<close>

definition start ::
  "fraction \<Rightarrow> (string \<Rightarrow> (public_key \<times> 'sec) option) \<Rightarrow> (string \<Rightarrow> string option) \<Rightarrow> db_server \<Rightarrow>
   vars \<Rightarrow> string list \<Rightarrow> start_error + action" where
  "start frac parse files srv v args =
     (case load frac v of
        Inl e \<Rightarrow> Inl (BadConfig e)
      | Inr cfg \<Rightarrow>
          if ''migrate'' \<in> set args
          then Inr (MigrateDatabase (dsn (cf_database cfg)) (db_name (cf_database cfg)) (env_or v ''MIGRATIONS_DIR'' ''/migrations''))
          else case new_signer_from_env parse files v of
            Inl e \<Rightarrow> Inl (NoSigningKey e)
          | Inr _ \<Rightarrow>
              (case connect_postgres (ds_opens srv) (ds_answers srv) cfg of
                 Inl e \<Rightarrow> Inl (NoDatabase e)
               | Inr _ \<Rightarrow>
                   if ''archive'' \<in> set args then Inr (ArchiveLog cfg (''--dry-run'' \<in> set args))
                   else start_service args cfg))"

text \<open>One tick of startSessionCleanup; an error is logged and the next tick tries again.\<close>

definition sweep_sessions :: "env \<Rightarrow> sys \<Rightarrow> sys" where
  "sweep_sessions env s =
     (case delete_expired_sessions env (now env - 7 * 24 * hour) s of Inl _ \<Rightarrow> s | Inr r \<Rightarrow> snd r)"

section \<open>Facts\<close>

lemma count_staff_0: "sql_count (\<lambda>u. us_platform_staff u \<and> user_live u) us = 0 \<longleftrightarrow>
    (\<forall>u \<in> set us. user_live u \<longrightarrow> \<not> us_platform_staff u)"
  by (auto simp: sql_count_0)

lemma bootstrap_refuses:
  assumes "u \<in> set (users s)" "us_platform_staff u" "user_live u"
  shows "snd (bootstrap env v s) = s" "fst (bootstrap env v s) \<noteq> Inr True"
proof -
  have "sql_count (\<lambda>u. us_platform_staff u \<and> user_live u) (users s) > 0"
    using assms by (auto simp: sql_count_pos)
  then show "snd (bootstrap env v s) = s" "fst (bootstrap env v s) \<noteq> Inr True"
    by (auto simp: bootstrap_def Let_def count_platform_staff_def)
qed

lemma administrator_founds [simp]: "new_tenant (administrator_input v)"
  by (simp add: new_tenant_def administrator_input_def)

lemma set_abbreviation_keeps:
  "set_abbreviation env c u s = Inr s' \<Longrightarrow> users s' = users s \<and> roles s' = roles s"
  by (auto simp: set_abbreviation_def update_company_fields_def announce_company_change_def Let_def
      split: option.splits if_splits)

lemma bootstrap_Inr_True:
  assumes "bootstrap env v s = (Inr True, s')"
  obtains u s1 s2 where "\<forall>w \<in> set (users s). user_live w \<longrightarrow> \<not> us_platform_staff w"
    "12 \<le> length (getenv v ''BOOTSTRAP_ADMIN_PASSWORD'')"
    "register env (administrator_input v) s = (Inr u, s1)"
    "update_user_fields env (us_id u) (\<lambda>x. x\<lparr>us_platform_staff := True\<rparr>) s1 = Inr s2"
    "users s' = users s2" "roles s' = roles s2"
  using assms
  by (auto simp: bootstrap_def Let_def count_platform_staff_def count_staff_0 administrator_input_def
      split: if_splits sum.splits prod.splits dest: set_abbreviation_keeps intro: that)

text \<open>
  C36. The platform is bootstrapped once. A run that reports an administrator found no
  platform staff, adds exactly one account, which is staff, holds a role of the company
  founded for it and has the given password of twelve characters at least, and is
  reckoned as staff by the access check; from then on, whatever the environment says, no
  run changes anything or creates another.
\<close>
theorem bootstrap_once:
  assumes "fresh_ids env s" "bootstrap env v s = (Inr True, s')"
  shows "\<exists>u c. users s' = users s @ [u] \<and> us_platform_staff u \<and> user_live u \<and> us_company u = Some c \<and>
      (\<forall>w \<in> set (users s). user_live w \<longrightarrow> \<not> us_platform_staff w) \<and>
      12 \<le> length (getenv v ''BOOTSTRAP_ADMIN_PASSWORD'') \<and>
      bcrypt_hash env (getenv v ''BOOTSTRAP_ADMIN_PASSWORD'') = Some (us_password_hash u) \<and>
      (\<exists>q \<in> set (roles s'). us_role u = Some (ro_id q) \<and> ro_company q = c) \<and>
      snd (load_role s' (us_id u)) \<and>
      (\<forall>env2 v2. snd (bootstrap env2 v2 s') = s' \<and> fst (bootstrap env2 v2 s') \<noteq> Inr True)"
proof -
  obtain u s1 s2 where b: "\<forall>w \<in> set (users s). user_live w \<longrightarrow> \<not> us_platform_staff w"
    "12 \<le> length (getenv v ''BOOTSTRAP_ADMIN_PASSWORD'')" "register env (administrator_input v) s = (Inr u, s1)"
    "update_user_fields env (us_id u) (\<lambda>x. x\<lparr>us_platform_staff := True\<rparr>) s1 = Inr s2"
    "users s' = users s2" "roles s' = roles s2"
    using assms(2) by (rule bootstrap_Inr_True)
  obtain h where tx: "bcrypt_hash env (ri_password (administrator_input v)) = Some h"
    "register_tx env (administrator_input v) h s = Inr (u, s1)"
    using register_cases [OF b(3)] by auto
  from register_result [OF tx(2) assms(1)] obtain c where r: "us_company u = Some c" "users s1 = users s @ [u]"
    "u = (registered_user (administrator_input v) (Some c) h)\<lparr>us_id := us_id u, us_created := now env, us_role := us_role u\<rparr>"
    "\<exists>q \<in> set (roles s1). us_role u = Some (ro_id q) \<and> ro_company q = c"
    "us_id u = gen_uuid env (Suc (draws s))" by auto
  let ?u = "u\<lparr>us_platform_staff := True\<rparr>"
  have live: "user_live u" "us_password_hash u = h"
    using arg_cong [OF r(3), of user_live] arg_cong [OF r(3), of us_password_hash]
    by (simp_all add: registered_user_def blank_user_def user_live_def)
  have other: "us_id w \<noteq> us_id u" if "w \<in> set (users s)" for w
    using fresh_ids_not(1) [OF assms(1) _ that, of "Suc (draws s)"] r(5) by simp
  note up = update_user_Inr [OF b(4)]
  have users: "users s' = users s @ [?u]"
    using up live(1) other by (auto simp: b(5) r(2) sql_update_def intro!: map_idI)
  have roles: "roles s' = roles s1" using up b(6) by simp
  have first: "sql_first (\<lambda>x. us_id x = us_id u) (users s') = Some ?u"
    unfolding users using other by (auto simp: sql_first_append sql_first_None [THEN iffD2]) (simp add: sql_first_def)
  obtain q where q: "q \<in> set (roles s')" "us_role u = Some (ro_id q)" "ro_company q = c" using r(4) roles by auto
  then have "sql_first (\<lambda>x. ro_id x = ro_id q) (roles s') \<noteq> None" by (auto simp: sql_first_None)
  then have "snd (load_role s' (us_id u))" using first q(2) by (auto simp: load_role_def)
  moreover have "?u \<in> set (users s')" "us_platform_staff ?u" "user_live ?u" using users live(1) by (simp_all add: user_live_def)
  moreover have "bcrypt_hash env (getenv v ''BOOTSTRAP_ADMIN_PASSWORD'') = Some (us_password_hash ?u)"
    using tx(1) live(2) by (simp add: administrator_input_def)
  ultimately show ?thesis
    using users b(1,2) r(1) q bootstrap_refuses [of ?u s'] by (intro exI [of _ ?u] exI [of _ c]) auto
qed

text \<open>Registration of a founder, from its steps.\<close>

lemma register_by_steps:
  assumes "validate_password_strength (ri_password inp) = Inr ()" "ri_email inp \<noteq> []" "\<not> ri_unaffiliated inp" "new_tenant inp" "ri_role inp \<noteq> []"
    "assert_identifiers_free env inp s = Inr ()" "hash_password env (ri_password inp) = Inr h"
    "found_company env inp s = Inr (Some c, s1)" "create_account env (registered_user inp (Some c) h) s1 = Inr (u, s2)"
    "grant_defaults env c product_tms default_tms_features s2 = Inr s3" "give_role env inp (Some c) u s3 = Inr (v, s4)"
    "ri_permissions inp = []" "\<not> db_down env OpCommit"
  shows "register env inp s = (Inr v, s4)"
  using assms unfolding register_def register_tx_def by (simp add: give_extras_def transaction_def)

definition boot_vars :: vars where
  "boot_vars = [''BOOTSTRAP_ADMIN_EMAIL'' \<mapsto> '' Admin@karlo.id '', ''BOOTSTRAP_ADMIN_PASSWORD'' \<mapsto> ''twelve chars'']"

definition boot_founding :: "uuid option \<times> sys" where
  "boot_founding = projr (found_company demo_env (administrator_input boot_vars) empty_sys)"

definition boot_row :: "user \<times> sys" where
  "boot_row = projr (create_account demo_env (registered_user (administrator_input boot_vars) (Some 10) ''btwelve chars'') (snd boot_founding))"

definition boot_modules :: sys where
  "boot_modules = projr (grant_defaults demo_env 10 product_tms default_tms_features (snd boot_row))"

definition boot_account :: "user \<times> sys" where
  "boot_account = projr (give_role demo_env (administrator_input boot_vars) (Some 10) (fst boot_row) boot_modules)"

lemma boot_registers: "register demo_env (administrator_input boot_vars) empty_sys = (Inr (fst boot_account), snd boot_account)"
proof (rule register_by_steps)
  have "is_ok (found_company demo_env (administrator_input boot_vars) empty_sys)" "fst boot_founding = Some 10" by code_simp+
  then show "found_company demo_env (administrator_input boot_vars) empty_sys = Inr (Some 10, snd boot_founding)"
    by (auto simp: is_ok_iff boot_founding_def)
  have "is_ok (create_account demo_env (registered_user (administrator_input boot_vars) (Some 10) ''btwelve chars'') (snd boot_founding))"
    by code_simp
  then show "create_account demo_env (registered_user (administrator_input boot_vars) (Some 10) ''btwelve chars'') (snd boot_founding) =
      Inr (fst boot_row, snd boot_row)" by (auto simp: is_ok_iff boot_row_def)
  have "is_ok (grant_defaults demo_env 10 product_tms default_tms_features (snd boot_row))" by code_simp
  then show "grant_defaults demo_env 10 product_tms default_tms_features (snd boot_row) = Inr boot_modules"
    by (auto simp: is_ok_iff boot_modules_def)
  have "is_ok (give_role demo_env (administrator_input boot_vars) (Some 10) (fst boot_row) boot_modules)" by code_simp
  then show "give_role demo_env (administrator_input boot_vars) (Some 10) (fst boot_row) boot_modules =
      Inr (fst boot_account, snd boot_account)" by (auto simp: is_ok_iff boot_account_def)
qed (simp_all, code_simp+)

definition boot_marked :: sys where
  "boot_marked = projr (update_user_fields demo_env (us_id (fst boot_account)) (\<lambda>x. x\<lparr>us_platform_staff := True\<rparr>) (snd boot_account))"

definition booted :: sys where
  "booted = projr (set_abbreviation demo_env ''KP'' (fst boot_account) boot_marked)"

lemma boot_runs: "bootstrap demo_env boot_vars empty_sys = (Inr True, booted)"
proof -
  have "is_ok (update_user_fields demo_env (us_id (fst boot_account)) (\<lambda>x. x\<lparr>us_platform_staff := True\<rparr>) (snd boot_account))"
    "is_ok (set_abbreviation demo_env ''KP'' (fst boot_account) boot_marked)" by code_simp+
  then have "update_user_fields demo_env (us_id (fst boot_account)) (\<lambda>x. x\<lparr>us_platform_staff := True\<rparr>) (snd boot_account) = Inr boot_marked"
    "set_abbreviation demo_env ''KP'' (fst boot_account) boot_marked = Inr booted"
    by (auto simp: is_ok_iff boot_marked_def booted_def)
  moreover have "ri_email (administrator_input boot_vars) \<noteq> []" "ri_password (administrator_input boot_vars) = ''twelve chars''"
    "count_platform_staff demo_env empty_sys = Inr 0" "boot_env_or boot_vars ''BOOTSTRAP_COMPANY_ABBR'' ''KP'' = ''KP''" by code_simp+
  ultimately show ?thesis by (simp add: bootstrap_def boot_registers)
qed

theorem bootstrap_once_witness:
  "(\<exists>u c. users booted = users empty_sys @ [u] \<and> us_platform_staff u \<and> us_company u = Some c) \<and>
   map us_email (users booted) = [Some ''admin@karlo.id''] \<and> map co_abbreviation (companies booted) = [Some ''KP'']"
proof (intro conjI)
  have "fresh_ids demo_env empty_sys" by (auto simp: fresh_ids_def demo_env_def empty_sys_def inj_def)
  from bootstrap_once [OF this boot_runs]
  show "\<exists>u c. users booted = users empty_sys @ [u] \<and> us_platform_staff u \<and> us_company u = Some c" by blast
qed code_simp+

section \<open>What a failure leaves\<close>

lemma registered_email:
  assumes "register_tx env inp h s = Inr (u, s1)" "fresh_ids env s"
  shows "us_email u = nil_if_empty (to_lower (trim_space (ri_email inp)))" "us_platform_staff u = False" "users s1 = users s @ [u]"
proof -
  from register_result [OF assms] obtain c where r: "users s1 = users s @ [u]"
    "u = (registered_user inp c h)\<lparr>us_id := us_id u, us_created := now env, us_role := us_role u\<rparr>" by blast
  from r(1) show "users s1 = users s @ [u]" .
  show "us_email u = nil_if_empty (to_lower (trim_space (ri_email inp)))" "us_platform_staff u = False"
    using arg_cong [OF r(2), of us_email] arg_cong [OF r(2), of us_platform_staff]
    by (simp_all add: registered_user_def blank_user_def)
qed

text \<open>
  Registration commits before the account is marked: when marking fails, the account is
  there without its powers, the next run still finds no staff, and its registration is
  refused for ever because the address is taken.
\<close>
lemma bootstrap_stuck:
  assumes "fresh_ids env s" "bootstrap env v s = (Inl (MarkingStaff e), s1)"
    "\<not> db_down env2 OpCountUsers" "\<not> db_down env2 OpExists"
  shows "bootstrap env2 v s1 = (Inl (CreatingAdministrator (ErrMsg ''email is already registered'')), s1)"
proof -
  let ?inp = "administrator_input v"
  obtain u where b: "ri_email ?inp \<noteq> []" "ri_password ?inp \<noteq> []" "\<not> length (ri_password ?inp) < 12"
    "\<forall>w \<in> set (users s). user_live w \<longrightarrow> \<not> us_platform_staff w" "register env ?inp s = (Inr u, s1)"
    using assms(2) by (auto simp: bootstrap_def Let_def count_platform_staff_def count_staff_0 split: if_splits sum.splits prod.splits)
  obtain h where tx: "register_tx env ?inp h s = Inr (u, s1)" using register_cases [OF b(5)] by auto
  note reg = registered_email [OF tx assms(1)]
  have pw: "validate_password_strength (ri_password ?inp) = Inr ()"
    using b(5) by (auto simp: register_def split: sum.splits)
  have none: "count_platform_staff env2 s1 = Inr 0"
    using assms(3) b(4) reg by (simp add: count_platform_staff_def count_staff_0)
  have "to_lower (trim_space (ri_email ?inp)) \<noteq> []" using b(1) by (simp add: administrator_input_def to_lower_def)
  then have email: "us_email u = Some (to_lower (trim_space (ri_email ?inp)))" using reg(1) by (simp add: nil_if_empty_def)
  have "live_row u" if "live_row = user_live" for live_row
    using register_result [OF tx assms(1)] that by (auto simp: registered_user_def blank_user_def user_live_def dest: arg_cong [where f = us_deleted])
  then have "exists_by_email env2 (to_lower (trim_space (ri_email ?inp))) s1 = Inr True"
    using email assms(4) reg(3) by (auto simp: exists_by_email_def exists_user_def ci_eq_def list_ex_iff sql_count_pos)
  with \<open>to_lower (trim_space (ri_email ?inp)) \<noteq> []\<close> have "register env2 ?inp s1 = (Inl (ErrMsg ''email is already registered''), s1)"
    using pw b(1) by (simp add: register_def assert_identifiers_free_def) (simp add: administrator_input_def)
  then show ?thesis using b(1-3) none by (simp add: bootstrap_def Let_def)
qed

text \<open>When the code of the company is refused, the account is staff already: the next run reports success and sets nothing.\<close>

lemma bootstrap_code_lost:
  assumes "fresh_ids env s" "bootstrap env v s = (Inl (SettingAbbreviation e), s1)" "\<not> db_down env2 OpCountUsers"
  shows "bootstrap env2 v s1 = (Inr False, s1)"
proof -
  let ?inp = "administrator_input v"
  obtain u :: user and s0 where b: "ri_email ?inp \<noteq> []" "ri_password ?inp \<noteq> []" "\<not> length (ri_password ?inp) < 12"
    "update_user_fields env (us_id u) (\<lambda>x. x\<lparr>us_platform_staff := True\<rparr>) s0 = Inr s1"
    using assms(2) by (auto simp: bootstrap_def Let_def split: if_splits sum.splits prod.splits)
  obtain w where "w \<in> set (users s0)" "us_id w = us_id u" "user_live w" using update_user_Inr [OF b(4)] by blast
  then have "w\<lparr>us_platform_staff := True\<rparr> \<in> set (users s1)" "user_live (w\<lparr>us_platform_staff := True\<rparr>)"
    using update_user_Inr [OF b(4)] by (auto simp: set_sql_update user_live_def image_iff intro!: bexI [of _ w])
  then have "sql_count (\<lambda>u. us_platform_staff u \<and> user_live u) (users s1) > 0"
    by (auto simp: sql_count_pos intro!: bexI [of _ "w\<lparr>us_platform_staff := True\<rparr>"])
  then show ?thesis using b(1-3) assms(3) by (simp add: bootstrap_def Let_def count_platform_staff_def)
qed

section \<open>The maintenance connection and the new database\<close>

text \<open>The name is one identifier whatever it contains.\<close>

lemma created_database_named: "lex_ident (drop 16 (create_database_sql name)) = Some (name, [])"
  using lex_quote_ident [of "[]" name] by (simp add: create_database_sql_def)

lemma replace_first_at:
  assumes "\<forall>k < length pre. \<not> has_prefix (drop k (pre @ old @ post)) old"
  shows "replace_first (pre @ old @ post) old new = pre @ new @ post"
proof -
  let ?s = "pre @ old @ post"
  have "List.find (\<lambda>k. has_prefix (drop k ?s) old) [0..<Suc (length ?s)] = Some (length pre)"
    unfolding find_Some_iff
    using assms by (intro exI [of _ "length pre"]) (auto simp: nth_append simp del: upt_Suc)
  then show ?thesis by (simp add: replace_first_def del: upt_Suc)
qed

text \<open>Only the database of the connection changes, unless an earlier value reads like the setting.\<close>

lemma maintenance_dsn_elsewhere:
  assumes "\<forall>k < length (''host='' @ db_host d @ '' port='' @ db_port d @ '' user='' @ db_user d @ '' password='' @ db_password d @ '' '').
    \<not> has_prefix (drop k (dsn d)) (''dbname='' @ db_name d)"
  shows "maintenance_dsn (dsn d) (db_name d) = dsn (d\<lparr>db_name := ''postgres''\<rparr>)"
proof -
  let ?pre = "''host='' @ db_host d @ '' port='' @ db_port d @ '' user='' @ db_user d @ '' password='' @ db_password d @ '' ''"
  let ?post = "'' sslmode='' @ db_sslmode d @ '' TimeZone=Asia/Jakarta''"
  have d: "dsn d = ?pre @ (''dbname='' @ db_name d) @ ?post" by (simp add: dsn_def)
  from replace_first_at [OF assms [unfolded d], of "''dbname=postgres''"]
  show ?thesis unfolding maintenance_dsn_def d by (simp add: dsn_def)
qed

text \<open>A server that has the database is not written to.\<close>

lemma ensure_database_idempotent:
  "ensure_database srv d name = Inr (Some q) \<Longrightarrow>
     ensure_database (srv\<lparr>ds_existing := name # ds_existing srv\<rparr>) d name = Inr None"
  by (simp add: ensure_database_def split: if_splits)

text \<open>The schema is only touched in the database the service will use, and never behind a failed step.\<close>

lemma migrate_run_Inr:
  assumes "migrate_run srv mg d name dir = Inr (before, after)"
  shows "name \<in> set (ds_existing srv) \<or> ds_accepts srv (create_database_sql name)"
    "ds_opens srv d" "before = mg_version mg" "mg_up mg before = UpTo after \<or> mg_up mg before = NoChange \<and> after = before"
  using assms
  by (cases "ensure_database srv d name";
      auto simp: migrate_run_def ensure_database_def split: if_splits up_result.splits)+

section \<open>Starting and sweeping\<close>

text \<open>
  The server listens only when it can be trusted to: with a loaded configuration, a
  signing key, a database and permission catalogues in which every key is gated by a
  feature that exists; and never when an argument asks for one of the other jobs, wherever
  it stands.
\<close>
lemma serving_is_guarded:
  "(start frac parse files srv v args = Inr (ServeRequests cfg)) =
     (load frac v = Inr cfg \<and> is_ok (new_signer_from_env parse files v) \<and>
      is_ok (connect_postgres (ds_opens srv) (ds_answers srv) cfg) \<and> validate_catalogs = Inr () \<and>
      list_all (\<lambda>a. a \<notin> {''migrate'', ''archive'', ''bootstrap''}) args)"
proof -
  have args: "list_all (\<lambda>a. a \<notin> {''migrate'', ''archive'', ''bootstrap''}) args =
      (''migrate'' \<notin> set args \<and> ''archive'' \<notin> set args \<and> ''bootstrap'' \<notin> set args)"
    unfolding list_all_iff by blast
  have service: "(start_service args c = Inr (ServeRequests cfg)) = (c = cfg \<and> validate_catalogs = Inr () \<and> ''bootstrap'' \<notin> set args)" for c
    unfolding start_service_def by (cases "validate_catalogs = Inr ()"; cases "''bootstrap'' \<in> set args"; simp only: if_True if_False simp_thms) blast+
  show ?thesis
  proof (cases "load frac v")
    case (Inr c)
    then show ?thesis
      unfolding args start_def
      by (cases "new_signer_from_env parse files v"; cases "connect_postgres (ds_opens srv) (ds_answers srv) c"; cases "c = cfg")
        (simp_all add: service)
  qed (simp add: start_def)
qed

text \<open>The sweep takes no session anybody could still refresh.\<close>

lemma sweep_keeps_active:
  "se \<in> set (sessions s) \<Longrightarrow> session_active env se \<Longrightarrow> se \<in> set (sessions (sweep_sessions env s))"
  by (auto simp: sweep_sessions_def delete_expired_sessions_def session_active_def sql_delete_def
      hour_def minute_def second_def)

lemma sweep_keeps_rest:
  "sweep_sessions env s = s\<lparr>sessions := sessions (sweep_sessions env s)\<rparr> \<and>
     set (sessions (sweep_sessions env s)) \<subseteq> set (sessions s)"
  by (auto simp: sweep_sessions_def delete_expired_sessions_def sql_delete_def)

end
