(* ===== verification/Telemetry.thy ===== *)
theory Telemetry
  imports Config
begin

text \<open>
  One request id from the HTTP edge through every log line: internal/platform/logger
  (requestid.go, logger.go, fluentd.go), internal/middleware/request_logger.go and the
  interceptors of internal/platform/grpcutil/server.go.  A log record is its level, its
  message and its attributes; the JSON writer and the Fluentd client are sinks that take
  a record.
\<close>

section \<open>Contexts\<close>

text \<open>What a context.Context carries here: the request id, empty when there is none, and the forwarded token.\<close>

record log_ctx =
  lc_request_id :: string
  lc_token :: "string option"

definition empty_ctx :: log_ctx where "empty_ctx = \<lparr>lc_request_id = [], lc_token = None\<rparr>"

definition metadata_key :: string where "metadata_key = ''x-request-id''"

definition with_request_id :: "log_ctx \<Rightarrow> string \<Rightarrow> log_ctx" where
  "with_request_id ctx i = (if i = [] then ctx else ctx\<lparr>lc_request_id := i\<rparr>)"

section \<open>Records and sinks\<close>

text \<open>slog levels.\<close>

definition level_debug :: int where "level_debug = - 4"
definition level_info :: int where "level_info = 0"
definition level_warn :: int where "level_warn = 4"
definition level_error :: int where "level_error = 8"

definition parse_level :: "string \<Rightarrow> int" where
  "parse_level l =
     (if l = ''debug'' then level_debug
      else if l = ''warn'' \<or> l = ''warning'' then level_warn
      else if l = ''error'' then level_error else level_info)"

text \<open>An attribute holds a value (None is nil) or a group.\<close>

datatype attr = Attr string "string option" | Grp string "attr list"

record log_record =
  lg_level :: int
  lg_message :: string
  lg_attrs :: "attr list"

text \<open>requestIDHandler.Handle: the id of the context is added last.\<close>

definition stamp :: "log_ctx \<Rightarrow> log_record \<Rightarrow> log_record" where
  "stamp ctx r =
     (if lc_request_id ctx \<noteq> []
      then r\<lparr>lg_attrs := lg_attrs r @ [Attr ''request_id'' (Some (lc_request_id ctx))]\<rparr> else r)"

text \<open>fanoutHandler: each enabled sink gets the record, whatever the others answer.\<close>

definition sink_enabled :: "int \<Rightarrow> log_record \<Rightarrow> bool" where
  "sink_enabled level r = (level \<le> lg_level r)"

definition fanout_enabled :: "int list \<Rightarrow> log_record \<Rightarrow> bool" where
  "fanout_enabled levels r = list_ex (\<lambda>l. sink_enabled l r) levels"

definition fanout_handle :: "int list \<Rightarrow> log_record \<Rightarrow> log_record option list" where
  "fanout_handle levels r = map (\<lambda>l. if sink_enabled l r then Some r else None) levels"

section \<open>The Fluentd record\<close>

definition attr_key :: "string list \<Rightarrow> string \<Rightarrow> string" where
  "attr_key groups k = (if groups = [] then k else join ''.'' groups @ ''.'' @ k)"

fun add_attr :: "string list \<Rightarrow> attr \<Rightarrow> (string \<rightharpoonup> string option) \<Rightarrow> (string \<rightharpoonup> string option)"
  and add_attrs :: "string list \<Rightarrow> attr list \<Rightarrow> (string \<rightharpoonup> string option) \<Rightarrow> (string \<rightharpoonup> string option)" where
  "add_attr groups (Attr k v) data = (if k = [] \<and> v = None then data else data(attr_key groups k \<mapsto> v))"
| "add_attr groups (Grp k nested) data =
     (if nested = [] then data else add_attrs (if k \<noteq> [] then groups @ [k] else groups) nested data)"
| "add_attrs groups [] data = data"
| "add_attrs groups (a # as) data = add_attrs groups as (add_attr groups a data)"

record fluentd_config =
  fc_host :: string
  fc_port :: int64
  fc_prefix :: string
  fc_async :: bool
  fc_buffer :: int64
  fc_timeout :: time

record fluentd_handler =
  fh_tag :: string
  fh_level :: int
  fh_attrs :: "attr list"
  fh_groups :: "string list"

text \<open>
  What the client library is asked for: the configuration with its limits made positive.
  \<open>dial\<close> is the library's answer: a client, or the text of an error.
\<close>
definition client_settings :: "fluentd_config \<Rightarrow> fluentd_config" where
  "client_settings cfg = cfg\<lparr>
     fc_timeout := (if fc_timeout cfg \<le> 0 then 3 * second else fc_timeout cfg),
     fc_buffer := (if fc_buffer cfg \<le>s 0 then 8 * 1024 * 1024 else fc_buffer cfg)\<rparr>"

definition new_fluentd_handler ::
  "(fluentd_config \<Rightarrow> string option) \<Rightarrow> fluentd_config \<Rightarrow> string \<Rightarrow> int \<Rightarrow> string + fluentd_handler" where
  "new_fluentd_handler dial cfg service level =
     (if fc_host cfg = [] then Inl ''logger: fluentd host is empty''
      else case dial (client_settings cfg) of
        Some e \<Rightarrow> Inl e
      | None \<Rightarrow> Inr \<lparr>fh_tag = (if fc_prefix cfg = [] then ''karlo'' else fc_prefix cfg) @ ''.'' @ service,
          fh_level = level, fh_attrs = [], fh_groups = []\<rparr>)"

definition with_attrs :: "attr list \<Rightarrow> fluentd_handler \<Rightarrow> fluentd_handler" where
  "with_attrs as h = h\<lparr>fh_attrs := fh_attrs h @ as\<rparr>"

definition with_group :: "string \<Rightarrow> fluentd_handler \<Rightarrow> fluentd_handler" where
  "with_group name h = (if name = [] then h else h\<lparr>fh_groups := fh_groups h @ [name]\<rparr>)"

text \<open>The level and the time as the library renders them.\<close>

definition fluentd_data ::
  "(int \<Rightarrow> string) \<Rightarrow> string \<Rightarrow> fluentd_handler \<Rightarrow> log_record \<Rightarrow> (string \<rightharpoonup> string option)" where
  "fluentd_data level_text stamp_text h r =
     add_attrs (fh_groups h) (lg_attrs r) (add_attrs (fh_groups h) (fh_attrs h)
       [''level'' \<mapsto> Some (level_text (lg_level r)), ''message'' \<mapsto> Some (lg_message r), ''time'' \<mapsto> Some stamp_text])"

section \<open>The process-wide logger\<close>

record log_config =
  lo_service :: string
  lo_level :: string
  lo_environment :: string
  lo_fluentd :: "fluentd_config option"

text \<open>Standard output as JSON, always; Fluentd beside it; and the warning when Fluentd was asked for and cannot be had.\<close>

record logger =
  lr_level :: int
  lr_attrs :: "attr list"
  lr_fluentd :: "fluentd_handler option"

definition init_logger ::
  "(fluentd_config \<Rightarrow> string option) \<Rightarrow> log_config \<Rightarrow> logger \<times> log_record list" where
  "init_logger dial cfg =
     (let level = parse_level (lo_level cfg);
          attrs = Attr ''service'' (Some (lo_service cfg)) #
            (if lo_environment cfg \<noteq> [] then [Attr ''env'' (Some (lo_environment cfg))] else []) in
      case lo_fluentd cfg of
        None \<Rightarrow> (\<lparr>lr_level = level, lr_attrs = attrs, lr_fluentd = None\<rparr>, [])
      | Some fc \<Rightarrow>
          (case new_fluentd_handler dial fc (lo_service cfg) level of
             Inl e \<Rightarrow> (\<lparr>lr_level = level, lr_attrs = attrs, lr_fluentd = None\<rparr>,
                [\<lparr>lg_level = level_warn, lg_message = ''fluentd unavailable, logging to stdout only'',
                   lg_attrs = [Attr ''host'' (Some (fc_host fc)), Attr ''error'' (Some e)]\<rparr>])
           | Inr h \<Rightarrow> (\<lparr>lr_level = level, lr_attrs = attrs, lr_fluentd = Some (with_attrs attrs h)\<rparr>, [])))"

definition init_config :: "fraction \<Rightarrow> vars \<Rightarrow> string \<Rightarrow> log_config" where
  "init_config frac v service =
     \<lparr>lo_service = service, lo_level = env_or v ''LOG_LEVEL'' ''info'', lo_environment = env_or v ''ENVIRONMENT'' ''development'',
      lo_fluentd =
        (if getenv v ''FLUENTD_HOST'' \<noteq> []
         then Some \<lparr>fc_host = getenv v ''FLUENTD_HOST'', fc_port = int_or v ''FLUENTD_PORT'' 24224,
           fc_prefix = env_or v ''FLUENTD_TAG_PREFIX'' ''karlo'', fc_async = (env_or v ''FLUENTD_ASYNC'' ''true'' \<noteq> ''false''),
           fc_buffer = int_or v ''FLUENTD_BUFFER_LIMIT'' (8 * 1024 * 1024),
           fc_timeout = duration_or frac v ''FLUENTD_TIMEOUT'' (3 * second)\<rparr>
         else None)\<rparr>"

definition sink_levels :: "logger \<Rightarrow> int list" where
  "sink_levels lr = lr_level lr # (case lr_fluentd lr of None \<Rightarrow> [] | Some h \<Rightarrow> [fh_level h])"

text \<open>
  A record logged in a context: stamped, then to each sink that takes its level. The first
  component is what the JSON writer renders, the second what Fluentd is sent.
\<close>
definition emit ::
  "(int \<Rightarrow> string) \<Rightarrow> string \<Rightarrow> logger \<Rightarrow> log_ctx \<Rightarrow> log_record \<Rightarrow> attr list option \<times> (string \<rightharpoonup> string option) option" where
  "emit level_text stamp_text lr ctx r =
     (let given = fanout_handle (sink_levels lr) (stamp ctx r) in
      (map_option (\<lambda>x. lr_attrs lr @ lg_attrs x) (given ! 0),
       case lr_fluentd lr of None \<Rightarrow> None | Some h \<Rightarrow> map_option (fluentd_data level_text stamp_text h) (given ! 1)))"

section \<open>The HTTP edge\<close>

definition edge_request_id :: "string \<Rightarrow> string \<Rightarrow> string" where
  "edge_request_id header minted = (if header = [] then minted else header)"

text \<open>The context a handler runs with: the id, and the caller's token for outbound calls.\<close>

definition edge_context :: "string \<Rightarrow> string \<Rightarrow> http_request \<Rightarrow> log_ctx" where
  "edge_context header minted req =
     (let ctx = with_request_id empty_ctx (edge_request_id header minted) in
      if extract_token req \<noteq> [] then ctx\<lparr>lc_token := Some (extract_token req)\<rparr> else ctx)"

definition quiet_paths :: "string list" where "quiet_paths = [''/health'', ''/ready'']"

text \<open>
  The line of a request: nothing for a health check that succeeded.  What was measured
  while it ran, and who asked when the caller is known, are given.
\<close>

record measured =
  ms_status :: nat
  ms_status_text :: string
  ms_duration :: string
  ms_ip :: string
  ms_errors :: string

definition edge_line :: "product \<Rightarrow> string \<Rightarrow> string \<Rightarrow> string \<Rightarrow> measured \<Rightarrow> principal option \<Rightarrow> log_record option" where
  "edge_line svc request_id verb path ms who =
     (if path \<in> set quiet_paths \<and> ms_status ms < 400 then None
      else let attrs = [Attr ''request_id'' (Some request_id), Attr ''method'' (Some verb), Attr ''path'' (Some path),
              Attr ''status'' (Some (ms_status_text ms)), Attr ''duration_ms'' (Some (ms_duration ms)), Attr ''ip'' (Some (ms_ip ms))] @
            (case who of None \<Rightarrow> [] | Some p \<Rightarrow> [Attr ''user_id'' (Some (user_id p)), Attr ''role'' (Some (role_in p svc))]) in
        Some (if ms_status ms \<ge> 500
          then \<lparr>lg_level = level_error, lg_message = ''request failed'', lg_attrs = attrs @ [Attr ''errors'' (Some (ms_errors ms))]\<rparr>
          else if ms_status ms \<ge> 400 then \<lparr>lg_level = level_warn, lg_message = ''request rejected'', lg_attrs = attrs\<rparr>
          else \<lparr>lg_level = level_info, lg_message = ''request'', lg_attrs = attrs\<rparr>))"

section \<open>Across services\<close>

definition request_id_client :: "log_ctx \<Rightarrow> metadata \<Rightarrow> metadata" where
  "request_id_client ctx md =
     (if lc_request_id ctx \<noteq> [] then md(metadata_key := md metadata_key @ [lc_request_id ctx]) else md)"

definition request_id_server :: "metadata option \<Rightarrow> log_ctx \<Rightarrow> log_ctx" where
  "request_id_server incoming ctx =
     (case incoming of
        None \<Rightarrow> ctx
      | Some md \<Rightarrow> (case md metadata_key of [] \<Rightarrow> ctx | i # _ \<Rightarrow> if i \<noteq> [] then with_request_id ctx i else ctx))"

text \<open>Dial: the request id first, then the credentials.\<close>

definition outgoing_metadata :: "string \<Rightarrow> string \<Rightarrow> log_ctx \<Rightarrow> metadata \<Rightarrow> metadata" where
  "outgoing_metadata service token ctx md =
     unary_client_interceptor service token (lc_token ctx) (request_id_client ctx md)"

datatype 'a outcome = Returned 'a | Refused string | Panicked string

text \<open>
  NewServer: recovery outside, then the request id, the log line, the credentials, the handler.
  The result and the lines, each with the context it was logged in; a panic unwinds past
  the line of the call.  How long a call took and the code of its error are given.
\<close>
definition log_call :: "string \<Rightarrow> (string option \<Rightarrow> string) \<Rightarrow> log_ctx \<Rightarrow> string \<Rightarrow> 'a outcome \<Rightarrow> (log_ctx \<times> log_record) list" where
  "log_call took code ctx full_method res =
     (let attrs = (\<lambda>e. [Attr ''method'' (Some full_method), Attr ''duration_ms'' (Some took), Attr ''code'' (Some (code e))]) in
      case res of
        Returned _ \<Rightarrow> [(ctx, \<lparr>lg_level = level_debug, lg_message = ''grpc call'', lg_attrs = attrs None\<rparr>)]
      | Refused e \<Rightarrow> [(ctx, \<lparr>lg_level = level_error, lg_message = ''grpc call failed'',
            lg_attrs = attrs (Some e) @ [Attr ''error'' (Some e)]\<rparr>)]
      | Panicked _ \<Rightarrow> [])"

definition recovered :: "log_ctx \<Rightarrow> string \<Rightarrow> 'a outcome \<times> (log_ctx \<times> log_record) list \<Rightarrow> 'a outcome \<times> (log_ctx \<times> log_record) list" where
  "recovered ctx full_method run =
     (case fst run of
        Panicked r \<Rightarrow> (Refused ''internal error'', snd run @ [(ctx, \<lparr>lg_level = level_error, lg_message = ''grpc handler panic'',
            lg_attrs = [Attr ''method'' (Some full_method), Attr ''panic'' (Some r)]\<rparr>)])
      | _ \<Rightarrow> run)"

text \<open>The panic is logged without a context (slog.Error): the empty one.\<close>

definition serve_call ::
  "string \<Rightarrow> (string option \<Rightarrow> string) \<Rightarrow> jwt_lib option \<Rightarrow> string list \<Rightarrow> string \<Rightarrow> metadata option \<Rightarrow>
   (log_ctx \<Rightarrow> principal option \<Rightarrow> 'a outcome \<times> log_record list) \<Rightarrow> 'a outcome \<times> (log_ctx \<times> log_record) list" where
  "serve_call took code lib accepted full_method incoming handler =
     recovered empty_ctx full_method
       (let ctx = request_id_server incoming empty_ctx in
        case unary_server_interceptor lib accepted full_method incoming None of
          Inl e \<Rightarrow> (Refused e, log_call took code ctx full_method (Refused e :: 'a outcome))
        | Inr p \<Rightarrow> (let run = handler ctx p in
            (fst run, map (Pair ctx) (snd run) @ log_call took code ctx full_method (fst run))))"

section \<open>Flattening\<close>

text \<open>The reference: the dotted path of every attribute, in order; the last writer of a path wins.\<close>

fun paths :: "string list \<Rightarrow> attr \<Rightarrow> (string \<times> string option) list" where
  "paths groups (Attr k v) = (if k = [] \<and> v = None then [] else [(attr_key groups k, v)])"
| "paths groups (Grp k nested) = concat (map (paths (if k \<noteq> [] then groups @ [k] else groups)) nested)"

lemma add_attr_paths:
  "add_attr groups a data = data ++ map_of (rev (paths groups a))"
  "add_attrs groups as data = data ++ map_of (rev (concat (map (paths groups) as)))"
  by (induction groups a data and groups as data rule: add_attr_add_attrs.induct) simp_all

lemma stamped_last:
  assumes "lc_request_id ctx \<noteq> []" "fh_groups h = []"
  shows "fluentd_data lt st h (stamp ctx r) ''request_id'' = Some (Some (lc_request_id ctx))"
  using assms by (simp add: fluentd_data_def stamp_def add_attr_paths attr_key_def)

lemma stamp_level [simp]: "lg_level (stamp ctx r) = lg_level r" "sink_enabled l (stamp ctx r) = sink_enabled l r"
  by (simp_all add: stamp_def sink_enabled_def)

text \<open>However Fluentd fares, the logger is there: its sinks take the same level and the forwarder starts outside any group.\<close>

lemma init_logger_sinks:
  assumes "fst (init_logger dial cfg) = lr"
  shows "lr_level lr = parse_level (lo_level cfg)" "\<And>h. lr_fluentd lr = Some h \<Longrightarrow> fh_level h = lr_level lr \<and> fh_groups h = []"
  using assms
  by (auto simp: init_logger_def new_fluentd_handler_def with_attrs_def Let_def split: option.splits sum.splits if_splits)

lemma emitted:
  assumes "fst (init_logger dial cfg) = lr"
  shows "emit lt st lr ctx r =
    (if sink_enabled (lr_level lr) r
     then (Some (lr_attrs lr @ lg_attrs (stamp ctx r)), map_option (\<lambda>h. fluentd_data lt st h (stamp ctx r)) (lr_fluentd lr))
     else (None, None))"
  using init_logger_sinks(2) [OF assms]
  by (auto simp: emit_def fanout_handle_def sink_levels_def Let_def split: option.split)

lemma call_lines:
  assumes "serve_call took code lib accepted full_method (Some md) handler = (res, lines)"
    "(ctx, line) \<in> set lines" "lg_message line \<noteq> ''grpc handler panic''"
  shows "ctx = request_id_server (Some md) empty_ctx"
  using assms
  by (auto simp: serve_call_def recovered_def log_call_def Let_def split: sum.splits outcome.splits prod.splits)


definition fluentd_vars :: vars where
  "fluentd_vars = [''FLUENTD_HOST'' \<mapsto> ''collector'', ''LOG_LEVEL'' \<mapsto> ''debug'']"


section \<open>Where a field is lost\<close>

text \<open>
  An attribute set before a group is opened belongs outside it (slog.Handler.WithGroup), and so the
  JSON writer has it; the forwarder applies every group to every attribute.
\<close>
lemma group_renames_earlier:
  "fluentd_data lt st (with_group ''db'' (with_attrs [Attr ''service'' x] h0)) r ''service'' = None"
  if "h0 = \<lparr>fh_tag = t, fh_level = l, fh_attrs = [], fh_groups = []\<rparr>" "lg_attrs r = []"
  using that by (simp add: fluentd_data_def with_group_def with_attrs_def attr_key_def)

text \<open>An attribute that is called like a field of the record replaces it.\<close>

lemma attribute_replaces_message:
  "fh_groups h = [] \<Longrightarrow> lg_attrs r = [Attr ''message'' x] \<Longrightarrow> fluentd_data lt st h r ''message'' = Some x"
  by (simp add: fluentd_data_def attr_key_def)

text \<open>The line that says a handler panicked is the one that cannot be followed: it is stamped with nothing.\<close>

lemma panic_line_unstamped:
  assumes "unary_server_interceptor lib accepted full_method incoming None = Inr p"
    "handler (request_id_server incoming empty_ctx) p = (Panicked e, ls)"
  shows "\<exists>line. last (snd (serve_call took code lib accepted full_method incoming handler)) = (empty_ctx, line) \<and> stamp empty_ctx line = line"
  using assms by (simp add: serve_call_def recovered_def stamp_def empty_ctx_def Let_def)

end
