(* ===== verification/Edge.thy ===== *)
theory Edge
  imports Routes Keys Telemetry
begin

text \<open>
  routes.Setup: what stands before the API.  The engine recovers from panics, logs each
  request and answers cross-origin preflights before a route is looked up; a few pages
  are served outside the API.  gin, the CORS middleware and the Swagger page are third
  party: what they are configured with is the model.
\<close>

section \<open>The engine\<close>

record edge =
  ed_release_mode :: bool
  ed_proxies :: "string list option"     \<comment> \<open>None: gin trusts every proxy\<close>
  ed_origins :: "string list"
  ed_methods :: "string list"
  ed_headers :: "string list"
  ed_exposed :: "string list"
  ed_credentials :: bool
  ed_max_age :: time
  ed_swagger :: bool

text \<open>\<open>proxies_ok\<close>: gin can parse the list; a list it cannot parse stops the process.\<close>

definition setup_edge :: "(string list \<Rightarrow> bool) \<Rightarrow> configuration \<Rightarrow> string + edge" where
  "setup_edge proxies_ok cfg =
     (let production = is_production_env (cf_environment cfg); proxies = cf_proxies cfg in
      if proxies \<noteq> [] \<and> \<not> proxies_ok proxies then Inl ''routes: TRUSTED_PROXIES''
      else Inr \<lparr>ed_release_mode = production, ed_proxies = (if proxies = [] then None else Some proxies),
        ed_origins = cf_cors cfg, ed_methods = [''GET'', ''POST'', ''PUT'', ''PATCH'', ''DELETE'', ''OPTIONS''],
        ed_headers = [''Origin'', ''Content-Type'', ''Authorization'', ''X-Request-Id'', ''X-Acting-For''],
        ed_exposed = [''X-Request-Id''], ed_credentials = True, ed_max_age = 12 * hour, ed_swagger = \<not> production\<rparr>)"

section \<open>Pages outside the API\<close>

datatype page_body = Fields "(string \<times> string) list" | KeySet "(string \<times> string) list list" | Pem string | SwaggerPage

record page =
  pg_status :: nat
  pg_cache :: "string option"
  pg_body :: page_body

definition page_cache :: string where "page_cache = ''public, max-age=300''"

text \<open>The answer to a GET outside /api/v1; None is gin's 404.  \<open>pem\<close> renders a public key.\<close>

definition page_at :: "(public_key \<Rightarrow> string) \<Rightarrow> 'sec signer option \<Rightarrow> edge \<Rightarrow> string \<Rightarrow> page option" where
  "page_at pem sg ed path =
     (if path = ''/.well-known/jwks.json'' then
        map_option (\<lambda>x. \<lparr>pg_status = 200, pg_cache = Some page_cache, pg_body = KeySet (jwks x)\<rparr>) sg
      else if path = ''/.well-known/public-key.pem'' then
        map_option (\<lambda>x. \<lparr>pg_status = 200, pg_cache = Some page_cache, pg_body = Pem (pem (sg_public x))\<rparr>) sg
      else if path = ''/health'' then
        Some \<lparr>pg_status = 200, pg_cache = None, pg_body = Fields [(''status'', ''ok''), (''service'', ''authentication'')]\<rparr>
      else if path = ''/ready'' then Some \<lparr>pg_status = 200, pg_cache = None, pg_body = Fields [(''status'', ''ready'')]\<rparr>
      else if ed_swagger ed \<and> has_prefix path ''/swagger/'' then Some \<lparr>pg_status = 200, pg_cache = None, pg_body = SwaggerPage\<rparr>
      else None)"

section \<open>The middleware around a request\<close>

text \<open>What comes of a handler: a status, an answer and the principal the guards bound, or a panic.\<close>

datatype 'a handled = Handled nat 'a "principal option" | HandlerPanics

text \<open>Recovery, then the request log, then the handler with the context the log made.  \<open>meas\<close> is what was measured for a status.\<close>

definition through_edge ::
  "product \<Rightarrow> (nat \<Rightarrow> measured) \<Rightarrow> string \<Rightarrow> string \<Rightarrow> string \<Rightarrow> string \<Rightarrow> http_request \<Rightarrow> (log_ctx \<Rightarrow> 'a handled)
     \<Rightarrow> nat \<times> 'a option \<times> log_record option" where
  "through_edge svc meas header minted verb path req handler =
     (case handler (edge_context header minted req) of
        HandlerPanics \<Rightarrow> (500, None, None)
      | Handled status body who \<Rightarrow>
          (status, Some body, edge_line svc (edge_request_id header minted) verb path (meas status) who))"

text \<open>A request of the API through the engine.\<close>

definition serve_edge ::
  "product \<Rightarrow> (nat \<Rightarrow> measured) \<Rightarrow> string \<Rightarrow> string \<Rightarrow> string \<Rightarrow> string \<Rightarrow> server \<Rightarrow> env \<Rightarrow> web_request \<Rightarrow> request \<Rightarrow> sys
     \<Rightarrow> (nat \<times> payload reply option \<times> log_record option) \<times> sys" where
  "serve_edge svc meas header minted verb path sv env w rq s =
     (let run = serve sv env w rq s;
          who = (case fst (authenticate sv env (http_request.truncate w) s) of Next p \<Rightarrow> p | Abort _ _ \<Rightarrow> None) in
      (through_edge svc meas header minted verb path (http_request.truncate w)
         (\<lambda>_. Handled (rp_status (fst run)) (fst run) (if public_route rq then None else who)), snd run))"

section \<open>Facts\<close>

text \<open>
  The schema of the API is published outside production only, under either spelling of
  it; the key set is the signer's; and a probe is answered without a token, a database or
  a cache, so it says that the process answers and no more.
\<close>
lemma edge_pages:
  assumes "setup_edge ok cfg = Inr ed"
  shows "page_at pem sg ed path = Some p \<Longrightarrow> pg_body p = SwaggerPage \<Longrightarrow> \<not> is_production_env (cf_environment cfg)"
    "page_at pem (Some x) ed ''/.well-known/jwks.json'' = Some q \<Longrightarrow> pg_body q = KeySet (jwks x)"
    "page_at pem sg ed ''/health'' \<noteq> None" "page_at pem sg ed ''/ready'' \<noteq> None"
  using assms by (auto simp: page_at_def setup_edge_def Let_def split: if_splits)

text \<open>Credentials are allowed to exactly the configured origins, of which there is one at least.\<close>

lemma edge_origins:
  "load frac v = Inr cfg \<Longrightarrow> setup_edge ok cfg = Inr ed \<Longrightarrow> ed_origins ed = cf_cors cfg \<and> ed_origins ed \<noteq> []"
  using load_Inr(2) [of frac v cfg] by (auto simp: setup_edge_def missing_vars_def Let_def split: if_splits)

text \<open>Every request that is not a successful probe leaves its line, with its id and its status.\<close>

lemma request_logged:
  assumes "handler (edge_context header minted req) = Handled status body who" "ms_status (meas status) = status"
    "path \<notin> set quiet_paths \<or> 400 \<le> status"
  shows "\<exists>line. snd (snd (through_edge svc meas header minted verb path req handler)) = Some line \<and>
    Attr ''request_id'' (Some (edge_request_id header minted)) \<in> set (lg_attrs line) \<and>
    lg_level line = (if 500 \<le> status then level_error else if 400 \<le> status then level_warn else level_info)"
  using assms by (auto simp: through_edge_def edge_line_def Let_def)

text \<open>A request whose handler panics leaves none: the log stands inside the recovery and resumes only when the handler returns.\<close>

lemma panic_not_logged:
  "handler (edge_context header minted req) = HandlerPanics \<Longrightarrow>
     through_edge svc meas header minted verb path req handler = (500, None, None)"
  by (simp add: through_edge_def)

end
