(* ===== verification/Json.thy ===== *)
theory Json
  imports Query
begin

text \<open>
  encoding/json, as far as the service relies on it: the reader behind json.Unmarshal and
  the writer behind json.Marshal, on the values of Query.  Texts are bytes of valid UTF-8,
  which a string passes through; the writer is the one of ASCII strings.  What a JSON text
  is, with its white space and its choice of escapes, is a relation of its own, and the
  reader is complete for it: this is what the columns of the database need, whose text
  Postgres prints in its own way.
\<close>

section \<open>Reading a string\<close>

definition json_space :: "char \<Rightarrow> bool" where
  "json_space c = (c \<in> {CHR 0x20, CHR 0x09, CHR 0x0A, CHR 0x0D})"

definition skip :: "string \<Rightarrow> string" where "skip s = dropWhile json_space s"

definition hex_digit :: "char \<Rightarrow> nat option" where
  "hex_digit c =
     (if is_digit c then Some (of_char c - 48)
      else if in_range 97 102 c then Some (of_char c - 87)
      else if in_range 65 70 c then Some (of_char c - 55) else None)"

fun hex4 :: "string \<Rightarrow> (nat \<times> string) option" where
  "hex4 (a # b # c # d # r) =
     (case (hex_digit a, hex_digit b, hex_digit c, hex_digit d) of
        (Some w, Some x, Some y, Some z) \<Rightarrow> Some (((w * 16 + x) * 16 + y) * 16 + z, r)
      | _ \<Rightarrow> None)"
| "hex4 _ = None"

definition utf8 :: "nat \<Rightarrow> string" where
  "utf8 n =
     (if n < 0x80 then [char_of n]
      else if n < 0x800 then [char_of (0xC0 + n div 64), char_of (0x80 + n mod 64)]
      else if n < 0x10000 then [char_of (0xE0 + n div 4096), char_of (0x80 + n div 64 mod 64), char_of (0x80 + n mod 64)]
      else [char_of (0xF0 + n div 262144), char_of (0x80 + n div 4096 mod 64), char_of (0x80 + n div 64 mod 64), char_of (0x80 + n mod 64)])"

text \<open>After backslash u: a code unit, a surrogate pair, or half of one, which reads as U+FFFD.\<close>

definition low_surrogate :: "string \<Rightarrow> (nat \<times> string) option" where
  "low_surrogate r =
     (if has_prefix r [CHR 0x5C, CHR ''u'']
      then (case hex4 (drop 2 r) of
          Some (m, rest) \<Rightarrow> if 0xDC00 \<le> m \<and> m < 0xE000 then Some (m, rest) else None
        | None \<Rightarrow> None)
      else None)"

definition unicode_escape :: "string \<Rightarrow> (string \<times> string) option" where
  "unicode_escape s =
     (case hex4 s of
        None \<Rightarrow> None
      | Some (n, r) \<Rightarrow>
          if n < 0xD800 \<or> 0xE000 \<le> n then Some (utf8 n, r)
          else if n < 0xDC00 then
            (case low_surrogate r of
               Some (m, rest) \<Rightarrow> Some (utf8 (0x10000 + (n - 0xD800) * 1024 + (m - 0xDC00)), rest)
             | None \<Rightarrow> Some (utf8 0xFFFD, r))
          else Some (utf8 0xFFFD, r))"

lemma hex4_shorter: "hex4 s = Some (n, r) \<Longrightarrow> length r < length s"
  by (induction s rule: hex4.induct) (auto split: option.splits)

lemma unicode_escape_shorter:
  assumes "unicode_escape s = Some (x, r)"
  shows "length r < length s"
proof -
  obtain n r1 where h: "hex4 s = Some (n, r1)" using assms by (auto simp: unicode_escape_def split: option.splits)
  have "length rest \<le> length r1" if "low_surrogate r1 = Some (m, rest)" for m rest
    using that hex4_shorter [of "drop 2 r1" m rest] by (auto simp: low_surrogate_def split: if_splits option.splits)
  then have "length r \<le> length r1"
    using assms h by (auto simp: unicode_escape_def split: if_splits option.splits)
  then show ?thesis using hex4_shorter [OF h] by simp
qed

definition short_escapes :: "(char \<times> char) list" where
  "short_escapes =
     [(CHR 0x22, CHR 0x22), (CHR 0x5C, CHR 0x5C), (CHR ''/'', CHR ''/''), (CHR ''b'', CHR 0x08), (CHR ''f'', CHR 0x0C),
      (CHR ''n'', CHR 0x0A), (CHR ''r'', CHR 0x0D), (CHR ''t'', CHR 0x09)]"

definition prepend :: "string \<Rightarrow> (string \<times> string) option \<Rightarrow> (string \<times> string) option" where
  "prepend x p = map_option (\<lambda>q. (x @ fst q, snd q)) p"

text \<open>The string whose opening quote has been read, and what follows its closing quote.\<close>

function unquote :: "string \<Rightarrow> (string \<times> string) option" where
  "unquote [] = None"
| "unquote (c # cs) =
     (if c = CHR 0x22 then Some ([], cs)
      else if c = CHR 0x5C then
        (case cs of
           [] \<Rightarrow> None
         | e # r \<Rightarrow>
             if e = CHR ''u'' then
               (case unicode_escape r of None \<Rightarrow> None | Some p \<Rightarrow> prepend (fst p) (unquote (snd p)))
             else (case map_of short_escapes e of None \<Rightarrow> None | Some x \<Rightarrow> prepend [x] (unquote r)))
      else if (of_char c :: nat) < 0x20 then None
      else prepend [c] (unquote cs))"
  by pat_completeness auto
termination
  by (relation "measure length") (auto dest: unicode_escape_shorter)

section \<open>Reading a value\<close>

definition number_char :: "char \<Rightarrow> bool" where
  "number_char c = (is_digit c \<or> c \<in> set ''+-.eE'')"

definition all_digits :: "string \<Rightarrow> bool" where
  "all_digits s = (s \<noteq> [] \<and> list_all is_digit s)"

definition exponent_ok :: "string \<Rightarrow> bool" where
  "exponent_ok s =
     (case s of [] \<Rightarrow> True
      | c # r \<Rightarrow> c \<in> {CHR ''e'', CHR ''E''} \<and> all_digits (if has_prefix r ''+'' \<or> has_prefix r ''-'' then drop 1 r else r))"

definition fraction_ok :: "string \<Rightarrow> bool" where
  "fraction_ok s =
     (if has_prefix s ''.'' then takeWhile is_digit (drop 1 s) \<noteq> [] \<and> exponent_ok (dropWhile is_digit (drop 1 s))
      else exponent_ok s)"

text \<open>-?(0|[1-9][0-9]*)(\.[0-9]+)?([eE][+-]?[0-9]+)?\<close>

definition is_number :: "string \<Rightarrow> bool" where
  "is_number s0 =
     (let s = (if has_prefix s0 ''-'' then drop 1 s0 else s0) in
      list_all number_char s0 \<and>
      (case s of
         [] \<Rightarrow> False
       | c # r \<Rightarrow>
           if c = CHR ''0'' then fraction_ok r
           else is_digit c \<and> fraction_ok (dropWhile is_digit r)))"

lemma skip_length: "length (skip s) \<le> length s"
  by (simp add: skip_def length_dropWhile_le)

text \<open>The bounds the three recursive calls on what is left need, as they come out of the measure.\<close>

lemma skip_twice:
  "length r < n \<Longrightarrow> Suc (2 * length (skip r)) \<le> 2 * n"
  "length r \<le> n \<Longrightarrow> 2 * length (skip r) \<le> Suc (2 * n)"
  "length (skip r) \<le> n \<Longrightarrow> 2 * length (skip (drop (Suc 0) (skip r))) \<le> Suc (Suc (2 * n))"
  using skip_length [of r] skip_length [of "drop (Suc 0) (skip r)"] by simp_all

text \<open>
  \<open>d\<close> is how deep the value may still nest.  A value ends where the next begins: the
  guards on lengths always hold (\<open>read_shorter\<close>) and make it plain that the reader stops.
\<close>

function read_value :: "int \<Rightarrow> string \<Rightarrow> (json \<times> string) option"
  and read_items :: "int \<Rightarrow> string \<Rightarrow> (json list \<times> string) option"
  and read_members :: "int \<Rightarrow> string \<Rightarrow> ((string \<times> json) list \<times> string) option"
where
  "read_value d s =
     (case s of
        [] \<Rightarrow> None
      | c # cs \<Rightarrow>
          if c = CHR 0x22 then map_option (\<lambda>p. (JStr (fst p), snd p)) (unquote cs)
          else if c = CHR ''['' then
            (if d \<le> 0 then None
             else if has_prefix (skip cs) '']'' then Some (JArr [], drop 1 (skip cs))
             else map_option (\<lambda>p. (JArr (fst p), snd p)) (read_items (d - 1) (skip cs)))
          else if c = CHR ''{'' then
            (if d \<le> 0 then None
             else if has_prefix (skip cs) ''}'' then Some (JObj [], drop 1 (skip cs))
             else map_option (\<lambda>p. (JObj (fst p), snd p)) (read_members (d - 1) (skip cs)))
          else if has_prefix s ''true'' then Some (JBool True, drop 4 s)
          else if has_prefix s ''false'' then Some (JBool False, drop 5 s)
          else if has_prefix s ''null'' then Some (JNull, drop 4 s)
          else if is_number (takeWhile number_char s) then Some (JNum (takeWhile number_char s), dropWhile number_char s)
          else None)"
| "read_items d s =
     (case read_value d s of
        None \<Rightarrow> None
      | Some p \<Rightarrow>
          (case skip (snd p) of
             [] \<Rightarrow> None
           | c # r \<Rightarrow>
               if c = CHR '']'' then Some ([fst p], r)
               else if c = CHR '','' \<and> length r < length s
               then map_option (\<lambda>q. (fst p # fst q, snd q)) (read_items d (skip r))
               else None))"
| "read_members d s =
     (case s of
        [] \<Rightarrow> None
      | c # cs \<Rightarrow>
          if c \<noteq> CHR 0x22 then None
          else (case unquote cs of
            None \<Rightarrow> None
          | Some k \<Rightarrow>
              if \<not> (has_prefix (skip (snd k)) '':'' \<and> length (skip (snd k)) < length s) then None
              else (case read_value d (skip (drop 1 (skip (snd k)))) of
                None \<Rightarrow> None
              | Some p \<Rightarrow>
                  (case skip (snd p) of
                     [] \<Rightarrow> None
                   | e # r \<Rightarrow>
                       if e = CHR ''}'' then Some ([(fst k, fst p)], r)
                       else if e = CHR '','' \<and> length r < length s
                       then map_option (\<lambda>q. ((fst k, fst p) # fst q, snd q)) (read_members d (skip r))
                       else None))))"
  by pat_completeness auto
termination
  by (relation "measure (case_sum (\<lambda>p. 2 * length (snd p)) (case_sum (\<lambda>p. 2 * length (snd p) + 1) (\<lambda>p. 2 * length (snd p) + 1)))")
    (auto simp: less_Suc_eq_le skip_length intro: skip_twice)

declare read_value.simps [simp del] read_items.simps [simp del] read_members.simps [simp del]

text \<open>json.Unmarshal, up to the value: one value and nothing after it, nested ten thousand deep at most.\<close>

definition max_nesting :: int where "max_nesting = 10000"

definition unmarshal :: scanner where
  "unmarshal s =
     (case read_value max_nesting (skip s) of
        None \<Rightarrow> None
      | Some p \<Rightarrow> if skip (snd p) = [] then Some (fst p) else None)"

text \<open>Reading consumes: the guards on lengths above are never what decides.\<close>

lemma unquote_shorter: "unquote s = Some (x, r) \<Longrightarrow> length r < length s"
proof (induction s arbitrary: x r rule: unquote.induct)
  case (2 c cs)
  show ?case
    using "2.prems" "2.IH" unicode_escape_shorter
    by (fastforce simp: prepend_def split: if_splits list.splits option.splits)
qed simp

lemma has_prefix_length: "has_prefix s p \<Longrightarrow> length p \<le> length s"
  by (induction s p rule: has_prefix.induct) simp_all

lemma number_read_shorter:
  "is_number (takeWhile number_char s) \<Longrightarrow> length (dropWhile number_char s) < length s"
proof (cases s)
  case (Cons c cs)
  assume "is_number (takeWhile number_char s)"
  then have "number_char c" using Cons by (cases "number_char c") (simp_all add: is_number_def)
  then show ?thesis using Cons length_dropWhile_le [of number_char cs] by simp
qed (simp add: is_number_def)

lemma read_shorter:
  "\<forall>v r. read_value d s = Some (v, r) \<longrightarrow> length r < length s"
  "\<forall>vs r. read_items d s = Some (vs, r) \<longrightarrow> length r < length s"
  "\<forall>ms r. read_members d s = Some (ms, r) \<longrightarrow> length r < length s"
proof (induction d s and d s and d s rule: read_value_read_items_read_members.induct)
  case (1 d s)
  show ?case
  proof (cases s)
    case (Cons c cs)
    have "length r < length s" if r: "read_value d s = Some (v, r)" for v r
      using r Cons 1 skip_length [of cs] number_read_shorter [of s] unquote_shorter [of cs]
      by (subst (asm) read_value.simps) (fastforce split: if_splits)
    then show ?thesis by blast
  qed (simp add: read_value.simps)
next
  case (2 d s)
  have "length r < length s" if r: "read_items d s = Some (vs, r)" for vs r
  proof -
    note step = r [unfolded read_items.simps [of d s]]
    from step obtain v q where v: "read_value d s = Some (v, q)" by (auto split: option.splits)
    then have q: "length q < length s" using 2(1) by blast
    from step v obtain c t where t: "skip q = c # t" by (auto split: list.splits)
    then have lt: "length t < length s" using q skip_length [of q] by simp
    show ?thesis
    proof (cases "c = CHR '']''")
      case False
      then have c: "c = CHR '',''" using step v t by (simp split: if_splits)
      then have "\<forall>vs r. read_items d (skip t) = Some (vs, r) \<longrightarrow> length r < length (skip t)" using 2(2) [OF v] t lt by simp
      then show ?thesis using step v t c lt skip_length [of t] by fastforce
    qed (use step v t lt in simp)
  qed
  then show ?case by blast
next
  case (3 d s)
  have "length r < length s" if r: "read_members d s = Some (ms, r)" for ms r
  proof -
    note step = r [unfolded read_members.simps [of d s]]
    from step obtain cs where s: "s = CHR 0x22 # cs" by (auto split: list.splits if_splits)
    from step s obtain k q where k: "unquote cs = Some (k, q)" by (auto split: option.splits)
    from step s k have colon: "has_prefix (skip q) '':''" "length (skip q) < length s" by (auto split: if_splits)
    let ?v = "skip (drop 1 (skip q))"
    from step s k colon obtain v p where v: "read_value d ?v = Some (v, p)" by (auto split: option.splits)
    have "length p < length ?v" using 3(1) [of "CHR 0x22" cs "(k, q)"] s k colon v by simp
    then have p: "length p < length s" using skip_length [of "drop 1 (skip q)"] colon(2) by simp
    from step s k colon v obtain c t where t: "skip p = c # t" by (auto split: list.splits)
    then have lt: "length t < length s" using p skip_length [of p] by simp
    show ?thesis
    proof (cases "c = CHR ''}''")
      case False
      then have c: "c = CHR '',''" using step s k colon v t by (simp split: if_splits)
      then have "\<forall>ms r. read_members d (skip t) = Some (ms, r) \<longrightarrow> length r < length (skip t)"
        using 3(2) [of "CHR 0x22" cs "(k, q)" "(v, p)" c t] s k v c colon t lt by simp
      then show ?thesis using step s k colon v t c lt skip_length [of t] by fastforce
    qed (use step s k colon v t lt in simp)
  qed
  then show ?case by blast
qed

section \<open>JSON texts\<close>

text \<open>\<open>body_of x b\<close>: between quotes, b denotes x.\<close>

inductive body_of :: "string \<Rightarrow> string \<Rightarrow> bool" where
  body_empty: "body_of [] []"
| body_plain: "c \<noteq> CHR 0x22 \<Longrightarrow> c \<noteq> CHR 0x5C \<Longrightarrow> 0x20 \<le> (of_char c :: nat) \<Longrightarrow> body_of x b \<Longrightarrow> body_of (c # x) (c # b)"
| body_short: "map_of short_escapes e = Some c \<Longrightarrow> body_of x b \<Longrightarrow> body_of (c # x) (CHR 0x5C # e # b)"
| body_unicode: "hex4 h = Some (n, []) \<Longrightarrow> n < 0xD800 \<Longrightarrow> body_of x b \<Longrightarrow> body_of (utf8 n @ x) (CHR 0x5C # CHR ''u'' # h @ b)"

inductive text_of :: "json \<Rightarrow> string \<Rightarrow> bool"
  and items_of :: "json list \<Rightarrow> string \<Rightarrow> bool"
  and members_of :: "(string \<times> json) list \<Rightarrow> string \<Rightarrow> bool"
where
  text_null: "text_of JNull ''null''"
| text_true: "text_of (JBool True) ''true''"
| text_false: "text_of (JBool False) ''false''"
| text_num: "is_number n \<Longrightarrow> text_of (JNum n) n"
| text_str: "body_of x b \<Longrightarrow> text_of (JStr x) ([CHR 0x22] @ b @ [CHR 0x22])"
| text_no_items: "list_all json_space w \<Longrightarrow> text_of (JArr []) (''['' @ w @ '']'')"
| text_items: "items_of vs t \<Longrightarrow> text_of (JArr vs) (''['' @ t @ '']'')"
| text_no_members: "list_all json_space w \<Longrightarrow> text_of (JObj []) (''{'' @ w @ ''}'')"
| text_members: "members_of ms t \<Longrightarrow> text_of (JObj ms) (''{'' @ t @ ''}'')"
| items_one: "text_of v t \<Longrightarrow> list_all json_space w \<Longrightarrow> list_all json_space w2 \<Longrightarrow> items_of [v] (w @ t @ w2)"
| items_more: "text_of v t \<Longrightarrow> list_all json_space w \<Longrightarrow> list_all json_space w2 \<Longrightarrow> items_of vs u \<Longrightarrow>
    items_of (v # vs) (w @ t @ w2 @ '','' @ u)"
| members_one: "body_of k b \<Longrightarrow> text_of v t \<Longrightarrow> list_all json_space w \<Longrightarrow> list_all json_space w2 \<Longrightarrow>
    list_all json_space w3 \<Longrightarrow> list_all json_space w4 \<Longrightarrow>
    members_of [(k, v)] (w @ [CHR 0x22] @ b @ [CHR 0x22] @ w2 @ '':'' @ w3 @ t @ w4)"
| members_more: "body_of k b \<Longrightarrow> text_of v t \<Longrightarrow> list_all json_space w \<Longrightarrow> list_all json_space w2 \<Longrightarrow>
    list_all json_space w3 \<Longrightarrow> list_all json_space w4 \<Longrightarrow> members_of ms u \<Longrightarrow>
    members_of ((k, v) # ms) (w @ [CHR 0x22] @ b @ [CHR 0x22] @ w2 @ '':'' @ w3 @ t @ w4 @ '','' @ u)"

fun depth :: "json \<Rightarrow> int" where
  "depth (JArr vs) = 1 + foldr max (map depth vs) 0"
| "depth (JObj ms) = 1 + foldr max (map (\<lambda>m. depth (snd m)) ms) 0"
| "depth _ = 0"

section \<open>The reader reads every text\<close>

lemma hex4_append: "hex4 h = Some (n, r) \<Longrightarrow> hex4 (h @ x) = Some (n, r @ x)"
  by (induction h rule: hex4.induct) (auto split: option.splits)

lemma unquote_body: "body_of x b \<Longrightarrow> unquote (b @ CHR 0x22 # r) = Some (x, r)"
proof (induction rule: body_of.induct)
  case (body_short e c x b)
  then have "e \<noteq> CHR ''u''" by (auto simp: short_escapes_def)
  then show ?case using body_short by (simp add: prepend_def)
next
  case (body_unicode h n x b)
  then have "unicode_escape (h @ b @ CHR 0x22 # r) = Some (utf8 n, b @ CHR 0x22 # r)"
    using hex4_append [OF body_unicode(1), of "b @ CHR 0x22 # r"] by (simp add: unicode_escape_def)
  then show ?case using body_unicode by (simp add: prepend_def)
qed (simp_all add: prepend_def)

lemma skip_spaces [simp]: "list_all json_space w \<Longrightarrow> skip (w @ s) = skip s"
  by (induction w) (simp_all add: skip_def)

lemma skip_stop: "\<not> json_space c \<Longrightarrow> skip (c # s) = c # s"
  by (simp add: skip_def)

definition starts :: "string \<Rightarrow> bool" where
  "starts s = (s \<noteq> [] \<and> \<not> json_space (hd s))"

lemma skip_starts: "starts s \<Longrightarrow> skip (s @ r) = s @ r"
  by (cases s) (simp_all add: starts_def skip_def)

definition stops :: "string \<Rightarrow> bool" where "stops r = (takeWhile number_char r = [])"

lemma number_starts: "is_number n \<Longrightarrow> n \<noteq> [] \<and> (is_digit (hd n) \<or> hd n = CHR ''-'')"
  by (cases n) (auto simp: is_number_def Let_def is_digit_def in_range_def split: if_splits list.splits)

lemma digit_facts:
  "is_digit c \<Longrightarrow> c \<noteq> CHR 0x22 \<and> c \<noteq> CHR ''['' \<and> c \<noteq> CHR ''{'' \<and> c \<noteq> CHR ''t'' \<and> c \<noteq> CHR ''f'' \<and> c \<noteq> CHR ''n'' \<and> \<not> json_space c"
  by (auto simp: is_digit_def in_range_def json_space_def)

lemma takeWhile_stops: "list_all number_char n \<Longrightarrow> stops r \<Longrightarrow> takeWhile number_char (n @ r) = n \<and> dropWhile number_char (n @ r) = r"
  by (induction n) (auto simp: stops_def takeWhile_eq_Nil_iff dropWhile_eq_self_iff)

lemma read_number:
  assumes "is_number n" "stops r"
  shows "read_value d (n @ r) = Some (JNum n, r)"
proof -
  obtain c cs where n: "n = c # cs" using number_starts [OF assms(1)] by (cases n) auto
  then have "is_digit c \<or> c = CHR ''-''" using number_starts [OF assms(1)] by simp
  then have c: "c \<noteq> CHR 0x22" "c \<noteq> CHR ''[''" "c \<noteq> CHR ''{''" "c \<noteq> CHR ''t''" "c \<noteq> CHR ''f''" "c \<noteq> CHR ''n''"
    using digit_facts [of c] by auto
  have "list_all number_char n" using assms(1) by (simp add: is_number_def Let_def)
  from takeWhile_stops [OF this assms(2)] show ?thesis
    using assms(1) c unfolding n append_Cons by (subst read_value.simps) simp
qed

lemma depth_item: "v \<in> set vs \<Longrightarrow> depth v \<le> foldr max (map depth vs) 0"
  by (induction vs) auto

lemma depth_member: "m \<in> set ms \<Longrightarrow> depth (snd m) \<le> foldr max (map (\<lambda>m. depth (snd m)) ms) 0"
  by (induction ms) auto

lemma foldr_max_nonneg: "0 \<le> foldr max xs (0 :: int)"
  by (induction xs) auto

lemma no_value_bracket [simp]: "read_value d (CHR '']'' # x) = None"
  by (simp add: read_value.simps is_number_def number_char_def is_digit_def in_range_def)

lemma no_items_bracket: "read_items d s = Some p \<Longrightarrow> \<not> has_prefix s '']''"
  by (cases s) (auto simp: read_items.simps)

lemma no_members_brace: "read_members d s = Some p \<Longrightarrow> \<not> has_prefix s ''}''"
  by (cases s) (auto simp: read_members.simps split: if_splits)

text \<open>The characters that end a value.\<close>

lemma stops_at [simp]:
  "stops (CHR '']'' # r)" "stops (CHR ''}'' # r)" "stops (CHR '','' # r)" "stops []"
  by (simp_all add: stops_def number_char_def is_digit_def in_range_def)

lemma stops_spaced: "list_all json_space w \<Longrightarrow> stops s \<Longrightarrow> stops (w @ s)"
  by (cases w) (auto simp: stops_def number_char_def json_space_def is_digit_def in_range_def)

lemma no_space [simp]: "\<not> json_space (CHR '']'')" "\<not> json_space (CHR ''}'')" "\<not> json_space (CHR '','')" "\<not> json_space (CHR '':'')" "\<not> json_space (CHR 0x22)"
  by (simp_all add: json_space_def)

lemma number_no_space: "is_number n \<Longrightarrow> starts n"
  using number_starts [of n] digit_facts [of "hd n"] by (auto simp: starts_def json_space_def)

lemma text_starts: "text_of v t \<Longrightarrow> starts t"
  by (erule text_of.cases) (simp_all add: number_no_space, simp_all add: starts_def json_space_def)

text \<open>Whatever follows, as long as it cannot be mistaken for more of a number.\<close>

lemma read_text:
  "text_of v t \<Longrightarrow> (\<forall>d r. depth v \<le> d \<longrightarrow> stops r \<longrightarrow> read_value d (t @ r) = Some (v, r))"
  "items_of vs u \<Longrightarrow> (\<forall>d r. list_all (\<lambda>v. depth v \<le> d) vs \<longrightarrow> read_items d (skip (u @ CHR '']'' # r)) = Some (vs, r))"
  "members_of ms u \<Longrightarrow> (\<forall>d r. list_all (\<lambda>m. depth (snd m) \<le> d) ms \<longrightarrow> read_members d (skip (u @ CHR ''}'' # r)) = Some (ms, r))"
proof (induction rule: text_of_items_of_members_of.inducts)
  case (text_num n)
  then show ?case by (simp add: read_number)
next
  case (text_str x b)
  then show ?case by (simp add: read_value.simps unquote_body)
next
  case (text_no_items w)
  then show ?case by (auto simp: read_value.simps skip_stop dest: order_trans [OF _ zero_le_one])
next
  case (text_items vs t)
  show ?case
  proof (intro allI impI)
    fix d r assume d: "depth (JArr vs) \<le> d"
    have "list_all (\<lambda>v. depth v \<le> d - 1) vs" using d depth_item by (fastforce simp: list_all_iff)
    then have "read_items (d - 1) (skip (t @ CHR '']'' # r)) = Some (vs, r)" using text_items.IH by blast
    moreover have "0 < d" using d foldr_max_nonneg [of "map depth vs"] by simp
    ultimately show "read_value d ((''['' @ t @ '']'') @ r) = Some (JArr vs, r)"
      using no_items_bracket by (simp add: read_value.simps)
  qed
next
  case (text_no_members w)
  then show ?case by (auto simp: read_value.simps skip_stop dest: order_trans [OF _ zero_le_one])
next
  case (text_members ms t)
  show ?case
  proof (intro allI impI)
    fix d r assume d: "depth (JObj ms) \<le> d"
    have "list_all (\<lambda>m. depth (snd m) \<le> d - 1) ms" using d depth_member by (fastforce simp: list_all_iff)
    then have "read_members (d - 1) (skip (t @ CHR ''}'' # r)) = Some (ms, r)" using text_members.IH by blast
    moreover have "0 < d" using d foldr_max_nonneg [of "map (\<lambda>m. depth (snd m)) ms"] by simp
    ultimately show "read_value d ((''{'' @ t @ ''}'') @ r) = Some (JObj ms, r)"
      using no_members_brace by (simp add: read_value.simps)
  qed
next
  case (items_one v t w w2)
  then show ?case using text_starts [OF items_one(1)]
    by (simp add: read_items.simps skip_starts stops_spaced skip_stop)
next
  case (items_more v t w w2 vs u)
  then show ?case using text_starts [OF items_more(1)]
    by (auto simp: read_items.simps [of _ "t @ _"] skip_starts stops_spaced skip_stop)
next
  case (members_one k b v t w w2 w3 w4)
  then show ?case using text_starts [OF members_one(2)]
    by (simp add: read_members.simps skip_starts stops_spaced skip_stop unquote_body)
next
  case (members_more k b v t w w2 w3 w4 ms u)
  then show ?case using text_starts [OF members_more(2)]
    by (auto simp: read_members.simps [of _ "CHR 0x22 # _"] skip_starts stops_spaced skip_stop unquote_body)
qed (simp_all add: read_value.simps)

text \<open>json.Unmarshal takes every text of a value that is not nested too deep, spaced as it likes, and nothing else decides.\<close>

lemma unmarshal_text:
  assumes "text_of v t" "depth v \<le> max_nesting" "list_all json_space w" "list_all json_space w2"
  shows "unmarshal (w @ t @ w2) = Some v"
proof -
  have "skip w2 = []" using skip_spaces [OF assms(4), of "[]"] by (simp add: skip_def)
  moreover have "read_value max_nesting (t @ w2) = Some (v, w2)"
    using read_text(1) [OF assms(1)] assms(2) stops_spaced [OF assms(4), of "[]"] by simp
  ultimately show ?thesis
    using assms(3) text_starts [OF assms(1)] by (simp add: unmarshal_def skip_starts)
qed

section \<open>Writing\<close>

text \<open>encodeState.string on ASCII, with the escapes for HTML that json.Marshal applies.\<close>

definition hex_char :: "nat \<Rightarrow> char" where "hex_char n = ''0123456789abcdef'' ! n"

definition quote_char :: "char \<Rightarrow> string" where
  "quote_char c =
     (if c = CHR 0x22 \<or> c = CHR 0x5C then [CHR 0x5C, c]
      else if c = CHR 0x08 then [CHR 0x5C, CHR ''b'']
      else if c = CHR 0x0C then [CHR 0x5C, CHR ''f'']
      else if c = CHR 0x0A then [CHR 0x5C, CHR ''n'']
      else if c = CHR 0x0D then [CHR 0x5C, CHR ''r'']
      else if c = CHR 0x09 then [CHR 0x5C, CHR ''t'']
      else if (of_char c :: nat) < 0x20 \<or> c \<in> {CHR ''<'', CHR ''>'', CHR ''&''}
      then [CHR 0x5C, CHR ''u'', CHR ''0'', CHR ''0'', hex_char (of_char c div 16), hex_char (of_char c mod 16)]
      else [c])"

definition quote_text :: "string \<Rightarrow> string" where
  "quote_text x = [CHR 0x22] @ concat (map quote_char x) @ [CHR 0x22]"

text \<open>json.Marshal; the members of an object are given in the order it writes them: of the fields of a struct, of the keys of a map.\<close>

fun marshal :: "json \<Rightarrow> string" where
  "marshal JNull = ''null''"
| "marshal (JBool b) = (if b then ''true'' else ''false'')"
| "marshal (JNum n) = n"
| "marshal (JStr x) = quote_text x"
| "marshal (JArr vs) = ''['' @ join '','' (map marshal vs) @ '']''"
| "marshal (JObj ms) = ''{'' @ join '','' (map (\<lambda>m. quote_text (fst m) @ '':'' @ marshal (snd m)) ms) @ ''}''"

text \<open>A float or an integer is the token it is printed as.\<close>

fun numbers_ok :: "json \<Rightarrow> bool" where
  "numbers_ok (JNum n) = is_number n"
| "numbers_ok (JArr vs) = list_all numbers_ok vs"
| "numbers_ok (JObj ms) = list_all (\<lambda>m. numbers_ok (snd m)) ms"
| "numbers_ok _ = True"

lemma hex4_small:
  assumes "n < 0x80"
  shows "hex4 [CHR ''0'', CHR ''0'', hex_char (n div 16), hex_char (n mod 16)] = Some (n, [])"
proof -
  have "list_all (\<lambda>k. hex_digit (hex_char k) = Some k) [0..<16]" by code_simp
  then have "hex_digit (hex_char k) = Some k" if "k < 16" for k using that by (simp add: list_all_iff)
  moreover have "hex_digit (CHR ''0'') = Some 0" by code_simp
  ultimately show ?thesis using assms by simp
qed

lemma short_table:
  "list_all (\<lambda>p. quote_char (snd p) = [CHR 0x5C, fst p] \<and> map_of short_escapes (fst p) = Some (snd p))
     [(CHR 0x22, CHR 0x22), (CHR 0x5C, CHR 0x5C), (CHR ''b'', CHR 0x08), (CHR ''f'', CHR 0x0C),
      (CHR ''n'', CHR 0x0A), (CHR ''r'', CHR 0x0D), (CHR ''t'', CHR 0x09)]"
  by code_simp

lemma short_escaped:
  assumes "c \<in> {CHR 0x22, CHR 0x5C, CHR 0x08, CHR 0x0C, CHR 0x0A, CHR 0x0D, CHR 0x09}"
  shows "\<exists>e. quote_char c = [CHR 0x5C, e] \<and> map_of short_escapes e = Some c"
  using assms short_table unfolding list.pred_inject fst_conv snd_conv by (elim insertE emptyE; hypsubst; blast)

lemma html_escaped:
  assumes "c \<notin> {CHR 0x22, CHR 0x5C, CHR 0x08, CHR 0x0C, CHR 0x0A, CHR 0x0D, CHR 0x09}"
    "(of_char c :: nat) < 0x20 \<or> c \<in> {CHR ''<'', CHR ''>'', CHR ''&''}"
  shows "quote_char c = [CHR 0x5C, CHR ''u'', CHR ''0'', CHR ''0'', hex_char (of_char c div 16), hex_char (of_char c mod 16)]"
    "(of_char c :: nat) < 0x80"
proof -
  show "quote_char c = [CHR 0x5C, CHR ''u'', CHR ''0'', CHR ''0'', hex_char (of_char c div 16), hex_char (of_char c mod 16)]"
    using assms unfolding quote_char_def by (simp only: insert_iff empty_iff de_Morgan_disj simp_thms if_True if_False)
  show "(of_char c :: nat) < 0x80" using assms(2) by (elim disjE insertE emptyE; (hypsubst, simp)?) linarith
qed

lemma quote_char_body:
  assumes "body_of x b"
  shows "body_of (c # x) (quote_char c @ b)"
proof (cases "c \<in> {CHR 0x22, CHR 0x5C, CHR 0x08, CHR 0x0C, CHR 0x0A, CHR 0x0D, CHR 0x09}")
  case True
  from short_escaped [OF this] obtain e where "quote_char c = [CHR 0x5C, e]" "map_of short_escapes e = Some c" by blast
  then show ?thesis using body_short [OF _ assms] by simp
next
  case False
  show ?thesis
  proof (cases "(of_char c :: nat) < 0x20 \<or> c \<in> {CHR ''<'', CHR ''>'', CHR ''&''}")
    case True
    note h = html_escaped [OF False True]
    show ?thesis using body_unicode [OF hex4_small [OF h(2)] _ assms] h by (simp add: utf8_def)
  next
    case plain: False
    then have "quote_char c = [c]"
      using False unfolding quote_char_def by (simp only: insert_iff empty_iff de_Morgan_disj simp_thms if_True if_False)
    moreover have "c \<noteq> CHR 0x22" "c \<noteq> CHR 0x5C" "0x20 \<le> (of_char c :: nat)" using False plain by (blast, blast, linarith)
    ultimately show ?thesis using body_plain [OF _ _ _ assms, of c] by simp
  qed
qed

lemma quote_body: "body_of x (concat (map quote_char x))"
  by (induction x) (simp_all add: body_empty quote_char_body)

lemma quote_text_of: "text_of (JStr x) (quote_text x)"
  unfolding quote_text_def by (intro text_str quote_body)

lemma items_join: "vs \<noteq> [] \<Longrightarrow> list_all (\<lambda>v. text_of v (f v)) vs \<Longrightarrow> items_of vs (join '','' (map f vs))"
proof (induction vs rule: list_nonempty_induct)
  case (single v)
  then show ?case using items_one [of v "f v" "[]" "[]"] by simp
next
  case (cons v vs)
  moreover obtain w ws where "vs = w # ws" using cons(1) by (cases vs) auto
  ultimately show ?case using items_more [of v "f v" "[]" "[]" vs "join '','' (map f vs)"] by simp
qed

lemma members_join:
  "ms \<noteq> [] \<Longrightarrow> list_all (\<lambda>m. text_of (snd m) (f (snd m))) ms \<Longrightarrow>
     members_of ms (join '','' (map (\<lambda>m. quote_text (fst m) @ '':'' @ f (snd m)) ms))"
proof (induction ms rule: list_nonempty_induct)
  case (single m)
  then show ?case
    using members_one [of "fst m" _ "snd m" "f (snd m)" "[]" "[]" "[]" "[]", OF quote_body] by (simp add: quote_text_def)
next
  case (cons m ms)
  moreover obtain n ns where "ms = n # ns" using cons(1) by (cases ms) auto
  ultimately show ?case
    using members_more [of "fst m" _ "snd m" "f (snd m)" "[]" "[]" "[]" "[]" ms
        "join '','' (map (\<lambda>m. quote_text (fst m) @ '':'' @ f (snd m)) ms)", OF quote_body]
    by (simp add: quote_text_def)
qed

lemma marshal_text: "numbers_ok v \<Longrightarrow> text_of v (marshal v)"
proof (induction v rule: marshal.induct)
  case (5 vs)
  then show ?case
    using items_join [of vs marshal] text_items text_no_items [of "[]"] by (cases "vs = []") (simp_all add: list_all_iff)
next
  case (6 ms)
  then show ?case
    using members_join [of ms marshal] text_members text_no_members [of "[]"] by (cases "ms = []") (simp_all add: list_all_iff)
qed (simp_all add: text_null text_true text_false text_num quote_text_of)

theorem unmarshal_marshal: "numbers_ok v \<Longrightarrow> depth v \<le> max_nesting \<Longrightarrow> unmarshal (marshal v) = Some v"
  using unmarshal_text [OF marshal_text, of v "[]" "[]"] by simp

end
