(* ===== verification/Columns.thy ===== *)
theory Columns
  imports Json StringArray
begin

text \<open>
  The JSON columns of internal/models/models.go: Permission, JSONMap, JSONList and
  CompanySettings, with their Value and Scan.  Postgres keeps a jsonb value and prints a
  text of its own: other spaces, other escapes, members in another order.  What a column
  relies on is therefore proved for every text that denotes the value.
\<close>

section \<open>What a column is scanned from\<close>

text \<open>NULL, bytes, or a value of another type.\<close>

datatype source = SrcNil | SrcBytes string | SrcOther

text \<open>Unmarshal into an existing map: the members are put in, a null leaves none; the last of two members with a key counts.\<close>

fun put_members :: "(json \<Rightarrow> 'v option) \<Rightarrow> (string \<times> json) list \<Rightarrow> (string \<times> 'v) list \<Rightarrow> (string \<times> 'v) list option" where
  "put_members f [] m = Some m"
| "put_members f ((k, j) # ms) m = (case f j of None \<Rightarrow> None | Some v \<Rightarrow> put_members f ms (AList.update k v m))"

fun map_of_json :: "(json \<Rightarrow> 'v option) \<Rightarrow> (string \<times> 'v) list option \<Rightarrow> json \<Rightarrow> (string \<times> 'v) list option option" where
  "map_of_json f old (JObj ms) = map_option Some (put_members f ms (case old of None \<Rightarrow> [] | Some m \<Rightarrow> m))"
| "map_of_json f old JNull = Some None"
| "map_of_json f old _ = None"

definition scan_json :: "'a \<Rightarrow> (json \<Rightarrow> 'a option) \<Rightarrow> source \<Rightarrow> string + 'a" where
  "scan_json zero read src =
     (case src of
        SrcNil \<Rightarrow> Inr zero
      | SrcOther \<Rightarrow> Inl ''cannot scan''
      | SrcBytes b \<Rightarrow> (case Option.bind (unmarshal b) read of None \<Rightarrow> Inl ''invalid'' | Some v \<Rightarrow> Inr v))"

section \<open>Permission\<close>

text \<open>map[string]map[string]bool; None is a nil map.\<close>

type_synonym actions = "(string \<times> bool) list option"
type_synonym permission = "(string \<times> actions) list option"

fun bool_of_json :: "json \<Rightarrow> bool option" where
  "bool_of_json (JBool b) = Some b"
| "bool_of_json JNull = Some False"
| "bool_of_json _ = None"

definition actions_json :: "actions \<Rightarrow> json" where
  "actions_json as = (case as of None \<Rightarrow> JNull | Some xs \<Rightarrow> JObj (map (\<lambda>x. (fst x, JBool (snd x))) (sort_key fst xs)))"

definition permission_json :: "(string \<times> actions) list \<Rightarrow> json" where
  "permission_json p = JObj (map (\<lambda>x. (fst x, actions_json (snd x))) (sort_key fst p))"

definition permission_value :: "permission \<Rightarrow> string" where
  "permission_value p = (case p of None \<Rightarrow> ''{}'' | Some m \<Rightarrow> marshal (permission_json m))"

definition permission_scan :: "permission \<Rightarrow> source \<Rightarrow> string + permission" where
  "permission_scan old src = scan_json (Some []) (map_of_json (map_of_json bool_of_json None) old) src"

definition allows :: "permission \<Rightarrow> string \<Rightarrow> string \<Rightarrow> bool" where
  "allows p module action =
     (case p of
        None \<Rightarrow> False
      | Some m \<Rightarrow> (case map_of m module of
            None \<Rightarrow> False
          | Some None \<Rightarrow> False
          | Some (Some actions) \<Rightarrow> map_of actions action = Some True))"

section \<open>JSONMap and JSONList\<close>

text \<open>map[string]interface{}: any value; a map has no order and is given in the order of its keys.\<close>

type_synonym json_map = "(string \<times> json) list option"

definition json_map_value :: "json_map \<Rightarrow> string" where
  "json_map_value m = (case m of None \<Rightarrow> ''{}'' | Some ms \<Rightarrow> marshal (JObj (sort_key fst ms)))"

definition json_map_scan :: "json_map \<Rightarrow> source \<Rightarrow> string + json_map" where
  "json_map_scan old src = scan_json (Some []) (map_of_json Some old) src"

type_synonym json_list = "string list option"

definition json_list_value :: "json_list \<Rightarrow> string" where
  "json_list_value l = (case l of None \<Rightarrow> ''[]'' | Some xs \<Rightarrow> marshal (JArr (map JStr xs)))"

fun list_of_json :: "json \<Rightarrow> json_list option" where
  "list_of_json (JArr vs) = map_option Some (all_some (map (set_text []) vs))"
| "list_of_json JNull = Some None"
| "list_of_json _ = None"

definition json_list_scan :: "source \<Rightarrow> string + json_list" where
  "json_list_scan src = scan_json (Some []) list_of_json src"

section \<open>CompanySettings\<close>

text \<open>
  Numbers are the tokens they are printed as; how encoding/json turns a token into a float or an
  integer and prints it again is a parameter (None: it does not fit).
\<close>

record number_format =
  nf_float :: "string \<Rightarrow> string option"
  nf_int :: "string \<Rightarrow> string option"

record company_settings =
  cs_cancel_with_validate :: bool
  cs_finish_with_geofencing :: bool
  cs_active_agreement_only :: bool
  cs_ppn :: string
  cs_pph23 :: string
  cs_strict_agreement :: bool
  cs_max_driver :: string
  cs_access_tolls :: bool
  cs_trip_allowance :: json_map

definition zero_settings :: company_settings where
  "zero_settings = \<lparr>cs_cancel_with_validate = False, cs_finish_with_geofencing = False, cs_active_agreement_only = False,
     cs_ppn = ''0'', cs_pph23 = ''0'', cs_strict_agreement = False, cs_max_driver = ''0'', cs_access_tolls = False,
     cs_trip_allowance = None\<rparr>"

definition settings_json :: "company_settings \<Rightarrow> json" where
  "settings_json s = JObj
     ([(''cancelWithValidate'', JBool (cs_cancel_with_validate s)), (''finishWithGeofencing'', JBool (cs_finish_with_geofencing s)),
       (''activeAgreementVerifiedOnly'', JBool (cs_active_agreement_only s)), (''ppnPercentage'', JNum (cs_ppn s)),
       (''pph23Percentage'', JNum (cs_pph23 s)), (''useStrictAgreement'', JBool (cs_strict_agreement s)),
       (''maxDriverAvailableAfterOrderDone'', JNum (cs_max_driver s)), (''accessTolls'', JBool (cs_access_tolls s))]
      @ (case cs_trip_allowance s of None \<Rightarrow> [] | Some [] \<Rightarrow> [] | Some ms \<Rightarrow> [(''tripAllowance'', JObj (sort_key fst ms))]))"

fun set_number :: "(string \<Rightarrow> string option) \<Rightarrow> string \<Rightarrow> json \<Rightarrow> string option" where
  "set_number f old (JNum t) = f t"
| "set_number f old JNull = Some old"
| "set_number f old _ = None"

definition settings_member :: "number_format \<Rightarrow> string \<times> json \<Rightarrow> company_settings \<Rightarrow> company_settings option" where
  "settings_member nf m s =
     (let k = to_lower (fst m); v = snd m in
      if k = ''cancelwithvalidate'' then map_option (\<lambda>b. s\<lparr>cs_cancel_with_validate := b\<rparr>) (set_flag (cs_cancel_with_validate s) v)
      else if k = ''finishwithgeofencing'' then map_option (\<lambda>b. s\<lparr>cs_finish_with_geofencing := b\<rparr>) (set_flag (cs_finish_with_geofencing s) v)
      else if k = ''activeagreementverifiedonly'' then map_option (\<lambda>b. s\<lparr>cs_active_agreement_only := b\<rparr>) (set_flag (cs_active_agreement_only s) v)
      else if k = ''ppnpercentage'' then map_option (\<lambda>t. s\<lparr>cs_ppn := t\<rparr>) (set_number (nf_float nf) (cs_ppn s) v)
      else if k = ''pph23percentage'' then map_option (\<lambda>t. s\<lparr>cs_pph23 := t\<rparr>) (set_number (nf_float nf) (cs_pph23 s) v)
      else if k = ''usestrictagreement'' then map_option (\<lambda>b. s\<lparr>cs_strict_agreement := b\<rparr>) (set_flag (cs_strict_agreement s) v)
      else if k = ''maxdriveravailableafterorderdone'' then map_option (\<lambda>t. s\<lparr>cs_max_driver := t\<rparr>) (set_number (nf_int nf) (cs_max_driver s) v)
      else if k = ''accesstolls'' then map_option (\<lambda>b. s\<lparr>cs_access_tolls := b\<rparr>) (set_flag (cs_access_tolls s) v)
      else if k = ''tripallowance'' then map_option (\<lambda>t. s\<lparr>cs_trip_allowance := t\<rparr>) (map_of_json Some (cs_trip_allowance s) v)
      else Some s)"

definition settings_value :: "company_settings \<Rightarrow> string" where
  "settings_value s = marshal (settings_json s)"

definition settings_scan :: "number_format \<Rightarrow> company_settings \<Rightarrow> source \<Rightarrow> string + company_settings" where
  "settings_scan nf old src = scan_json zero_settings (struct_of (settings_member nf) old) src"

section \<open>The same value\<close>

text \<open>jsonb keeps the value: scalars and the order of arrays, and of an object its keys, each once, with the same values.\<close>

inductive same :: "json \<Rightarrow> json \<Rightarrow> bool" where
  same_null: "same JNull JNull"
| same_bool: "same (JBool b) (JBool b)"
| same_num: "same (JNum n) (JNum n)"
| same_str: "same (JStr x) (JStr x)"
| same_arr: "list_all2 same xs ys \<Longrightarrow> same (JArr xs) (JArr ys)"
| same_obj: "distinct (map fst ms) \<Longrightarrow> distinct (map fst ns) \<Longrightarrow>
    (\<forall>k. rel_option same (map_of ms k) (map_of ns k)) \<Longrightarrow> same (JObj ms) (JObj ns)"
monos list.rel_mono_strong option.rel_mono_strong

inductive_cases same_strE: "same (JStr x) w"
inductive_cases same_boolE: "same (JBool b) w"
inductive_cases same_nullE: "same JNull w"
inductive_cases same_arrE: "same (JArr xs) w"
inductive_cases same_objE: "same (JObj ms) w"

text \<open>
  What Postgres prints (\<open>t\<close>) for a jsonb column a text (\<open>t0\<close>) was stored in, nested no deeper than
  encoding/json reads.
\<close>
definition kept_as :: "string \<Rightarrow> string \<Rightarrow> bool" where
  "kept_as t0 t \<longleftrightarrow> (\<exists>v w. text_of v t0 \<and> text_of w t \<and> same v w \<and> depth v \<le> max_nesting \<and> depth w \<le> max_nesting)"

lemma text_determines:
  "text_of v t \<Longrightarrow> text_of w t \<Longrightarrow> depth v \<le> max_nesting \<Longrightarrow> depth w \<le> max_nesting \<Longrightarrow> v = w"
  using unmarshal_text [of v t "[]" "[]"] unmarshal_text [of w t "[]" "[]"] by simp

lemma kept_asE:
  assumes "kept_as t0 t" "text_of v t0" "depth v \<le> max_nesting"
  obtains w where "same v w" "unmarshal t = Some w"
proof -
  obtain u w where w: "text_of u t0" "text_of w t" "same u w" "depth u \<le> max_nesting" "depth w \<le> max_nesting"
    using assms(1) by (auto simp: kept_as_def)
  have "unmarshal t = Some w" using unmarshal_text [OF w(2) w(5), of "[]" "[]"] by simp
  then show ?thesis using that w(3) text_determines [OF w(1) assms(2) w(4) assms(3)] by blast
qed

section \<open>Putting members in a map\<close>

lemma put_members_some:
  "list_all (\<lambda>m. f (snd m) \<noteq> None) ms \<Longrightarrow> \<exists>out. put_members f ms m = Some out"
  by (induction f ms m rule: put_members.induct) (auto split: option.splits)

lemma put_members_map:
  "put_members f ms m = Some out \<Longrightarrow>
     map_of out k = (case map_of (rev ms) k of None \<Rightarrow> map_of m k | Some j \<Rightarrow> f j)"
  by (induction f ms m rule: put_members.induct) (auto simp: update_conv' map_add_def split: option.splits)

lemma put_members_distinct: "put_members f ms m = Some out \<Longrightarrow> distinct (map fst m) \<Longrightarrow> distinct (map fst out)"
  by (induction f ms m rule: put_members.induct) (auto simp: distinct_update split: option.splits)

lemma map_of_rev_distinct: "distinct (map fst xs) \<Longrightarrow> map_of (rev xs) = map_of xs"
  by (simp add: map_of_inject_set rev_map [symmetric])

lemma put_fresh:
  assumes "distinct (map fst ns)" "\<forall>k. rel_option (\<lambda>x j. f j = Some (g x)) (map_of ms k) (map_of ns k)"
  obtains out where "put_members f ns [] = Some out" "\<And>k. map_of out k = map_option g (map_of ms k)" "distinct (map fst out)"
proof -
  have some: "f j \<noteq> None" if "(k, j) \<in> set ns" for k j
  proof -
    from that have "map_of ns k = Some j" using assms(1) by simp
    then show ?thesis using assms(2) [rule_format, of k] by (auto simp: option_rel_Some2)
  qed
  have "list_all (\<lambda>m. f (snd m) \<noteq> None) ns" unfolding list_all_iff using some by (metis prod.collapse)
  then obtain out where out: "put_members f ns [] = Some out" using put_members_some by blast
  have "map_of out k = map_option g (map_of ms k)" for k
    using assms(2) [rule_format, of k] put_members_map [OF out, of k] assms(1)
    by (cases "map_of ns k") (auto simp: map_of_rev_distinct option_rel_Some2)
  then show ?thesis using that out put_members_distinct [OF out] by simp
qed

lemma sorted_same_map: "distinct (map fst xs) \<Longrightarrow> map_of (sort_key fst xs) = map_of xs"
  by (subst map_of_inject_set) (auto simp: distinct_map)

lemma map_of_snd: "map_of (map (\<lambda>x. (fst x, g (snd x))) xs) k = map_option g (map_of xs k)"
  by (induction xs) auto

section \<open>Nothing is lost in a column\<close>

lemma same_text: "same (JStr x) w \<longleftrightarrow> w = JStr x"
  by (auto intro: same_str elim: same_strE)

lemma same_flag: "same (JBool b) w \<longleftrightarrow> w = JBool b"
  by (auto intro: same_bool elim: same_boolE)

lemma same_texts: "list_all2 same (map JStr xs) ys \<longleftrightarrow> ys = map JStr xs"
  by (induction xs arbitrary: ys) (auto simp: list_all2_Cons1 same_text)

lemma all_texts: "all_some (map (set_text []) (map JStr xs)) = Some xs"
  by (induction xs) simp_all

lemma texts_depth: "depth (JArr (map JStr xs)) \<le> max_nesting"
proof -
  have "foldr max (map depth (map JStr xs)) 0 = 0" by (induction xs) simp_all
  then show ?thesis by (simp add: max_nesting_def)
qed

lemma json_list_kept:
  assumes "kept_as (json_list_value (Some xs)) t"
  shows "json_list_scan (SrcBytes t) = Inr (Some xs)"
proof -
  have "text_of (JArr (map JStr xs)) (json_list_value (Some xs))"
    unfolding json_list_value_def by (simp add: marshal_text list_all_iff del: marshal.simps)
  from kept_asE [OF assms this texts_depth] obtain w where "same (JArr (map JStr xs)) w" "unmarshal t = Some w" by blast
  then show ?thesis by (elim same_arrE) (simp add: same_texts json_list_scan_def scan_json_def all_texts del: map_map)
qed

lemma json_map_kept:
  assumes "kept_as (json_map_value (Some ms)) t" "numbers_ok (JObj ms)" "depth (JObj (sort_key fst ms)) \<le> max_nesting"
  shows "\<exists>ns. json_map_scan None (SrcBytes t) = Inr (Some ns) \<and> same (JObj ms) (JObj ns)"
proof -
  have "text_of (JObj (sort_key fst ms)) (json_map_value (Some ms))"
    using assms(2) unfolding json_map_value_def by (simp add: marshal_text list_all_iff del: marshal.simps)
  from kept_asE [OF assms(1) this assms(3)] obtain w where w: "same (JObj (sort_key fst ms)) w" "unmarshal t = Some w" by blast
  from w(1) obtain ns where ns: "w = JObj ns" "distinct (map fst (sort_key fst ms))" "distinct (map fst ns)"
    "\<forall>k. rel_option same (map_of (sort_key fst ms) k) (map_of ns k)" by (elim same_objE) blast
  have d: "distinct (map fst ms)" using ns(2) by (simp add: distinct_map)
  have "\<forall>k. rel_option (\<lambda>x j. Some j = Some (id x)) (map_of ns k) (map_of ns k)" by (simp add: option.rel_refl)
  from put_fresh [OF ns(3), of Some id ns] obtain out
    where out: "put_members Some ns [] = Some out" "\<And>k. map_of out k = map_of ns k" "distinct (map fst out)"
    by (auto simp: option.rel_refl option.map_id)
  then have "same (JObj ms) (JObj out)" using d ns(4) by (intro same_obj) (simp_all add: sorted_same_map)
  then show ?thesis using out(1) w(2) ns(1) by (simp add: json_map_scan_def scan_json_def)
qed

lemma actions_read:
  assumes "same (actions_json as) w"
  shows "\<exists>bs. map_of_json bool_of_json None w = Some bs \<and>
    (case as of None \<Rightarrow> bs = None | Some xs \<Rightarrow> \<exists>ys. bs = Some ys \<and> map_of ys = map_of xs)"
proof (cases as)
  case None
  then show ?thesis using assms by (auto simp: actions_json_def elim: same_nullE)
next
  case (Some xs)
  let ?ms = "map (\<lambda>x. (fst x, JBool (snd x))) (sort_key fst xs)"
  from assms Some obtain ns where ns: "w = JObj ns" "distinct (map fst ?ms)" "distinct (map fst ns)"
    "\<forall>k. rel_option same (map_of ?ms k) (map_of ns k)" by (auto simp: actions_json_def elim: same_objE)
  have d: "distinct (map fst xs)" using ns(2) by (simp add: comp_def distinct_map)
  have "rel_option (\<lambda>x j. bool_of_json j = Some (id x)) (map_of xs k) (map_of ns k)" for k
    using ns(4) [rule_format, of k] by (auto simp: map_of_snd sorted_same_map [OF d] option.rel_map same_flag elim: option.rel_mono_strong)
  then obtain out where "put_members bool_of_json ns [] = Some out" "\<forall>k. map_of out k = map_option id (map_of xs k)"
    using put_fresh [OF ns(3), of bool_of_json id xs] by metis
  then show ?thesis using Some ns(1) by (auto simp: option.map_id)
qed

lemma permission_kept:
  assumes "kept_as (permission_value (Some p)) t" "depth (permission_json p) \<le> max_nesting"
  shows "\<exists>q. permission_scan None (SrcBytes t) = Inr q \<and> (\<forall>m a. allows q m a = allows (Some p) m a)"
proof -
  let ?ms = "map (\<lambda>x. (fst x, actions_json (snd x))) (sort_key fst p)"
  let ?read = "map_of_json bool_of_json None"
  have "numbers_ok (permission_json p)"
    by (auto simp: permission_json_def actions_json_def list_all_iff split: option.splits)
  then have "text_of (permission_json p) (permission_value (Some p))" by (simp add: permission_value_def marshal_text)
  from kept_asE [OF assms(1) this assms(2)] obtain w where w: "same (permission_json p) w" "unmarshal t = Some w" by blast
  from w(1) obtain ns where ns: "w = JObj ns" "distinct (map fst ?ms)" "distinct (map fst ns)"
    "\<forall>k. rel_option same (map_of ?ms k) (map_of ns k)" unfolding permission_json_def by (elim same_objE) blast
  have d: "distinct (map fst p)" using ns(2) by (simp add: comp_def distinct_map)
  have rel: "rel_option (\<lambda>as j. same (actions_json as) j) (map_of p k) (map_of ns k)" for k
    using ns(4) [rule_format, of k] by (simp add: map_of_snd sorted_same_map [OF d] option.rel_map)
  have some: "?read j \<noteq> None" if "(k, j) \<in> set ns" for k j
  proof -
    have "map_of ns k = Some j" using that ns(3) by simp
    then show ?thesis using rel [of k] actions_read by (fastforce simp: option_rel_Some2)
  qed
  have "list_all (\<lambda>m. ?read (snd m) \<noteq> None) ns" unfolding list_all_iff using some by (metis prod.collapse)
  then obtain out where out: "put_members ?read ns [] = Some out" using put_members_some by blast
  have read: "map_of out k = Option.bind (map_of ns k) ?read" for k
    using put_members_map [OF out, of k] by (simp add: map_of_rev_distinct [OF ns(3)] split: option.split)
  have "allows (Some out) m a = allows (Some p) m a" for m a
  proof (cases "map_of p m")
    case None
    then show ?thesis using rel [of m] by (simp add: allows_def read)
  next
    case (Some as)
    then obtain j where "map_of ns m = Some j" "same (actions_json as) j" using rel [of m] by (auto simp: option_rel_Some1)
    then show ?thesis using actions_read [of as j] Some by (auto simp: allows_def read split: option.splits)
  qed
  then show ?thesis using out w(2) ns(1) by (auto simp: permission_scan_def scan_json_def)
qed


text \<open>Postgres keeps the shorter key first; the map is the same.\<close>

definition demo_permission :: "(string \<times> actions) list" where
  "demo_permission = [(''invoice'', None), (''order'', Some [(''read'', True), (''edit'', False)])]"

definition demo_kept :: json where
  "demo_kept = JObj [(''order'', JObj [(''read'', JBool True), (''edit'', JBool False)]), (''invoice'', JNull)]"


section \<open>Empty columns and settings\<close>

text \<open>A nil map or list is stored empty and read empty; NULL is read empty.\<close>

lemma nil_reads_empty:
  "json_list_scan (SrcBytes (json_list_value None)) = Inr (Some [])" "json_list_scan SrcNil = Inr (Some [])"
  "json_map_scan None (SrcBytes (json_map_value None)) = Inr (Some [])" "json_map_scan old SrcNil = Inr (Some [])"
  "permission_scan None (SrcBytes (permission_value None)) = Inr (Some [])"
  by code_simp+

text \<open>The failure JSONList exists to avoid: an array does not scan into a map.\<close>

lemma array_is_no_map:
  "unmarshal b = Some (JArr vs) \<Longrightarrow> json_map_scan old (SrcBytes b) = Inl ''invalid''"
  by (simp add: json_map_scan_def scan_json_def)

text \<open>Scanning into a map that is not empty adds to it.\<close>

lemma scan_merges:
  "unmarshal b = Some (JObj ns) \<Longrightarrow> json_map_scan (Some m) (SrcBytes b) = Inr (Some out) \<Longrightarrow> k \<notin> fst ` set ns \<Longrightarrow>
     map_of out k = map_of m k"
  using put_members_map [of Some ns m out k] map_of_eq_None_iff [of "rev ns" k]
  by (simp add: json_map_scan_def scan_json_def split: option.splits)

lemma update_fresh: "k \<notin> fst ` set m \<Longrightarrow> AList.update k v m = m @ [(k, v)]"
  by (induction m) auto

lemma put_members_id: "distinct (map fst (m @ ms)) \<Longrightarrow> put_members Some ms m = Some (m @ ms)"
proof (induction ms arbitrary: m)
  case (Cons x ms)
  obtain k v where x: "x = (k, v)" by (cases x)
  then show ?case using Cons.prems Cons.IH [of "m @ [x]"] by (simp add: update_fresh)
qed simp

lemma settings_keys:
  "to_lower ''cancelWithValidate'' = ''cancelwithvalidate''"
  "to_lower ''finishWithGeofencing'' = ''finishwithgeofencing''"
  "to_lower ''activeAgreementVerifiedOnly'' = ''activeagreementverifiedonly''"
  "to_lower ''ppnPercentage'' = ''ppnpercentage''"
  "to_lower ''pph23Percentage'' = ''pph23percentage''"
  "to_lower ''useStrictAgreement'' = ''usestrictagreement''"
  "to_lower ''maxDriverAvailableAfterOrderDone'' = ''maxdriveravailableafterorderdone''"
  "to_lower ''accessTolls'' = ''accesstolls''"
  "to_lower ''tripAllowance'' = ''tripallowance''"
  by code_simp+

text \<open>The settings of a company are read as they were written; an empty configuration of the trip allowance is read as none.\<close>

lemma settings_kept:
  assumes "nf_float nf (cs_ppn s) = Some (cs_ppn s)" "nf_float nf (cs_pph23 s) = Some (cs_pph23 s)" "nf_int nf (cs_max_driver s) = Some (cs_max_driver s)"
    "is_number (cs_ppn s)" "is_number (cs_pph23 s)" "is_number (cs_max_driver s)"
    "case cs_trip_allowance s of None \<Rightarrow> True | Some ms \<Rightarrow> ms \<noteq> [] \<and> distinct (map fst ms) \<and> sort_key fst ms = ms \<and> numbers_ok (JObj ms)"
    "depth (settings_json s) \<le> max_nesting"
  shows "settings_scan nf zero_settings (SrcBytes (settings_value s)) = Inr s"
proof -
  have "numbers_ok (settings_json s)" using assms(4-7) by (auto simp: settings_json_def split: option.splits list.splits)
  then have "unmarshal (settings_value s) = Some (settings_json s)" using assms(8) by (simp add: settings_value_def unmarshal_marshal)
  moreover have "struct_of (settings_member nf) zero_settings (settings_json s) = Some s"
  proof (cases "cs_trip_allowance s")
    case None
    then show ?thesis using assms(1-3) unfolding settings_json_def
      by (simp add: settings_member_def settings_keys zero_settings_def Let_def)
  next
    case (Some ms)
    then obtain x xs where ms: "ms = x # xs" using assms(7) by (cases ms) auto
    have "put_members Some ms [] = Some ms" using put_members_id [of "[]" ms] assms(7) Some by simp
    then show ?thesis using assms(1-3,7) Some ms unfolding settings_json_def
      by (simp add: settings_member_def settings_keys zero_settings_def Let_def)
  qed
  ultimately show ?thesis by (simp add: settings_scan_def scan_json_def)
qed

end
