(* ===== verification/Records.thy ===== *)
theory Records
  imports Repository
begin

text \<open>
  The rest of internal/repository/repositories.go: the documents of people and companies,
  and the listings of sessions, API keys and audit rows.  A listing is the rows the WHERE
  clause keeps, in the order of the ORDER BY; where rows tie, Postgres may answer either
  way and the model keeps the order of the table.
\<close>

section \<open>Documents\<close>

record document =
  do_id :: uuid
  do_user :: "uuid option"
  do_company :: "uuid option"
  do_type :: string
  do_number :: "string option"
  do_file :: "string option"
  do_status :: string
  do_reason :: "string option"
  do_verified_by :: "uuid option"
  do_verified_at :: "time option"
  do_expires :: "time option"
  do_created :: time

definition status_pending :: string where "status_pending = ''pending''"
definition status_verified :: string where "status_verified = ''verified''"
definition status_rejected :: string where "status_rejected = ''rejected''"

text \<open>The constraints of the table: an owner, and a known status.\<close>

definition document_ok :: "document \<Rightarrow> bool" where
  "document_ok d = ((do_user d \<noteq> None \<or> do_company d \<noteq> None) \<and>
     do_status d \<in> {status_pending, status_verified, status_rejected})"

datatype doc_error = DocRefused | DocNotFound

text \<open>Create: the id and the time are the database's, a status left empty is its default.\<close>

definition create_document :: "bool \<Rightarrow> uuid \<Rightarrow> time \<Rightarrow> document \<Rightarrow> document list \<Rightarrow> doc_error + document \<times> document list" where
  "create_document up new_id t d ds =
     (let row = d\<lparr>do_id := new_id, do_created := t,
          do_status := (if do_status d = [] then status_pending else do_status d)\<rparr> in
      if \<not> up \<or> \<not> document_ok row then Inl DocRefused else Inr (row, ds @ [row]))"

definition find_document :: "bool \<Rightarrow> uuid \<Rightarrow> document list \<Rightarrow> doc_error + document" where
  "find_document up i ds =
     (if \<not> up then Inl DocRefused
      else case sql_first (\<lambda>d. do_id d = i) ds of None \<Rightarrow> Inl DocNotFound | Some d \<Rightarrow> Inr d)"

definition newest_first :: "('r \<Rightarrow> time) \<Rightarrow> 'r list \<Rightarrow> 'r list" where
  "newest_first at rs = sort_key (\<lambda>r. - at r) rs"

definition documents_of_user :: "bool \<Rightarrow> uuid \<Rightarrow> document list \<Rightarrow> doc_error + document list" where
  "documents_of_user up u ds =
     (if \<not> up then Inl DocRefused else Inr (newest_first do_created (filter (\<lambda>d. do_user d = Some u) ds)))"

definition documents_of_company :: "bool \<Rightarrow> uuid \<Rightarrow> document list \<Rightarrow> doc_error + document list" where
  "documents_of_company up c ds =
     (if \<not> up then Inl DocRefused else Inr (newest_first do_created (filter (\<lambda>d. do_company d = Some c) ds)))"

text \<open>SetStatus; the reason is written with a rejection and left alone otherwise.\<close>

definition decide :: "time \<Rightarrow> string \<Rightarrow> uuid \<Rightarrow> string option \<Rightarrow> document \<Rightarrow> document" where
  "decide t status by reason d =
     (let d1 = d\<lparr>do_status := status, do_verified_by := Some by, do_verified_at := Some t\<rparr> in
      if status = status_rejected then d1\<lparr>do_reason := reason\<rparr> else d1)"

definition set_document_status ::
  "bool \<Rightarrow> time \<Rightarrow> uuid \<Rightarrow> string \<Rightarrow> uuid \<Rightarrow> string option \<Rightarrow> document list \<Rightarrow> doc_error + document list" where
  "set_document_status up t i status by reason ds =
     (if \<not> up \<or> list_ex (\<lambda>d. do_id d = i \<and> \<not> document_ok (decide t status by reason d)) ds then Inl DocRefused
      else if sql_count (\<lambda>d. do_id d = i) ds = 0 then Inl DocNotFound
      else Inr (sql_update (\<lambda>d. do_id d = i) (decide t status by reason) ds))"

section \<open>Sessions, keys and audit rows\<close>

text \<open>When a session was last used is a column of its own here: token to time.\<close>

type_synonym last_used = "uuid \<rightharpoonup> time"

definition list_active_sessions :: "env \<Rightarrow> last_used \<Rightarrow> uuid \<Rightarrow> sys \<Rightarrow> svc_error + session list" where
  "list_active_sessions env lu u s =
     (if db_down env OpFindSession then Inl (ErrDB OpFindSession)
      else Inr (newest_first (\<lambda>se. case lu (se_token se) of None \<Rightarrow> 0 | Some t \<Rightarrow> t)
        (filter (\<lambda>se. se_user se = u \<and> se_revoked se = None \<and> se_expires se > now env) (sessions s))))"

definition touch_session :: "env \<Rightarrow> uuid \<Rightarrow> sys \<Rightarrow> last_used \<Rightarrow> last_used" where
  "touch_session env tok s lu = (if list_ex (\<lambda>se. se_token se = tok) (sessions s) then lu(tok \<mapsto> now env) else lu)"

definition list_api_keys :: "env \<Rightarrow> (uuid \<Rightarrow> time) \<Rightarrow> uuid option \<Rightarrow> sys \<Rightarrow> svc_error + api_key list" where
  "list_api_keys env created cid s =
     (if db_down env OpFindKey then Inl (ErrDB OpFindKey)
      else Inr (newest_first (\<lambda>k. created (ak_id k))
        (filter (\<lambda>k. case cid of None \<Rightarrow> True | Some c \<Rightarrow> ak_company k = Some c) (api_keys s))))"

text \<open>A negative limit is no limit.\<close>

definition list_audit :: "env \<Rightarrow> uuid \<Rightarrow> int \<Rightarrow> sys \<Rightarrow> svc_error + audit_entry list" where
  "list_audit env u limit s =
     (if db_down env OpAudit then Inl (ErrDB OpAudit)
      else let rows = newest_first au_created (filter (\<lambda>e. au_user e = Some u) (audit s)) in
        Inr (if limit < 0 then rows else take (nat limit) rows))"

section \<open>What they promise\<close>

lemma newest_first_set [simp]: "set (newest_first f rs) = set rs" "length (newest_first f rs) = length rs"
  by (simp_all add: newest_first_def)

lemma newest_first_order:
  assumes "i < j" "j < length rs"
  shows "f (newest_first f rs ! j) \<le> f (newest_first f rs ! i)"
proof -
  have "sorted (map (\<lambda>r. - f r) (newest_first f rs))" by (simp add: newest_first_def)
  then show ?thesis using assms by (auto simp: sorted_iff_nth_mono_less)
qed

text \<open>Every operation keeps the constraints of the table and the rows of the others.\<close>

lemma documents_stay_ok:
  assumes "list_all document_ok ds"
  shows "create_document up i t d ds = Inr (row, ds1) \<Longrightarrow> list_all document_ok ds1"
    "set_document_status up t i st by reason ds = Inr ds2 \<Longrightarrow> list_all document_ok ds2"
  using assms
  by (auto simp: create_document_def set_document_status_def sql_update_def list_all_iff list_ex_iff Let_def split: if_splits)

lemma set_status_effect:
  assumes "set_document_status up t i st by reason ds = Inr ds2"
  shows "ds2 = map (\<lambda>d. if do_id d = i then decide t st by reason d else d) ds"
    "\<exists>d \<in> set ds. do_id d = i" "st \<in> {status_pending, status_verified, status_rejected}"
proof -
  have ok: "\<not> list_ex (\<lambda>d. do_id d = i \<and> \<not> document_ok (decide t st by reason d)) ds"
    and hit: "sql_count (\<lambda>d. do_id d = i) ds \<noteq> 0" and ds2: "ds2 = sql_update (\<lambda>d. do_id d = i) (decide t st by reason) ds"
    using assms by (simp_all add: set_document_status_def split: if_splits)
  show "ds2 = map (\<lambda>d. if do_id d = i then decide t st by reason d else d) ds" unfolding ds2 sql_update_def ..
  from hit obtain d where d: "d \<in> set ds" "do_id d = i" by (auto simp: sql_count_def filter_empty_conv)
  then show "\<exists>d \<in> set ds. do_id d = i" by blast
  have "document_ok (decide t st by reason d)" using ok d by (simp add: list_ex_iff)
  moreover have "do_status (decide t st by reason d) = st" by (simp add: decide_def Let_def)
  ultimately show "st \<in> {status_pending, status_verified, status_rejected}" by (simp add: document_ok_def)
qed

text \<open>A document that was rejected and is then verified is shown as verified with the reason of its rejection.\<close>

lemma verified_keeps_rejection:
  "do_reason (decide t2 status_verified by2 r2 (decide t status_rejected by (Some r) d)) = Some r"
  by (simp add: decide_def status_verified_def status_rejected_def)

text \<open>The device screen lists exactly the sessions a token of the account can still be refreshed with.\<close>

lemma active_listed:
  "list_active_sessions env lu u s = Inr ss \<Longrightarrow>
     se \<in> set ss \<longleftrightarrow> se \<in> set (sessions s) \<and> se_user se = u \<and> session_active env se"
  by (auto simp: list_active_sessions_def session_active_def split: if_splits)

lemma revoked_all_listed_none:
  assumes "revoke_all_for_user env u s = Inr (n, s')" "list_active_sessions env lu u s' = Inr ss"
  shows "ss = []"
proof -
  have "sessions s' = sql_update (\<lambda>se. se_user se = u \<and> se_revoked se = None) (\<lambda>se. se\<lparr>se_revoked := Some (now env)\<rparr>) (sessions s)"
    using assms(1) unfolding revoke_all_for_user_def by (auto simp: announce_def mark_revoked_def split: if_splits)
  then have updated: "sessions s' = map (\<lambda>se. if se_user se = u \<and> se_revoked se = None then se\<lparr>se_revoked := Some (now env)\<rparr> else se) (sessions s)"
    by (simp add: sql_update_def)
  have "se_revoked se \<noteq> None" if se: "se \<in> set (sessions s')" "se_user se = u" for se
  proof -
    from se(1) obtain r where r: "(if se_user r = u \<and> se_revoked r = None then r\<lparr>se_revoked := Some (now env)\<rparr> else r) = se"
      unfolding updated set_map by (elim imageE) metis
    show ?thesis using se(2) unfolding r [symmetric] by (simp split: if_splits)
  qed
  then have "se \<notin> set ss" for se using active_listed [OF assms(2), of se] by (auto simp: session_active_def)
  then show ?thesis by (cases ss) auto
qed

lemma keys_listed:
  "list_api_keys env created (Some c) s = Inr ks \<Longrightarrow> k \<in> set ks \<longleftrightarrow> k \<in> set (api_keys s) \<and> ak_company k = Some c"
  by (auto simp: list_api_keys_def split: if_splits)

lemma audit_bounded:
  "list_audit env u limit s = Inr rows \<Longrightarrow> 0 \<le> limit \<Longrightarrow> length rows \<le> nat limit \<and> (\<forall>e \<in> set rows. e \<in> set (audit s) \<and> au_user e = Some u)"
  by (auto simp: list_audit_def Let_def dest!: in_set_takeD split: if_splits)

end
