(* ===== verification/ImportRun.thy ===== *)
theory ImportRun
  imports ImportApply
begin

text \<open>
  cmd/import/main.go: the export is read (encoding/csv with LazyQuotes and records of any
  length), the plan reported, and written only when the command line says so.
\<close>

section \<open>The reader of encoding/csv\<close>

text \<open>A line ends with a line feed, before which a carriage return is dropped; one at the end of the file is dropped too.\<close>

fun csv_lines :: "string \<Rightarrow> string" where
  "csv_lines (a # b # r) =
     (if a = CHR 0x0D \<and> b = CHR 0x0A then CHR 0x0A # csv_lines r else a # csv_lines (b # r))"
| "csv_lines [a] = (if a = CHR 0x0D then [] else [a])"
| "csv_lines [] = []"

text \<open>At the start of a field, inside one without quotes, inside one with.\<close>

datatype csv_mode = Fresh | Plain | Quoted

definition push :: "string \<Rightarrow> string list \<times> string \<Rightarrow> string list \<times> string" where
  "push f p = (f # fst p, snd p)"

text \<open>A record and what follows it; with LazyQuotes a stray quote stands for itself and an open one ends with the file.\<close>

fun csv_record :: "csv_mode \<Rightarrow> string \<Rightarrow> string \<Rightarrow> string list \<times> string" where
  "csv_record m cur [] = ([cur], [])"
| "csv_record m cur (c # s) =
     (if m = Quoted then
        (if c = CHR 0x22 then
           (case s of
              [] \<Rightarrow> ([cur], [])
            | d # r \<Rightarrow>
                if d = CHR 0x22 then csv_record Quoted (cur @ [CHR 0x22]) r
                else if d = CHR '','' then push cur (csv_record Fresh [] r)
                else if d = CHR 0x0A then ([cur], r)
                else csv_record Quoted (cur @ [CHR 0x22]) s)
         else csv_record Quoted (cur @ [c]) s)
      else if m = Fresh \<and> c = CHR 0x22 then csv_record Quoted [] s
      else if c = CHR '','' then push cur (csv_record Fresh [] s)
      else if c = CHR 0x0A then ([cur], s)
      else csv_record Plain (cur @ [c]) s)"

lemma csv_record_rest: "length (snd (csv_record m cur s)) \<le> length s - 1"
proof (induction m cur s rule: csv_record.induct)
  case (2 m cur c s)
  have snd_push: "snd (push f p) = snd p" for f p by (simp add: push_def)
  show ?case
  proof (cases "m = Quoted \<and> c = CHR 0x22")
    case True
    note IH = 2(1-3) [OF conjunct1 [OF True] conjunct2 [OF True]]
    show ?thesis
    proof (cases s)
      case (Cons d r)
      then show ?thesis using True IH [OF Cons] by (auto simp: snd_push)
    qed (use True in simp)
  next
    case False
    then show ?thesis using 2(4-7) by (cases "m = Quoted") (auto simp: snd_push)
  qed
qed simp

text \<open>Empty lines are skipped.\<close>

function csv_records :: "string \<Rightarrow> string list list" where
  "csv_records s =
     (case s of
        [] \<Rightarrow> []
      | c # r \<Rightarrow>
          if c = CHR 0x0A then csv_records r
          else fst (csv_record Fresh [] s) # csv_records (snd (csv_record Fresh [] s)))"
  by pat_completeness auto
termination
proof (relation "measure length")
  fix s :: string and c r
  assume "s = c # r"
  then show "(snd (csv_record Fresh [] s), s) \<in> measure length"
    using csv_record_rest [of Fresh "[]" s] by auto
qed auto

declare csv_records.simps [simp del]

text \<open>readCSV: the first record names the columns; of two columns of one name the last counts, and a column a record lacks is empty.\<close>

definition row_of :: "string list \<Rightarrow> string list \<Rightarrow> row" where
  "row_of cols rec k = (case map_of (rev (zip cols rec)) k of None \<Rightarrow> [] | Some v \<Rightarrow> v)"

definition read_csv :: "int \<Rightarrow> string \<Rightarrow> row list option" where
  "read_csv limit text =
     (case csv_records (csv_lines text) of
        [] \<Rightarrow> None
      | header # recs \<Rightarrow> Some (map (row_of (map trim_space header)) (if 0 < limit then take (nat limit) recs else recs)))"

section \<open>The report\<close>

record report =
  rt_companies :: nat
  rt_users :: nat
  rt_access :: nat
  rt_staff :: nat
  rt_roles :: "(string \<times> nat) list"
  rt_warnings :: "(string \<times> nat) list"

definition tally_of :: "string list \<Rightarrow> (string \<times> nat) list" where
  "tally_of ks = map (\<lambda>k. (k, length (filter (\<lambda>x. x = k) ks))) (sort (remdups ks))"

definition report_plan :: "plan \<Rightarrow> report" where
  "report_plan p =
     \<lparr>rt_companies = length (pl_companies p), rt_users = length (pl_users p), rt_access = length (pl_access p),
      rt_staff = length (filter uw_staff (pl_users p)), rt_roles = tally_of (map uw_role (pl_users p)),
      rt_warnings = tally_of (pl_warnings p)\<rparr>"

section \<open>The command\<close>

record import_args =
  ia_file :: string
  ia_dsn :: string
  ia_confirm :: bool
  ia_allow_remote :: bool
  ia_limit :: int

datatype import_end =
    NoFile | NotLocal string | Unreadable | DryRun report
  | NoConnection report | ApplyFailed report svc_error | Imported report

definition import_main ::
  "import_args \<Rightarrow> (string \<Rightarrow> string option) \<Rightarrow> reader \<Rightarrow> (string \<Rightarrow> bool) \<Rightarrow> env \<Rightarrow> import_db \<Rightarrow> import_end \<times> import_db" where
  "import_main args files rd connects env db =
     (if ia_file args = [] then (NoFile, db)
      else if \<not> ia_allow_remote args \<and> \<not> looks_local (ia_dsn args) then (NotLocal (redact (ia_dsn args)), db)
      else case Option.bind (files (ia_file args)) (read_csv (ia_limit args)) of
        None \<Rightarrow> (Unreadable, db)
      | Some rows \<Rightarrow>
          (let p = build rd rows in
           if \<not> ia_confirm args then (DryRun (report_plan p), db)
           else if \<not> connects (ia_dsn args) then (NoConnection (report_plan p), db)
           else case apply_plan env p db of
             (Inl e, db') \<Rightarrow> (ApplyFailed (report_plan p) e, db')
           | (Inr _, db') \<Rightarrow> (Imported (report_plan p), db')))"

section \<open>The file is read as it was written\<close>

definition quote_field :: "string \<Rightarrow> string" where
  "quote_field f = [CHR 0x22] @ concat (map (\<lambda>c. if c = CHR 0x22 then [c, c] else [c]) f) @ [CHR 0x22]"

text \<open>A field may be written bare when it holds no separator and does not begin like a quoted one.\<close>

definition bare :: "string \<Rightarrow> bool" where
  "bare f = (list_all (\<lambda>c. c \<noteq> CHR '','' \<and> c \<noteq> CHR 0x0A) f \<and> \<not> has_prefix f [CHR 0x22])"

definition shown_as :: "string \<Rightarrow> string \<Rightarrow> bool" where
  "shown_as f t = (t = f \<and> bare f \<or> t = quote_field f)"

text \<open>What ends a field: the next one, or the end of the record.\<close>

definition ended :: "string \<Rightarrow> bool \<Rightarrow> string \<Rightarrow> string list \<times> string" where
  "ended f again r = (if again then push f (csv_record Fresh [] r) else ([f], r))"

definition stop_char :: "bool \<Rightarrow> char" where "stop_char again = (if again then CHR '','' else CHR 0x0A)"

lemma csv_plain_field:
  "list_all (\<lambda>c. c \<noteq> CHR '','' \<and> c \<noteq> CHR 0x0A) f \<Longrightarrow> csv_record Plain cur (f @ stop_char again # r) = ended (cur @ f) again r"
  by (induction f arbitrary: cur) (auto simp: ended_def stop_char_def)

lemma csv_quoted_field:
  "csv_record Quoted cur (concat (map (\<lambda>c. if c = CHR 0x22 then [c, c] else [c]) f) @ CHR 0x22 # stop_char again # r) = ended (cur @ f) again r"
  by (induction f arbitrary: cur) (auto simp: ended_def stop_char_def)

lemma csv_field:
  assumes "shown_as f t"
  shows "csv_record Fresh [] (t @ stop_char again # r) = ended f again r"
proof (cases "t = quote_field f")
  case True
  then show ?thesis using csv_quoted_field [of "[]" f again r] by (simp add: quote_field_def)
next
  case False
  then have t: "t = f" "bare f" using assms by (auto simp: shown_as_def)
  show ?thesis
  proof (cases f)
    case Nil
    then show ?thesis using t by (simp add: ended_def stop_char_def)
  next
    case (Cons c cs)
    then have "csv_record Fresh [] (f @ stop_char again # r) = csv_record Plain [c] (cs @ stop_char again # r)"
      using t(2) by (auto simp: bare_def)
    then show ?thesis using csv_plain_field [of cs "[c]" again r] t Cons by (simp add: bare_def)
  qed
qed

lemma csv_record_read:
  "list_all2 shown_as fs ts \<Longrightarrow> fs \<noteq> [] \<Longrightarrow> csv_record Fresh [] (join '','' ts @ CHR 0x0A # r) = (fs, r)"
proof (induction fs ts rule: list_all2_induct)
  case (Cons f fs t ts)
  show ?case
  proof (cases ts)
    case Nil
    then have "fs = []" using Cons.hyps(2) by simp
    then show ?thesis using csv_field [OF Cons.hyps(1), of False r] Nil by (simp add: ended_def stop_char_def)
  next
    case (Cons u us)
    then have "fs \<noteq> []" using Cons.hyps(2) by auto
    then show ?thesis
      using csv_field [OF Cons.hyps(1), of True "join '','' ts @ CHR 0x0A # r"] Cons.IH Cons
      by (simp add: ended_def stop_char_def push_def)
  qed
qed simp

definition csv_text :: "string list list \<Rightarrow> string" where
  "csv_text recs = concat (map (\<lambda>ts. join '','' ts @ [CHR 0x0A]) recs)"

text \<open>A record of one empty field written bare is an empty line, which the reader skips.\<close>

definition written_as :: "string list \<Rightarrow> string list \<Rightarrow> bool" where
  "written_as fs ts \<longleftrightarrow> fs \<noteq> [] \<and> list_all2 shown_as fs ts \<and> ts \<noteq> [[]]"

lemma csv_lines_id: "CHR 0x0D \<notin> set s \<Longrightarrow> csv_lines s = s"
  by (induction s rule: csv_lines.induct) auto

lemma shown_start: "shown_as f t \<Longrightarrow> t \<noteq> [] \<Longrightarrow> hd t \<noteq> CHR 0x0A"
  by (cases t) (auto simp: shown_as_def bare_def quote_field_def)

lemma line_start:
  assumes "written_as fs ts"
  obtains c r where "join '','' ts = c # r" "c \<noteq> CHR 0x0A"
proof -
  obtain t us where ts: "ts = t # us" using assms by (cases ts) (auto simp: written_as_def)
  then obtain f where f: "shown_as f t" using assms by (auto simp: written_as_def list_all2_Cons2)
  show ?thesis
  proof (cases t)
    case Nil
    then obtain u vs where "us = u # vs" using assms ts by (cases us) (auto simp: written_as_def)
    then show ?thesis using that [of "CHR '',''"] ts Nil by simp
  next
    case (Cons c cs)
    then show ?thesis using that [of c] shown_start [OF f] ts by (cases us) auto
  qed
qed

lemma csv_records_read: "list_all2 written_as recs texts \<Longrightarrow> csv_records (csv_text texts) = recs"
proof (induction recs texts rule: list_all2_induct)
  case Nil
  then show ?case by (simp add: csv_text_def csv_records.simps)
next
  case (Cons fs recs ts texts)
  obtain c r where line: "join '','' ts = c # r" "c \<noteq> CHR 0x0A" using line_start [OF Cons.hyps(1)] .
  have "csv_record Fresh [] (join '','' ts @ CHR 0x0A # csv_text texts) = (fs, csv_text texts)"
    using csv_record_read Cons.hyps(1) by (simp add: written_as_def)
  moreover have "csv_text (ts # texts) = join '','' ts @ CHR 0x0A # csv_text texts" by (simp add: csv_text_def)
  ultimately show ?case using Cons.IH line by (subst csv_records.simps) simp
qed

text \<open>
  The export is read as it was written, whichever of its fields are quoted and whatever
  they contain: commas, quotes and line feeds of an address or a name stay inside their
  field, and every row has the values of its columns.
\<close>
theorem export_read_back:
  assumes "list_all2 written_as (header # recs) texts" "CHR 0x0D \<notin> set (csv_text texts)"
  shows "read_csv 0 (csv_text texts) = Some (map (row_of (map trim_space header)) recs)"
  using csv_records_read [OF assms(1)] by (simp add: read_csv_def csv_lines_id [OF assms(2)])

theorem export_read_back_witness:
  "read_csv 0 (csv_text [[''_id'', '' name ''], [''7'', quote_field ''Jl. A, 1'']]) =
     Some [row_of [''_id'', ''name''] [''7'', ''Jl. A, 1'']]"
proof -
  have written: "list_all2 written_as [[''_id'', '' name ''], [''7'', ''Jl. A, 1'']] [[''_id'', '' name ''], [''7'', quote_field ''Jl. A, 1'']]"
    by (simp add: written_as_def shown_as_def bare_def)
  have one_line: "CHR 0x0D \<notin> set (csv_text [[''_id'', '' name ''], [''7'', quote_field ''Jl. A, 1'']])" by code_simp
  have header: "map trim_space [''_id'', '' name ''] = [''_id'', ''name'']" by code_simp
  show ?thesis unfolding export_read_back [OF written one_line] header by simp
qed

section \<open>What the command does to the database\<close>

text \<open>
  The database is touched by one path only: a run that was confirmed, against a target that
  reads local or was allowed, which carried the whole plan out; every other end leaves it
  as it was.
\<close>
lemma import_guarded:
  assumes "import_main args files rd connects env db = (res, db')" "db' \<noteq> db"
  shows "ia_confirm args \<and> (ia_allow_remote args \<or> looks_local (ia_dsn args)) \<and>
    (\<exists>text rows. files (ia_file args) = Some text \<and> read_csv (ia_limit args) text = Some rows \<and>
      apply_plan env (build rd rows) db = (Inr (), db') \<and> res = Imported (report_plan (build rd rows)))"
proof -
  let ?read = "Option.bind (files (ia_file args)) (read_csv (ia_limit args))"
  have same: "x = (res, db') \<Longrightarrow> snd x \<noteq> db" for x :: "import_end \<times> import_db" using assms(2) by simp
  have open_: "ia_file args \<noteq> []" "ia_allow_remote args \<or> looks_local (ia_dsn args)"
    by (rule ccontr, use same [OF assms(1)] in \<open>simp add: import_main_def\<close>)+
  obtain rows where rows: "?read = Some rows"
    using same [OF assms(1)] open_ unfolding import_main_def by (cases ?read) (simp_all split: if_splits)
  have confirmed: "ia_confirm args" "connects (ia_dsn args)"
    by (rule ccontr, use same [OF assms(1)] open_ rows in \<open>simp add: import_main_def Let_def split: if_splits\<close>)+
  have run: "import_main args files rd connects env db = (case apply_plan env (build rd rows) db of
       (Inl e, db') \<Rightarrow> (ApplyFailed (report_plan (build rd rows)) e, db')
     | (Inr _, db') \<Rightarrow> (Imported (report_plan (build rd rows)), db'))"
    using open_ rows confirmed unfolding import_main_def Let_def by (simp only: if_False option.case simp_thms not_False_eq_True de_Morgan_conj split: if_split) blast
  obtain r d where ap: "apply_plan env (build rd rows) db = (r, d)" by fastforce
  show ?thesis
  proof (cases r)
    case (Inl e)
    then have "d = db" using ap by (auto simp: apply_plan_def split: sum.splits if_splits)
    then show ?thesis using assms run ap Inl by simp
  next
    case (Inr u)
    then show ?thesis using assms run ap rows confirmed open_ by (auto simp: bind_eq_Some_conv)
  qed
qed

lemma tally_total: "sum_list (map snd (tally_of ks)) = length ks"
proof -
  have "sum_list (map snd (tally_of ks)) = (\<Sum>k\<leftarrow>sort (remdups ks). length (filter (\<lambda>x. x = k) ks))"
    by (simp add: tally_of_def comp_def)
  also have "\<dots> = (\<Sum>k\<in>set ks. count_list ks k)"
    by (simp add: sum_list_distinct_conv_sum_set count_list_eq_length_filter eq_commute [of _ "_ :: string"])
  finally show ?thesis by (simp add: sum_count_set)
qed

text \<open>The report accounts for every user of the plan.\<close>

lemma report_complete: "sum_list (map snd (rt_roles (report_plan (build rd rows)))) = length rows"
  by (simp add: report_plan_def tally_total build_def)

end
