(* ===== verification/Lifecycle.thy ===== *)
theory Lifecycle
  imports Deploy Drivers Telemetry
begin

text \<open>
  The process around the two servers: internal/clients/notification.go, the end of run in
  cmd/server/main.go (listeners, the signal, the order of the shutdown, what is deferred)
  and Serve and Shutdown of internal/platform/grpcutil/server.go.  Calls are numbers; the
  clock is a deadline that passes at any moment once the shutdown has begun.
\<close>

section \<open>The notification client\<close>

record notify_request =
  nr_event :: string
  nr_phone :: string
  nr_subject :: string
  nr_subject_type :: string
  nr_params :: "(string \<times> string) list option"
  nr_key :: string

text \<open>
  NotifyPhone: structpb takes a text that is valid UTF-8 (\<open>utf8\<close>); \<open>deliver\<close> is the notification
  service, which may answer with an error.  What is sent, and the lines that are logged.
  The context keeps its values without its deadline, so the metadata is that of the request.
\<close>
definition notify_phone ::
  "(string \<Rightarrow> bool) \<Rightarrow> (metadata \<Rightarrow> notify_request \<Rightarrow> string option) \<Rightarrow> string \<Rightarrow> log_ctx \<Rightarrow>
   string \<Rightarrow> string \<Rightarrow> string \<Rightarrow> string \<Rightarrow> (string \<times> string) list \<Rightarrow> (metadata \<times> notify_request) \<times> log_record list" where
  "notify_phone utf8 deliver token ctx event phone subj key params =
     (let ok = list_all (\<lambda>m. utf8 (fst m) \<and> utf8 (snd m)) params;
          req = \<lparr>nr_event = event, nr_phone = phone, nr_subject = subj, nr_subject_type = ''user'',
            nr_params = (if ok then Some params else None), nr_key = key\<rparr>;
          md = outgoing_metadata ''authentication'' token ctx (\<lambda>_. [])
      in ((md, req),
          (if ok then [] else [\<lparr>lg_level = level_error, lg_message = ''notification params could not be encoded'',
             lg_attrs = [Attr ''event'' (Some event), Attr ''error'' (Some ''invalid UTF-8'')]\<rparr>]) @
          (case deliver md req of
             None \<Rightarrow> []
           | Some e \<Rightarrow> [\<lparr>lg_level = level_error, lg_message = ''notification delivery failed'',
               lg_attrs = [Attr ''event'' (Some event), Attr ''subject'' (Some subj), Attr ''error'' (Some e)]\<rparr>])))"

text \<open>The client when the target of the connection is well formed, otherwise the one that sends nothing.\<close>

datatype notifier = NotificationClient string | NoopNotifier

definition driver_notifier :: "(string \<Rightarrow> bool) \<Rightarrow> string \<Rightarrow> string \<Rightarrow> notifier" where
  "driver_notifier dials target token = (if dials target then NotificationClient token else NoopNotifier)"

definition created_event :: string where "created_event = ''EVENT_TYPE_DRIVER_ACCOUNT_CREATED''"

definition driver_params :: "string \<Rightarrow> message \<Rightarrow> (string \<times> string) list" where
  "driver_params link msg =
     (case msg of (_, company, username, password) \<Rightarrow>
        [(''companyName'', company), (''appLink'', link), (''username'', username), (''password'', password)])"

definition send_message ::
  "(string \<Rightarrow> bool) \<Rightarrow> (metadata \<Rightarrow> notify_request \<Rightarrow> string option) \<Rightarrow> notifier \<Rightarrow> log_ctx \<Rightarrow> string \<Rightarrow> string \<Rightarrow> message \<Rightarrow>
   (metadata \<times> notify_request) list \<times> log_record list" where
  "send_message utf8 deliver n ctx link uid msg =
     (case n of
        NoopNotifier \<Rightarrow> ([], [])
      | NotificationClient token \<Rightarrow>
          (let r = notify_phone utf8 deliver token ctx created_event (fst msg) uid (''driver-account:'' @ uid) (driver_params link msg)
           in ([fst r], snd r)))"

text \<open>
  A message carries the request id and the service token, is keyed by the account (sending it again
  is recognised), and a failure only leaves lines.
\<close>
lemma message_sent:
  assumes "lc_request_id ctx \<noteq> []" "send_message utf8 deliver (NotificationClient token) ctx link uid msg = (sent, ls)"
  shows "\<exists>md req. sent = [(md, req)] \<and> md metadata_key = [lc_request_id ctx] \<and> md service_token_md = [token] \<and>
      nr_phone req = fst msg \<and> nr_key req = ''driver-account:'' @ uid \<and>
      (ls = [] \<longleftrightarrow> nr_params req = Some (driver_params link msg) \<and> deliver md req = None)"
  using assms
  by (auto simp: send_message_def notify_phone_def Let_def outgoing_metadata_def request_id_client_def
      unary_client_interceptor_def metadata_key_def service_token_md_def service_name_md_def authorization_md_def
      split: option.splits if_splits)

text \<open>A text that is not UTF-8 costs the message its credentials, and the message goes out all the same.\<close>

lemma message_without_credentials:
  "\<not> utf8 (snd (snd (snd msg))) \<Longrightarrow>
     nr_params (snd (hd (fst (send_message utf8 deliver (NotificationClient token) ctx link uid msg)))) = None"
  by (simp add: send_message_def notify_phone_def driver_params_def Let_def case_prod_beta)

section \<open>What run leaves behind\<close>

datatype cleanup = StopSweep | CloseCache | StopWatching | CloseLogger

text \<open>
  The deferred calls, last first, when run returns after \<open>start\<close> came to this; os.Exit on
  catalogues that do not validate runs none of them.
\<close>
fun deferred :: "start_error + action \<Rightarrow> cleanup list" where
  "deferred (Inl (BadConfig _)) = []"
| "deferred (Inl (NoSigningKey _)) = [CloseLogger]"
| "deferred (Inl (NoDatabase _)) = [CloseLogger]"
| "deferred (Inl BadCatalogs) = []"
| "deferred (Inr (MigrateDatabase _ _ _)) = []"
| "deferred (Inr (ArchiveLog _ _)) = [CloseLogger]"
| "deferred (Inr (CreateAdministrator _)) = [CloseCache, StopWatching, CloseLogger]"
| "deferred (Inr (ServeRequests _)) = [StopSweep, CloseCache, StopWatching, CloseLogger]"

section \<open>Listening and stopping\<close>

datatype stage = Running | DrainingHttp | DrainingGrpc | ClosingDatabase | Ended bool

text \<open>
  \<open>Ended True\<close> is run returning nil.  \<open>pr_cut\<close>: calls taken and never answered; \<open>pr_orphans\<close>: calls
  that were still running when the database was closed; \<open>pr_late\<close>: the twenty seconds are over.
\<close>
record process =
  pr_stage :: stage
  pr_http_open :: bool
  pr_grpc_open :: bool
  pr_serving :: bool
  pr_http_busy :: "nat set"
  pr_grpc_busy :: "nat set"
  pr_answered :: "nat set"
  pr_cut :: "nat set"
  pr_orphans :: "nat set"
  pr_database :: bool
  pr_late :: bool

definition started :: process where
  "started = \<lparr>pr_stage = Running, pr_http_open = True, pr_grpc_open = True, pr_serving = True, pr_http_busy = {},
     pr_grpc_busy = {}, pr_answered = {}, pr_cut = {}, pr_orphans = {}, pr_database = True, pr_late = False\<rparr>"

definition busy :: "process \<Rightarrow> nat set" where "busy p = pr_http_busy p \<union> pr_grpc_busy p"

definition taken :: "process \<Rightarrow> nat set" where "taken p = busy p \<union> pr_answered p \<union> pr_cut p"

definition stopping :: "stage \<Rightarrow> bool" where
  "stopping st \<longleftrightarrow> st \<in> {DrainingHttp, DrainingGrpc, ClosingDatabase}"

text \<open>grpc_server.Shutdown begins: health first, then the graceful stop closes the listener.\<close>

definition begin_grpc_stop :: "process \<Rightarrow> process" where
  "begin_grpc_stop p = p\<lparr>pr_stage := DrainingGrpc, pr_serving := False, pr_grpc_open := False\<rparr>"

text \<open>The process is gone, and with it whatever still ran.\<close>

definition end_process :: "bool \<Rightarrow> process \<Rightarrow> process" where
  "end_process ok p = p\<lparr>pr_stage := Ended ok, pr_http_open := False, pr_grpc_open := False, pr_serving := False,
     pr_cut := pr_cut p \<union> busy p, pr_http_busy := {}, pr_grpc_busy := {}\<rparr>"

inductive process_step :: "process \<Rightarrow> process \<Rightarrow> bool" where
  TakeHttp: "pr_http_open p \<Longrightarrow> r \<notin> taken p \<Longrightarrow> process_step p (p\<lparr>pr_http_busy := insert r (pr_http_busy p)\<rparr>)"
| TakeGrpc: "pr_grpc_open p \<Longrightarrow> r \<notin> taken p \<Longrightarrow> process_step p (p\<lparr>pr_grpc_busy := insert r (pr_grpc_busy p)\<rparr>)"
| Answer: "r \<in> busy p \<Longrightarrow>
    process_step p (p\<lparr>pr_http_busy := pr_http_busy p - {r}, pr_grpc_busy := pr_grpc_busy p - {r},
      pr_answered := insert r (pr_answered p)\<rparr>)"
| ListenerFails: "pr_stage p = Running \<Longrightarrow> process_step p (end_process False p)"
| Signal: "pr_stage p = Running \<Longrightarrow> process_step p (p\<lparr>pr_stage := DrainingHttp, pr_http_open := False\<rparr>)"
| Deadline: "stopping (pr_stage p) \<Longrightarrow> process_step p (p\<lparr>pr_late := True\<rparr>)"
| HttpDrained: "pr_stage p = DrainingHttp \<Longrightarrow> pr_http_busy p = {} \<or> pr_late p \<Longrightarrow> process_step p (begin_grpc_stop p)"
| GrpcDrained: "pr_stage p = DrainingGrpc \<Longrightarrow> pr_grpc_busy p = {} \<Longrightarrow> process_step p (p\<lparr>pr_stage := ClosingDatabase\<rparr>)"
| GrpcForced: "pr_stage p = DrainingGrpc \<Longrightarrow> pr_late p \<Longrightarrow>
    process_step p (p\<lparr>pr_stage := ClosingDatabase, pr_cut := pr_cut p \<union> pr_grpc_busy p, pr_grpc_busy := {}\<rparr>)"
| CloseDatabase: "pr_stage p = ClosingDatabase \<Longrightarrow>
    process_step p (end_process True (p\<lparr>pr_database := False, pr_orphans := busy p\<rparr>))"

inductive process_reaches :: "process \<Rightarrow> process \<Rightarrow> bool" for p where
  Here: "process_reaches p p"
| There: "process_reaches p q \<Longrightarrow> process_step q r \<Longrightarrow> process_reaches p r"

inductive_cases process_stepE: "process_step p q"

text \<open>
  The invariant: the doors are shut in order, the database is open while anything may use it, and
  a call is cut only by the deadline or by a listener that failed.
\<close>
definition process_ok :: "process \<Rightarrow> bool" where
  "process_ok p \<longleftrightarrow>
     (pr_http_open p \<longleftrightarrow> pr_stage p = Running) \<and>
     (pr_grpc_open p \<longleftrightarrow> pr_stage p \<in> {Running, DrainingHttp}) \<and>
     (pr_serving p \<longleftrightarrow> pr_grpc_open p) \<and>
     (pr_database p \<longleftrightarrow> pr_stage p \<noteq> Ended True) \<and>
     (\<not> pr_late p \<and> pr_stage p \<in> {DrainingGrpc, ClosingDatabase} \<longrightarrow> pr_http_busy p = {}) \<and>
     (pr_stage p = ClosingDatabase \<longrightarrow> pr_grpc_busy p = {}) \<and>
     (\<not> pr_late p \<and> pr_stage p \<noteq> Ended False \<longrightarrow> pr_cut p = {}) \<and>
     (pr_orphans p \<subseteq> pr_cut p) \<and>
     (\<forall>b. pr_stage p = Ended b \<longrightarrow> busy p = {})"

lemma process_ok_step:
  assumes "process_step p q" "process_ok p"
  shows "process_ok q"
  using assms
  by (cases rule: process_step.cases)
    (auto simp: process_ok_def stopping_def begin_grpc_stop_def end_process_def busy_def)

lemma process_reaches_ok: "process_reaches started p \<Longrightarrow> process_ok p"
  by (induction rule: process_reaches.induct)
    (auto simp: process_ok_step, simp add: process_ok_def started_def busy_def)

text \<open>
  A shutdown that keeps its deadline answers every call that was taken, all of them before the
  database is closed.
\<close>
lemma graceful_stop_answers_all:
  assumes "process_reaches started p" "pr_stage p = Ended True" "\<not> pr_late p"
  shows "taken p = pr_answered p" "pr_orphans p = {}"
  using process_reaches_ok [OF assms(1)] assms(2,3) by (auto simp: process_ok_def taken_def)

text \<open>Whatever is running, once the signal has come the process ends: nothing is waited for without end.\<close>

lemma process_reaches_more: "process_reaches p q \<Longrightarrow> process_reaches q r \<Longrightarrow> process_reaches p r"
  by (rotate_tac 1, induction rule: process_reaches.induct) (auto intro: process_reaches.There)

lemma shutdown_ends:
  assumes "stopping (pr_stage p)"
  shows "\<exists>q. process_reaches p q \<and> pr_stage q = Ended True"
proof -
  have close: "\<exists>q. process_reaches p q \<and> pr_stage q = Ended True" if "pr_stage p = ClosingDatabase" for p
    using CloseDatabase [OF that] by (intro exI conjI, rule There [OF Here]) (auto simp: end_process_def)
  have grpc: "\<exists>q. process_reaches p q \<and> pr_stage q = Ended True" if st: "pr_stage p = DrainingGrpc" "pr_late p" for p
  proof -
    from There [OF Here GrpcForced [OF st]] obtain r where r: "process_reaches p r" "pr_stage r = ClosingDatabase" by fastforce
    with close [of r] show ?thesis by (blast intro: process_reaches_more)
  qed
  let ?l = "p\<lparr>pr_late := True\<rparr>"
  have late: "process_reaches p ?l" using There [OF Here Deadline [OF assms]] .
  have "\<exists>q. process_reaches ?l q \<and> pr_stage q = Ended True"
  proof (cases "pr_stage p")
    case DrainingHttp
    then have "process_reaches ?l (begin_grpc_stop ?l)" by (intro There [OF Here] HttpDrained) simp_all
    moreover have "pr_stage (begin_grpc_stop ?l) = DrainingGrpc" "pr_late (begin_grpc_stop ?l)" by (simp_all add: begin_grpc_stop_def)
    ultimately show ?thesis using grpc by (blast intro: process_reaches_more)
  qed (use assms close grpc in \<open>auto simp: stopping_def\<close>)
  then show ?thesis using late by (blast intro: process_reaches_more)
qed

text \<open>
  Both servers share the twenty seconds: an HTTP request that takes them leaves none for the
  gRPC calls, which are cut although they were taken while the HTTP server was draining and
  the health service still said that the process was serving.
\<close>
lemma slow_request_cuts_calls:
  "\<exists>p q. process_reaches started p \<and> pr_stage p = DrainingHttp \<and> pr_serving p \<and>
     process_reaches p q \<and> pr_stage q = Ended True \<and> pr_cut q = {1, 2} \<and> pr_orphans q = {1}"
proof -
  let ?a = "started\<lparr>pr_http_busy := {1}\<rparr>"
  let ?b = "?a\<lparr>pr_stage := DrainingHttp, pr_http_open := False\<rparr>"
  let ?c = "?b\<lparr>pr_grpc_busy := {2}\<rparr>"
  let ?d = "?c\<lparr>pr_late := True\<rparr>"
  let ?e = "begin_grpc_stop ?d"
  let ?f = "?e\<lparr>pr_stage := ClosingDatabase, pr_cut := {2}, pr_grpc_busy := {}\<rparr>"
  let ?g = "end_process True (?f\<lparr>pr_database := False, pr_orphans := {1}\<rparr>)"
  have step: "process_step started ?a" "process_step ?a ?b" "process_step ?b ?c" "process_step ?c ?d" "process_step ?d ?e"
    using TakeHttp [of started 1] Signal [of ?a] TakeGrpc [of ?b 2] Deadline [of ?c] HttpDrained [of ?d]
    by (simp_all add: started_def taken_def busy_def stopping_def)
  have rest: "process_step ?e ?f" "process_step ?f ?g"
    using GrpcForced [of ?e] CloseDatabase [of ?f] by (simp_all add: started_def begin_grpc_stop_def busy_def)
  have "process_reaches started ?b" using step by (meson process_reaches.intros)
  moreover have "process_reaches ?b ?g" using step rest by (meson process_reaches.intros)
  moreover have "pr_stage ?b = DrainingHttp" "pr_serving ?b" "pr_stage ?g = Ended True" "pr_cut ?g = {1, 2}" "pr_orphans ?g = {1}"
    by (auto simp: started_def begin_grpc_stop_def end_process_def busy_def)
  ultimately show ?thesis by blast
qed

text \<open>A listener that fails ends the process at once, with every call that ran.\<close>

lemma failed_listener_drops_calls:
  "pr_stage p = Running \<Longrightarrow> \<exists>q. process_step p q \<and> pr_stage q = Ended False \<and> busy p \<subseteq> pr_cut q"
  using ListenerFails [of p] by (intro exI [of _ "end_process False p"]) (simp add: end_process_def)

end
