(* ===== verification/Spec2Isabelle.thy ===== *)
theory Spec2Isabelle
  imports Prelude Catalog Principal Revocation Models Repository Entitlement TextUtil Auth Users Companies Query
    Drivers Http AuthHandlers UserHandlers AdminHandlers CatalogStore Routes Confinement GrpcServer ImportPlan ImportApply Coldstore Archive
    Config Keys Cache Deploy Telemetry Edge Json Columns Records ImportRun Lifecycle
begin

text \<open>
  The Karlo authentication service, modelled from its source under src/, with the
  theorems that make it correct.

  THE PROGRAM.  The service is the authority on who a caller is.  It keeps accounts,
  companies, roles and the modules a company has bought in Postgres; it signs RS256
  access tokens whose claims carry a principal with, per product, the features the
  company holds and the permissions the person has; other services verify those
  tokens locally.  Because a token outlives the facts it states, the service announces
  revocations through Redis, and every verifier keeps a list of them.  Two servers face
  outward from one process: HTTP for the front ends (routes, middleware, handlers) and
  gRPC for the other services.  Both call the services, which call the repositories.
  Beside the server the same binary migrates the schema, archives the audit log and
  creates the first administrator, and cmd/import moves the accounts of a legacy system.

  HOW IT IS MODELLED.  The database with everything else an operation can change is the
  record \<open>sys\<close> of Models: a table is a list of records in the order of insertion,
  a nullable column an option, a soft delete a column.  What an operation cannot change
  is the record \<open>env\<close>: the clock, the random source, the password hash, the token
  library, which statements of the database fail (\<open>db_down\<close>).  An operation takes both and
  answers an error or a value (\<open>svc_error + 'a\<close>), with the state it leaves where it writes;
  a transaction leaves the old state when it fails, anything else leaves what it has
  written so far.  Every early return of the source is a branch.

  THE THEORIES, in the order they import each other.

  Prelude: errors as sums, the parts of Go's strings package in use, tables
  (\<open>sql_first\<close>, \<open>sql_update\<close>, \<open>sql_delete\<close>, \<open>sql_upsert\<close>) and what these keep.
  Catalog: authctx/features.go, product.go, catalog_tms.go, catalog_fms.go.  The
  catalogues are the literal tables; the lemmas say that every key is gated by a feature
  that exists and can be sold, which is what ValidateCatalogs checks at the start.
  Principal: authctx/claims.go, principal.go, verifier.go, middleware.go, grpc.go.  What
  a principal may do (C1), and when a guard or an interceptor lets a call through.
  Revocation: platform/revocation.  The list, the store and the watch loop
  (\<open>watch_step\<close>, \<open>watch_reachable\<close>): what was published is refused (C3), what is refused
  was published (C14), and Replace implements the set of announcements (C15).
  Models, Repository, Records: internal/models and internal/repository.  Records holds the
  documents and the listings of sessions, keys and audit rows.
  Entitlement: access_repository.go, module_repository.go, entitlement_service.go.  The
  effective permission of a token (C2), its agreement with the screens (C16), and that a
  grant and a revoke take effect (C17, C18).
  TextUtil: platform/abbrev, safeconv, cache/keys.go.
  Auth: services/auth_service.go.  Login (C4), the single use and the continuation of
  refresh tokens (C5, C19), validation (C20), password changes (C21), rate limits (C22).
  Users: services/user_service.go.  Suspension (C6), registration (C7, C12), permission
  edits (C8, C23), roles that stay in their company (C13).
  Companies: shipper_service.go and merge_service.go.  Claim links (C9), unique tax
  numbers (C10), merging (C11).
  StringArray, Json, Columns: the codecs of the text[] and jsonb columns.  Json is a reader
  and a writer of encoding/json with the relation \<open>text_of\<close> between values and texts; the
  round trips hold for every text the database may print (C27, C40).
  Query: platform/query and repository/query.go.  Whatever a client asks, a listing is
  bounded, names allowed columns and injects nothing (C24, C25, C26).
  Drivers: driver_account_service.go.  The search for a user name (C28).
  Http, AuthHandlers, UserHandlers, AdminHandlers: internal/handlers and
  platform/response, with the edits of roles (C29).
  CatalogStore: catalog_repository.go, the table that mirrors the catalogues.
  Routes, Confinement: routes.go.  A request is a matched route with its parameters;
  \<open>serve\<close> runs the guards and the handler.  No sequence of requests without a token of
  the platform's staff changes what companies have bought or makes anybody staff (C30), and
  the guards admit exactly the right principals (C31).  Confinement proves it for each
  handler through one relation, \<open>tame\<close>.
  Edge: what stands before the routes (recovery, request log, cross-origin requests).
  GrpcServer: internal/grpcserver.
  ImportPlan, ImportApply, ImportRun: cmd/import.  The plan (C32), the transaction that
  writes it (C33), and the command with the CSV reader.
  Coldstore, Archive: platform/coldstore, internal/archive and the archive command (C34).
  Config, Keys, Cache: internal/config (C35), the signing keys and the published key set
  (C38), and the Redis client with the refinement of its counters to the one of the login
  limiter (C37).
  Deploy: bootstrap (C36), creating the database, migrating, the choice of the job.
  Telemetry: platform/logger, the request log and the interceptors (C39).
  Lifecycle: the notification client, what run defers, and the listeners and the shutdown
  as a step relation (\<open>process_step\<close>): a shutdown within its deadline answers every call
  it has taken before the database is closed, and every shutdown ends.

  INTERFACES.  Where components share a contract, the contract is a locale, interpreted on
  the definitions that keep it, and the properties use the facts of the interpretation:
  \<open>codec\<close> (StringArray; the array literal there, quoted identifiers in Query),
  \<open>revocation_contract\<close> (Revocation; the list every service keeps), \<open>access_change\<close> and
  \<open>lockout\<close> (Users; the seven operations that end somebody's sessions), \<open>preserved\<close>
  (Confinement; a relation every handler keeps).

  WHAT THE LEMMAS SAY.  A lemma named after an operation with the suffix Inr is its
  inversion: from a success, the facts its caller needs and the state it leaves.  A lemma
  ending in keeps is a frame.  Theorems with hypotheses are followed by a witness on a small
  concrete world (\<open>demo_env\<close>, \<open>demo_tenant\<close>), evaluated in the kernel.  Lemmas after the
  properties of a theory record behaviour worth knowing, among it cases where the code does
  less than its comments say.

  BOUNDS.  No definition runs on fuel.  Loops are structural recursion or come with a
  measure: the username search counts to 99, the walk to the top of a legacy tenant leaves
  out the rows it has seen, the JSON reader consumes its text, the CSV reader its line.  The
  JSON reader refuses nesting deeper than ten thousand as encoding/json does.  Integers are
  words of their Go width where arithmetic can overflow (pages and offsets, safeconv, cold
  rows, word conversions); counters and identifiers elsewhere are unbounded.  Times are
  integers (nanoseconds), identifiers natural numbers with 0 for the nil UUID.

  PARAMETERS.  Code that is not under src/ enters as an argument with what the source relies
  on as a hypothesis: the JWT library, bcrypt, SHA-256, the random source, the SQL engine's
  evaluation of conditions and orders, the PEM parser, golang-migrate, the Parquet writer
  and the bucket, the Fluentd client, the rendering of times and floats, the UUID printer.
  Redis and Postgres constraints are written as the effect their documentation gives them.
  Strings are bytes; case mapping and trimming are the ASCII ones.

  NOT MODELLED.  The generated code: docs/docs.go is the text of the API description and
  platform/genproto is the output of protoc; neither decides anything.  Constructors that only
  store their arguments.  Mutexes: a method under a mutex is one step.  Constant-time
  comparison and the dummy bcrypt run, whose result is discarded: timing is not observable
  here.  The address and the agent kept with an audit line.  The SQL of migrations/ beyond
  the constraints the tables have.  Route matching, the CORS middleware, the Swagger page,
  keep-alive and reflection, which are configured and not written here.
\<close>

end
